(* ===== verification/Laya_Prelude.thy ===== *)
theory Laya_Prelude
  imports Main "HOL-Library.Word" "HOL-Library.Char_ord" "HOL-Library.List_Lexorder"
begin

text \<open>
  Shared material of the development: the theorem collections, decimal printing of
  integers (what \<open>fmt.Sprintf\<close> does for the verb \<open>d\<close>), substring replacement
  (\<open>strings.ReplaceAll\<close>), and list lemmas that several components use.

  Go strings and byte slices are lists of bytes; a byte is HOL's eight-bit \<open>char\<close>.
  Go's \<open>int\<close> and \<open>int64\<close> are \<open>int\<close> where the code only compares and counts
  lengths; an enumeration over \<open>uint8\<close> is an \<open>8 word\<close>, so that the code's
  checks against unknown values stay visible.
\<close>

named_theorems go_defs "definitions unfolded when an operation is evaluated"
named_theorems ok_simps "characterisations of the inputs an operation accepts"

type_synonym uint8 = "8 word"

subsection \<open>Decimal printing\<close>

fun show_nat :: "nat \<Rightarrow> string" where
  "show_nat n = (if n < 10 then [char_of (48 + n)] else show_nat (n div 10) @ [char_of (48 + n mod 10)])"

declare show_nat.simps [simp del]

definition show_int :: "int \<Rightarrow> string" where
  "show_int i = (if i < 0 then CHR ''-'' # show_nat (nat (- i)) else show_nat (nat i))"

lemma show_nat_nonempty [simp]: "show_nat n \<noteq> []"
  by (subst show_nat.simps) simp

lemma show_nat_single: "n < 10 \<Longrightarrow> show_nat n = [char_of (48 + n)]"
  by (subst show_nat.simps) simp

lemma show_nat_snoc: "\<not> n < 10 \<Longrightarrow> show_nat n = show_nat (n div 10) @ [char_of (48 + n mod 10)]"
  by (subst show_nat.simps) simp

lemma digit_char_inject:
  assumes "m < 10" and "n < 10" and "(char_of (48 + m) :: char) = char_of (48 + n)"
  shows "(m :: nat) = n"
proof -
  have "of_char (char_of (48 + m) :: char) = (of_char (char_of (48 + n) :: char) :: nat)"
    using assms(3) by simp
  then have "(48 + m) mod 256 = (48 + n) mod 256" by simp
  with assms(1,2) show ?thesis by simp
qed

lemma length_show_nat_gt1: "\<not> n < 10 \<Longrightarrow> 1 < length (show_nat n)"
  by (subst show_nat_snoc) (auto simp: neq_Nil_conv)

lemma show_nat_inject: "show_nat m = show_nat n \<Longrightarrow> m = n"
proof (induction m arbitrary: n rule: less_induct)
  case (less m)
  show ?case
  proof (cases "m < 10")
    case True
    with less.prems have "length (show_nat n) = 1"
      by (metis length_Cons list.size(3) One_nat_def show_nat_single)
    then have "n < 10" using length_show_nat_gt1 [of n] by linarith
    with True less.prems show ?thesis by (auto simp: show_nat_single intro: digit_char_inject)
  next
    case False
    with less.prems have "length (show_nat n) \<noteq> 1"
      using length_show_nat_gt1 [of m] by simp
    then have n: "\<not> n < 10" by (auto simp: show_nat_single)
    from less.prems False n have
      "show_nat (m div 10) = show_nat (n div 10)" and
      "(char_of (48 + m mod 10) :: char) = char_of (48 + n mod 10)"
      by (simp_all add: show_nat_snoc)
    with less.IH [of "m div 10" "n div 10"] False
    have "m div 10 = n div 10" and "m mod 10 = n mod 10"
      by (auto intro: digit_char_inject)
    then show ?thesis by (metis div_mult_mod_eq)
  qed
qed

lemma show_nat_eq_iff [simp]: "show_nat m = show_nat n \<longleftrightarrow> m = n"
  by (auto dest: show_nat_inject)

subsection \<open>Substring replacement\<close>

text \<open>
  \<open>strings.ReplaceAll s old new\<close> for a non-empty \<open>old\<close>: the non-overlapping
  occurrences, found from the left.
\<close>

function replace_all :: "string \<Rightarrow> string \<Rightarrow> string \<Rightarrow> string" where
  "replace_all [] old new = []"
| "replace_all (c # cs) old new =
     (if old \<noteq> [] \<and> take (length old) (c # cs) = old
      then new @ replace_all (drop (length old) (c # cs)) old new
      else c # replace_all cs old new)"
  by pat_completeness auto
termination
  by (relation "measure (\<lambda>(s, old, new). length s)") auto

subsection \<open>Lists\<close>

text \<open>\<open>enumerate_from k xs\<close> pairs the elements with the indices of a \<open>range\<close> loop.\<close>

abbreviation indexed :: "'a list \<Rightarrow> (nat \<times> 'a) list" where
  "indexed xs \<equiv> List.enumerate 0 xs"

fun somes :: "'a option list \<Rightarrow> 'a list" where
  "somes [] = []"
| "somes (None # xs) = somes xs"
| "somes (Some x # xs) = x # somes xs"

lemma set_somes [simp]: "set (somes xs) = {x. Some x \<in> set xs}"
  by (induction xs rule: somes.induct) auto

lemma somes_eq_Nil_iff: "somes xs = [] \<longleftrightarrow> (\<forall>x\<in>set xs. x = None)"
  by (induction xs rule: somes.induct) auto

lemma list_all_nth: "list_all P xs \<Longrightarrow> i < length xs \<Longrightarrow> P (xs ! i)"
  by (simp add: list_all_length)

lemma distinct_map_filter_neq: "distinct (map f xs) \<Longrightarrow> distinct (map f (filter P xs))"
  by (induction xs) auto

lemma list_all2_right: "list_all2 P xs ys \<Longrightarrow> y \<in> set ys \<Longrightarrow> \<exists>x\<in>set xs. P x y"
  by (induction rule: list_all2_induct) auto

lemma take_le_length [simp]: "length (take n xs) \<le> n"
  by simp

subsection \<open>Invariants of step relations\<close>

text \<open>
  The interface between a step relation and the properties of its reachable states: an
  invariant that holds at the start and that every step keeps. A family of initial states is
  indexed by \<open>init\<close>.
\<close>

locale step_invariant =
  fixes init :: "'i \<Rightarrow> 's"
    and step :: "'s \<Rightarrow> 's \<Rightarrow> bool"
    and inv :: "'s \<Rightarrow> bool"
  assumes inv_init: "inv (init i)"
    and inv_step: "inv s \<Longrightarrow> step s s' \<Longrightarrow> inv s'"
begin

lemma reachable_inv: "step\<^sup>*\<^sup>* (init i) s \<Longrightarrow> inv s"
  by (induction rule: rtranclp_induct) (auto intro: inv_init inv_step)

lemma step_from_reachable: "step\<^sup>*\<^sup>* (init i) s \<Longrightarrow> step s s' \<Longrightarrow> inv s \<and> inv s'"
  using reachable_inv inv_step by blast

end

end
