(* ===== verification/Laya_Errors.thy ===== *)
theory Laya_Errors
  imports Laya_Prelude
begin

text \<open>
  Errors (\<open>errors.go\<close>, the error types of \<open>internal/bundle/errors.go\<close>,
  \<open>internal/source/source.go\<close> and \<open>preprocess.go\<close>) and results.

  An error value keeps its wrapping structure: the sentinels, \<open>fmt.Errorf\<close> with its
  wrapped operands, the structured error types with their fields, and \<open>errors.Join\<close>.
  \<open>errors_is\<close> is \<open>errors.Is\<close> for a sentinel target: it follows the \<open>Is\<close>
  and \<open>Unwrap\<close> methods of every type as the code defines them. The text of a
  message of \<open>fmt.Errorf\<close> is kept only up to its constant part (the messages of the structured
  types are in \<open>Laya_ErrorText\<close>); the repository documents message text as diagnostic, and no
  operation reads it.

  A Go function that returns \<open>(T, error)\<close> is a function into \<open>'a res\<close>; a function that
  returns only \<open>error\<close> yields a \<open>go_error option\<close>, \<open>None\<close> being nil. A run-time
  panic (nil dereference, index out of range, closing a closed channel) is the third
  constructor, so that its absence is a theorem and not an assumption.
\<close>

datatype sentinel =
    ErrInvalidConfig | ErrInvalidState | ErrModelsOpen | ErrModelClosed | ErrInvalidRequest
  | ErrInputTooLong | ErrQueueFull | ErrQueueTimeout | ErrInvalidBundle | ErrIntegrity
  | ErrUnsupportedBundle | ErrUnsupportedSource | ErrMaterialization | ErrNativeUnavailable
  | ErrNativeFailure | ErrInvalidOutput | ErrSourceClosed
  | CtxCanceled | CtxDeadlineExceeded
  | FsErrNotExist | FsErrExist | FsErrInvalid | IoErrNoProgress | IoErrShortWrite

text \<open>The concrete pointer types whose methods accept a nil receiver.\<close>

datatype error_type = PtrInputTooLong | PtrQueueError | PtrStageError | PtrBundleError | PtrSourceError

datatype go_error =
    Sentinel sentinel
  | Errorf string "go_error list"
  | Opaque string
  | InputTooLongError int int "go_error option"
  | QueueError uint8 int int "go_error option"
  | StageError go_error string "go_error option"
  | BundleError string string string string "go_error option" "go_error option"
  | SourceError string string "go_error option" "go_error option"
  | Joined "go_error list"
  | NilPointer error_type

subsection \<open>Queue errors\<close>

definition QueueFull :: uint8 where "QueueFull = 1"
definition QueueWaitTimeout :: uint8 where "QueueWaitTimeout = 2"

definition queue_category :: "uint8 \<Rightarrow> sentinel option" where
  "queue_category k =
     (if k = QueueFull then Some ErrQueueFull
      else if k = QueueWaitTimeout then Some ErrQueueTimeout
      else None)"

lemma queue_category_simps [simp]:
  "queue_category QueueFull = Some ErrQueueFull"
  "queue_category QueueWaitTimeout = Some ErrQueueTimeout"
  by (simp_all add: queue_category_def QueueFull_def QueueWaitTimeout_def)

subsection \<open>errors.Is and errors.Join\<close>

definition opt_is :: "(go_error \<Rightarrow> bool) \<Rightarrow> go_error option \<Rightarrow> bool" where
  "opt_is p e = (case e of None \<Rightarrow> False | Some x \<Rightarrow> p x)"

lemma opt_is_simps [simp]: "opt_is p None = False" "opt_is p (Some x) = p x"
  by (simp_all add: opt_is_def)

lemma opt_is_cong [fundef_cong]:
  "e = e' \<Longrightarrow> (\<And>x. e' = Some x \<Longrightarrow> p x = q x) \<Longrightarrow> opt_is p e = opt_is q e'"
  by (cases e) auto

fun errors_is :: "go_error \<Rightarrow> sentinel \<Rightarrow> bool" where
  "errors_is (Sentinel s) t = (s = t)"
| "errors_is (Errorf m es) t = list_ex (\<lambda>e. errors_is e t) es"
| "errors_is (Opaque m) t = False"
| "errors_is (InputTooLongError n l e) t = (t = ErrInputTooLong \<or> opt_is (\<lambda>e. errors_is e t) e)"
| "errors_is (QueueError k c w e) t = (queue_category k = Some t \<or> opt_is (\<lambda>e. errors_is e t) e)"
| "errors_is (StageError cat stage cause) t =
     (cat = Sentinel t \<or> opt_is (\<lambda>e. errors_is e t) cause)"
| "errors_is (BundleError p f x ob kind cause) t =
     (opt_is (\<lambda>e. errors_is e t) kind \<or> opt_is (\<lambda>e. errors_is e t) cause)"
| "errors_is (SourceError oper p kind cause) t =
     (opt_is (\<lambda>e. errors_is e t) kind \<or> opt_is (\<lambda>e. errors_is e t) cause)"
| "errors_is (Joined es) t = list_ex (\<lambda>e. errors_is e t) es"
| "errors_is (NilPointer ty) t = False"

definition errors_join :: "go_error option list \<Rightarrow> go_error option" where
  "errors_join es = (case somes es of [] \<Rightarrow> None | x # xs \<Rightarrow> Some (Joined (x # xs)))"

lemma errors_join_None_iff: "errors_join es = None \<longleftrightarrow> (\<forall>e\<in>set es. e = None)"
  by (auto simp: errors_join_def somes_eq_Nil_iff [symmetric] split: list.splits)

lemma errors_join_is:
  "opt_is (\<lambda>e. errors_is e t) (errors_join es) \<longleftrightarrow> (\<exists>e. Some e \<in> set es \<and> errors_is e t)"
proof (cases "somes es")
  case Nil
  then have "\<forall>e\<in>set es. e = None" by (simp add: somes_eq_Nil_iff)
  with Nil show ?thesis by (auto simp: errors_join_def)
next
  case (Cons x xs)
  then have "set (x # xs) = {x. Some x \<in> set es}" by (metis set_somes)
  with Cons show ?thesis by (auto simp: errors_join_def list_ex_iff)
qed

subsection \<open>Sentinel wraps and stage errors\<close>

text \<open>\<open>fmt.Errorf\<close> with one wrapped sentinel, the commonest shape of the code.\<close>

abbreviation wrap :: "sentinel \<Rightarrow> string \<Rightarrow> go_error" where
  "wrap s m \<equiv> Errorf m [Sentinel s]"

definition newInferenceStageError :: "go_error \<Rightarrow> string \<Rightarrow> go_error option \<Rightarrow> go_error" where
  "newInferenceStageError category stage cause = StageError category stage cause"

lemma newInferenceStageError_is [simp]:
  "errors_is (newInferenceStageError c s e) t \<longleftrightarrow> c = Sentinel t \<or> opt_is (\<lambda>x. errors_is x t) e"
  by (simp add: newInferenceStageError_def)

subsection \<open>Results\<close>

datatype 'a res = Ok 'a | Err go_error | Panic

definition res_bind :: "'a res \<Rightarrow> ('a \<Rightarrow> 'b res) \<Rightarrow> 'b res" where
  "res_bind r f = (case r of Ok x \<Rightarrow> f x | Err e \<Rightarrow> Err e | Panic \<Rightarrow> Panic)"

text \<open>\<open>if err := check; err != nil { return err }\<close>, then the rest.\<close>

definition check_then :: "go_error option \<Rightarrow> 'a res \<Rightarrow> 'a res" where
  "check_then c r = (case c of Some e \<Rightarrow> Err e | None \<Rightarrow> r)"

text \<open>\<open>return fmt.Errorf(context, err)\<close> around a failing call.\<close>

definition res_wrap :: "string \<Rightarrow> 'a res \<Rightarrow> 'a res" where
  "res_wrap m r = (case r of Err e \<Rightarrow> Err (Errorf m [e]) | _ \<Rightarrow> r)"

lemma res_bind_simps [simp]:
  "res_bind (Ok x) f = f x" "res_bind (Err e) f = Err e" "res_bind Panic f = Panic"
  by (simp_all add: res_bind_def)

lemma check_then_simps [simp]:
  "check_then None r = r" "check_then (Some e) r = Err e"
  by (simp_all add: check_then_def)

lemma res_wrap_simps [simp]:
  "res_wrap m (Ok x) = Ok x" "res_wrap m (Err e) = Err (Errorf m [e])" "res_wrap m Panic = Panic"
  by (simp_all add: res_wrap_def)

lemma res_bind_Ok_iff: "res_bind r f = Ok y \<longleftrightarrow> (\<exists>x. r = Ok x \<and> f x = Ok y)"
  by (cases r) auto

lemma check_then_Ok_iff: "check_then c r = Ok y \<longleftrightarrow> c = None \<and> r = Ok y"
  by (cases c) auto

lemma res_wrap_Ok_iff: "res_wrap m r = Ok y \<longleftrightarrow> r = Ok y"
  by (cases r) auto

lemma res_bind_Panic_iff:
  "res_bind r f = Panic \<longleftrightarrow> r = Panic \<or> (\<exists>x. r = Ok x \<and> f x = Panic)"
  by (cases r) auto

lemma check_then_Panic_iff: "check_then c r = Panic \<longleftrightarrow> c = None \<and> r = Panic"
  by (cases c) auto

lemma res_wrap_Panic_iff: "res_wrap m r = Panic \<longleftrightarrow> r = Panic"
  by (cases r) auto

lemmas res_ok_iffs = res_bind_Ok_iff check_then_Ok_iff res_wrap_Ok_iff
lemmas res_panic_iffs = res_bind_Panic_iff check_then_Panic_iff res_wrap_Panic_iff

definition is_Ok :: "'a res \<Rightarrow> bool" where
  "is_Ok r = (case r of Ok _ \<Rightarrow> True | _ \<Rightarrow> False)"

lemma is_OkE: assumes "is_Ok r" obtains x where "r = Ok x"
  using assms by (cases r) (auto simp: is_Ok_def)

text \<open>A \<open>range\<close> loop that returns at the first failing element.\<close>

fun res_map :: "('a \<Rightarrow> 'b res) \<Rightarrow> 'a list \<Rightarrow> 'b list res" where
  "res_map f [] = Ok []"
| "res_map f (x # xs) = res_bind (f x) (\<lambda>y. res_bind (res_map f xs) (\<lambda>ys. Ok (y # ys)))"

lemma res_map_Ok_iff: "res_map f xs = Ok ys \<longleftrightarrow> list_all2 (\<lambda>x y. f x = Ok y) xs ys"
  by (induction xs arbitrary: ys) (auto simp: res_bind_Ok_iff list_all2_Cons1)

lemma res_map_Ok_length: "res_map f xs = Ok ys \<Longrightarrow> length ys = length xs"
  by (auto simp: res_map_Ok_iff dest: list_all2_lengthD)

lemma res_map_Ok_nth: "res_map f xs = Ok ys \<Longrightarrow> i < length xs \<Longrightarrow> f (xs ! i) = Ok (ys ! i)"
  by (auto simp: res_map_Ok_iff dest: list_all2_nthD)

lemma res_map_Panic: "res_map f xs = Panic \<Longrightarrow> \<exists>x\<in>set xs. f x = Panic"
  by (induction xs) (auto simp: res_bind_Panic_iff)

lemma res_map_total: "(\<And>x. x \<in> set xs \<Longrightarrow> \<exists>y. f x = Ok y) \<Longrightarrow> \<exists>ys. res_map f xs = Ok ys"
  by (induction xs) force+

lemma res_map_Err: "res_map f xs = Err e \<Longrightarrow> \<exists>x\<in>set xs. f x = Err e"
proof (induction xs)
  case (Cons x xs)
  then show ?case by (cases "f x"; cases "res_map f xs") auto
qed simp

end
