(* ===== verification/Laya_Context.thy ===== *)
theory Laya_Context
  imports Laya_Errors
begin

text \<open>
  \<open>context.Context\<close> as the code reads it: a nil interface, or a context whose
  \<open>Err\<close> is nil until it ends and keeps its error from then on.
\<close>

datatype go_ctx = NilCtx | Ctx "go_error option"

definition validateContext :: "go_ctx \<Rightarrow> go_error option" where
  "validateContext ctx =
     (case ctx of
        NilCtx \<Rightarrow> Some (wrap ErrInvalidRequest ''context is nil'')
      | Ctx e \<Rightarrow> e)"

lemma validateContext_None_iff [ok_simps]: "validateContext ctx = None \<longleftrightarrow> ctx = Ctx None"
  by (cases ctx) (simp_all add: validateContext_def)

lemma validateContext_simps [simp]:
  "validateContext (Ctx e) = e" "validateContext NilCtx = Some (wrap ErrInvalidRequest ''context is nil'')"
  by (simp_all add: validateContext_def)

end
