(* ===== verification/Laya_Json.thy ===== *)
theory Laya_Json
  imports Laya_Prelude
begin

text \<open>
  The byte scanner behind \<open>json.Valid\<close> and \<open>json.Compact\<close> of Go's
  \<open>encoding/json\<close>, as \<open>state.go\<close> relies on it: an automaton with a stack of
  enclosing composites, at most 10000 deep. \<open>json_valid\<close> runs it to the end of the input;
  \<open>json_compact\<close> also keeps the bytes that are not insignificant white space. The main
  fact is that compaction of a valid document is valid and compact, by a simulation between
  the run on the input and the run on the kept bytes.
\<close>

datatype scan_step =
    BeginValueOrEmpty | BeginValue | BeginStringOrEmpty | BeginString | EndValue | EndTop
  | InString | InStringEsc | InStringEscU | InStringEscU1 | InStringEscU12 | InStringEscU123
  | NumNeg | Num1 | Num0 | NumDot | NumDot0 | NumE | NumESign | NumE0
  | LitT | LitTr | LitTru | LitF | LitFa | LitFal | LitFals | LitN | LitNu | LitNul | ScanFail

datatype parse_state = ObjectKey | ObjectValue | ArrayValue

text \<open>The result codes below \<open>scanSkipSpace\<close> are one code here: the byte is kept.\<close>

datatype scan_code = Keep | SkipSpace | ScanEnd | ScanError

record scanner =
  sc_step :: scan_step
  sc_stack :: "parse_state list"
  sc_endTop :: bool
  sc_err :: bool

definition scan_init :: scanner where
  "scan_init = \<lparr>sc_step = BeginValue, sc_stack = [], sc_endTop = False, sc_err = False\<rparr>"

definition max_nesting :: nat where "max_nesting = 10000"

definition is_space :: "char \<Rightarrow> bool" where
  "is_space c \<longleftrightarrow> c = CHR '' '' \<or> c = CHR 0x09 \<or> c = CHR 0x0D \<or> c = CHR 0x0A"

definition is_digit :: "char \<Rightarrow> bool" where
  "is_digit c \<longleftrightarrow> CHR ''0'' \<le> c \<and> c \<le> CHR ''9''"

definition is_hex :: "char \<Rightarrow> bool" where
  "is_hex c \<longleftrightarrow> is_digit c \<or> (CHR ''a'' \<le> c \<and> c \<le> CHR ''f'') \<or> (CHR ''A'' \<le> c \<and> c \<le> CHR ''F'')"

definition is_exponent :: "char \<Rightarrow> bool" where
  "is_exponent c \<longleftrightarrow> c = CHR ''e'' \<or> c = CHR ''E''"

definition is_sign :: "char \<Rightarrow> bool" where
  "is_sign c \<longleftrightarrow> c = CHR ''+'' \<or> c = CHR ''-''"

definition is_escaped :: "char \<Rightarrow> bool" where
  "is_escaped c \<longleftrightarrow> c = CHR ''b'' \<or> c = CHR ''f'' \<or> c = CHR ''n'' \<or> c = CHR ''r'' \<or> c = CHR ''t''
     \<or> c = CHR 0x5C \<or> c = CHR ''/'' \<or> c = CHR 0x22"

definition scan_fail :: "scanner \<Rightarrow> scan_code \<times> scanner" where
  "scan_fail s = (ScanError, s\<lparr>sc_step := ScanFail, sc_err := True\<rparr>)"

definition scan_go :: "scan_step \<Rightarrow> scanner \<Rightarrow> scan_code \<times> scanner" where
  "scan_go st s = (Keep, s\<lparr>sc_step := st\<rparr>)"

definition scan_skip :: "scanner \<Rightarrow> scan_code \<times> scanner" where
  "scan_skip s = (SkipSpace, s)"

definition scan_push :: "parse_state \<Rightarrow> scan_step \<Rightarrow> scanner \<Rightarrow> scan_code \<times> scanner" where
  "scan_push p st s =
     (let s' = s\<lparr>sc_step := st, sc_stack := p # sc_stack s\<rparr>
      in if length (sc_stack s') \<le> max_nesting then (Keep, s') else scan_fail s')"

definition scan_pop :: "scanner \<Rightarrow> scan_code \<times> scanner" where
  "scan_pop s =
     (let s' = s\<lparr>sc_stack := tl (sc_stack s)\<rparr>
      in if sc_stack s' = [] then (Keep, s'\<lparr>sc_step := EndTop, sc_endTop := True\<rparr>)
         else (Keep, s'\<lparr>sc_step := EndValue\<rparr>))"

definition step_end_top :: "char \<Rightarrow> scanner \<Rightarrow> scan_code \<times> scanner" where
  "step_end_top c s = (if is_space c then (ScanEnd, s) else (ScanEnd, snd (scan_fail s)))"

definition step_end_value :: "char \<Rightarrow> scanner \<Rightarrow> scan_code \<times> scanner" where
  "step_end_value c s =
     (case sc_stack s of
        [] \<Rightarrow> step_end_top c (s\<lparr>sc_step := EndTop, sc_endTop := True\<rparr>)
      | p # ps \<Rightarrow>
          (if is_space c then scan_skip (s\<lparr>sc_step := EndValue\<rparr>)
           else case p of
             ObjectKey \<Rightarrow>
               (if c = CHR '':'' then scan_go BeginValue (s\<lparr>sc_stack := ObjectValue # ps\<rparr>) else scan_fail s)
           | ObjectValue \<Rightarrow>
               (if c = CHR '','' then scan_go BeginString (s\<lparr>sc_stack := ObjectKey # ps\<rparr>)
                else if c = CHR ''}'' then scan_pop s else scan_fail s)
           | ArrayValue \<Rightarrow>
               (if c = CHR '','' then scan_go BeginValue s
                else if c = CHR '']'' then scan_pop s else scan_fail s)))"

definition step_begin_value :: "char \<Rightarrow> scanner \<Rightarrow> scan_code \<times> scanner" where
  "step_begin_value c s =
     (if is_space c then scan_skip s
      else if c = CHR ''{'' then scan_push ObjectKey BeginStringOrEmpty s
      else if c = CHR ''['' then scan_push ArrayValue BeginValueOrEmpty s
      else if c = CHR 0x22 then scan_go InString s
      else if c = CHR ''-'' then scan_go NumNeg s
      else if c = CHR ''0'' then scan_go Num0 s
      else if c = CHR ''t'' then scan_go LitT s
      else if c = CHR ''f'' then scan_go LitF s
      else if c = CHR ''n'' then scan_go LitN s
      else if is_digit c then scan_go Num1 s
      else scan_fail s)"

definition step_begin_string :: "char \<Rightarrow> scanner \<Rightarrow> scan_code \<times> scanner" where
  "step_begin_string c s =
     (if is_space c then scan_skip s
      else if c = CHR 0x22 then scan_go InString s else scan_fail s)"

definition step_num0 :: "char \<Rightarrow> scanner \<Rightarrow> scan_code \<times> scanner" where
  "step_num0 c s =
     (if c = CHR ''.'' then scan_go NumDot s
      else if is_exponent c then scan_go NumE s
      else step_end_value c s)"

definition step_esign :: "char \<Rightarrow> scanner \<Rightarrow> scan_code \<times> scanner" where
  "step_esign c s = (if is_digit c then scan_go NumE0 s else scan_fail s)"

definition step_expect :: "char \<Rightarrow> scan_step \<Rightarrow> char \<Rightarrow> scanner \<Rightarrow> scan_code \<times> scanner" where
  "step_expect want st c s = (if c = want then scan_go st s else scan_fail s)"

definition step_hex :: "scan_step \<Rightarrow> char \<Rightarrow> scanner \<Rightarrow> scan_code \<times> scanner" where
  "step_hex st c s = (if is_hex c then scan_go st s else scan_fail s)"

definition scan_byte :: "char \<Rightarrow> scanner \<Rightarrow> scan_code \<times> scanner" where
  "scan_byte c s =
     (case sc_step s of
        BeginValueOrEmpty \<Rightarrow>
          (if is_space c then scan_skip s
           else if c = CHR '']'' then step_end_value c s else step_begin_value c s)
      | BeginValue \<Rightarrow> step_begin_value c s
      | BeginStringOrEmpty \<Rightarrow>
          (if is_space c then scan_skip s
           else if c = CHR ''}'' then step_end_value c (s\<lparr>sc_stack := ObjectValue # tl (sc_stack s)\<rparr>)
           else step_begin_string c s)
      | BeginString \<Rightarrow> step_begin_string c s
      | EndValue \<Rightarrow> step_end_value c s
      | EndTop \<Rightarrow> step_end_top c s
      | InString \<Rightarrow>
          (if c = CHR 0x22 then scan_go EndValue s
           else if c = CHR 0x5C then scan_go InStringEsc s
           else if c < CHR '' '' then scan_fail s else scan_go InString s)
      | InStringEsc \<Rightarrow>
          (if is_escaped c then scan_go InString s
           else if c = CHR ''u'' then scan_go InStringEscU s else scan_fail s)
      | InStringEscU \<Rightarrow> step_hex InStringEscU1 c s
      | InStringEscU1 \<Rightarrow> step_hex InStringEscU12 c s
      | InStringEscU12 \<Rightarrow> step_hex InStringEscU123 c s
      | InStringEscU123 \<Rightarrow> step_hex InString c s
      | NumNeg \<Rightarrow>
          (if c = CHR ''0'' then scan_go Num0 s
           else if is_digit c then scan_go Num1 s else scan_fail s)
      | Num1 \<Rightarrow> (if is_digit c then scan_go Num1 s else step_num0 c s)
      | Num0 \<Rightarrow> step_num0 c s
      | NumDot \<Rightarrow> (if is_digit c then scan_go NumDot0 s else scan_fail s)
      | NumDot0 \<Rightarrow>
          (if is_digit c then scan_go NumDot0 s
           else if is_exponent c then scan_go NumE s else step_end_value c s)
      | NumE \<Rightarrow> (if is_sign c then scan_go NumESign s else step_esign c s)
      | NumESign \<Rightarrow> step_esign c s
      | NumE0 \<Rightarrow> (if is_digit c then scan_go NumE0 s else step_end_value c s)
      | LitT \<Rightarrow> step_expect CHR ''r'' LitTr c s
      | LitTr \<Rightarrow> step_expect CHR ''u'' LitTru c s
      | LitTru \<Rightarrow> step_expect CHR ''e'' EndValue c s
      | LitF \<Rightarrow> step_expect CHR ''a'' LitFa c s
      | LitFa \<Rightarrow> step_expect CHR ''l'' LitFal c s
      | LitFal \<Rightarrow> step_expect CHR ''s'' LitFals c s
      | LitFals \<Rightarrow> step_expect CHR ''e'' EndValue c s
      | LitN \<Rightarrow> step_expect CHR ''u'' LitNu c s
      | LitNu \<Rightarrow> step_expect CHR ''l'' LitNul c s
      | LitNul \<Rightarrow> step_expect CHR ''l'' EndValue c s
      | ScanFail \<Rightarrow> scan_fail s)"

definition scan_eof :: "scanner \<Rightarrow> bool" where
  "scan_eof s \<longleftrightarrow>
     \<not> sc_err s \<and>
     (sc_endTop s \<or> (let t = snd (scan_byte CHR '' '' s) in sc_endTop t))"

fun scan_all :: "string \<Rightarrow> scanner \<Rightarrow> scanner" where
  "scan_all [] s = s"
| "scan_all (c # cs) s = scan_all cs (snd (scan_byte c s))"

text \<open>The bytes \<open>compact\<close> keeps.\<close>

fun scan_kept :: "string \<Rightarrow> scanner \<Rightarrow> string" where
  "scan_kept [] s = []"
| "scan_kept (c # cs) s =
     (if fst (scan_byte c s) = Keep then c # scan_kept cs (snd (scan_byte c s))
      else scan_kept cs (snd (scan_byte c s)))"

definition json_valid :: "string \<Rightarrow> bool" where
  "json_valid d = scan_eof (scan_all d scan_init)"

definition json_compact :: "string \<Rightarrow> string option" where
  "json_compact d = (if json_valid d then Some (scan_kept d scan_init) else None)"

lemmas scan_defs = scan_go_def scan_fail_def scan_skip_def scan_push_def scan_pop_def
  step_end_top_def step_end_value_def step_begin_value_def step_begin_string_def step_num0_def
  step_esign_def step_expect_def step_hex_def

text \<open>The steps in which a value may be complete although the scanner has not seen its end.\<close>

definition value_end :: "scan_step \<Rightarrow> bool" where
  "value_end st \<longleftrightarrow> st = Num0 \<or> st = Num1 \<or> st = NumDot0 \<or> st = NumE0 \<or> st = EndValue"

subsection \<open>What one byte does\<close>

subsubsection \<open>Errors are sticky\<close>

lemma scan_code_simps [simp]:
  "fst (scan_go st s) = Keep" "sc_err (snd (scan_go st s)) = sc_err s"
  "sc_err (snd (scan_fail s))" "fst (scan_fail s) = ScanError"
  "fst (scan_skip s) = SkipSpace" "snd (scan_skip s) = s"
  by (simp_all add: scan_go_def scan_fail_def scan_skip_def)

lemma scan_push_err: "sc_err s \<Longrightarrow> sc_err (snd (scan_push p st s))"
  by (simp add: scan_push_def Let_def)

lemma scan_pop_err: "sc_err (snd (scan_pop s)) = sc_err s"
  by (simp add: scan_pop_def Let_def)

lemma end_top_err: "sc_err s \<Longrightarrow> sc_err (snd (step_end_top c s))"
  by (simp add: step_end_top_def)

lemma end_value_err: "sc_err s \<Longrightarrow> sc_err (snd (step_end_value c s))"
  by (simp add: step_end_value_def end_top_err scan_pop_err split: list.split parse_state.split)

lemma begin_value_err: "sc_err s \<Longrightarrow> sc_err (snd (step_begin_value c s))"
  by (simp add: step_begin_value_def scan_push_err)

lemma scan_byte_err: "sc_err s \<Longrightarrow> sc_err (snd (scan_byte c s))"
  by (cases "sc_step s")
    (simp_all add: scan_byte_def end_top_err end_value_err begin_value_err step_begin_string_def
      step_num0_def step_esign_def step_expect_def step_hex_def)

lemma scan_all_err: "sc_err s \<Longrightarrow> sc_err (scan_all cs s)"
  by (induction cs arbitrary: s) (auto simp: scan_byte_err)

subsubsection \<open>Only white space is dropped\<close>

lemma scan_push_kept: "\<not> sc_err (snd (scan_push p st s)) \<Longrightarrow> fst (scan_push p st s) = Keep"
  by (auto simp: scan_push_def Let_def split: if_splits)

lemma scan_pop_kept [simp]: "fst (scan_pop s) = Keep"
  by (simp add: scan_pop_def Let_def)

lemma end_top_kept: "\<not> sc_err (snd (step_end_top c s)) \<Longrightarrow> is_space c"
  by (simp add: step_end_top_def split: if_splits)

lemma end_value_kept:
  "\<not> sc_err (snd (step_end_value c s)) \<Longrightarrow> \<not> is_space c \<Longrightarrow> fst (step_end_value c s) = Keep"
  by (simp add: step_end_value_def step_end_top_def split: list.splits parse_state.splits if_splits)

lemma begin_value_kept:
  "\<not> sc_err (snd (step_begin_value c s)) \<Longrightarrow> \<not> is_space c \<Longrightarrow> fst (step_begin_value c s) = Keep"
  by (simp add: step_begin_value_def scan_push_kept split: if_splits)

lemma begin_string_kept:
  "\<not> sc_err (snd (step_begin_string c s)) \<Longrightarrow> \<not> is_space c \<Longrightarrow> fst (step_begin_string c s) = Keep"
  by (simp add: step_begin_string_def split: if_splits)

lemma num0_kept: "\<not> sc_err (snd (step_num0 c s)) \<Longrightarrow> \<not> is_space c \<Longrightarrow> fst (step_num0 c s) = Keep"
  by (simp add: step_num0_def end_value_kept split: if_splits)

lemma literal_kept:
  "\<not> sc_err (snd (step_esign c s)) \<Longrightarrow> fst (step_esign c s) = Keep"
  "\<not> sc_err (snd (step_expect w st c s)) \<Longrightarrow> fst (step_expect w st c s) = Keep"
  "\<not> sc_err (snd (step_hex st c s)) \<Longrightarrow> fst (step_hex st c s) = Keep"
  by (simp_all add: step_esign_def step_expect_def step_hex_def split: if_splits)

lemmas kept_rules = end_value_kept begin_value_kept begin_string_kept num0_kept literal_kept

lemma nonspace_kept:
  assumes "\<not> sc_err (snd (scan_byte c s))" and "\<not> is_space c" and "sc_step s \<noteq> EndTop"
  shows "fst (scan_byte c s) = Keep"
  using assms by (cases "sc_step s") (simp_all add: scan_byte_def kept_rules split: if_splits)

subsubsection \<open>A step on a space\<close>

lemma is_space_facts:
  assumes "is_space c"
  shows "\<not> is_digit c" "\<not> is_hex c" "\<not> is_exponent c" "\<not> is_sign c" "\<not> is_escaped c"
    "c \<noteq> CHR ''.''" "c \<noteq> CHR '']''" "c \<noteq> CHR ''}''" "c \<noteq> CHR ''u''" "c \<noteq> CHR ''0''" "c \<noteq> CHR 0x22" "c \<noteq> CHR 0x5C"
  using assms unfolding is_space_def
  by (elim disjE; simp add: is_digit_def is_hex_def is_exponent_def is_sign_def is_escaped_def
      less_eq_char_def)+

lemma end_value_space:
  assumes "is_space c"
  shows "step_end_value c s =
     (if sc_stack s = [] then (ScanEnd, s\<lparr>sc_step := EndTop, sc_endTop := True\<rparr>)
      else (SkipSpace, s\<lparr>sc_step := EndValue\<rparr>))"
proof (cases "sc_stack s")
  case Nil
  with assms show ?thesis by (simp add: step_end_value_def step_end_top_def)
next
  case (Cons p ps)
  with assms show ?thesis by (simp add: step_end_value_def scan_skip_def)
qed

lemma value_end_space:
  assumes "value_end (sc_step s)" and "is_space c"
  shows "scan_byte c s = step_end_value c s"
proof -
  note facts = is_space_facts [OF assms(2)]
  show ?thesis
    using assms(1) unfolding value_end_def
    by (elim disjE) (simp_all add: scan_byte_def step_num0_def facts)
qed

lemma begin_space:
  assumes "is_space c"
    and "sc_step s \<in> {BeginValueOrEmpty, BeginValue, BeginStringOrEmpty, BeginString}"
  shows "scan_byte c s = (SkipSpace, s)"
  using assms(2)
  by (elim insertE emptyE)
    (simp_all add: scan_byte_def step_begin_value_def step_begin_string_def scan_skip_def assms(1))

lemma end_top_space: "is_space c \<Longrightarrow> sc_step s = EndTop \<Longrightarrow> scan_byte c s = (ScanEnd, s)"
  by (simp add: scan_byte_def step_end_top_def)

definition before_value :: "scan_step \<Rightarrow> bool" where
  "before_value st \<longleftrightarrow>
     st \<in> {BeginValueOrEmpty, BeginValue, BeginStringOrEmpty, BeginString}"

text \<open>Elsewhere a space is part of a string, which keeps it, or an error.\<close>

lemma inner_space:
  assumes "is_space c" and "\<not> value_end (sc_step s)" and "\<not> before_value (sc_step s)"
    and "sc_step s \<noteq> EndTop" and "\<not> sc_err (snd (scan_byte c s))"
  shows "fst (scan_byte c s) = Keep"
proof -
  note facts = is_space_facts [OF assms(1)]
  show ?thesis
    using assms(2-5)
    by (cases "sc_step s")
      (simp_all add: value_end_def before_value_def scan_byte_def facts step_hex_def step_esign_def
        literal_kept split: if_splits)
qed

subsection \<open>The simulation behind compaction\<close>

text \<open>
  After a dropped space the run on the input may have left a number, whose end the run on the
  kept bytes has not yet seen.
\<close>

definition compact_rel :: "scanner \<Rightarrow> scanner \<Rightarrow> bool" where
  "compact_rel s t \<longleftrightarrow>
     s = t \<or>
     (\<not> sc_err t \<and> value_end (sc_step t) \<and> \<not> sc_endTop t \<and>
      s = (if sc_stack t = [] then t\<lparr>sc_step := EndTop, sc_endTop := True\<rparr>
           else t\<lparr>sc_step := EndValue\<rparr>))"

definition scan_wf :: "scanner \<Rightarrow> bool" where
  "scan_wf s \<longleftrightarrow> (sc_endTop s \<longrightarrow> sc_step s = EndTop \<or> sc_step s = ScanFail)"

lemma scan_wf_init: "scan_wf scan_init"
  by (simp add: scan_wf_def scan_init_def)

subsubsection \<open>The scanner's own invariant\<close>

lemma scan_wf_open: "\<not> sc_endTop s \<Longrightarrow> scan_wf s"
  by (simp add: scan_wf_def)

lemma scan_wf_parts:
  assumes "\<not> sc_endTop s"
  shows "scan_wf (snd (scan_go st s))" "scan_wf (snd (scan_fail s))" "scan_wf (snd (scan_skip s))"
    "scan_wf (snd (scan_push p st s))" "scan_wf (snd (scan_pop s))" "scan_wf (snd (step_end_value c s))"
proof -
  show go: "scan_wf (snd (scan_go st s))" "scan_wf (snd (scan_fail s))" "scan_wf (snd (scan_skip s))" for st
    using assms by (simp_all add: scan_wf_def scan_go_def scan_fail_def scan_skip_def)
  show "scan_wf (snd (scan_push p st s))"
    using assms by (simp add: scan_wf_def scan_push_def scan_fail_def Let_def)
  show pop: "scan_wf (snd (scan_pop s))"
    using assms by (simp add: scan_wf_def scan_pop_def Let_def)
  show "scan_wf (snd (step_end_value c s))"
  proof (cases "sc_stack s")
    case Nil
    then show ?thesis by (simp add: step_end_value_def step_end_top_def scan_wf_def scan_fail_def)
  next
    case (Cons p ps)
    with assms pop show ?thesis
      by (auto simp: step_end_value_def scan_wf_def scan_go_def scan_fail_def split: parse_state.split)
  qed
qed

lemma scan_wf_step:
  assumes "scan_wf s"
  shows "scan_wf (snd (scan_byte c s))"
proof (cases "sc_endTop s")
  case True
  with assms consider "sc_step s = EndTop" | "sc_step s = ScanFail"
    by (auto simp: scan_wf_def)
  then show ?thesis
    using assms by cases (simp_all add: scan_byte_def step_end_top_def scan_fail_def scan_wf_def)
next
  case False
  note parts = scan_wf_parts [OF False]
  have upd: "scan_wf (snd (step_end_value b (s\<lparr>sc_stack := ps\<rparr>)))" for b ps
    using False by (intro scan_wf_parts) simp
  have begin_value: "scan_wf (snd (step_begin_value c s))"
    by (simp add: step_begin_value_def parts assms)
  have begin_string: "scan_wf (snd (step_begin_string c s))"
    by (simp add: step_begin_string_def parts assms)
  have literal: "scan_wf (snd (step_num0 c s))" "scan_wf (snd (step_esign c s))"
    "scan_wf (snd (step_expect w st c s))" "scan_wf (snd (step_hex st c s))" for w st
    by (simp_all add: step_num0_def step_esign_def step_expect_def step_hex_def parts)
  have end_top: "scan_wf (snd (step_end_top c s))"
    using False by (simp add: step_end_top_def scan_wf_def scan_fail_def)
  show ?thesis
    by (cases "sc_step s")
      (simp_all add: scan_byte_def parts upd begin_value begin_string literal end_top assms)
qed

subsubsection \<open>One byte of the simulation\<close>

lemma value_end_not_EndTop: "value_end st \<Longrightarrow> st \<noteq> EndTop \<and> st \<noteq> ScanFail \<and> \<not> before_value st"
  by (auto simp: value_end_def before_value_def)

lemma dropped_self:
  assumes wf: "scan_wf s" and ok: "\<not> sc_err (snd (scan_byte c s))"
    and drop: "fst (scan_byte c s) \<noteq> Keep"
  shows "compact_rel (snd (scan_byte c s)) s"
proof (cases "sc_step s = EndTop")
  case True
  from ok have "is_space c"
    by (simp add: scan_byte_def True end_top_kept)
  with True show ?thesis by (simp add: end_top_space compact_rel_def)
next
  case False
  with ok drop have sp: "is_space c" using nonspace_kept by blast
  have noerr: "\<not> sc_err s" using ok scan_byte_err by blast
  consider "value_end (sc_step s)" | "before_value (sc_step s)"
    using inner_space [OF sp _ _ False ok] drop by blast
  then show ?thesis
  proof cases
    case 1
    with wf have "\<not> sc_endTop s" by (auto simp: scan_wf_def value_end_def)
    with 1 noerr show ?thesis
      by (simp add: value_end_space [OF 1 sp] end_value_space [OF sp] compact_rel_def)
  next
    case 2
    then show ?thesis by (simp add: begin_space [OF sp] before_value_def compact_rel_def)
  qed
qed

lemma dropped_step:
  assumes "compact_rel s t" and "scan_wf s" and "\<not> sc_err (snd (scan_byte c s))"
    and "fst (scan_byte c s) \<noteq> Keep"
  shows "compact_rel (snd (scan_byte c s)) t"
proof (cases "s = t")
  case True
  with assms dropped_self show ?thesis by blast
next
  case False
  with assms(1) have rel: "\<not> sc_err t" "value_end (sc_step t)" "\<not> sc_endTop t"
    and s: "s = (if sc_stack t = [] then t\<lparr>sc_step := EndTop, sc_endTop := True\<rparr>
            else t\<lparr>sc_step := EndValue\<rparr>)"
    unfolding compact_rel_def by blast+
  have "snd (scan_byte c s) = s"
  proof (cases "sc_stack t")
    case Nil
    with s have st: "sc_step s = EndTop" by simp
    with assms(3) have "is_space c" by (simp add: scan_byte_def end_top_kept)
    with st show ?thesis by (simp add: end_top_space)
  next
    case (Cons p ps)
    with s have st: "sc_step s = EndValue" "sc_stack s \<noteq> []" and eq: "s = t\<lparr>sc_step := EndValue\<rparr>" by auto
    with assms(3,4) have "is_space c" using nonspace_kept [of c s] by auto
    with st eq show ?thesis
      by (simp add: value_end_space value_end_def end_value_space)
  qed
  with assms(1) show ?thesis by simp
qed

lemma end_value_punctuation:
  assumes "\<not> sc_err (snd (step_end_value c s))" and "\<not> is_space c" and "sc_stack s \<noteq> []"
  shows "c \<in> {CHR '':'', CHR '','', CHR ''}'', CHR '']''}"
  using assms
  by (auto simp: step_end_value_def split: list.splits parse_state.splits if_splits)

lemma punctuation_facts:
  assumes "c \<in> {CHR '':'', CHR '','', CHR ''}'', CHR '']''}"
  shows "\<not> is_digit c" "\<not> is_exponent c" "c \<noteq> CHR ''.''" "\<not> is_space c"
  using assms
  by (elim insertE emptyE;
      simp add: is_digit_def is_exponent_def is_space_def less_eq_char_def)+

lemma end_value_step_irrelevant:
  assumes "\<not> sc_err (snd (step_end_value c (t\<lparr>sc_step := EndValue\<rparr>)))" and "sc_stack t \<noteq> []"
    and "\<not> is_space c"
  shows "step_end_value c t = step_end_value c (t\<lparr>sc_step := EndValue\<rparr>)"
proof (cases "sc_stack t")
  case (Cons p ps)
  with assms show ?thesis
    by (cases p)
      (simp_all add: step_end_value_def scan_go_def scan_pop_def Let_def split: if_splits)
qed (use assms in simp)

lemma kept_step:
  assumes "compact_rel s t" and "\<not> sc_err (snd (scan_byte c s))" and "fst (scan_byte c s) = Keep"
  shows "scan_byte c t = scan_byte c s"
proof (cases "s = t")
  case False
  with assms(1) have rel: "value_end (sc_step t)"
    and s: "s = (if sc_stack t = [] then t\<lparr>sc_step := EndTop, sc_endTop := True\<rparr>
            else t\<lparr>sc_step := EndValue\<rparr>)"
    unfolding compact_rel_def by blast+
  have ne: "sc_stack t \<noteq> []"
    using assms(3) s by (auto simp: scan_byte_def step_end_top_def split: if_splits)
  with s have eq: "s = t\<lparr>sc_step := EndValue\<rparr>" by simp
  then have byte: "scan_byte c s = step_end_value c s" by (simp add: scan_byte_def)
  have nsp: "\<not> is_space c"
    using assms(3) byte ne eq by (auto simp: end_value_space)
  have punct: "c \<in> {CHR '':'', CHR '','', CHR ''}'', CHR '']''}"
    using assms(2) byte ne eq nsp by (intro end_value_punctuation [of c s]) simp_all
  have "scan_byte c t = step_end_value c t"
    using rel punctuation_facts [OF punct] unfolding value_end_def
    by (elim disjE) (simp_all add: scan_byte_def step_num0_def)
  also have "\<dots> = step_end_value c s"
    using end_value_step_irrelevant [of c t] assms(2) byte eq ne nsp by simp
  finally show ?thesis by (simp add: byte)
qed simp

subsubsection \<open>Whole documents\<close>

lemma compact_run:
  assumes "compact_rel s t" and "scan_wf s" and "\<not> sc_err (scan_all cs s)"
  shows "compact_rel (scan_all cs s) (scan_all (scan_kept cs s) t) \<and>
         scan_kept (scan_kept cs s) t = scan_kept cs s \<and> scan_wf (scan_all cs s)"
  using assms
proof (induction cs arbitrary: s t)
  case (Cons c cs)
  let ?s = "snd (scan_byte c s)"
  from Cons.prems(3) have ok: "\<not> sc_err ?s" "\<not> sc_err (scan_all cs ?s)"
    using scan_all_err by auto
  have wf: "scan_wf ?s" using Cons.prems(2) by (rule scan_wf_step)
  show ?case
  proof (cases "fst (scan_byte c s) = Keep")
    case True
    have "scan_byte c t = scan_byte c s" using Cons.prems(1) ok(1) True by (rule kept_step)
    moreover have "compact_rel ?s ?s" by (simp add: compact_rel_def)
    ultimately show ?thesis using Cons.IH [OF _ wf ok(2)] True by simp
  next
    case False
    have "compact_rel ?s t" using Cons.prems(1,2) ok(1) False by (rule dropped_step)
    then show ?thesis using Cons.IH [OF _ wf ok(2)] False by simp
  qed
qed simp

lemma is_space_blank: "is_space CHR '' ''"
  by (simp add: is_space_def)

lemma compact_rel_eof:
  assumes "compact_rel s t" and "scan_eof s"
  shows "scan_eof t"
proof (cases "s = t")
  case False
  with assms(1) have rel: "\<not> sc_err t" "value_end (sc_step t)"
    and s: "s = (if sc_stack t = [] then t\<lparr>sc_step := EndTop, sc_endTop := True\<rparr>
            else t\<lparr>sc_step := EndValue\<rparr>)" and nt: "\<not> sc_endTop t"
    unfolding compact_rel_def by blast+
  show ?thesis
  proof (cases "sc_stack t")
    case Nil
    with rel show ?thesis
      by (simp add: scan_eof_def value_end_space end_value_space is_space_blank)
  next
    case (Cons p ps)
    with s nt have "sc_step s = EndValue" "sc_stack s \<noteq> []" "\<not> sc_endTop s" by auto
    then have "\<not> scan_eof s"
      by (simp add: scan_eof_def value_end_space value_end_def end_value_space is_space_blank)
    with assms(2) show ?thesis by blast
  qed
qed (use assms in simp)

lemma json_compact_Some_iff: "json_compact d = Some c \<longleftrightarrow> json_valid d \<and> c = scan_kept d scan_init"
  by (auto simp: json_compact_def)

theorem json_compact_valid:
  assumes "json_compact d = Some c"
  shows "json_valid c" and "json_compact c = Some c"
proof -
  from assms have v: "json_valid d" and c: "c = scan_kept d scan_init"
    by (simp_all add: json_compact_Some_iff)
  then have noerr: "\<not> sc_err (scan_all d scan_init)" by (simp add: json_valid_def scan_eof_def)
  have refl: "compact_rel scan_init scan_init" by (simp add: compact_rel_def)
  note run = compact_run [OF refl scan_wf_init noerr]
  with v c show "json_valid c"
    unfolding json_valid_def using compact_rel_eof by blast
  with run c show "json_compact c = Some c"
    by (simp add: json_compact_Some_iff)
qed

lemma json_valid_nonempty: "json_valid d \<Longrightarrow> d \<noteq> []"
  by (auto simp: json_valid_def scan_eof_def scan_init_def scan_byte_def step_begin_value_def
      is_space_blank)

text \<open>A compact document has no white space where the scanner would skip it.\<close>

lemma json_compact_length: "json_compact d = Some c \<Longrightarrow> length c \<le> length d"
proof -
  have "length (scan_kept d s) \<le> length d" for s
    by (induction d arbitrary: s) (auto intro: le_SucI)
  then show "json_compact d = Some c \<Longrightarrow> length c \<le> length d"
    by (simp add: json_compact_Some_iff)
qed

end
