(* ===== verification/Laya_State.thy ===== *)
theory Laya_State
  imports Laya_Errors Laya_Json
begin

text \<open>
  \<open>state.go\<close>: the immutable input of a prediction. \<open>st_kind\<close> is the raw
  \<open>uint8\<close> of \<open>StateKind\<close>, so that the zero value and unknown kinds are states too.
\<close>

definition StateKindInvalid :: uint8 where "StateKindInvalid = 0"
definition StateKindText :: uint8 where "StateKindText = 1"
definition StateKindJSON :: uint8 where "StateKindJSON = 2"

record State =
  st_kind :: uint8
  st_text :: string
  st_json :: string

definition zero_State :: State where
  "zero_State = \<lparr>st_kind = StateKindInvalid, st_text = '''', st_json = ''''\<rparr>"

definition TextState :: "string \<Rightarrow> State" where
  "TextState t = zero_State\<lparr>st_kind := StateKindText, st_text := t\<rparr>"

definition JSONState :: "string \<Rightarrow> State res" where
  "JSONState data =
     (case json_compact data of
        None \<Rightarrow> Err (Errorf ''compact JSON state'' [Sentinel ErrInvalidState, Opaque ''json syntax error''])
      | Some c \<Rightarrow> Ok (zero_State\<lparr>st_kind := StateKindJSON, st_json := c\<rparr>))"

definition State_Text :: "State \<Rightarrow> string \<times> bool" where
  "State_Text s = (if st_kind s \<noteq> StateKindText then ('''', False) else (st_text s, True))"

definition State_JSON :: "State \<Rightarrow> string \<times> bool" where
  "State_JSON s = (if st_kind s \<noteq> StateKindJSON then ('''', False) else (st_json s, True))"

definition State_validate :: "State \<Rightarrow> go_error option" where
  "State_validate s =
     (if st_kind s = StateKindInvalid then Some (wrap ErrInvalidState ''use TextState or JSONState'')
      else if st_kind s = StateKindText then None
      else if st_kind s = StateKindJSON then
        (if length (st_json s) = 0 \<or> \<not> json_valid (st_json s)
         then Some (wrap ErrInvalidState ''JSON state is empty or malformed'') else None)
      else Some (wrap ErrInvalidState ''use TextState or JSONState''))"

lemma state_kinds_distinct [simp]:
  "StateKindInvalid \<noteq> StateKindText" "StateKindText \<noteq> StateKindInvalid"
  "StateKindInvalid \<noteq> StateKindJSON" "StateKindJSON \<noteq> StateKindInvalid"
  "StateKindText \<noteq> StateKindJSON" "StateKindJSON \<noteq> StateKindText"
  by (simp_all add: StateKindInvalid_def StateKindText_def StateKindJSON_def)

lemmas state_defs = TextState_def JSONState_def State_Text_def State_JSON_def State_validate_def
  zero_State_def

lemma State_validate_None_iff [ok_simps]:
  "State_validate s = None \<longleftrightarrow>
     st_kind s = StateKindText \<or> st_kind s = StateKindJSON \<and> json_valid (st_json s)"
  using json_valid_nonempty [of "st_json s"] by (auto simp: State_validate_def)

lemma State_validate_error: "State_validate s = Some e \<Longrightarrow> errors_is e ErrInvalidState"
  by (auto simp: State_validate_def split: if_splits)

lemma JSONState_Ok_iff:
  "JSONState d = Ok s \<longleftrightarrow>
     (\<exists>c. json_compact d = Some c \<and> s = \<lparr>st_kind = StateKindJSON, st_text = '''', st_json = c\<rparr>)"
  by (auto simp: JSONState_def zero_State_def split: option.splits)

lemma JSONState_no_panic: "JSONState d \<noteq> Panic"
  by (simp add: JSONState_def split: option.splits)

end
