(* ===== verification/Laya_Question.thy ===== *)
theory Laya_Question
  imports Laya_Errors
begin

text \<open>
  \<open>question.go\<close> and the request validation of \<open>model.go\<close>. The closed interface
  \<open>Question\<close> holds one of three structs or a pointer to one, which may be nil;
  \<open>OtherQuestion\<close> is the nil interface. Each validation loop keeps the code's
  \<open>seen\<close> map as the list of identifiers met so far.
\<close>

record ChoiceCriterion =
  crit_ID :: string
  crit_Description :: string

record ChoiceQuestion =
  cq_id :: string
  cq_instructions :: string
  cq_criteria :: "ChoiceCriterion list"

record ScoreLevel =
  lvl_Label :: string
  lvl_Description :: string

record ScoreQuestion =
  sq_id :: string
  sq_instructions :: string
  sq_rubric :: "ScoreLevel list"

record NoulQuestion =
  nq_id :: string
  nq_instructions :: string
  nq_falseDescription :: string
  nq_trueDescription :: string

datatype Question =
    ChoiceQ ChoiceQuestion | ChoiceQPtr "ChoiceQuestion option"
  | ScoreQ ScoreQuestion | ScoreQPtr "ScoreQuestion option"
  | NoulQ NoulQuestion | NoulQPtr "NoulQuestion option"
  | OtherQuestion

definition validateQuestionHeader :: "string \<Rightarrow> string \<Rightarrow> go_error option" where
  "validateQuestionHeader qid instructions =
     (if qid = '''' then Some (wrap ErrInvalidRequest ''question ID is empty'')
      else if instructions = '''' then Some (wrap ErrInvalidRequest ''question instructions are empty'')
      else None)"

fun criteria_loop :: "string list \<Rightarrow> ChoiceCriterion list \<Rightarrow> go_error option" where
  "criteria_loop seen [] = None"
| "criteria_loop seen (c # cs) =
     (if crit_ID c = '''' then Some (wrap ErrInvalidRequest ''criterion has an empty ID'')
      else if crit_Description c = '''' then Some (wrap ErrInvalidRequest ''criterion has an empty description'')
      else if crit_ID c \<in> set seen then Some (wrap ErrInvalidRequest ''choice question repeats criterion'')
      else criteria_loop (crit_ID c # seen) cs)"

definition ChoiceQuestion_validate :: "ChoiceQuestion \<Rightarrow> go_error option" where
  "ChoiceQuestion_validate q =
     (case validateQuestionHeader (cq_id q) (cq_instructions q) of
        Some e \<Rightarrow> Some e
      | None \<Rightarrow>
          (if length (cq_criteria q) < 2
           then Some (wrap ErrInvalidRequest ''choice question has fewer than two criteria'')
           else criteria_loop [] (cq_criteria q)))"

definition NewChoiceQuestion :: "string \<Rightarrow> string \<Rightarrow> ChoiceCriterion list \<Rightarrow> ChoiceQuestion res" where
  "NewChoiceQuestion qid instructions criteria =
     (let q = \<lparr>cq_id = qid, cq_instructions = instructions, cq_criteria = criteria\<rparr>
      in check_then (ChoiceQuestion_validate q) (Ok q))"

fun rubric_loop :: "string list \<Rightarrow> ScoreLevel list \<Rightarrow> go_error option" where
  "rubric_loop seen [] = None"
| "rubric_loop seen (l # ls) =
     (if lvl_Label l = '''' then Some (wrap ErrInvalidRequest ''level has an empty label'')
      else if lvl_Description l = '''' then Some (wrap ErrInvalidRequest ''level has an empty description'')
      else if lvl_Label l \<in> set seen then Some (wrap ErrInvalidRequest ''score question repeats level label'')
      else rubric_loop (lvl_Label l # seen) ls)"

definition ScoreQuestion_validate :: "ScoreQuestion \<Rightarrow> go_error option" where
  "ScoreQuestion_validate q =
     (case validateQuestionHeader (sq_id q) (sq_instructions q) of
        Some e \<Rightarrow> Some e
      | None \<Rightarrow>
          (if length (sq_rubric q) < 2
           then Some (wrap ErrInvalidRequest ''score question has fewer than two levels'')
           else rubric_loop [] (sq_rubric q)))"

definition NewScoreQuestion :: "string \<Rightarrow> string \<Rightarrow> ScoreLevel list \<Rightarrow> ScoreQuestion res" where
  "NewScoreQuestion qid instructions rubric =
     (let q = \<lparr>sq_id = qid, sq_instructions = instructions, sq_rubric = rubric\<rparr>
      in check_then (ScoreQuestion_validate q) (Ok q))"

definition NoulQuestion_validate :: "NoulQuestion \<Rightarrow> go_error option" where
  "NoulQuestion_validate q = validateQuestionHeader (nq_id q) (nq_instructions q)"

definition NewNoulQuestion :: "string \<Rightarrow> string \<Rightarrow> string \<Rightarrow> string \<Rightarrow> NoulQuestion res" where
  "NewNoulQuestion qid instructions falseDescription trueDescription =
     (let q = \<lparr>nq_id = qid, nq_instructions = instructions,
               nq_falseDescription = falseDescription, nq_trueDescription = trueDescription\<rparr>
      in check_then (NoulQuestion_validate q) (Ok q))"

definition validateQuestion :: "Question \<Rightarrow> go_error option" where
  "validateQuestion q =
     (case q of
        ChoiceQ c \<Rightarrow> ChoiceQuestion_validate c
      | ChoiceQPtr None \<Rightarrow> Some (wrap ErrInvalidRequest ''choice question is nil'')
      | ChoiceQPtr (Some c) \<Rightarrow> ChoiceQuestion_validate c
      | ScoreQ s \<Rightarrow> ScoreQuestion_validate s
      | ScoreQPtr None \<Rightarrow> Some (wrap ErrInvalidRequest ''score question is nil'')
      | ScoreQPtr (Some s) \<Rightarrow> ScoreQuestion_validate s
      | NoulQ n \<Rightarrow> NoulQuestion_validate n
      | NoulQPtr None \<Rightarrow> Some (wrap ErrInvalidRequest ''noul question is nil'')
      | NoulQPtr (Some n) \<Rightarrow> NoulQuestion_validate n
      | OtherQuestion \<Rightarrow> Some (wrap ErrInvalidRequest ''unsupported question type''))"

text \<open>The method \<open>ID\<close> through the interface: a nil receiver panics.\<close>

definition Question_ID :: "Question \<Rightarrow> string res" where
  "Question_ID q =
     (case q of
        ChoiceQ c \<Rightarrow> Ok (cq_id c) | ChoiceQPtr (Some c) \<Rightarrow> Ok (cq_id c)
      | ScoreQ s \<Rightarrow> Ok (sq_id s) | ScoreQPtr (Some s) \<Rightarrow> Ok (sq_id s)
      | NoulQ n \<Rightarrow> Ok (nq_id n) | NoulQPtr (Some n) \<Rightarrow> Ok (nq_id n)
      | _ \<Rightarrow> Panic)"

fun questions_loop :: "string list \<Rightarrow> Question list \<Rightarrow> unit res" where
  "questions_loop seen [] = Ok ()"
| "questions_loop seen (q # qs) =
     (case validateQuestion q of
        Some e \<Rightarrow> Err (Errorf ''question'' [e])
      | None \<Rightarrow>
          res_bind (Question_ID q) (\<lambda>qid.
            if qid \<in> set seen then Err (wrap ErrInvalidRequest ''repeated question ID'')
            else questions_loop (qid # seen) qs))"

definition validateQuestions :: "Question list \<Rightarrow> unit res" where
  "validateQuestions qs =
     (if length qs = 0 then Err (wrap ErrInvalidRequest ''questions are empty'')
      else questions_loop [] qs)"

subsection \<open>What the validators accept\<close>

lemma validateQuestionHeader_None_iff [ok_simps]:
  "validateQuestionHeader i t = None \<longleftrightarrow> i \<noteq> '''' \<and> t \<noteq> ''''"
  by (simp add: validateQuestionHeader_def)

definition criterion_ok :: "ChoiceCriterion \<Rightarrow> bool" where
  "criterion_ok c \<longleftrightarrow> crit_ID c \<noteq> '''' \<and> crit_Description c \<noteq> ''''"

definition level_ok :: "ScoreLevel \<Rightarrow> bool" where
  "level_ok l \<longleftrightarrow> lvl_Label l \<noteq> '''' \<and> lvl_Description l \<noteq> ''''"

lemma criteria_loop_None_iff:
  "criteria_loop seen cs = None \<longleftrightarrow>
     list_all criterion_ok cs \<and> distinct (map crit_ID cs) \<and> set seen \<inter> crit_ID ` set cs = {}"
  by (induction seen cs rule: criteria_loop.induct) (auto simp: criterion_ok_def)

lemma rubric_loop_None_iff:
  "rubric_loop seen ls = None \<longleftrightarrow>
     list_all level_ok ls \<and> distinct (map lvl_Label ls) \<and> set seen \<inter> lvl_Label ` set ls = {}"
  by (induction seen ls rule: rubric_loop.induct) (auto simp: level_ok_def)

lemma ChoiceQuestion_validate_None_iff [ok_simps]:
  "ChoiceQuestion_validate q = None \<longleftrightarrow>
     cq_id q \<noteq> '''' \<and> cq_instructions q \<noteq> '''' \<and> 2 \<le> length (cq_criteria q) \<and>
     list_all criterion_ok (cq_criteria q) \<and> distinct (map crit_ID (cq_criteria q))"
  by (auto simp: ChoiceQuestion_validate_def validateQuestionHeader_def criteria_loop_None_iff)

lemma ScoreQuestion_validate_None_iff [ok_simps]:
  "ScoreQuestion_validate q = None \<longleftrightarrow>
     sq_id q \<noteq> '''' \<and> sq_instructions q \<noteq> '''' \<and> 2 \<le> length (sq_rubric q) \<and>
     list_all level_ok (sq_rubric q) \<and> distinct (map lvl_Label (sq_rubric q))"
  by (auto simp: ScoreQuestion_validate_def validateQuestionHeader_def rubric_loop_None_iff)

lemma NoulQuestion_validate_None_iff [ok_simps]:
  "NoulQuestion_validate q = None \<longleftrightarrow> nq_id q \<noteq> '''' \<and> nq_instructions q \<noteq> ''''"
  by (simp add: NoulQuestion_validate_def ok_simps)

text \<open>The struct behind an interface value, pointers followed.\<close>

definition deref :: "Question \<Rightarrow> Question option" where
  "deref q =
     (case q of
        ChoiceQPtr p \<Rightarrow> map_option ChoiceQ p
      | ScoreQPtr p \<Rightarrow> map_option ScoreQ p
      | NoulQPtr p \<Rightarrow> map_option NoulQ p
      | OtherQuestion \<Rightarrow> None
      | _ \<Rightarrow> Some q)"

lemma validateQuestion_deref: "validateQuestion q = None \<Longrightarrow> \<exists>v. deref q = Some v \<and> validateQuestion v = None"
  by (auto simp: validateQuestion_def deref_def split: Question.splits option.splits)

lemma validateQuestion_ID: "validateQuestion q = None \<Longrightarrow> \<exists>i. Question_ID q = Ok i \<and> i \<noteq> ''''"
  by (auto simp: validateQuestion_def Question_ID_def ok_simps split: Question.splits option.splits)

definition question_key :: "Question \<Rightarrow> string" where
  "question_key q = (case Question_ID q of Ok i \<Rightarrow> i | _ \<Rightarrow> '''')"

lemma questions_loop_Ok_iff:
  "questions_loop seen qs = Ok u \<longleftrightarrow>
     list_all (\<lambda>q. validateQuestion q = None) qs \<and> distinct (map question_key qs) \<and>
     set seen \<inter> question_key ` set qs = {}"
proof (induction qs arbitrary: seen)
  case (Cons q qs)
  show ?case
  proof (cases "validateQuestion q")
    case None
    then obtain i where "Question_ID q = Ok i" using validateQuestion_ID by blast
    with None Cons.IH show ?thesis by (auto simp: question_key_def)
  qed simp
qed simp

lemma questions_loop_no_panic: "questions_loop seen qs \<noteq> Panic"
proof (induction qs arbitrary: seen)
  case (Cons q qs)
  then show ?case
    using validateQuestion_ID [of q] by (auto split: option.splits if_splits)
qed simp

lemma validateQuestions_Ok_iff:
  "validateQuestions qs = Ok u \<longleftrightarrow>
     qs \<noteq> [] \<and> list_all (\<lambda>q. validateQuestion q = None) qs \<and> distinct (map question_key qs)"
  by (auto simp: validateQuestions_def questions_loop_Ok_iff)

lemma validateQuestions_no_panic: "validateQuestions qs \<noteq> Panic"
  by (simp add: validateQuestions_def questions_loop_no_panic)

lemma header_error: "validateQuestionHeader i t = Some e \<Longrightarrow> errors_is e ErrInvalidRequest"
  by (auto simp: validateQuestionHeader_def split: if_splits)

lemma criteria_loop_error: "criteria_loop seen cs = Some e \<Longrightarrow> errors_is e ErrInvalidRequest"
  by (induction seen cs rule: criteria_loop.induct) (auto split: if_splits)

lemma rubric_loop_error: "rubric_loop seen ls = Some e \<Longrightarrow> errors_is e ErrInvalidRequest"
  by (induction seen ls rule: rubric_loop.induct) (auto split: if_splits)

lemma validateQuestion_error: "validateQuestion q = Some e \<Longrightarrow> errors_is e ErrInvalidRequest"
  by (auto simp: validateQuestion_def ChoiceQuestion_validate_def ScoreQuestion_validate_def
      NoulQuestion_validate_def dest: header_error criteria_loop_error rubric_loop_error
      split: Question.splits option.splits if_splits)

lemma validateQuestions_error: "validateQuestions qs = Err e \<Longrightarrow> errors_is e ErrInvalidRequest"
proof -
  have "questions_loop seen qs = Err e \<Longrightarrow> errors_is e ErrInvalidRequest" for seen
  proof (induction qs arbitrary: seen)
    case (Cons q qs)
    then show ?case
      using validateQuestion_ID [of q]
      by (auto dest: validateQuestion_error split: option.splits if_splits)
  qed simp
  then show "validateQuestions qs = Err e \<Longrightarrow> errors_is e ErrInvalidRequest"
    by (auto simp: validateQuestions_def split: if_splits)
qed

end
