(* ===== verification/Laya_Float.thy ===== *)
theory Laya_Float
  imports Complex_Main Laya_Prelude
begin

text \<open>
  Go's \<open>float64\<close>. A finite value is the rational it denotes; NaN and the infinities are
  values of their own, and comparison, \<open>min\<close>, \<open>max\<close> and the arithmetic
  operators follow IEEE 754 on them. Every arithmetic result is the exact rational result
  rounded to the nearest binary64 value, ties to even, overflow to an infinity
  (\<open>round64\<close>). Zero has no sign here: nothing in the program reads it. A
  \<open>float32\<close> is a \<open>float64\<close> that binary32 can hold, so Go's conversion to
  \<open>float64\<close> is the identity.

  The laws the numeric components rest on are stated once, in the locale \<open>rounding\<close>,
  and proved of binary64 by its interpretation.
\<close>

subsection \<open>Binary logarithm of a positive rational\<close>

fun nlog2 :: "nat \<Rightarrow> nat" where
  "nlog2 n = (if n < 2 then 0 else Suc (nlog2 (n div 2)))"

declare nlog2.simps [simp del]

lemma nlog2_bounds: "0 < n \<Longrightarrow> 2 ^ nlog2 n \<le> n \<and> n < 2 ^ Suc (nlog2 n)"
proof (induction n rule: nlog2.induct)
  case (1 n)
  show ?case
  proof (cases "n < 2")
    case True
    with 1 show ?thesis by (simp add: nlog2.simps [of n])
  next
    case False
    with 1 have "2 ^ nlog2 (n div 2) \<le> n div 2 \<and> n div 2 < 2 ^ Suc (nlog2 (n div 2))" by simp
    with False show ?thesis by (auto simp: nlog2.simps [of n])
  qed
qed

abbreviation pow2 :: "int \<Rightarrow> rat" where
  "pow2 k \<equiv> 2 powi k"

definition ilog2 :: "rat \<Rightarrow> int" where
  "ilog2 q =
     (let (a, b) = quotient_of q; t = int (nlog2 (nat a)) - int (nlog2 (nat b))
      in if pow2 t \<le> q then t else t - 1)"

lemma pow2_pos [simp]: "0 < pow2 k"
  by (simp add: zero_less_power_int)

lemma pow2_add: "pow2 (j + k) = pow2 j * pow2 k"
  by (simp add: power_int_add)

lemma pow2_mono: "j \<le> k \<Longrightarrow> pow2 j \<le> pow2 k"
  by (simp add: power_int_increasing)

lemma pow2_less_iff: "pow2 j < pow2 k \<longleftrightarrow> j < k"
proof
  assume "pow2 j < pow2 k"
  then show "j < k" using pow2_mono [of k j] by (meson leD leI)
qed (simp add: power_int_strict_increasing)

lemma pow2_nat: "0 \<le> k \<Longrightarrow> pow2 k = of_int (2 ^ nat k)"
  by (simp add: power_int_def)

lemma pow2_diff: "pow2 j / pow2 k = pow2 (j - k)"
  by (simp add: power_int_diff)

lemma of_nat_pow2: "(of_nat (2 ^ n) :: rat) = pow2 (int n)"
  by (simp add: power_int_def)

lemma ilog2_bounds:
  assumes "0 < q"
  shows "pow2 (ilog2 q) \<le> q" and "q < pow2 (ilog2 q + 1)"
proof -
  obtain a b where ab: "quotient_of q = (a, b)" by (cases "quotient_of q")
  have b: "0 < b" using ab quotient_of_denom_pos by blast
  have q: "q = of_int a / of_int b" using ab quotient_of_div by blast
  with assms b have a: "0 < a" by (simp add: zero_less_divide_iff)
  define m where "m = nlog2 (nat a)"
  define n where "n = nlog2 (nat b)"
  have A: "pow2 (int m) \<le> of_int a" "of_int a < pow2 (int m + 1)"
  proof -
    have "2 ^ m \<le> nat a" "nat a < 2 ^ Suc m" using nlog2_bounds [of "nat a"] a m_def by auto
    then have "(of_nat (2 ^ m) :: rat) \<le> of_nat (nat a)" "(of_nat (nat a) :: rat) < of_nat (2 ^ Suc m)"
      by (simp_all only: of_nat_le_iff of_nat_less_iff)
    with a show "pow2 (int m) \<le> of_int a" "of_int a < pow2 (int m + 1)"
      by (simp_all only: of_nat_pow2, simp_all add: ac_simps)
  qed
  have B: "pow2 (int n) \<le> of_int b" "of_int b < pow2 (int n + 1)"
  proof -
    have "2 ^ n \<le> nat b" "nat b < 2 ^ Suc n" using nlog2_bounds [of "nat b"] b n_def by auto
    then have "(of_nat (2 ^ n) :: rat) \<le> of_nat (nat b)" "(of_nat (nat b) :: rat) < of_nat (2 ^ Suc n)"
      by (simp_all only: of_nat_le_iff of_nat_less_iff)
    with b show "pow2 (int n) \<le> of_int b" "of_int b < pow2 (int n + 1)"
      by (simp_all only: of_nat_pow2, simp_all add: ac_simps)
  qed
  have bpos: "(0::rat) < of_int b" using b by simp
  have lo: "pow2 (int m - int n - 1) < q"
  proof -
    have "pow2 (int m - int n - 1) * of_int b < pow2 (int m - int n - 1) * pow2 (int n + 1)"
      using B(2) by (rule mult_strict_left_mono) simp
    also have "\<dots> = pow2 (int m)" by (simp add: pow2_add [symmetric])
    also have "\<dots> \<le> of_int a" by (rule A(1))
    finally show ?thesis using bpos by (simp add: q pos_less_divide_eq)
  qed
  have hi: "q < pow2 (int m - int n + 1)"
  proof -
    have "of_int a < pow2 (int m + 1)" by (rule A(2))
    also have "\<dots> = pow2 (int m - int n + 1) * pow2 (int n)" by (subst pow2_add [symmetric]) simp
    also have "\<dots> \<le> pow2 (int m - int n + 1) * of_int b"
      using B(1) by (rule mult_left_mono) (simp add: less_imp_le)
    finally show ?thesis using bpos by (simp add: q pos_divide_less_eq)
  qed
  show "pow2 (ilog2 q) \<le> q" "q < pow2 (ilog2 q + 1)"
    using lo hi by (auto simp: ilog2_def ab m_def n_def Let_def)
qed

lemma ilog2_mono:
  assumes "0 < x" and "x \<le> y"
  shows "ilog2 x \<le> ilog2 y"
proof -
  have "pow2 (ilog2 x) < pow2 (ilog2 y + 1)"
    using ilog2_bounds [of x] ilog2_bounds [of y] assms by linarith
  then show ?thesis by (simp add: pow2_less_iff)
qed

subsection \<open>Rounding half to even\<close>

definition round_even :: "rat \<Rightarrow> int" where
  "round_even q =
     (let f = \<lfloor>q\<rfloor>; d = q - of_int f
      in if d < 1 / 2 then f else if 1 / 2 < d then f + 1 else if even f then f else f + 1)"

lemma round_even_of_int [simp]: "round_even (of_int n) = n"
  by (simp add: round_even_def)

lemma round_even_near: "\<bar>of_int (round_even q) - q\<bar> \<le> 1 / 2"
proof -
  have fl: "of_int \<lfloor>q\<rfloor> \<le> q" "q < of_int \<lfloor>q\<rfloor> + 1" by linarith+
  have "round_even q = \<lfloor>q\<rfloor> \<and> q - of_int \<lfloor>q\<rfloor> \<le> 1 / 2 \<or>
        round_even q = \<lfloor>q\<rfloor> + 1 \<and> 1 / 2 \<le> q - of_int \<lfloor>q\<rfloor>"
    by (auto simp: round_even_def Let_def)
  then have "of_int (round_even q) - q \<le> 1 / 2 \<and> - (of_int (round_even q) - q) \<le> 1 / 2"
    using fl by (elim disjE conjE; intro conjI; simp only: of_int_add of_int_1; linarith)
  then show ?thesis by (simp only: abs_le_iff)
qed

lemma round_even_mono:
  assumes "x \<le> y"
  shows "round_even x \<le> round_even y"
proof (cases "\<lfloor>x\<rfloor> = \<lfloor>y\<rfloor>")
  case True
  with assms show ?thesis by (auto simp: round_even_def Let_def)
next
  case False
  with assms have "\<lfloor>x\<rfloor> + 1 \<le> \<lfloor>y\<rfloor>" by (simp add: floor_mono order_less_le zless_imp_add1_zle)
  moreover have "round_even x \<le> \<lfloor>x\<rfloor> + 1" "\<lfloor>y\<rfloor> \<le> round_even y"
    by (simp_all add: round_even_def Let_def)
  ultimately show ?thesis by linarith
qed

lemma round_even_minus: "round_even (- q) = - round_even q"
proof -
  define f where "f = \<lfloor>q\<rfloor>"
  define d where "d = q - of_int f"
  have d: "0 \<le> d" "d < 1" unfolding d_def f_def by linarith+
  show ?thesis
  proof (cases "d = 0")
    case True
    then have "q = of_int f" by (simp add: d_def)
    then show ?thesis by (metis of_int_minus round_even_of_int)
  next
    case False
    have fl: "\<lfloor>- q\<rfloor> = - f - 1"
      using d False by (intro floor_unique) (auto simp: d_def)
    have dd: "- q - of_int (- f - 1) = 1 - d" by (simp add: d_def)
    have 1: "round_even q = (if d < 1 / 2 then f else if 1 / 2 < d then f + 1 else if even f then f else f + 1)"
      by (simp add: round_even_def Let_def f_def d_def)
    have 2: "round_even (- q) = (if 1 - d < 1 / 2 then - f - 1 else if 1 / 2 < 1 - d then - f
        else if even (- f - 1) then - f - 1 else - f)"
      unfolding round_even_def Let_def fl dd by simp
    show ?thesis unfolding 1 2 by auto
  qed
qed

lemma round_even_zero [simp]: "round_even 0 = 0"
  using round_even_of_int [of 0] by simp

subsection \<open>The binary64 grid\<close>

definition grid_exp :: "rat \<Rightarrow> int" where
  "grid_exp q = max (- 1074) (ilog2 \<bar>q\<bar> - 52)"

definition rnd :: "rat \<Rightarrow> rat" where
  "rnd q = (if q = 0 then 0
            else of_int (round_even (q / pow2 (grid_exp q))) * pow2 (grid_exp q))"

definition on_grid :: "rat \<Rightarrow> bool" where
  "on_grid r \<longleftrightarrow> (\<exists>m e. r = of_int m * pow2 e \<and> \<bar>m\<bar> \<le> 2 ^ 53 \<and> - 1074 \<le> e)"

lemma rnd_minus: "rnd (- q) = - rnd q"
  by (simp add: rnd_def grid_exp_def round_even_minus minus_divide_left [symmetric])

lemma rnd_nonneg: "0 \<le> q \<Longrightarrow> 0 \<le> rnd q"
proof (cases "q = 0")
  case False
  assume "0 \<le> q"
  then have "round_even 0 \<le> round_even (q / pow2 (grid_exp q))"
    by (intro round_even_mono) (simp add: less_imp_le)
  with False show ?thesis by (simp add: rnd_def less_imp_le)
qed (simp add: rnd_def)

lemma rnd_mono_pos:
  assumes "0 < x" and "x \<le> y"
  shows "rnd x \<le> rnd y"
proof -
  define a where "a = grid_exp x"
  define b where "b = grid_exp y"
  have ab: "a \<le> b"
    using ilog2_mono [OF assms] assms by (simp add: a_def b_def grid_exp_def abs_of_pos)
  have rx: "rnd x = of_int (round_even (x / pow2 a)) * pow2 a"
    and ry: "rnd y = of_int (round_even (y / pow2 b)) * pow2 b"
    using assms by (simp_all add: rnd_def a_def b_def)
  show ?thesis
  proof (cases "a = b")
    case True
    have "round_even (x / pow2 a) \<le> round_even (y / pow2 a)"
      using assms(2) by (intro round_even_mono) (simp add: divide_right_mono less_imp_le)
    with True show ?thesis by (simp add: rx ry mult_right_mono less_imp_le)
  next
    case False
    with ab have less: "a < b" by simp
    have bi: "b = ilog2 y - 52" and ai: "ilog2 x - 52 \<le> a"
      using less assms by (auto simp: a_def b_def grid_exp_def abs_of_pos)
    define B where "B = pow2 (b + 52)"
    have y: "B \<le> y" using ilog2_bounds(1) [of y] assms by (simp add: B_def bi)
    have "x < pow2 (ilog2 x + 1)" using ilog2_bounds(2) assms(1) by blast
    also have "\<dots> \<le> B" unfolding B_def using ai less by (intro pow2_mono) simp
    finally have x: "x \<le> B" by simp
    have "rnd x \<le> B"
    proof -
      have Ba: "B / pow2 a = of_int (2 ^ nat (b + 52 - a))"
        using less by (simp add: B_def pow2_diff pow2_nat)
      have "x / pow2 a \<le> of_int (2 ^ nat (b + 52 - a))"
        unfolding Ba [symmetric] using x by (intro divide_right_mono) (simp_all add: less_imp_le)
      then have "round_even (x / pow2 a) \<le> 2 ^ nat (b + 52 - a)"
        using round_even_mono round_even_of_int by metis
      then have "rnd x \<le> of_int (2 ^ nat (b + 52 - a)) * pow2 a"
        unfolding rx by (intro mult_right_mono) (simp_all only: of_int_le_iff, simp add: less_imp_le)
      also have "\<dots> = B" using Ba by (simp add: field_simps)
      finally show ?thesis .
    qed
    also have "B \<le> rnd y"
    proof -
      have Bb: "B / pow2 b = of_int (2 ^ 52)"
        by (simp add: B_def pow2_diff pow2_nat)
      have "of_int (2 ^ 52) \<le> y / pow2 b"
        unfolding Bb [symmetric] using y by (intro divide_right_mono) (simp_all add: less_imp_le)
      then have "2 ^ 52 \<le> round_even (y / pow2 b)"
        using round_even_mono round_even_of_int by metis
      then have "of_int (2 ^ 52) * pow2 b \<le> rnd y"
        unfolding ry by (intro mult_right_mono) (simp_all only: of_int_le_iff, simp add: less_imp_le)
      moreover have "of_int (2 ^ 52) * pow2 b = B" using Bb by (simp add: field_simps)
      ultimately show ?thesis by simp
    qed
    finally show ?thesis .
  qed
qed

lemma rnd_mono:
  assumes "x \<le> y"
  shows "rnd x \<le> rnd y"
proof -
  consider "0 < x" | "x \<le> 0" "0 \<le> y" | "y < 0" by linarith
  then show ?thesis
  proof cases
    case 1
    then show ?thesis using assms by (rule rnd_mono_pos)
  next
    case 2
    then have "0 \<le> rnd (- x)" "0 \<le> rnd y" by (simp_all add: rnd_nonneg)
    then show ?thesis by (simp add: rnd_minus)
  next
    case 3
    then have "rnd (- y) \<le> rnd (- x)" using assms by (intro rnd_mono_pos) simp_all
    then show ?thesis by (simp add: rnd_minus)
  qed
qed

lemma rnd_zero [simp]: "rnd 0 = 0"
  by (simp add: rnd_def)

lemma rnd_exact:
  assumes "on_grid r"
  shows "rnd r = r"
proof (cases "r = 0")
  case False
  from assms obtain m e where r: "r = of_int m * pow2 e" and m: "\<bar>m\<bar> \<le> 2 ^ 53" and e: "- 1074 \<le> e"
    unfolding on_grid_def by blast
  have pos: "0 < \<bar>r\<bar>" using False by simp
  have "pow2 (ilog2 \<bar>r\<bar>) \<le> \<bar>r\<bar>" using ilog2_bounds(1) pos by blast
  also have abs: "\<bar>r\<bar> = of_int \<bar>m\<bar> * pow2 e" by (simp add: r abs_mult)
  also have "\<dots> \<le> of_int (2 ^ 53) * pow2 e"
    using m by (intro mult_right_mono) (simp_all only: of_int_le_iff, simp add: less_imp_le)
  also have "\<dots> = pow2 (53 + e)" by (simp add: pow2_add pow2_nat)
  finally have le: "ilog2 \<bar>r\<bar> \<le> 53 + e" using pow2_less_iff [of "53 + e" "ilog2 \<bar>r\<bar>"] by (meson leD leI)
  have int: "\<exists>k. r / pow2 (grid_exp r) = of_int k"
  proof (cases "grid_exp r \<le> e")
    case True
    have "r / pow2 (grid_exp r) = of_int m * pow2 (e - grid_exp r)"
      by (simp add: r pow2_diff [symmetric])
    also have "\<dots> = of_int (m * 2 ^ nat (e - grid_exp r))"
      using True by (simp add: pow2_nat)
    finally show ?thesis by blast
  next
    case ne: False
    with le e have g: "grid_exp r = e + 1" and top: "ilog2 \<bar>r\<bar> = 53 + e"
      by (auto simp: grid_exp_def)
    have "pow2 (53 + e) \<le> \<bar>r\<bar>"
      using ilog2_bounds(1) [OF pos] unfolding top .
    then have "pow2 (53 + e) \<le> of_int \<bar>m\<bar> * pow2 e" unfolding abs .
    then have "of_int (2 ^ 53) \<le> (of_int \<bar>m\<bar> :: rat)"
      by (simp add: pow2_add pow2_nat)
    then have "2 ^ 53 \<le> \<bar>m\<bar>" by (simp only: of_int_le_iff)
    with m have "\<bar>m\<bar> = 2 ^ 53" by simp
    then have "m = 2 * 2 ^ 52 \<or> m = 2 * - (2 ^ 52)" by (auto simp: abs_if split: if_splits)
    then obtain k where k: "m = 2 * k" by blast
    have "r / pow2 (grid_exp r) = of_int k"
      unfolding g by (simp add: r k pow2_add)
    then show ?thesis by blast
  qed
  then obtain k where k: "r / pow2 (grid_exp r) = of_int k" by blast
  then have "rnd r = r / pow2 (grid_exp r) * pow2 (grid_exp r)"
    using False by (simp add: rnd_def)
  then show ?thesis using pow2_pos [of "grid_exp r"] by simp
qed simp

lemma rnd_on_grid: "on_grid (rnd q)"
proof (cases "q = 0")
  case True
  show ?thesis unfolding on_grid_def
    by (rule exI [of _ 0], rule exI [of _ 0]) (simp add: True)
next
  case False
  define e where "e = grid_exp q"
  have pos: "0 < \<bar>q\<bar>" using False by simp
  have less: "\<bar>q\<bar> < pow2 (ilog2 \<bar>q\<bar> + 1)" using ilog2_bounds(2) pos by blast
  have ge: "ilog2 \<bar>q\<bar> + 1 \<le> 53 + e" by (simp add: e_def grid_exp_def)
  have "\<bar>q\<bar> / pow2 e \<le> pow2 (53 + e) / pow2 e"
    using less pow2_mono [OF ge] by (intro divide_right_mono) (simp_all add: less_imp_le)
  also have "\<dots> = of_int (2 ^ 53)" by (simp add: pow2_diff pow2_nat)
  finally have "\<bar>q\<bar> / pow2 e \<le> of_int (2 ^ 53)" .
  then have "round_even \<bar>q / pow2 e\<bar> \<le> 2 ^ 53"
    using round_even_mono round_even_of_int abs_divide abs_of_pos [OF pow2_pos] by metis
  moreover have "\<bar>round_even (q / pow2 e)\<bar> \<le> \<bar>round_even \<bar>q / pow2 e\<bar>\<bar>"
    by (simp add: abs_if round_even_minus)
  moreover have "0 \<le> round_even \<bar>q / pow2 e\<bar>"
    using round_even_mono [of 0 "\<bar>q / pow2 e\<bar>"] by simp
  ultimately have "\<bar>round_even (q / pow2 e)\<bar> \<le> 2 ^ 53" by linarith
  moreover have "- 1074 \<le> e" by (simp add: e_def grid_exp_def)
  ultimately show ?thesis
    unfolding on_grid_def using False
    by (intro exI [of _ "round_even (q / pow2 e)"] exI [of _ e]) (simp add: rnd_def e_def)
qed

lemma on_grid_of_int: "\<bar>n\<bar> \<le> 2 ^ 53 \<Longrightarrow> on_grid (of_int n)"
  unfolding on_grid_def by (rule exI [of _ n], rule exI [of _ 0]) simp

lemma on_grid_pow2: "- 1074 \<le> e \<Longrightarrow> on_grid (pow2 e)"
  unfolding on_grid_def by (intro exI [of _ 1] exI [of _ e]) simp

lemma on_grid_minus: "on_grid r \<Longrightarrow> on_grid (- r)"
proof -
  assume "on_grid r"
  then obtain m e where "r = of_int m * pow2 e" "\<bar>m\<bar> \<le> 2 ^ 53" "- 1074 \<le> e"
    unfolding on_grid_def by blast
  then show ?thesis
    unfolding on_grid_def by (intro exI [of _ "- m"] exI [of _ e]) simp
qed

subsection \<open>The laws of rounding\<close>

text \<open>
  What the clients use of rounding: it is monotone, leaves the values of the format alone, lands
  in the format, and the format holds the integers up to the precision.
\<close>

locale rounding =
  fixes rd :: "rat \<Rightarrow> rat" and grid :: "rat \<Rightarrow> bool"
  assumes rd_mono: "x \<le> y \<Longrightarrow> rd x \<le> rd y"
    and rd_exact: "grid r \<Longrightarrow> rd r = r"
    and rd_grid: "grid (rd q)"
    and grid_int: "\<bar>n\<bar> \<le> 2 ^ 53 \<Longrightarrow> grid (of_int n)"
begin

lemma rd_le: "q \<le> b \<Longrightarrow> grid b \<Longrightarrow> rd q \<le> b"
  using rd_mono rd_exact by metis

lemma rd_ge: "b \<le> q \<Longrightarrow> grid b \<Longrightarrow> b \<le> rd q"
  using rd_mono rd_exact by metis

lemma grid_0: "grid 0" and grid_1: "grid 1"
  using grid_int [of 0] grid_int [of 1] by simp_all

lemma rd_nonneg: "0 \<le> q \<Longrightarrow> 0 \<le> rd q"
  using rd_ge grid_0 by blast

lemma rd_unit: "0 \<le> q \<Longrightarrow> q \<le> 1 \<Longrightarrow> 0 \<le> rd q \<and> rd q \<le> 1"
  using rd_ge rd_le grid_0 grid_1 by blast

text \<open>Accumulating non-negative terms never loses what is already accumulated.\<close>

lemma rd_add_ge: "grid s \<Longrightarrow> 0 \<le> x \<Longrightarrow> s \<le> rd (s + x)"
  using rd_ge [of s "s + x"] by simp

text \<open>A running sum of terms in the unit interval is bounded by their number.\<close>

lemma fold_sum_bounds:
  assumes "\<forall>x\<in>set xs. 0 \<le> x \<and> x \<le> 1" and "grid s" and "0 \<le> s" and "s \<le> of_nat k"
    and "k + length xs \<le> 2 ^ 53"
  shows "grid (fold (\<lambda>x s. rd (s + x)) xs s) \<and> s \<le> fold (\<lambda>x s. rd (s + x)) xs s \<and>
         fold (\<lambda>x s. rd (s + x)) xs s \<le> of_nat (k + length xs)"
  using assms
proof (induction xs arbitrary: s k)
  case (Cons x xs)
  have x: "0 \<le> x" "x \<le> 1" using Cons.prems(1) by auto
  have g: "grid (rd (s + x))" by (rule rd_grid)
  have ge: "s \<le> rd (s + x)" using Cons.prems(2) x(1) by (rule rd_add_ge)
  have gk: "grid (of_nat (Suc k))"
    using grid_int [of "int (Suc k)"] Cons.prems(5) by simp
  have "rd (s + x) \<le> of_nat (Suc k)"
    using Cons.prems(4) x(2) gk by (intro rd_le) simp_all
  then have "s \<le> fold (\<lambda>x s. rd (s + x)) xs (rd (s + x)) \<and>
        fold (\<lambda>x s. rd (s + x)) xs (rd (s + x)) \<le> of_nat (Suc k + length xs) \<and>
        grid (fold (\<lambda>x s. rd (s + x)) xs (rd (s + x)))"
    using Cons.IH [of "rd (s + x)" "Suc k"] Cons.prems g ge by auto
  then show ?case by simp
qed simp

lemma fold_nonneg: "\<forall>x\<in>set xs. 0 \<le> x \<Longrightarrow> 0 \<le> s \<Longrightarrow> 0 \<le> fold (\<lambda>x s. rd (s + x)) xs s"
  by (induction xs arbitrary: s) (simp_all add: rd_nonneg)

text \<open>If one of the terms is the value \<open>v\<close> the sum is at least \<open>v\<close>.\<close>

lemma fold_sum_ge_member:
  assumes "\<forall>x\<in>set xs. 0 \<le> x" and "grid s" and "0 \<le> s" and "v \<in> set xs" and "grid v"
  shows "v \<le> fold (\<lambda>x s. rd (s + x)) xs s"
proof -
  have mono: "t \<le> fold (\<lambda>x s. rd (s + x)) ys t" if "\<forall>x\<in>set ys. 0 \<le> x" "grid t" for ys t
    using that
  proof (induction ys arbitrary: t)
    case (Cons y ys)
    have "t \<le> rd (t + y)" using Cons.prems by (intro rd_add_ge) auto
    also have "\<dots> \<le> fold (\<lambda>x s. rd (s + x)) ys (rd (t + y))"
      using Cons.prems by (intro Cons.IH) (auto intro: rd_grid)
    finally show ?case by simp
  qed simp
  show ?thesis
    using assms
  proof (induction xs arbitrary: s)
    case (Cons y ys)
    show ?case
    proof (cases "v = y")
      case True
      have "v \<le> rd (s + y)" using Cons.prems True by (intro rd_ge) auto
      also have "\<dots> \<le> fold (\<lambda>x s. rd (s + x)) ys (rd (s + y))"
        using Cons.prems by (intro mono) (auto intro: rd_grid)
      finally show ?thesis by simp
    next
      case False
      have "v \<le> fold (\<lambda>x s. rd (s + x)) ys (rd (s + y))"
        using Cons.prems False by (intro Cons.IH rd_grid rd_nonneg) auto
      then show ?thesis by simp
    qed
  qed simp
qed

end

interpretation binary64: rounding rnd on_grid
  by unfold_locales (auto intro: rnd_mono rnd_exact rnd_on_grid on_grid_of_int)

subsection \<open>Rounding errors\<close>

locale accurate_rounding = rounding +
  fixes ulp :: rat and tiny :: rat
  assumes rd_error: "\<bar>rd q - q\<bar> \<le> \<bar>q\<bar> * ulp + tiny"
    and ulp_nonneg: "0 \<le> ulp"
begin

lemma grid_nat: "n \<le> 2 ^ 53 \<Longrightarrow> grid (of_nat n)"
proof -
  assume "n \<le> 2 ^ 53"
  then have "\<bar>int n\<bar> \<le> 2 ^ 53" by (metis abs_of_nat of_nat_le_iff of_nat_numeral of_nat_power)
  then have "grid (of_int (int n))" by (rule grid_int)
  then show ?thesis by (simp only: of_int_of_nat_eq)
qed

lemma rd_error_bound: "\<bar>q\<bar> \<le> b \<Longrightarrow> \<bar>rd q - q\<bar> \<le> b * ulp + tiny"
  using rd_error [of q] mult_right_mono [OF _ ulp_nonneg, of "\<bar>q\<bar>" b] by linarith

text \<open>The error of a running sum of terms in \<open>[0, c]\<close> whose partial sums stay below \<open>K\<close>.\<close>

lemma fold_sum_error:
  assumes "\<forall>x\<in>set xs. 0 \<le> x \<and> x \<le> of_nat c" and "0 \<le> s" and "s \<le> of_nat (k * c)"
    and "(k + length xs) * c \<le> K" and "K \<le> 2 ^ 53"
  shows "\<bar>fold (\<lambda>x s. rd (s + x)) xs s - (s + sum_list xs)\<bar> \<le> of_nat (length xs) * (of_nat K * ulp + tiny)"
  using assms
proof (induction xs arbitrary: s k)
  case (Cons x xs)
  have kc: "Suc k * c \<le> K" and rest: "(Suc k + length xs) * c \<le> K"
    using Cons.prems(4) by (simp_all add: algebra_simps)
  have x: "0 \<le> x" "x \<le> of_nat c" using Cons.prems(1) by auto
  have q: "s + x \<le> of_nat (Suc k * c)" using Cons.prems(3) x by (simp add: algebra_simps)
  have g: "grid (of_nat (Suc k * c))"
    using kc Cons.prems(5) by (intro grid_nat) (rule le_trans)
  have le: "rd (s + x) \<le> of_nat (Suc k * c)" using q g by (rule rd_le)
  have ge: "0 \<le> rd (s + x)" using Cons.prems(2) x by (intro rd_nonneg) simp
  have "(of_nat (Suc k * c) :: rat) \<le> of_nat K" using kc by (simp only: of_nat_le_iff)
  then have "\<bar>s + x\<bar> \<le> of_nat K" using q Cons.prems(2) x by simp
  then have err: "\<bar>rd (s + x) - (s + x)\<bar> \<le> of_nat K * ulp + tiny" by (rule rd_error_bound)
  have "\<bar>fold (\<lambda>x s. rd (s + x)) xs (rd (s + x)) - (rd (s + x) + sum_list xs)\<bar>
      \<le> of_nat (length xs) * (of_nat K * ulp + tiny)"
    using Cons.prems(1,5) ge le rest by (intro Cons.IH [of "rd (s + x)" "Suc k"]) auto
  with err show ?case by (simp add: algebra_simps abs_le_iff)
qed simp

end

lemma rnd_error: "\<bar>rnd q - q\<bar> \<le> \<bar>q\<bar> * pow2 (- 53) + pow2 (- 1075)"
proof (cases "q = 0")
  case False
  define g where "g = pow2 (grid_exp q)"
  have gpos: "0 < g" by (simp add: g_def)
  have "rnd q - q = (of_int (round_even (q / g)) - q / g) * g"
    using False gpos by (simp add: rnd_def g_def left_diff_distrib)
  then have "\<bar>rnd q - q\<bar> = \<bar>of_int (round_even (q / g)) - q / g\<bar> * g"
    using gpos by (simp add: abs_mult)
  also have "\<dots> \<le> 1 / 2 * g"
    using round_even_near gpos by (intro mult_right_mono) simp_all
  also have "\<dots> = pow2 (grid_exp q - 1)"
    unfolding g_def using pow2_diff [of "grid_exp q" 1] by simp
  also have "\<dots> \<le> \<bar>q\<bar> * pow2 (- 53) + pow2 (- 1075)"
  proof (cases "ilog2 \<bar>q\<bar> - 52 \<le> - 1074")
    case True
    then have e: "grid_exp q - 1 = - 1075" by (simp add: grid_exp_def)
    have "0 \<le> \<bar>q\<bar> * pow2 (- 53)" by (intro mult_nonneg_nonneg abs_ge_zero less_imp_le pow2_pos)
    then show ?thesis unfolding e by (rule add_increasing) simp
  next
    case ne: False
    then have "grid_exp q - 1 = ilog2 \<bar>q\<bar> + - 53" by (simp add: grid_exp_def)
    then have "pow2 (grid_exp q - 1) = pow2 (ilog2 \<bar>q\<bar>) * pow2 (- 53)" by (simp only: pow2_add)
    also have "\<dots> \<le> \<bar>q\<bar> * pow2 (- 53)"
      using ilog2_bounds(1) [of "\<bar>q\<bar>"] False by (intro mult_right_mono) (simp_all add: less_imp_le)
    finally show ?thesis using pow2_pos [of "- 1075"] by simp
  qed
  finally show ?thesis .
qed (simp add: less_imp_le)

text \<open>Half a unit in the last place, relative, and half of the smallest positive value.\<close>

definition ulp64 :: rat where "ulp64 = pow2 (- 53)"
definition tiny64 :: rat where "tiny64 = pow2 (- 1075)"

lemma ulp64_pos: "0 < ulp64" and tiny64_nonneg: "0 \<le> tiny64" and tiny64_le: "tiny64 \<le> ulp64"
  unfolding ulp64_def tiny64_def by (rule pow2_pos, rule less_imp_le, rule pow2_pos, rule pow2_mono) simp

lemma ulp64_eq: "ulp64 = 1 / 9007199254740992"
  by (simp add: ulp64_def power_int_def power_one_over)

interpretation accurate64: accurate_rounding rnd on_grid ulp64 tiny64
  by unfold_locales (unfold ulp64_def tiny64_def, rule rnd_error, rule less_imp_le, rule pow2_pos)

subsection \<open>float64 values\<close>

datatype f64 = NaN | PInf | NInf | Fin rat

definition overflow_limit :: rat where "overflow_limit = pow2 1024"

definition round64 :: "rat \<Rightarrow> f64" where
  "round64 q =
     (let r = rnd q
      in if overflow_limit \<le> r then PInf else if r \<le> - overflow_limit then NInf else Fin r)"

definition isFinite :: "f64 \<Rightarrow> bool" where
  "isFinite x = (case x of Fin _ \<Rightarrow> True | _ \<Rightarrow> False)"

definition isNaN :: "f64 \<Rightarrow> bool" where "isNaN x \<longleftrightarrow> x = NaN"
definition isInf :: "f64 \<Rightarrow> bool" where "isInf x \<longleftrightarrow> x = PInf \<or> x = NInf"

lemma isFinite_iff: "isFinite x \<longleftrightarrow> \<not> isNaN x \<and> \<not> isInf x"
  by (cases x) (simp_all add: isFinite_def isNaN_def isInf_def)

lemma isFinite_Fin [simp]: "isFinite (Fin r)"
  by (simp add: isFinite_def)

lemma isFiniteE: "isFinite x \<Longrightarrow> (\<And>r. x = Fin r \<Longrightarrow> P) \<Longrightarrow> P"
  by (cases x) (simp_all add: isFinite_def)

fun f_lt :: "f64 \<Rightarrow> f64 \<Rightarrow> bool" where
  "f_lt NaN _ = False"
| "f_lt _ NaN = False"
| "f_lt (Fin a) (Fin b) = (a < b)"
| "f_lt NInf NInf = False"
| "f_lt NInf _ = True"
| "f_lt (Fin a) PInf = True"
| "f_lt _ _ = False"

definition f_eq :: "f64 \<Rightarrow> f64 \<Rightarrow> bool" where
  "f_eq x y \<longleftrightarrow> x = y \<and> x \<noteq> NaN"

definition f_le :: "f64 \<Rightarrow> f64 \<Rightarrow> bool" where
  "f_le x y \<longleftrightarrow> f_lt x y \<or> f_eq x y"

lemma f_lt_Fin [simp]: "f_lt (Fin a) (Fin b) \<longleftrightarrow> a < b" by simp
lemma f_eq_Fin [simp]: "f_eq (Fin a) (Fin b) \<longleftrightarrow> a = b" by (simp add: f_eq_def)
lemma f_le_Fin [simp]: "f_le (Fin a) (Fin b) \<longleftrightarrow> a \<le> b" by (auto simp: f_le_def)

fun f_neg :: "f64 \<Rightarrow> f64" where
  "f_neg NaN = NaN" | "f_neg PInf = NInf" | "f_neg NInf = PInf" | "f_neg (Fin a) = Fin (- a)"

fun f_add :: "f64 \<Rightarrow> f64 \<Rightarrow> f64" where
  "f_add (Fin a) (Fin b) = round64 (a + b)"
| "f_add NaN _ = NaN"
| "f_add _ NaN = NaN"
| "f_add PInf NInf = NaN"
| "f_add NInf PInf = NaN"
| "f_add PInf _ = PInf"
| "f_add _ PInf = PInf"
| "f_add _ _ = NInf"

definition f_sub :: "f64 \<Rightarrow> f64 \<Rightarrow> f64" where
  "f_sub x y = f_add x (f_neg y)"

text \<open>The infinity whose sign is that of \<open>i\<close>.\<close>

definition signed_inf :: "int \<Rightarrow> f64" where
  "signed_inf i = (if i = 0 then NaN else if 0 < i then PInf else NInf)"

definition f_sign :: "f64 \<Rightarrow> int" where
  "f_sign x = (case x of NaN \<Rightarrow> 0 | PInf \<Rightarrow> 1 | NInf \<Rightarrow> - 1
                         | Fin r \<Rightarrow> if r = 0 then 0 else if 0 < r then 1 else - 1)"

fun f_mul :: "f64 \<Rightarrow> f64 \<Rightarrow> f64" where
  "f_mul (Fin a) (Fin b) = round64 (a * b)"
| "f_mul NaN _ = NaN"
| "f_mul _ NaN = NaN"
| "f_mul x y = signed_inf (f_sign x * f_sign y)"

text \<open>A zero divisor counts as positive zero; the program never divides by zero.\<close>

fun f_div :: "f64 \<Rightarrow> f64 \<Rightarrow> f64" where
  "f_div (Fin a) (Fin b) =
     (if b = 0 then signed_inf (f_sign (Fin a)) else round64 (a / b))"
| "f_div NaN _ = NaN"
| "f_div _ NaN = NaN"
| "f_div (Fin a) _ = Fin 0"
| "f_div x (Fin b) = signed_inf (f_sign x * (if b < 0 then - 1 else 1))"
| "f_div _ _ = NaN"

text \<open>The built-in \<open>min\<close> and \<open>max\<close>: NaN if an operand is NaN.\<close>

definition f_max :: "f64 \<Rightarrow> f64 \<Rightarrow> f64" where
  "f_max x y = (if x = NaN \<or> y = NaN then NaN else if f_lt x y then y else x)"

definition f_min :: "f64 \<Rightarrow> f64 \<Rightarrow> f64" where
  "f_min x y = (if x = NaN \<or> y = NaN then NaN else if f_lt y x then y else x)"

lemma f_max_Fin [simp]: "f_max (Fin a) (Fin b) = Fin (max a b)"
  by (simp add: f_max_def max_def)

lemma f_min_Fin [simp]: "f_min (Fin a) (Fin b) = Fin (min a b)"
  by (simp add: f_min_def min_def)

text \<open>\<open>math.Round\<close>: to the nearest integer, halves away from zero; exact in binary64.\<close>

definition round_away :: "rat \<Rightarrow> int" where
  "round_away q = (if q < 0 then - \<lfloor>- q + 1 / 2\<rfloor> else \<lfloor>q + 1 / 2\<rfloor>)"

definition math_Round :: "f64 \<Rightarrow> f64" where
  "math_Round x = (case x of Fin r \<Rightarrow> Fin (of_int (round_away r)) | _ \<Rightarrow> x)"

definition f_of_int :: "int \<Rightarrow> f64" where
  "f_of_int i = round64 (of_int i)"

definition MaxFloat64 :: f64 where
  "MaxFloat64 = Fin ((2 ^ 53 - 1) * pow2 971)"

subsection \<open>Well-formed values and finite results\<close>

definition is_f64 :: "f64 \<Rightarrow> bool" where
  "is_f64 x = (case x of Fin r \<Rightarrow> on_grid r \<and> \<bar>r\<bar> < overflow_limit | _ \<Rightarrow> True)"

lemma is_f64_simps [simp]:
  "is_f64 NaN" "is_f64 PInf" "is_f64 NInf"
  "is_f64 (Fin r) \<longleftrightarrow> on_grid r \<and> \<bar>r\<bar> < overflow_limit"
  by (simp_all add: is_f64_def)

lemma round64_is_f64: "is_f64 (round64 q)"
  by (auto simp: round64_def Let_def abs_less_iff rnd_on_grid)

lemma round64_bounded:
  assumes "\<bar>q\<bar> \<le> b" and "on_grid b" and "b < overflow_limit"
  shows "round64 q = Fin (rnd q) \<and> \<bar>rnd q\<bar> \<le> b"
proof -
  have "rnd q \<le> b" using assms by (intro binary64.rd_le) simp_all
  moreover have "- b \<le> rnd q" using assms on_grid_minus by (intro binary64.rd_ge) simp_all
  ultimately show ?thesis using assms(3) by (auto simp: round64_def Let_def)
qed

lemma overflow_limit_gt: "- 1074 \<le> e \<Longrightarrow> e < 1024 \<Longrightarrow> pow2 e < overflow_limit"
  unfolding overflow_limit_def by (simp only: pow2_less_iff)

lemma round64_pow2:
  "\<bar>q\<bar> \<le> pow2 e \<Longrightarrow> - 1074 \<le> e \<Longrightarrow> e < 1024 \<Longrightarrow> round64 q = Fin (rnd q) \<and> \<bar>rnd q\<bar> \<le> pow2 e"
  using round64_bounded on_grid_pow2 overflow_limit_gt by blast

lemma round64_unit:
  assumes "0 \<le> q" and "q \<le> 1"
  shows "round64 q = Fin (rnd q)" and "0 \<le> rnd q" and "rnd q \<le> 1"
  using round64_pow2 [of q 0] assms binary64.rd_unit [OF assms] by simp_all

lemma of_nat_lt_overflow: "n \<le> 2 ^ 53 \<Longrightarrow> (of_nat n :: rat) < overflow_limit"
proof -
  assume "n \<le> 2 ^ 53"
  then have "(of_nat n :: rat) \<le> of_nat (2 ^ 53)" by (simp only: of_nat_le_iff)
  also have "\<dots> = pow2 53" by (simp add: power_int_def)
  also have "\<dots> < overflow_limit" by (rule overflow_limit_gt) simp_all
  finally show ?thesis .
qed

lemma f_of_int_exact:
  assumes "n \<le> 2 ^ 53"
  shows "f_of_int (int n) = Fin (of_nat n)"
proof -
  have g: "on_grid (of_nat n)" using on_grid_of_int [of "int n"] assms by simp
  then have "rnd (of_nat n) = of_nat n" by (rule rnd_exact)
  then show ?thesis
    using round64_bounded [of "of_nat n" "of_nat n"] g of_nat_lt_overflow [OF assms]
    by (simp add: f_of_int_def)
qed

end
