(* ===== verification/Laya_Result.thy ===== *)
theory Laya_Result
  imports Laya_Errors Laya_Float
begin

text \<open>
  \<open>result.go\<close>: typed results, the Prediction and their validation. The closed interface
  \<open>Result\<close> is modelled like \<open>Question\<close>: one of three structs or a possibly nil
  pointer to one, \<open>OtherResult\<close> being the nil interface.
\<close>

record Usage =
  InputTokens :: int
  OutputTokens :: int

record TruncationMetadata =
  Truncated :: bool
  OriginalInputTokens :: int
  EffectiveInputTokens :: int

record PredictionMetadata =
  pm_ModelID :: string
  pm_BundleID :: string
  pm_RuntimeID :: string
  pm_Truncation :: TruncationMetadata

record CriterionProbability =
  cp_CriterionID :: string
  cp_Probability :: f64

record ChoiceAnswer =
  ca_Selected :: string
  ca_Probabilities :: "CriterionProbability list"
  ca_Confidence :: f64
  ca_ActionProbability :: f64

record ChoiceResult =
  cr_questionID :: string
  cr_selected :: string
  cr_probabilities :: "CriterionProbability list"
  cr_confidence :: f64
  cr_actionProbability :: f64

record ScoreProbability =
  sp_Level :: int
  sp_Label :: string
  sp_Probability :: f64

record ScoreAnswer =
  sa_ExpectedLevel :: f64
  sa_Distribution :: "ScoreProbability list"
  sa_Confidence :: f64
  sa_ActionProbability :: f64

record ScoreResult =
  sr_questionID :: string
  sr_expectedLevel :: f64
  sr_distribution :: "ScoreProbability list"
  sr_confidence :: f64
  sr_actionProbability :: f64

record NoulAnswer =
  na_TrueProbability :: f64
  na_ActionProbability :: f64

record NoulResult =
  nr_questionID :: string
  nr_trueProbability :: f64
  nr_actionProbability :: f64

datatype Result =
    ChoiceR ChoiceResult | ChoiceRPtr "ChoiceResult option"
  | ScoreR ScoreResult | ScoreRPtr "ScoreResult option"
  | NoulR NoulResult | NoulRPtr "NoulResult option"
  | OtherResult

record Prediction =
  pr_results :: "Result list"
  pr_usage :: Usage
  pr_metadata :: PredictionMetadata

subsection \<open>Validation of one result\<close>

definition validateProbability :: "string \<Rightarrow> f64 \<Rightarrow> go_error option" where
  "validateProbability name p =
     (if isNaN p \<or> isInf p \<or> f_lt p (Fin 0) \<or> f_lt (Fin 1) p
      then Some (Opaque (name @ '' is outside [0,1]'')) else None)"

text \<open>The pattern \<open>fmt.Errorf\<close> with \<open>ErrInvalidOutput\<close> and the inner error, both wrapped.\<close>

definition in_output :: "string \<Rightarrow> go_error option \<Rightarrow> go_error option" where
  "in_output m e = map_option (\<lambda>x. Errorf m [Sentinel ErrInvalidOutput, x]) e"

fun choice_probabilities_loop ::
  "string \<Rightarrow> string list \<Rightarrow> bool \<Rightarrow> CriterionProbability list \<Rightarrow> bool res" where
  "choice_probabilities_loop sel seen found [] = Ok found"
| "choice_probabilities_loop sel seen found (p # ps) =
     (if cp_CriterionID p = '''' then Err (wrap ErrInvalidOutput ''probability has an empty criterion ID'')
      else if cp_CriterionID p \<in> set seen then Err (wrap ErrInvalidOutput ''choice result repeats criterion'')
      else check_then
             (in_output ''choice result criterion'' (validateProbability ''choice probability'' (cp_Probability p)))
             (choice_probabilities_loop sel (cp_CriterionID p # seen) (found \<or> cp_CriterionID p = sel) ps))"

definition ChoiceResult_validate :: "ChoiceResult \<Rightarrow> unit res" where
  "ChoiceResult_validate r =
     (if cr_questionID r = '''' then Err (wrap ErrInvalidOutput ''choice result question ID is empty'')
      else if cr_selected r = '''' then Err (wrap ErrInvalidOutput ''choice result selected criterion is empty'')
      else if length (cr_probabilities r) = 0 then Err (wrap ErrInvalidOutput ''choice result has no probabilities'')
      else res_bind (choice_probabilities_loop (cr_selected r) [] False (cr_probabilities r)) (\<lambda>selectedFound.
        if \<not> selectedFound
        then Err (wrap ErrInvalidOutput ''choice result selected criterion is absent from probabilities'')
        else check_then (in_output ''choice result'' (validateProbability ''choice confidence'' (cr_confidence r)))
            (check_then (in_output ''choice result'' (validateProbability ''action probability'' (cr_actionProbability r)))
              (Ok ()))))"

definition NewChoiceResult :: "string \<Rightarrow> ChoiceAnswer \<Rightarrow> ChoiceResult res" where
  "NewChoiceResult questionID answer =
     (let r = \<lparr>cr_questionID = questionID, cr_selected = ca_Selected answer,
               cr_probabilities = ca_Probabilities answer, cr_confidence = ca_Confidence answer,
               cr_actionProbability = ca_ActionProbability answer\<rparr>
      in res_bind (ChoiceResult_validate r) (\<lambda>_. Ok r))"

fun score_distribution_loop :: "nat \<Rightarrow> ScoreProbability list \<Rightarrow> go_error option" where
  "score_distribution_loop i [] = None"
| "score_distribution_loop i (p # ps) =
     (if sp_Level p \<noteq> int i then Some (wrap ErrInvalidOutput ''score result distribution index has wrong level'')
      else if sp_Label p = '''' then Some (wrap ErrInvalidOutput ''score result level has an empty label'')
      else case in_output ''score result level'' (validateProbability ''score probability'' (sp_Probability p)) of
             Some e \<Rightarrow> Some e
           | None \<Rightarrow> score_distribution_loop (Suc i) ps)"

definition ScoreResult_validate :: "ScoreResult \<Rightarrow> unit res" where
  "ScoreResult_validate r =
     (if sr_questionID r = '''' then Err (wrap ErrInvalidOutput ''score result question ID is empty'')
      else if length (sr_distribution r) = 0 then Err (wrap ErrInvalidOutput ''score result has no distribution'')
      else if isNaN (sr_expectedLevel r) \<or> isInf (sr_expectedLevel r) \<or> f_lt (sr_expectedLevel r) (Fin 0)
           \<or> f_lt (f_of_int (int (length (sr_distribution r)) - 1)) (sr_expectedLevel r)
        then Err (wrap ErrInvalidOutput ''score result expected level is outside the rubric'')
      else check_then (score_distribution_loop 0 (sr_distribution r))
          (check_then (in_output ''score result'' (validateProbability ''score confidence'' (sr_confidence r)))
            (check_then (in_output ''score result'' (validateProbability ''action probability'' (sr_actionProbability r)))
              (Ok ()))))"

definition NewScoreResult :: "string \<Rightarrow> ScoreAnswer \<Rightarrow> ScoreResult res" where
  "NewScoreResult questionID answer =
     (let r = \<lparr>sr_questionID = questionID, sr_expectedLevel = sa_ExpectedLevel answer,
               sr_distribution = sa_Distribution answer, sr_confidence = sa_Confidence answer,
               sr_actionProbability = sa_ActionProbability answer\<rparr>
      in res_bind (ScoreResult_validate r) (\<lambda>_. Ok r))"

definition NoulResult_validate :: "NoulResult \<Rightarrow> unit res" where
  "NoulResult_validate r =
     (if nr_questionID r = '''' then Err (wrap ErrInvalidOutput ''noul result question ID is empty'')
      else check_then (in_output ''noul result'' (validateProbability ''true probability'' (nr_trueProbability r)))
          (check_then (in_output ''noul result'' (validateProbability ''action probability'' (nr_actionProbability r)))
            (Ok ())))"

definition NewNoulResult :: "string \<Rightarrow> NoulAnswer \<Rightarrow> NoulResult res" where
  "NewNoulResult questionID answer =
     (let r = \<lparr>nr_questionID = questionID, nr_trueProbability = na_TrueProbability answer,
               nr_actionProbability = na_ActionProbability answer\<rparr>
      in res_bind (NoulResult_validate r) (\<lambda>_. Ok r))"

subsection \<open>Validation of a Prediction\<close>

definition validateResult :: "Result \<Rightarrow> unit res" where
  "validateResult r =
     (case r of
        ChoiceR c \<Rightarrow> ChoiceResult_validate c
      | ChoiceRPtr None \<Rightarrow> Err (wrap ErrInvalidOutput ''choice result is nil'')
      | ChoiceRPtr (Some c) \<Rightarrow> ChoiceResult_validate c
      | ScoreR s \<Rightarrow> ScoreResult_validate s
      | ScoreRPtr None \<Rightarrow> Err (wrap ErrInvalidOutput ''score result is nil'')
      | ScoreRPtr (Some s) \<Rightarrow> ScoreResult_validate s
      | NoulR n \<Rightarrow> NoulResult_validate n
      | NoulRPtr None \<Rightarrow> Err (wrap ErrInvalidOutput ''noul result is nil'')
      | NoulRPtr (Some n) \<Rightarrow> NoulResult_validate n
      | OtherResult \<Rightarrow> Err (wrap ErrInvalidOutput ''unsupported result type''))"

definition Result_QuestionID :: "Result \<Rightarrow> string res" where
  "Result_QuestionID r =
     (case r of
        ChoiceR c \<Rightarrow> Ok (cr_questionID c) | ChoiceRPtr (Some c) \<Rightarrow> Ok (cr_questionID c)
      | ScoreR s \<Rightarrow> Ok (sr_questionID s) | ScoreRPtr (Some s) \<Rightarrow> Ok (sr_questionID s)
      | NoulR n \<Rightarrow> Ok (nr_questionID n) | NoulRPtr (Some n) \<Rightarrow> Ok (nr_questionID n)
      | _ \<Rightarrow> Panic)"

definition validateTruncation :: "TruncationMetadata \<Rightarrow> unit res" where
  "validateTruncation m =
     (if OriginalInputTokens m < 0 \<or> EffectiveInputTokens m < 0
        then Err (wrap ErrInvalidOutput ''truncation token counts cannot be negative'')
      else if Truncated m \<and> OriginalInputTokens m \<le> EffectiveInputTokens m
        then Err (wrap ErrInvalidOutput ''truncated input must reduce its token count'')
      else if \<not> Truncated m \<and> OriginalInputTokens m \<noteq> EffectiveInputTokens m
        then Err (wrap ErrInvalidOutput ''untruncated input token counts differ'')
      else Ok ())"

fun results_loop :: "string list \<Rightarrow> Result list \<Rightarrow> unit res" where
  "results_loop seen [] = Ok ()"
| "results_loop seen (r # rs) =
     res_bind (res_wrap ''prediction result'' (validateResult r)) (\<lambda>_.
       res_bind (Result_QuestionID r) (\<lambda>qid.
         if qid \<in> set seen then Err (wrap ErrInvalidOutput ''prediction repeats question ID'')
         else results_loop (qid # seen) rs))"

definition Prediction_validate :: "Prediction \<Rightarrow> unit res" where
  "Prediction_validate p =
     (if length (pr_results p) = 0 then Err (wrap ErrInvalidOutput ''prediction has no results'')
      else res_bind (results_loop [] (pr_results p)) (\<lambda>_.
        if InputTokens (pr_usage p) < 0 \<or> OutputTokens (pr_usage p) < 0
        then Err (wrap ErrInvalidOutput ''prediction usage cannot be negative'')
        else validateTruncation (pm_Truncation (pr_metadata p))))"

definition NewPrediction :: "Result list \<Rightarrow> Usage \<Rightarrow> PredictionMetadata \<Rightarrow> Prediction res" where
  "NewPrediction results usage metadata =
     (let p = \<lparr>pr_results = results, pr_usage = usage, pr_metadata = metadata\<rparr>
      in res_bind (Prediction_validate p) (\<lambda>_. Ok p))"

subsection \<open>What the validators accept\<close>

definition is_probability :: "f64 \<Rightarrow> bool" where
  "is_probability p = (case p of Fin r \<Rightarrow> 0 \<le> r \<and> r \<le> 1 | _ \<Rightarrow> False)"

lemma is_probability_Fin [simp]: "is_probability (Fin r) \<longleftrightarrow> 0 \<le> r \<and> r \<le> 1"
  by (simp add: is_probability_def)

lemma is_probabilityE:
  assumes "is_probability p" obtains r where "p = Fin r" "0 \<le> r" "r \<le> 1"
  using assms by (cases p) (auto simp: is_probability_def)

lemma validateProbability_None_iff [ok_simps]:
  "validateProbability name p = None \<longleftrightarrow> is_probability p"
  by (cases p) (auto simp: validateProbability_def is_probability_def isNaN_def isInf_def)

lemma in_output_simps [simp]:
  "in_output m None = None" "in_output m (Some x) = Some (Errorf m [Sentinel ErrInvalidOutput, x])"
  by (simp_all add: in_output_def)

lemma in_output_None_iff [simp]: "in_output m e = None \<longleftrightarrow> e = None"
  by (simp add: in_output_def)

lemma in_output_error: "in_output m e = Some x \<Longrightarrow> errors_is x ErrInvalidOutput"
  by (auto simp: in_output_def)

lemma choice_loop_Ok_iff:
  "choice_probabilities_loop sel seen found ps = Ok b \<longleftrightarrow>
     list_all (\<lambda>p. cp_CriterionID p \<noteq> '''' \<and> is_probability (cp_Probability p)) ps \<and>
     distinct (map cp_CriterionID ps) \<and> set seen \<inter> cp_CriterionID ` set ps = {} \<and>
     b = (found \<or> sel \<in> cp_CriterionID ` set ps)"
proof (induction sel seen found ps rule: choice_probabilities_loop.induct)
  case (2 sel seen found p ps)
  show ?case
  proof (cases "cp_CriterionID p = '''' \<or> cp_CriterionID p \<in> set seen")
    case True
    then show ?thesis by auto
  next
    case False
    then show ?thesis
      using 2 by (auto simp: check_then_Ok_iff ok_simps)
  qed
qed auto

lemma ChoiceResult_validate_Ok_iff:
  "ChoiceResult_validate r = Ok u \<longleftrightarrow>
     cr_questionID r \<noteq> '''' \<and> cr_selected r \<noteq> '''' \<and> cr_probabilities r \<noteq> [] \<and>
     list_all (\<lambda>p. cp_CriterionID p \<noteq> '''' \<and> is_probability (cp_Probability p)) (cr_probabilities r) \<and>
     distinct (map cp_CriterionID (cr_probabilities r)) \<and>
     cr_selected r \<in> cp_CriterionID ` set (cr_probabilities r) \<and>
     is_probability (cr_confidence r) \<and> is_probability (cr_actionProbability r)"
  by (auto simp: ChoiceResult_validate_def res_bind_Ok_iff check_then_Ok_iff choice_loop_Ok_iff ok_simps)

lemma score_loop_None_iff:
  "score_distribution_loop i ps = None \<longleftrightarrow>
     (\<forall>k < length ps. sp_Level (ps ! k) = int (i + k) \<and> sp_Label (ps ! k) \<noteq> '''' \<and>
        is_probability (sp_Probability (ps ! k)))"
proof (induction i ps rule: score_distribution_loop.induct)
  case (2 i p ps)
  let ?ok = "\<lambda>i ps. \<forall>k < length ps. sp_Level (ps ! k) = int (i + k) \<and> sp_Label (ps ! k) \<noteq> '''' \<and>
        is_probability (sp_Probability (ps ! k))"
  have split: "?ok i (p # ps) \<longleftrightarrow>
      (sp_Level p = int i \<and> sp_Label p \<noteq> '''' \<and> is_probability (sp_Probability p)) \<and> ?ok (Suc i) ps"
    by (simp add: All_less_Suc2 ac_simps)
  show ?case
  proof (cases "validateProbability ''score probability'' (sp_Probability p)")
    case None
    then have "is_probability (sp_Probability p)" by (simp only: validateProbability_None_iff)
    with None 2 show ?thesis unfolding split by simp
  next
    case (Some e)
    then have "\<not> is_probability (sp_Probability p)"
      using validateProbability_None_iff [of "''score probability''" "sp_Probability p"] by simp
    with Some show ?thesis unfolding split by simp
  qed
qed simp

lemma ScoreResult_validate_Ok_iff:
  "ScoreResult_validate r = Ok u \<longleftrightarrow>
     sr_questionID r \<noteq> '''' \<and> sr_distribution r \<noteq> [] \<and>
     (\<exists>e. sr_expectedLevel r = Fin e \<and> 0 \<le> e \<and>
        \<not> f_lt (f_of_int (int (length (sr_distribution r)) - 1)) (Fin e)) \<and>
     (\<forall>k < length (sr_distribution r).
        sp_Level (sr_distribution r ! k) = int k \<and> sp_Label (sr_distribution r ! k) \<noteq> '''' \<and>
        is_probability (sp_Probability (sr_distribution r ! k))) \<and>
     is_probability (sr_confidence r) \<and> is_probability (sr_actionProbability r)"
  by (cases "sr_expectedLevel r")
    (auto simp: ScoreResult_validate_def check_then_Ok_iff score_loop_None_iff ok_simps isNaN_def isInf_def)

lemma NoulResult_validate_Ok_iff:
  "NoulResult_validate r = Ok u \<longleftrightarrow>
     nr_questionID r \<noteq> '''' \<and> is_probability (nr_trueProbability r) \<and> is_probability (nr_actionProbability r)"
  by (auto simp: NoulResult_validate_def check_then_Ok_iff ok_simps)

lemma choice_loop_no_panic: "choice_probabilities_loop sel seen found ps \<noteq> Panic"
  by (induction sel seen found ps rule: choice_probabilities_loop.induct)
    (auto simp: check_then_Panic_iff)

lemma result_validate_no_panic:
  "ChoiceResult_validate c \<noteq> Panic" "ScoreResult_validate s \<noteq> Panic" "NoulResult_validate n \<noteq> Panic"
  by (auto simp: ChoiceResult_validate_def ScoreResult_validate_def NoulResult_validate_def
      res_panic_iffs choice_loop_no_panic)

lemma validateResult_no_panic: "validateResult r \<noteq> Panic"
  by (simp add: validateResult_def result_validate_no_panic split: Result.split option.split)

lemma validateResult_ID: "validateResult r = Ok u \<Longrightarrow> \<exists>i. Result_QuestionID r = Ok i \<and> i \<noteq> ''''"
  by (auto simp: validateResult_def Result_QuestionID_def ChoiceResult_validate_Ok_iff
      ScoreResult_validate_Ok_iff NoulResult_validate_Ok_iff split: Result.splits option.splits)

definition result_key :: "Result \<Rightarrow> string" where
  "result_key r = (case Result_QuestionID r of Ok i \<Rightarrow> i | _ \<Rightarrow> '''')"

lemma results_loop_Ok_iff:
  "results_loop seen rs = Ok u \<longleftrightarrow>
     list_all (\<lambda>r. validateResult r = Ok ()) rs \<and> distinct (map result_key rs) \<and>
     set seen \<inter> result_key ` set rs = {}"
proof (induction rs arbitrary: seen)
  case (Cons r rs)
  show ?case
  proof (cases "validateResult r")
    case (Ok u)
    then obtain i where "Result_QuestionID r = Ok i" using validateResult_ID by blast
    with Ok Cons.IH show ?thesis by (auto simp: result_key_def)
  qed auto
qed simp

lemma results_loop_no_panic: "results_loop seen rs \<noteq> Panic"
proof (induction rs arbitrary: seen)
  case (Cons r rs)
  then show ?case
    using validateResult_ID [of r] validateResult_no_panic [of r]
    by (cases "validateResult r") (auto split: if_splits)
qed simp

lemma validateTruncation_Ok_iff:
  "validateTruncation m = Ok u \<longleftrightarrow>
     0 \<le> OriginalInputTokens m \<and> 0 \<le> EffectiveInputTokens m \<and>
     (if Truncated m then EffectiveInputTokens m < OriginalInputTokens m
      else EffectiveInputTokens m = OriginalInputTokens m)"
  by (auto simp: validateTruncation_def)

lemma Prediction_validate_Ok_iff:
  "Prediction_validate p = Ok u \<longleftrightarrow>
     pr_results p \<noteq> [] \<and> list_all (\<lambda>r. validateResult r = Ok ()) (pr_results p) \<and>
     distinct (map result_key (pr_results p)) \<and>
     0 \<le> InputTokens (pr_usage p) \<and> 0 \<le> OutputTokens (pr_usage p) \<and>
     validateTruncation (pm_Truncation (pr_metadata p)) = Ok ()"
  by (auto simp: Prediction_validate_def res_bind_Ok_iff results_loop_Ok_iff)

lemma Prediction_validate_no_panic: "Prediction_validate p \<noteq> Panic"
  by (auto simp: Prediction_validate_def res_bind_Panic_iff results_loop_no_panic validateTruncation_def)

subsection \<open>Every rejection is an ErrInvalidOutput\<close>

lemma choice_loop_error:
  "choice_probabilities_loop sel seen found ps = Err e \<Longrightarrow> errors_is e ErrInvalidOutput"
proof (induction sel seen found ps rule: choice_probabilities_loop.induct)
  case (2 sel seen found p ps)
  then show ?case
    by (cases "in_output ''choice result criterion'' (validateProbability ''choice probability'' (cp_Probability p))")
      (auto dest: in_output_error split: if_splits)
qed simp

lemma check_output_error:
  "check_then (in_output m x) r = Err e \<Longrightarrow> (r = Err e \<Longrightarrow> errors_is e ErrInvalidOutput) \<Longrightarrow>
   errors_is e ErrInvalidOutput"
  by (cases "in_output m x") (auto dest: in_output_error)

lemma score_loop_error: "score_distribution_loop i ps = Some e \<Longrightarrow> errors_is e ErrInvalidOutput"
  by (induction i ps rule: score_distribution_loop.induct)
    (auto dest: in_output_error split: if_splits option.splits)

lemma result_validate_error:
  "ChoiceResult_validate c = Err e \<Longrightarrow> errors_is e ErrInvalidOutput"
  "ScoreResult_validate s = Err e \<Longrightarrow> errors_is e ErrInvalidOutput"
  "NoulResult_validate n = Err e \<Longrightarrow> errors_is e ErrInvalidOutput"
proof -
  assume c: "ChoiceResult_validate c = Err e"
  show "errors_is e ErrInvalidOutput"
  proof (cases "choice_probabilities_loop (cr_selected c) [] False (cr_probabilities c)")
    case (Ok b)
    with c show ?thesis
      by (auto simp: ChoiceResult_validate_def elim!: check_output_error split: if_splits)
  next
    case (Err x)
    with c choice_loop_error [OF Err] show ?thesis
      by (auto simp: ChoiceResult_validate_def split: if_splits)
  qed (simp add: choice_loop_no_panic)
next
  assume s: "ScoreResult_validate s = Err e"
  show "errors_is e ErrInvalidOutput"
  proof (cases "score_distribution_loop 0 (sr_distribution s)")
    case None
    with s show ?thesis
      by (auto simp: ScoreResult_validate_def elim!: check_output_error split: if_splits)
  next
    case (Some x)
    with s score_loop_error [OF Some] show ?thesis
      by (auto simp: ScoreResult_validate_def split: if_splits)
  qed
next
  assume "NoulResult_validate n = Err e"
  then show "errors_is e ErrInvalidOutput"
    by (auto simp: NoulResult_validate_def elim!: check_output_error split: if_splits)
qed

lemma validateResult_error: "validateResult r = Err e \<Longrightarrow> errors_is e ErrInvalidOutput"
  by (auto simp: validateResult_def dest: result_validate_error split: Result.splits option.splits)

lemma results_loop_error: "results_loop seen rs = Err e \<Longrightarrow> errors_is e ErrInvalidOutput"
proof (induction rs arbitrary: seen)
  case (Cons r rs)
  then show ?case
    using validateResult_ID [of r]
    by (cases "validateResult r") (auto dest: validateResult_error split: if_splits)
qed simp

lemma Prediction_validate_error: "Prediction_validate p = Err e \<Longrightarrow> errors_is e ErrInvalidOutput"
  by (cases "results_loop [] (pr_results p)")
    (auto simp: Prediction_validate_def validateTruncation_def results_loop_no_panic
      dest: results_loop_error split: if_splits)

end
