(* ===== verification/Laya_Predict.thy ===== *)
theory Laya_Predict
  imports Laya_Context Laya_State Laya_Question Laya_Result
begin

text \<open>
  \<open>model.go\<close>: a prediction call around the admission of \<open>Laya_Admission\<close>. The outcome of
  \<open>acquire\<close> and the engine behind the interface \<open>modelEngine\<close> are parameters; beside its
  result a call yields the slot and engine operations it performed, in order.
\<close>

subsection \<open>Results that answer questions\<close>

definition choiceResult :: "Result \<Rightarrow> ChoiceResult res" where
  "choiceResult r =
     (case r of ChoiceR c \<Rightarrow> Ok c | ChoiceRPtr (Some c) \<Rightarrow> Ok c
      | _ \<Rightarrow> Err (wrap ErrInvalidOutput ''choice call returned another type''))"

definition scoreResult :: "Result \<Rightarrow> ScoreResult res" where
  "scoreResult r =
     (case r of ScoreR s \<Rightarrow> Ok s | ScoreRPtr (Some s) \<Rightarrow> Ok s
      | _ \<Rightarrow> Err (wrap ErrInvalidOutput ''score call returned another type''))"

definition noulResult :: "Result \<Rightarrow> NoulResult res" where
  "noulResult r =
     (case r of NoulR n \<Rightarrow> Ok n | NoulRPtr (Some n) \<Rightarrow> Ok n
      | _ \<Rightarrow> Err (wrap ErrInvalidOutput ''noul call returned another type''))"

text \<open>The loops over the criteria and the rubric; the lengths agree when they run.\<close>

fun criteria_match :: "CriterionProbability list \<Rightarrow> ChoiceCriterion list \<Rightarrow> unit res" where
  "criteria_match ps [] = Ok ()"
| "criteria_match [] (c # cs) = Panic"
| "criteria_match (p # ps) (c # cs) =
     (if cp_CriterionID p \<noteq> crit_ID c
      then Err (wrap ErrInvalidOutput ''choice result probability criterion does not match'')
      else criteria_match ps cs)"

definition validateChoiceResultForQuestion :: "Result \<Rightarrow> ChoiceQuestion \<Rightarrow> unit res" where
  "validateChoiceResultForQuestion r q =
     res_bind (choiceResult r) (\<lambda>choice.
       if length (cr_probabilities choice) \<noteq> length (cq_criteria q)
       then Err (wrap ErrInvalidOutput ''choice result has another number of probabilities'')
       else criteria_match (cr_probabilities choice) (cq_criteria q))"

fun rubric_match :: "ScoreProbability list \<Rightarrow> ScoreLevel list \<Rightarrow> unit res" where
  "rubric_match ps [] = Ok ()"
| "rubric_match [] (l # ls) = Panic"
| "rubric_match (p # ps) (l # ls) =
     (if sp_Label p \<noteq> lvl_Label l
      then Err (wrap ErrInvalidOutput ''score result level label does not match'')
      else rubric_match ps ls)"

definition validateScoreResultForQuestion :: "Result \<Rightarrow> ScoreQuestion \<Rightarrow> unit res" where
  "validateScoreResultForQuestion r q =
     res_bind (scoreResult r) (\<lambda>score.
       if length (sr_distribution score) \<noteq> length (sq_rubric q)
       then Err (wrap ErrInvalidOutput ''score result has another number of probabilities'')
       else rubric_match (sr_distribution score) (sq_rubric q))"

definition validateResultForQuestion :: "Result \<Rightarrow> Question \<Rightarrow> unit res" where
  "validateResultForQuestion r q =
     (case q of
        ChoiceQ c \<Rightarrow> validateChoiceResultForQuestion r c
      | ChoiceQPtr None \<Rightarrow> Panic
      | ChoiceQPtr (Some c) \<Rightarrow> validateChoiceResultForQuestion r c
      | ScoreQ s \<Rightarrow> validateScoreResultForQuestion r s
      | ScoreQPtr None \<Rightarrow> Panic
      | ScoreQPtr (Some s) \<Rightarrow> validateScoreResultForQuestion r s
      | NoulQ n \<Rightarrow> res_bind (noulResult r) (\<lambda>_. Ok ())
      | NoulQPtr p \<Rightarrow> res_bind (noulResult r) (\<lambda>_. Ok ())
      | OtherQuestion \<Rightarrow> Err (wrap ErrInvalidRequest ''unsupported question type''))"

fun results_match :: "Result list \<Rightarrow> Question list \<Rightarrow> unit res" where
  "results_match [] qs = Ok ()"
| "results_match (r # rs) [] = Panic"
| "results_match (r # rs) (q # qs) =
     res_bind (Result_QuestionID r) (\<lambda>got.
     res_bind (Question_ID q) (\<lambda>want.
       if got \<noteq> want then Err (wrap ErrInvalidOutput ''result question ID does not match'')
       else res_bind (res_wrap ''result'' (validateResultForQuestion r q)) (\<lambda>_. results_match rs qs)))"

definition validatePredictionForQuestions :: "Prediction \<Rightarrow> Question list \<Rightarrow> unit res" where
  "validatePredictionForQuestions p qs =
     res_bind (Prediction_validate p) (\<lambda>_.
       if length (pr_results p) \<noteq> length qs
       then Err (wrap ErrInvalidOutput ''another number of results than questions'')
       else results_match (pr_results p) qs)"

subsection \<open>Calls\<close>

datatype call_event = SlotAcquired | EngineCalled | SlotReleased

type_synonym engine = "State \<Rightarrow> Question list \<Rightarrow> Prediction res"

text \<open>The deferred release runs whatever the engine call and the validation give.\<close>

definition Model_Predict ::
  "go_ctx \<Rightarrow> State \<Rightarrow> Question list \<Rightarrow> go_error option \<Rightarrow> engine \<Rightarrow> Prediction res \<times> call_event list" where
  "Model_Predict ctx state questions acquired engine =
     (case validateContext ctx of Some e \<Rightarrow> (Err (Errorf ''predict'' [e]), [])
      | None \<Rightarrow>
     (case State_validate state of Some e \<Rightarrow> (Err (Errorf ''predict'' [e]), [])
      | None \<Rightarrow>
     (case res_wrap ''predict'' (validateQuestions questions) of Err e \<Rightarrow> (Err e, []) | Panic \<Rightarrow> (Panic, [])
      | Ok _ \<Rightarrow>
     (case acquired of Some e \<Rightarrow> (Err (Errorf ''predict'' [e]), [])
      | None \<Rightarrow>
          (res_bind (res_wrap ''predict'' (engine state questions)) (\<lambda>prediction.
             res_bind (res_wrap ''predict'' (validatePredictionForQuestions prediction questions))
               (\<lambda>_. Ok prediction)),
           [SlotAcquired, EngineCalled, SlotReleased])))))"

text \<open>\<open>prediction.Results()[0]\<close>.\<close>

definition first_result :: "Prediction \<Rightarrow> Result res" where
  "first_result p = (case pr_results p of [] \<Rightarrow> Panic | r # rs \<Rightarrow> Ok r)"

definition Model_Choice :: "go_ctx \<Rightarrow> State \<Rightarrow> ChoiceQuestion \<Rightarrow> go_error option \<Rightarrow> engine \<Rightarrow> ChoiceResult res" where
  "Model_Choice ctx state q acquired engine =
     res_bind (fst (Model_Predict ctx state [ChoiceQ q] acquired engine)) (\<lambda>p.
       res_bind (first_result p) choiceResult)"

definition Model_Score :: "go_ctx \<Rightarrow> State \<Rightarrow> ScoreQuestion \<Rightarrow> go_error option \<Rightarrow> engine \<Rightarrow> ScoreResult res" where
  "Model_Score ctx state q acquired engine =
     res_bind (fst (Model_Predict ctx state [ScoreQ q] acquired engine)) (\<lambda>p.
       res_bind (first_result p) scoreResult)"

definition Model_Noul :: "go_ctx \<Rightarrow> State \<Rightarrow> NoulQuestion \<Rightarrow> go_error option \<Rightarrow> engine \<Rightarrow> NoulResult res" where
  "Model_Noul ctx state q acquired engine =
     res_bind (fst (Model_Predict ctx state [NoulQ q] acquired engine)) (\<lambda>p.
       res_bind (first_result p) noulResult)"

subsection \<open>What a validated prediction says\<close>

definition answers_choice :: "ChoiceQuestion \<Rightarrow> ChoiceResult \<Rightarrow> bool" where
  "answers_choice q r \<longleftrightarrow>
     cr_questionID r = cq_id q \<and> ChoiceResult_validate r = Ok () \<and>
     map cp_CriterionID (cr_probabilities r) = map crit_ID (cq_criteria q) \<and>
     cr_selected r \<in> crit_ID ` set (cq_criteria q)"

definition answers_score :: "ScoreQuestion \<Rightarrow> ScoreResult \<Rightarrow> bool" where
  "answers_score q r \<longleftrightarrow>
     sr_questionID r = sq_id q \<and> ScoreResult_validate r = Ok () \<and>
     map sp_Label (sr_distribution r) = map lvl_Label (sq_rubric q)"

definition answers_noul :: "NoulQuestion \<Rightarrow> NoulResult \<Rightarrow> bool" where
  "answers_noul q r \<longleftrightarrow> nr_questionID r = nq_id q \<and> NoulResult_validate r = Ok ()"

definition answers :: "Question \<Rightarrow> Result \<Rightarrow> bool" where
  "answers q r =
     (case deref q of
        Some (ChoiceQ c) \<Rightarrow> (case choiceResult r of Ok x \<Rightarrow> answers_choice c x | _ \<Rightarrow> False)
      | Some (ScoreQ s) \<Rightarrow> (case scoreResult r of Ok x \<Rightarrow> answers_score s x | _ \<Rightarrow> False)
      | Some (NoulQ n) \<Rightarrow> (case noulResult r of Ok x \<Rightarrow> answers_noul n x | _ \<Rightarrow> False)
      | _ \<Rightarrow> False)"

lemma criteria_match_Ok_iff:
  "length ps = length cs \<Longrightarrow> criteria_match ps cs = Ok u \<longleftrightarrow> map cp_CriterionID ps = map crit_ID cs"
  by (induction ps cs rule: criteria_match.induct) auto

lemma rubric_match_Ok_iff:
  "length ps = length ls \<Longrightarrow> rubric_match ps ls = Ok u \<longleftrightarrow> map sp_Label ps = map lvl_Label ls"
  by (induction ps ls rule: rubric_match.induct) auto

lemma criteria_match_no_panic: "length ps = length cs \<Longrightarrow> criteria_match ps cs \<noteq> Panic"
  by (induction ps cs rule: criteria_match.induct) auto

lemma rubric_match_no_panic: "length ps = length ls \<Longrightarrow> rubric_match ps ls \<noteq> Panic"
  by (induction ps ls rule: rubric_match.induct) auto

lemma result_cases_Ok:
  "choiceResult r = Ok c \<longleftrightarrow> r = ChoiceR c \<or> r = ChoiceRPtr (Some c)"
  "scoreResult r = Ok s \<longleftrightarrow> r = ScoreR s \<or> r = ScoreRPtr (Some s)"
  "noulResult r = Ok n \<longleftrightarrow> r = NoulR n \<or> r = NoulRPtr (Some n)"
  by (auto simp: choiceResult_def scoreResult_def noulResult_def split: Result.splits option.splits)

lemma result_no_panic: "choiceResult r \<noteq> Panic" "scoreResult r \<noteq> Panic" "noulResult r \<noteq> Panic"
  by (auto simp: choiceResult_def scoreResult_def noulResult_def split: Result.splits option.splits)

lemma validateChoiceForQuestion_answers:
  assumes "validateChoiceResultForQuestion r q = Ok u" and "validateResult r = Ok v" and "Result_QuestionID r = Ok (cq_id q)"
  shows "\<exists>c. choiceResult r = Ok c \<and> answers_choice q c"
proof -
  from assms(1) obtain c where c: "choiceResult r = Ok c" and
    m: "map cp_CriterionID (cr_probabilities c) = map crit_ID (cq_criteria q)"
    by (auto simp: validateChoiceResultForQuestion_def res_bind_Ok_iff criteria_match_Ok_iff split: if_splits)
  have v: "ChoiceResult_validate c = Ok ()" and i: "cr_questionID c = cq_id q"
    using c assms(2,3) by (auto simp: result_cases_Ok validateResult_def Result_QuestionID_def)
  have "cp_CriterionID ` set (cr_probabilities c) = crit_ID ` set (cq_criteria q)"
    using m by (metis list.set_map)
  then show ?thesis using c m v i by (auto simp: answers_choice_def ChoiceResult_validate_Ok_iff)
qed

lemma validateScoreForQuestion_answers:
  assumes "validateScoreResultForQuestion r q = Ok u" and "validateResult r = Ok v" and "Result_QuestionID r = Ok (sq_id q)"
  shows "\<exists>s. scoreResult r = Ok s \<and> answers_score q s"
proof -
  from assms(1) obtain s where s: "scoreResult r = Ok s" and
    m: "map sp_Label (sr_distribution s) = map lvl_Label (sq_rubric q)"
    by (auto simp: validateScoreResultForQuestion_def res_bind_Ok_iff rubric_match_Ok_iff split: if_splits)
  then show ?thesis
    using assms(2,3) by (auto simp: result_cases_Ok validateResult_def Result_QuestionID_def answers_score_def)
qed

lemma validateNoul_answers:
  assumes "noulResult r = Ok x" and "validateResult r = Ok v" and "Result_QuestionID r = Ok (nq_id q)"
  shows "answers_noul q x"
  using assms by (auto simp: result_cases_Ok validateResult_def Result_QuestionID_def answers_noul_def)

lemma validateResultForQuestion_answers:
  assumes "validateResultForQuestion r q = Ok u" and "validateResult r = Ok v"
    and "Result_QuestionID r = Ok i" and "Question_ID q = Ok i"
  shows "answers q r"
proof (cases q)
  case (ChoiceQ c)
  with assms validateChoiceForQuestion_answers [of r c u v] show ?thesis
    by (auto simp: answers_def deref_def validateResultForQuestion_def Question_ID_def)
next
  case (ChoiceQPtr p)
  with assms validateChoiceForQuestion_answers [of r "the p" u v] show ?thesis
    by (auto simp: answers_def deref_def validateResultForQuestion_def Question_ID_def split: option.splits)
next
  case (ScoreQ s)
  with assms validateScoreForQuestion_answers [of r s u v] show ?thesis
    by (auto simp: answers_def deref_def validateResultForQuestion_def Question_ID_def)
next
  case (ScoreQPtr p)
  with assms validateScoreForQuestion_answers [of r "the p" u v] show ?thesis
    by (auto simp: answers_def deref_def validateResultForQuestion_def Question_ID_def split: option.splits)
next
  case (NoulQ n)
  with assms validateNoul_answers [of r _ v n] show ?thesis
    by (auto simp: answers_def deref_def validateResultForQuestion_def Question_ID_def res_bind_Ok_iff)
next
  case (NoulQPtr p)
  with assms validateNoul_answers [of r _ v "the p"] show ?thesis
    by (auto simp: answers_def deref_def validateResultForQuestion_def Question_ID_def res_bind_Ok_iff
        split: option.splits)
next
  case OtherQuestion
  with assms show ?thesis by (simp add: validateResultForQuestion_def)
qed

lemma results_match_answers:
  assumes "length rs = length qs" and "results_match rs qs = Ok u" and "list_all (\<lambda>r. validateResult r = Ok ()) rs"
  shows "list_all2 answers qs rs"
  using assms
proof (induction rs qs rule: results_match.induct)
  case (3 r rs q qs)
  then show ?case
    by (auto simp: res_bind_Ok_iff res_wrap_Ok_iff split: if_splits dest: validateResultForQuestion_answers)
qed simp_all

lemma validatePrediction_answers:
  assumes "validatePredictionForQuestions p qs = Ok u"
  shows "Prediction_validate p = Ok () \<and> list_all2 answers qs (pr_results p)"
  using assms results_match_answers [of "pr_results p" qs]
  by (auto simp: validatePredictionForQuestions_def res_bind_Ok_iff Prediction_validate_Ok_iff split: if_splits)

subsection \<open>No panic\<close>

lemma validateResultForQuestion_no_panic: "validateQuestion q = None \<Longrightarrow> validateResultForQuestion r q \<noteq> Panic"
  by (auto simp: validateResultForQuestion_def validateChoiceResultForQuestion_def validateScoreResultForQuestion_def
      validateQuestion_def res_bind_Panic_iff result_no_panic criteria_match_no_panic rubric_match_no_panic
      split: Question.splits option.splits if_splits)

lemma results_match_no_panic:
  assumes "length rs = length qs" and "list_all (\<lambda>q. validateQuestion q = None) qs"
    and "list_all (\<lambda>r. validateResult r = Ok ()) rs"
  shows "results_match rs qs \<noteq> Panic"
  using assms
proof (induction rs qs rule: results_match.induct)
  case (3 r rs q qs)
  then obtain i j where "Result_QuestionID r = Ok i" "Question_ID q = Ok j"
    using validateResult_ID [of r] validateQuestion_ID [of q] by auto
  with 3 show ?case by (auto simp: res_bind_Panic_iff res_wrap_Panic_iff validateResultForQuestion_no_panic)
qed simp_all

lemma validatePredictionForQuestions_no_panic:
  "list_all (\<lambda>q. validateQuestion q = None) qs \<Longrightarrow> validatePredictionForQuestions p qs \<noteq> Panic"
  by (auto simp: validatePredictionForQuestions_def res_bind_Panic_iff Prediction_validate_no_panic
      Prediction_validate_Ok_iff results_match_no_panic)

lemma validatePrediction_total: "validateQuestions qs = Ok u \<Longrightarrow> validatePredictionForQuestions p qs \<noteq> Panic"
  by (intro validatePredictionForQuestions_no_panic) (simp add: validateQuestions_Ok_iff)

lemma Model_Predict_Ok:
  assumes "fst (Model_Predict ctx state qs acq engine) = Ok p"
  shows "engine state qs = Ok p" and "acq = None" and "list_all2 answers qs (pr_results p)"
    and "Prediction_validate p = Ok ()" and "validateQuestions qs = Ok ()"
    and "State_validate state = None" and "ctx = Ctx None"
  using assms
  by (auto simp: Model_Predict_def res_ok_iffs ok_simps dest: validatePrediction_answers split: option.splits res.splits)

subsection \<open>Properties\<close>

definition sample_noul :: NoulQuestion where
  "sample_noul = \<lparr>nq_id = ''q'', nq_instructions = ''safe?'', nq_falseDescription = '''', nq_trueDescription = ''''\<rparr>"

definition sample_prediction :: Prediction where
  "sample_prediction =
     \<lparr>pr_results = [NoulR \<lparr>nr_questionID = ''q'', nr_trueProbability = Fin (3/4), nr_actionProbability = Fin 0\<rparr>],
      pr_usage = \<lparr>InputTokens = 5, OutputTokens = 0\<rparr>,
      pr_metadata = \<lparr>pm_ModelID = '''', pm_BundleID = '''', pm_RuntimeID = '''',
        pm_Truncation = \<lparr>Truncated = False, OriginalInputTokens = 5, EffectiveInputTokens = 5\<rparr>\<rparr>\<rparr>"

text \<open>
  C13: A prediction \<open>Model.Predict\<close> returns is the engine's, and it answers the request: there
  is one result per question, in question order, each with its question's identifier and kind,
  with the criteria or rubric labels of the question in order, probabilities in the unit
  interval and, for a choice, a selected criterion of the question.
\<close>

theorem predict_answers_questions:
  assumes "fst (Model_Predict ctx state qs acq engine) = Ok p"
  shows "engine state qs = Ok p \<and> list_all2 answers qs (pr_results p) \<and> Prediction_validate p = Ok ()"
  using Model_Predict_Ok [OF assms] by simp

theorem predict_answers_questions_witness:
  "fst (Model_Predict (Ctx None) (TextState ''s'') [NoulQ sample_noul] None (\<lambda>s q. Ok sample_prediction)) =
     Ok sample_prediction \<and> list_all2 answers [NoulQ sample_noul] (pr_results sample_prediction)"
proof -
  have "fst (Model_Predict (Ctx None) (TextState ''s'') [NoulQ sample_noul] None (\<lambda>s q. Ok sample_prediction)) =
     Ok sample_prediction" by code_simp
  from predict_answers_questions [OF this] this show ?thesis by simp
qed

text \<open>
  C14: \<open>Model.Predict\<close> holds the admission slot exactly around the engine call. If the context,
  the state, the questions and the admission accept the call, it acquires, calls the engine
  once and releases, whatever the engine returns; otherwise it fails without touching the slot
  or the engine. It panics only if the engine does.
\<close>

theorem predict_slot_discipline:
  "let (r, events) = Model_Predict ctx state qs acq engine;
       accepted = (ctx = Ctx None \<and> State_validate state = None \<and> validateQuestions qs = Ok () \<and> acq = None)
   in events = (if accepted then [SlotAcquired, EngineCalled, SlotReleased] else []) \<and>
      (accepted \<or> (\<exists>e. r = Err e)) \<and>
      (case r of Panic \<Rightarrow> engine state qs = Panic | _ \<Rightarrow> True)"
proof (cases "validateQuestions qs")
  case (Ok u)
  then have np: "validatePredictionForQuestions p qs \<noteq> Panic" for p
    by (rule validatePrediction_total)
  have "u = ()" by simp
  with Ok np show ?thesis
    by (cases "validateContext ctx"; cases "State_validate state"; cases acq)
      (auto simp: Model_Predict_def res_panic_iffs validateContext_None_iff split: res.split)
next
  case (Err e)
  then show ?thesis
    by (cases "validateContext ctx"; cases "State_validate state") (simp_all add: Model_Predict_def)
qed (simp add: validateQuestions_no_panic)

lemma single_answer:
  assumes "fst (Model_Predict ctx state [q] acq engine) = Ok p"
  obtains r where "first_result p = Ok r" and "answers q r"
  using Model_Predict_Ok(3) [OF assms] by (cases "pr_results p") (auto simp: first_result_def)

lemma predict_Panic: "fst (Model_Predict ctx state qs acq engine) = Panic \<Longrightarrow> engine state qs = Panic"
proof (cases "validateQuestions qs")
  case (Ok u)
  then have np: "validatePredictionForQuestions p qs \<noteq> Panic" for p
    by (rule validatePrediction_total)
  assume "fst (Model_Predict ctx state qs acq engine) = Panic"
  with Ok np show ?thesis
    by (cases "validateContext ctx"; cases "State_validate state"; cases acq)
      (auto simp: Model_Predict_def res_panic_iffs)
next
  case (Err e)
  assume "fst (Model_Predict ctx state qs acq engine) = Panic"
  with Err show ?thesis
    by (cases "validateContext ctx"; cases "State_validate state") (simp_all add: Model_Predict_def)
qed (simp add: validateQuestions_no_panic)

text \<open>
  The typed calls \<open>Choice\<close>, \<open>Score\<close> and \<open>Noul\<close> return only results that answer their
  question, and the index of the first result is always in range: they panic only if the
  engine does.
\<close>

theorem typed_calls_answer:
  "(case Model_Choice ctx state cq acq engine of Ok r \<Rightarrow> answers_choice cq r | Err e \<Rightarrow> True
      | Panic \<Rightarrow> engine state [ChoiceQ cq] = Panic) \<and>
   (case Model_Score ctx state sq acq engine of Ok r \<Rightarrow> answers_score sq r | Err e \<Rightarrow> True
      | Panic \<Rightarrow> engine state [ScoreQ sq] = Panic) \<and>
   (case Model_Noul ctx state nq acq engine of Ok r \<Rightarrow> answers_noul nq r | Err e \<Rightarrow> True
      | Panic \<Rightarrow> engine state [NoulQ nq] = Panic)"
proof -
  have choice: "case Model_Choice ctx state cq acq engine of Ok r \<Rightarrow> answers_choice cq r | Err e \<Rightarrow> True
      | Panic \<Rightarrow> engine state [ChoiceQ cq] = Panic"
  proof (cases "fst (Model_Predict ctx state [ChoiceQ cq] acq engine)")
    case (Ok p)
    then obtain r where "first_result p = Ok r" "answers (ChoiceQ cq) r" by (rule single_answer)
    with Ok show ?thesis by (simp add: Model_Choice_def answers_def deref_def split: res.splits)
  qed (simp_all add: Model_Choice_def predict_Panic)
  have score: "case Model_Score ctx state sq acq engine of Ok r \<Rightarrow> answers_score sq r | Err e \<Rightarrow> True
      | Panic \<Rightarrow> engine state [ScoreQ sq] = Panic"
  proof (cases "fst (Model_Predict ctx state [ScoreQ sq] acq engine)")
    case (Ok p)
    then obtain r where "first_result p = Ok r" "answers (ScoreQ sq) r" by (rule single_answer)
    with Ok show ?thesis by (simp add: Model_Score_def answers_def deref_def split: res.splits)
  qed (simp_all add: Model_Score_def predict_Panic)
  have "case Model_Noul ctx state nq acq engine of Ok r \<Rightarrow> answers_noul nq r | Err e \<Rightarrow> True
      | Panic \<Rightarrow> engine state [NoulQ nq] = Panic"
  proof (cases "fst (Model_Predict ctx state [NoulQ nq] acq engine)")
    case (Ok p)
    then obtain r where "first_result p = Ok r" "answers (NoulQ nq) r" by (rule single_answer)
    with Ok show ?thesis by (simp add: Model_Noul_def answers_def deref_def split: res.splits)
  qed (simp_all add: Model_Noul_def predict_Panic)
  with choice score show ?thesis by blast
qed

end
