(* ===== verification/Laya_Strings.thy ===== *)
theory Laya_Strings
  imports Laya_Prelude
begin

text \<open>
  The parts of Go's \<open>unicode/utf8\<close>, \<open>strings\<close> and \<open>io/fs\<close> that the
  validation code relies on: UTF-8 validity of a byte string, splitting at a separator byte,
  ASCII lower-casing and trimming, and \<open>fs.ValidPath\<close>.
\<close>

subsection \<open>UTF-8\<close>

definition in_range :: "nat \<Rightarrow> nat \<Rightarrow> nat \<Rightarrow> bool" where
  "in_range lo hi b \<longleftrightarrow> lo \<le> b \<and> b \<le> hi"

definition cont_byte :: "nat \<Rightarrow> bool" where
  "cont_byte b = in_range 0x80 0xBF b"

text \<open>The range a second byte must lie in, by the first byte (the accept table of \<open>unicode/utf8\<close>).\<close>

definition second_ok :: "nat \<Rightarrow> nat \<Rightarrow> bool" where
  "second_ok b c =
     (if b = 0xE0 then in_range 0xA0 0xBF c
      else if b = 0xED then in_range 0x80 0x9F c
      else if b = 0xF0 then in_range 0x90 0xBF c
      else if b = 0xF4 then in_range 0x80 0x8F c
      else cont_byte c)"

fun utf8_bytes :: "nat list \<Rightarrow> bool" where
  "utf8_bytes [] = True"
| "utf8_bytes (b # bs) =
     (if b < 0x80 then utf8_bytes bs
      else if in_range 0xC2 0xDF b then
        (case bs of c # rest \<Rightarrow> cont_byte c \<and> utf8_bytes rest | _ \<Rightarrow> False)
      else if in_range 0xE0 0xEF b then
        (case bs of c # d # rest \<Rightarrow> second_ok b c \<and> cont_byte d \<and> utf8_bytes rest | _ \<Rightarrow> False)
      else if in_range 0xF0 0xF4 b then
        (case bs of c # d # e # rest \<Rightarrow> second_ok b c \<and> cont_byte d \<and> cont_byte e \<and> utf8_bytes rest
         | _ \<Rightarrow> False)
      else False)"

definition utf8_valid :: "string \<Rightarrow> bool" where
  "utf8_valid s = utf8_bytes (map of_char s)"

lemma utf8_ascii: "list_all (\<lambda>c. of_char c < (0x80 :: nat)) s \<Longrightarrow> utf8_valid s"
  unfolding utf8_valid_def by (induction s) auto

subsection \<open>Splitting, trimming, folding\<close>

fun split_at_byte :: "char \<Rightarrow> string \<Rightarrow> string list" where
  "split_at_byte sep [] = [[]]"
| "split_at_byte sep (c # cs) =
     (if c = sep then [] # split_at_byte sep cs
      else case split_at_byte sep cs of
             [] \<Rightarrow> [[c]]
           | w # ws \<Rightarrow> (c # w) # ws)"

lemma split_at_byte_ne [simp]: "split_at_byte sep s \<noteq> []"
  by (induction s) (auto split: list.splits)

lemma split_at_byte_no_sep: "w \<in> set (split_at_byte sep s) \<Longrightarrow> sep \<notin> set w"
proof (induction s arbitrary: w)
  case (Cons c cs)
  then show ?case
    by (cases "split_at_byte sep cs") (auto split: if_splits)
qed simp

text \<open>\<open>strings.ToLower\<close> on ASCII letters.\<close>

definition ascii_lower_char :: "char \<Rightarrow> char" where
  "ascii_lower_char c =
     (if CHR ''A'' \<le> c \<and> c \<le> CHR ''Z'' then char_of ((of_char c :: nat) + 32) else c)"

definition ascii_lower :: "string \<Rightarrow> string" where
  "ascii_lower s = map ascii_lower_char s"

text \<open>
  \<open>strings.TrimSpace\<close>: the UTF-8 encodings of the runes \<open>unicode.IsSpace\<close>
  accepts, removed from both ends.
\<close>

definition space_encodings :: "string list" where
  "space_encodings =
     map (map char_of)
       ([[0x09], [0x0A], [0x0B], [0x0C], [0x0D], [0x20], [0xC2, 0x85], [0xC2, 0xA0], [0xE1, 0x9A, 0x80],
         [0xE2, 0x80, 0xA8], [0xE2, 0x80, 0xA9], [0xE2, 0x80, 0xAF], [0xE2, 0x81, 0x9F], [0xE3, 0x80, 0x80]] @
        map (\<lambda>x. [0xE2, 0x80, x]) [0x80..<0x8B :: nat])"

function strip_prefixes :: "string list \<Rightarrow> string \<Rightarrow> string" where
  "strip_prefixes ps s =
     (case List.find (\<lambda>p. p \<noteq> [] \<and> take (length p) s = p) ps of
        None \<Rightarrow> s
      | Some p \<Rightarrow> strip_prefixes ps (drop (length p) s))"
  by pat_completeness auto
termination
proof (relation "measure (\<lambda>(ps, s). length s)")
  fix ps s p
  assume "List.find (\<lambda>p. p \<noteq> [] \<and> take (length p) s = p) ps = Some p"
  then have "p \<noteq> []" "take (length p) s = p" by (auto simp: find_Some_iff)
  then have "s \<noteq> []" "p \<noteq> []" by auto
  then show "((ps, drop (length p) s), (ps, s)) \<in> measure (\<lambda>(ps, s). length s)" by simp
qed simp

declare strip_prefixes.simps [simp del]

definition trim_space :: "string \<Rightarrow> string" where
  "trim_space s =
     rev (strip_prefixes (map rev space_encodings) (rev (strip_prefixes space_encodings s)))"

subsection \<open>fs.ValidPath\<close>

definition path_elem_ok :: "string \<Rightarrow> bool" where
  "path_elem_ok e \<longleftrightarrow> e \<noteq> '''' \<and> e \<noteq> ''.'' \<and> e \<noteq> ''..''"

definition fs_ValidPath :: "string \<Rightarrow> bool" where
  "fs_ValidPath name \<longleftrightarrow>
     utf8_valid name \<and> (name = ''.'' \<or> list_all path_elem_ok (split_at_byte CHR ''/'' name))"

definition has_backslash :: "string \<Rightarrow> bool" where
  "has_backslash s \<longleftrightarrow> CHR 0x5C \<in> set s"

lemma fs_ValidPath_no_dotdot:
  "fs_ValidPath p \<Longrightarrow> ''..'' \<notin> set (split_at_byte CHR ''/'' p)"
  by (auto simp: fs_ValidPath_def list_all_iff path_elem_ok_def)

lemma fs_ValidPath_relative: "fs_ValidPath p \<Longrightarrow> p \<noteq> [] \<and> hd p \<noteq> CHR ''/''"
  by (cases p) (auto simp: fs_ValidPath_def path_elem_ok_def)

end
