(* ===== verification/Laya_AdkData.thy ===== *)
theory Laya_AdkData
  imports Laya_Predict Laya_Strings
begin

text \<open>
  \<open>adklaya/data.go\<close>: the data nodes of an ADK workflow. The workflow engine is not part of the
  repository; a node is what \<open>workflow.NewFunctionNode\<close> is given: a name, a function and a
  configuration. The configuration holds pointers, so it lives in a store of cells. The context
  of a node is asked several times; its \<open>n\<close>-th answer is \<open>ctx n\<close>.
\<close>

subsection \<open>Options\<close>

text \<open>\<open>workflow.NodeConfig\<close>, whose three fields are pointers into the store; \<open>'r\<close> is \<open>workflow.RetryConfig\<close>.\<close>

datatype 'r cell = BoolCell bool | RetryCell 'r

type_synonym 'r store = "'r cell list"

record NodeConfig =
  nc_RerunOnResume :: "nat option"
  nc_WaitForOutput :: "nat option"
  nc_RetryConfig :: "nat option"

record NodeOptions =
  no_Name :: string
  no_Config :: NodeConfig

definition clone_pointer :: "nat option \<Rightarrow> 'r store \<Rightarrow> nat option \<times> 'r store" where
  "clone_pointer p s = (case p of None \<Rightarrow> (None, s) | Some a \<Rightarrow> (Some (length s), s @ [s ! a]))"

definition cloneNodeConfig :: "NodeConfig \<Rightarrow> 'r store \<Rightarrow> NodeConfig \<times> 'r store" where
  "cloneNodeConfig cfg s =
     (case clone_pointer (nc_RerunOnResume cfg) s of (rerun, s1) \<Rightarrow>
     (case clone_pointer (nc_WaitForOutput cfg) s1 of (wait, s2) \<Rightarrow>
     (case clone_pointer (nc_RetryConfig cfg) s2 of (retry, s3) \<Rightarrow>
        (\<lparr>nc_RerunOnResume = rerun, nc_WaitForOutput = wait, nc_RetryConfig = retry\<rparr>, s3))))"

definition invalidConfig :: "string \<Rightarrow> go_error" where
  "invalidConfig message = wrap ErrInvalidConfig message"

definition validateNodeOptions :: "NodeOptions \<Rightarrow> go_error option" where
  "validateNodeOptions opts =
     (if trim_space (no_Name opts) = '''' then Some (invalidConfig ''node name is empty'')
      else if no_Name opts = ''user'' then Some (invalidConfig ''node name is reserved by ADK'')
      else None)"

text \<open>A name that starts and ends with a visible ASCII character is not trimmed.\<close>

definition visible :: "char \<Rightarrow> bool" where
  "visible c \<longleftrightarrow> (0x20 :: nat) < of_char c \<and> of_char c < (0x80 :: nat)"

lemma space_encodings_ends: "list_all (\<lambda>p. p \<noteq> [] \<and> \<not> visible (hd p) \<and> \<not> visible (last p)) space_encodings"
  by code_simp

lemma strip_prefixes_visible:
  assumes "list_all (\<lambda>p. p \<noteq> [] \<and> \<not> visible (hd p)) ps" and "s \<noteq> []" and "visible (hd s)"
  shows "strip_prefixes ps s = s"
proof -
  have "take (length p) s \<noteq> p" if "p \<in> set ps" for p
    using assms that by (cases p; cases s) (auto simp: list_all_iff)
  then have "List.find (\<lambda>p. p \<noteq> [] \<and> take (length p) s = p) ps = None" by (auto simp: find_None_iff)
  then show ?thesis by (subst strip_prefixes.simps) simp
qed

lemma trim_space_visible:
  assumes "s \<noteq> []" and "visible (hd s)" and "visible (last s)"
  shows "trim_space s = s"
proof -
  have "strip_prefixes space_encodings s = s"
    using space_encodings_ends assms by (intro strip_prefixes_visible) (auto simp: list_all_iff)
  moreover have "strip_prefixes (map rev space_encodings) (rev s) = rev s"
    using space_encodings_ends assms by (intro strip_prefixes_visible) (auto simp: list_all_iff hd_rev)
  ultimately show ?thesis by (simp add: trim_space_def)
qed

subsection \<open>Outputs\<close>

record ChoiceOutput =
  co_QuestionID :: string
  co_Answer :: ChoiceAnswer
  co_Usage :: Usage
  co_Metadata :: PredictionMetadata

record ScoreOutput =
  so_QuestionID :: string
  so_Answer :: ScoreAnswer
  so_Usage :: Usage
  so_Metadata :: PredictionMetadata

record NoulOutput =
  nu_QuestionID :: string
  nu_Answer :: NoulAnswer
  nu_Usage :: Usage
  nu_Metadata :: PredictionMetadata

definition ResultKindChoice :: string where "ResultKindChoice = ''choice''"
definition ResultKindScore :: string where "ResultKindScore = ''score''"
definition ResultKindNoul :: string where "ResultKindNoul = ''noul''"

record ResultOutput =
  ro_Kind :: string
  ro_QuestionID :: string
  ro_Choice :: "ChoiceAnswer option"
  ro_Score :: "ScoreAnswer option"
  ro_Noul :: "NoulAnswer option"

record PredictionOutput =
  po_Results :: "ResultOutput list"
  po_Usage :: Usage
  po_Metadata :: PredictionMetadata

definition choice_answer :: "ChoiceResult \<Rightarrow> ChoiceAnswer" where
  "choice_answer r = \<lparr>ca_Selected = cr_selected r, ca_Probabilities = cr_probabilities r,
     ca_Confidence = cr_confidence r, ca_ActionProbability = cr_actionProbability r\<rparr>"

definition score_answer :: "ScoreResult \<Rightarrow> ScoreAnswer" where
  "score_answer r = \<lparr>sa_ExpectedLevel = sr_expectedLevel r, sa_Distribution = sr_distribution r,
     sa_Confidence = sr_confidence r, sa_ActionProbability = sr_actionProbability r\<rparr>"

definition noul_answer :: "NoulResult \<Rightarrow> NoulAnswer" where
  "noul_answer r = \<lparr>na_TrueProbability = nr_trueProbability r, na_ActionProbability = nr_actionProbability r\<rparr>"

text \<open>The type switch has no case for the pointer types.\<close>

definition resultOutput :: "Result \<Rightarrow> ResultOutput res" where
  "resultOutput result =
     (case result of
        ChoiceR r \<Rightarrow> Ok \<lparr>ro_Kind = ResultKindChoice, ro_QuestionID = cr_questionID r, ro_Choice = Some (choice_answer r),
                       ro_Score = None, ro_Noul = None\<rparr>
      | ScoreR r \<Rightarrow> Ok \<lparr>ro_Kind = ResultKindScore, ro_QuestionID = sr_questionID r, ro_Choice = None,
                      ro_Score = Some (score_answer r), ro_Noul = None\<rparr>
      | NoulR r \<Rightarrow> Ok \<lparr>ro_Kind = ResultKindNoul, ro_QuestionID = nr_questionID r, ro_Choice = None,
                     ro_Score = None, ro_Noul = Some (noul_answer r)\<rparr>
      | _ \<Rightarrow> Err (Opaque ''unsupported result type''))"

subsection \<open>Nodes\<close>

record ('i, 'o) FunctionNode =
  fn_name :: string
  fn_run :: "(nat \<Rightarrow> go_error option) \<Rightarrow> 'i \<Rightarrow> 'o res"
  fn_config :: NodeConfig

type_synonym 'i projector = "'i \<Rightarrow> State res"

text \<open>The function of a data node: the context is asked before and after every step.\<close>

definition data_fn :: "'i projector \<Rightarrow> (State \<Rightarrow> 'o res) \<Rightarrow> (nat \<Rightarrow> go_error option) \<Rightarrow> 'i \<Rightarrow> 'o res" where
  "data_fn projector run ctx input =
     check_then (ctx 0)
      (res_bind (res_wrap ''project state'' (projector input)) (\<lambda>state.
        check_then (ctx 1)
         (res_bind (run state) (\<lambda>output. check_then (ctx 2) (Ok output)))))"

definition newDataNode ::
  "NodeOptions \<Rightarrow> 'i projector option \<Rightarrow> (State \<Rightarrow> 'o res) \<Rightarrow> 'r store \<Rightarrow> ('i, 'o) FunctionNode res \<times> 'r store" where
  "newDataNode opts projector run s =
     (case validateNodeOptions opts of Some e \<Rightarrow> (Err e, s)
      | None \<Rightarrow>
     (case projector of None \<Rightarrow> (Err (invalidConfig ''new node: state projector is nil''), s)
      | Some project \<Rightarrow>
          (case cloneNodeConfig (no_Config opts) s of
             (cfg, s') \<Rightarrow> (Ok \<lparr>fn_name = no_Name opts, fn_run = data_fn project run, fn_config = cfg\<rparr>, s'))))"

definition choice_run :: "engine \<Rightarrow> ChoiceQuestion \<Rightarrow> State \<Rightarrow> ChoiceOutput res" where
  "choice_run predict q state =
     res_bind (predict state [ChoiceQ q]) (\<lambda>p.
     res_bind (first_result p) (\<lambda>result.
       case result of
         ChoiceR r \<Rightarrow> Ok \<lparr>co_QuestionID = cr_questionID r, co_Answer = choice_answer r,
                        co_Usage = pr_usage p, co_Metadata = pr_metadata p\<rparr>
       | _ \<Rightarrow> Err (Opaque ''choice node: result has another type'')))"

definition score_run :: "engine \<Rightarrow> ScoreQuestion \<Rightarrow> State \<Rightarrow> ScoreOutput res" where
  "score_run predict q state =
     res_bind (predict state [ScoreQ q]) (\<lambda>p.
     res_bind (first_result p) (\<lambda>result.
       case result of
         ScoreR r \<Rightarrow> Ok \<lparr>so_QuestionID = sr_questionID r, so_Answer = score_answer r,
                       so_Usage = pr_usage p, so_Metadata = pr_metadata p\<rparr>
       | _ \<Rightarrow> Err (Opaque ''score node: result has another type'')))"

definition noul_run :: "engine \<Rightarrow> NoulQuestion \<Rightarrow> State \<Rightarrow> NoulOutput res" where
  "noul_run predict q state =
     res_bind (predict state [NoulQ q]) (\<lambda>p.
     res_bind (first_result p) (\<lambda>result.
       case result of
         NoulR r \<Rightarrow> Ok \<lparr>nu_QuestionID = nr_questionID r, nu_Answer = noul_answer r,
                      nu_Usage = pr_usage p, nu_Metadata = pr_metadata p\<rparr>
       | _ \<Rightarrow> Err (Opaque ''noul node: result has another type'')))"

definition prediction_run :: "engine \<Rightarrow> Question list \<Rightarrow> State \<Rightarrow> PredictionOutput res" where
  "prediction_run predict qs state =
     res_bind (predict state qs) (\<lambda>p.
     res_bind (res_map (\<lambda>r. res_wrap ''prediction node'' (resultOutput r)) (pr_results p)) (\<lambda>outs.
       Ok \<lparr>po_Results = outs, po_Usage = pr_usage p, po_Metadata = pr_metadata p\<rparr>))"

definition newChoiceNode ::
  "'i projector option \<Rightarrow> ChoiceQuestion \<Rightarrow> NodeOptions \<Rightarrow> engine \<Rightarrow> 'r store \<Rightarrow> ('i, ChoiceOutput) FunctionNode res \<times> 'r store" where
  "newChoiceNode projector q opts predict s = newDataNode opts projector (choice_run predict q) s"

definition newScoreNode ::
  "'i projector option \<Rightarrow> ScoreQuestion \<Rightarrow> NodeOptions \<Rightarrow> engine \<Rightarrow> 'r store \<Rightarrow> ('i, ScoreOutput) FunctionNode res \<times> 'r store" where
  "newScoreNode projector q opts predict s = newDataNode opts projector (score_run predict q) s"

definition newNoulNode ::
  "'i projector option \<Rightarrow> NoulQuestion \<Rightarrow> NodeOptions \<Rightarrow> engine \<Rightarrow> 'r store \<Rightarrow> ('i, NoulOutput) FunctionNode res \<times> 'r store" where
  "newNoulNode projector q opts predict s = newDataNode opts projector (noul_run predict q) s"

definition newPredictionNode ::
  "'i projector option \<Rightarrow> Question list \<Rightarrow> NodeOptions \<Rightarrow> engine \<Rightarrow> 'r store \<Rightarrow> ('i, PredictionOutput) FunctionNode res \<times> 'r store" where
  "newPredictionNode projector qs opts predict s =
     (if length qs = 0 then (Err (invalidConfig ''new prediction node: questions are empty''), s)
      else newDataNode opts projector (prediction_run predict qs) s)"

text \<open>The exported constructors; a model is its \<open>Predict\<close> method.\<close>

definition NewChoiceNode ::
  "engine option \<Rightarrow> 'i projector option \<Rightarrow> ChoiceQuestion \<Rightarrow> NodeOptions \<Rightarrow> 'r store \<Rightarrow> ('i, ChoiceOutput) FunctionNode res \<times> 'r store" where
  "NewChoiceNode model projector q opts s =
     (case model of None \<Rightarrow> (Err (invalidConfig ''new choice node: model is nil''), s)
      | Some predict \<Rightarrow> newChoiceNode projector q opts predict s)"

definition NewScoreNode ::
  "engine option \<Rightarrow> 'i projector option \<Rightarrow> ScoreQuestion \<Rightarrow> NodeOptions \<Rightarrow> 'r store \<Rightarrow> ('i, ScoreOutput) FunctionNode res \<times> 'r store" where
  "NewScoreNode model projector q opts s =
     (case model of None \<Rightarrow> (Err (invalidConfig ''new score node: model is nil''), s)
      | Some predict \<Rightarrow> newScoreNode projector q opts predict s)"

definition NewNoulNode ::
  "engine option \<Rightarrow> 'i projector option \<Rightarrow> NoulQuestion \<Rightarrow> NodeOptions \<Rightarrow> 'r store \<Rightarrow> ('i, NoulOutput) FunctionNode res \<times> 'r store" where
  "NewNoulNode model projector q opts s =
     (case model of None \<Rightarrow> (Err (invalidConfig ''new noul node: model is nil''), s)
      | Some predict \<Rightarrow> newNoulNode projector q opts predict s)"

definition NewPredictionNode ::
  "engine option \<Rightarrow> 'i projector option \<Rightarrow> Question list \<Rightarrow> NodeOptions \<Rightarrow> 'r store \<Rightarrow> ('i, PredictionOutput) FunctionNode res \<times> 'r store" where
  "NewPredictionNode model projector qs opts s =
     (case model of None \<Rightarrow> (Err (invalidConfig ''new prediction node: model is nil''), s)
      | Some predict \<Rightarrow> newPredictionNode projector qs opts predict s)"

subsection \<open>Configurations are copied\<close>

definition pointers :: "NodeConfig \<Rightarrow> nat option list" where
  "pointers cfg = [nc_RerunOnResume cfg, nc_WaitForOutput cfg, nc_RetryConfig cfg]"

definition config_wf :: "'r store \<Rightarrow> NodeConfig \<Rightarrow> bool" where
  "config_wf s cfg \<longleftrightarrow> (\<forall>a. Some a \<in> set (pointers cfg) \<longrightarrow> a < length s)"

definition config_values :: "'r store \<Rightarrow> NodeConfig \<Rightarrow> 'r cell option list" where
  "config_values s cfg = map (map_option (\<lambda>a. s ! a)) (pointers cfg)"

lemma clone_pointer_spec:
  assumes "clone_pointer p s = (q, s')" and "\<And>a. p = Some a \<Longrightarrow> a < length s"
  shows "\<exists>new. s' = s @ new" and "map_option ((!) s') q = map_option ((!) s) p"
    and "\<And>a. q = Some a \<Longrightarrow> length s \<le> a \<and> a < length s'"
  using assms by (auto simp: clone_pointer_def split: option.splits)

text \<open>The copy holds the same values in cells of its own: no later write to the caller's cells shows in it.\<close>

lemma cloneNodeConfig_isolated:
  assumes "config_wf s cfg" and "cloneNodeConfig cfg s = (cfg', s')"
  shows "config_values s' cfg' = config_values s cfg" and "\<exists>new. s' = s @ new"
    and "a < length s \<Longrightarrow> config_values (s'[a := c]) cfg' = config_values s' cfg'"
proof -
  obtain r1 s1 r2 s2 r3 where c: "clone_pointer (nc_RerunOnResume cfg) s = (r1, s1)"
    "clone_pointer (nc_WaitForOutput cfg) s1 = (r2, s2)" "clone_pointer (nc_RetryConfig cfg) s2 = (r3, s')"
    "cfg' = \<lparr>nc_RerunOnResume = r1, nc_WaitForOutput = r2, nc_RetryConfig = r3\<rparr>"
    using assms(2) by (auto simp: cloneNodeConfig_def split: prod.splits)
  have wf: "\<And>a. nc_RerunOnResume cfg = Some a \<Longrightarrow> a < length s" "\<And>a. nc_WaitForOutput cfg = Some a \<Longrightarrow> a < length s"
    "\<And>a. nc_RetryConfig cfg = Some a \<Longrightarrow> a < length s"
    using assms(1) by (auto simp: config_wf_def pointers_def)
  note p1 = clone_pointer_spec [OF c(1) wf(1)]
  obtain n1 where s1: "s1 = s @ n1" using p1(1) by blast
  note p2 = clone_pointer_spec [OF c(2), unfolded s1 length_append, OF trans_less_add1, OF wf(2)]
  obtain n2 where s2: "s2 = s @ n1 @ n2" using p2(1) s1 by auto
  note p3 = clone_pointer_spec [OF c(3), unfolded s2 length_append, OF trans_less_add1, OF wf(3)]
  obtain n3 where s': "s' = s @ n1 @ n2 @ n3" using p3(1) by auto
  have same: "map_option ((!) (s @ xs)) p = map_option ((!) s) p" if "\<And>a. p = Some a \<Longrightarrow> a < length s" for xs :: "'a store" and p
    using that by (cases p) (simp_all add: nth_append)
  have same': "map_option ((!) (s @ xs @ ys)) p = map_option ((!) (s @ xs)) p"
    if "\<And>a. p = Some a \<Longrightarrow> a < length (s @ xs)" for xs ys :: "'a store" and p
    using that by (cases p) (simp_all add: nth_append flip: append_assoc)
  have "map_option ((!) s') r1 = map_option ((!) s) (nc_RerunOnResume cfg)"
    using p1(2,3) same' [where p = r1 and xs = n1 and ys = "n2 @ n3"] unfolding s1 s' by (simp add: s1)
  moreover have "map_option ((!) s') r2 = map_option ((!) s) (nc_WaitForOutput cfg)"
    using p2(2,3) same' [where p = r2 and xs = "n1 @ n2" and ys = n3] same [OF wf(2), where xs = n1] unfolding s2 s' by (simp add: s2)
  moreover have "map_option ((!) s') r3 = map_option ((!) s) (nc_RetryConfig cfg)"
    using p3(2) same [OF wf(3), where xs = "n1 @ n2"] by simp
  ultimately show "config_values s' cfg' = config_values s cfg"
    by (simp add: c(4) config_values_def pointers_def)
  show "\<exists>new. s' = s @ new" using s' by blast
  assume a: "a < length s"
  have keep: "map_option ((!) (s'[a := c])) p = map_option ((!) s') p" if "\<And>b. p = Some b \<Longrightarrow> length s \<le> b" for p
    using that a by (cases p) (auto simp: nth_list_update)
  have "length s \<le> b" if "r1 = Some b \<or> r2 = Some b \<or> r3 = Some b" for b
    using that p1(3) p2(3) p3(3) by fastforce
  then show "config_values (s'[a := c]) cfg' = config_values s' cfg'"
    by (simp add: c(4) config_values_def pointers_def keep)
qed

subsection \<open>Outputs carry the results\<close>

text \<open>The documented shape of a \<open>ResultOutput\<close>: one answer, and it agrees with \<open>Kind\<close>.\<close>

definition output_ok :: "ResultOutput \<Rightarrow> bool" where
  "output_ok out \<longleftrightarrow>
     length (somes [map_option (\<lambda>_. ()) (ro_Choice out), map_option (\<lambda>_. ()) (ro_Score out), map_option (\<lambda>_. ()) (ro_Noul out)]) = 1 \<and>
     ro_Kind out = (if ro_Choice out \<noteq> None then ResultKindChoice
                    else if ro_Score out \<noteq> None then ResultKindScore else ResultKindNoul)"

text \<open>The result that an output describes.\<close>

definition choice_result :: "string \<Rightarrow> ChoiceAnswer \<Rightarrow> ChoiceResult" where
  "choice_result i a = \<lparr>cr_questionID = i, cr_selected = ca_Selected a, cr_probabilities = ca_Probabilities a,
     cr_confidence = ca_Confidence a, cr_actionProbability = ca_ActionProbability a\<rparr>"

definition score_result :: "string \<Rightarrow> ScoreAnswer \<Rightarrow> ScoreResult" where
  "score_result i a = \<lparr>sr_questionID = i, sr_expectedLevel = sa_ExpectedLevel a, sr_distribution = sa_Distribution a,
     sr_confidence = sa_Confidence a, sr_actionProbability = sa_ActionProbability a\<rparr>"

definition noul_result :: "string \<Rightarrow> NoulAnswer \<Rightarrow> NoulResult" where
  "noul_result i a = \<lparr>nr_questionID = i, nr_trueProbability = na_TrueProbability a,
     nr_actionProbability = na_ActionProbability a\<rparr>"

definition output_result :: "ResultOutput \<Rightarrow> Result" where
  "output_result out =
     (case (ro_Choice out, ro_Score out, ro_Noul out) of
        (Some a, None, None) \<Rightarrow> ChoiceR (choice_result (ro_QuestionID out) a)
      | (None, Some a, None) \<Rightarrow> ScoreR (score_result (ro_QuestionID out) a)
      | (None, None, Some a) \<Rightarrow> NoulR (noul_result (ro_QuestionID out) a)
      | _ \<Rightarrow> OtherResult)"

definition output_prediction :: "PredictionOutput \<Rightarrow> Prediction" where
  "output_prediction out =
     \<lparr>pr_results = map output_result (po_Results out), pr_usage = po_Usage out, pr_metadata = po_Metadata out\<rparr>"

definition plain_result :: "Result \<Rightarrow> bool" where
  "plain_result r = (case r of ChoiceR _ \<Rightarrow> True | ScoreR _ \<Rightarrow> True | NoulR _ \<Rightarrow> True | _ \<Rightarrow> False)"

lemma answer_inverse [simp]:
  "choice_result (cr_questionID c) (choice_answer c) = c"
  "score_result (sr_questionID s) (score_answer s) = s"
  "noul_result (nr_questionID n) (noul_answer n) = n"
  by (simp_all add: choice_result_def choice_answer_def score_result_def score_answer_def noul_result_def noul_answer_def)

lemma resultOutput_Ok: "resultOutput r = Ok out \<Longrightarrow> output_ok out \<and> output_result out = r"
  by (auto simp: resultOutput_def output_ok_def output_result_def split: Result.splits)

lemma resultOutput_plain: "plain_result r \<longleftrightarrow> (\<exists>out. resultOutput r = Ok out)" "resultOutput r \<noteq> Panic"
  by (auto simp: resultOutput_def plain_result_def split: Result.splits)

lemma resultOutputs_Ok:
  "res_map (\<lambda>r. res_wrap m (resultOutput r)) rs = Ok outs \<Longrightarrow> map output_result outs = rs \<and> list_all output_ok outs"
  by (induction rs arbitrary: outs) (auto simp: res_ok_iffs dest: resultOutput_Ok)

lemma resultOutputs_total:
  "list_all plain_result rs \<longleftrightarrow> (\<exists>outs. res_map (\<lambda>r. res_wrap m (resultOutput r)) rs = Ok outs)"
  by (induction rs) (auto simp: res_ok_iffs resultOutput_plain(1))

lemma resultOutputs_no_panic: "res_map (\<lambda>r. res_wrap m (resultOutput r)) rs \<noteq> Panic"
  by (auto dest!: res_map_Panic simp: res_wrap_Panic_iff resultOutput_plain(2))

text \<open>
  C29: The output of a prediction node loses nothing: every \<open>ResultOutput\<close> has exactly one answer,
  which agrees with its kind, and reading the outputs back gives the prediction of the model,
  result by result in order, with its usage and metadata. The node fails exactly if the model
  does or returns a result behind a pointer, and panics only if the model does.
\<close>

theorem prediction_node_roundtrip:
  "(case prediction_run predict qs state of
      Ok out \<Rightarrow> predict state qs = Ok (output_prediction out) \<and> list_all output_ok (po_Results out)
    | Err e \<Rightarrow> (case predict state qs of Ok p \<Rightarrow> list_ex (\<lambda>r. \<not> plain_result r) (pr_results p) | Err x \<Rightarrow> x = e | Panic \<Rightarrow> False)
    | Panic \<Rightarrow> predict state qs = Panic)"
proof (cases "predict state qs")
  case (Ok p)
  let ?outs = "res_map (\<lambda>r. res_wrap ''prediction node'' (resultOutput r)) (pr_results p)"
  show ?thesis
  proof (cases ?outs)
    case outs: (Ok outs)
    from resultOutputs_Ok [OF outs] Ok outs show ?thesis by (simp add: prediction_run_def output_prediction_def)
  next
    case (Err e)
    then have "\<not> list_all plain_result (pr_results p)"
      using resultOutputs_total [where rs = "pr_results p" and m = "''prediction node''"] by simp
    with Ok Err show ?thesis by (simp add: prediction_run_def list_all_iff list_ex_iff)
  qed (simp add: resultOutputs_no_panic)
qed (simp_all add: prediction_run_def)

subsection \<open>Data nodes over a model\<close>

lemma data_fn_Ok:
  "data_fn projector run ctx input = Ok out \<longleftrightarrow>
     (\<exists>state. projector input = Ok state \<and> run state = Ok out \<and> ctx 0 = None \<and> ctx 1 = None \<and> ctx 2 = None)"
  by (auto simp: data_fn_def res_ok_iffs)

lemma data_fn_Panic:
  "data_fn projector run ctx input = Panic \<Longrightarrow> projector input = Panic \<or> (\<exists>state. run state = Panic)"
  by (auto simp: data_fn_def res_panic_iffs)

lemma choice_run_total:
  assumes "predict = (\<lambda>state qs. fst (Model_Predict c state qs acq engine))"
  shows "(case choice_run predict q state of
       Ok out \<Rightarrow> answers_choice q (choice_result (co_QuestionID out) (co_Answer out)) | Err e \<Rightarrow> True
     | Panic \<Rightarrow> engine state [ChoiceQ q] = Panic)"
proof (cases "predict state [ChoiceQ q]")
  case (Ok p)
  then obtain r where "first_result p = Ok r" "answers (ChoiceQ q) r" unfolding assms by (rule single_answer)
  with Ok show ?thesis by (cases r) (simp_all add: choice_run_def answers_def deref_def choiceResult_def)
qed (use predict_Panic in \<open>simp_all add: choice_run_def assms\<close>)

lemma score_run_total:
  assumes "predict = (\<lambda>state qs. fst (Model_Predict c state qs acq engine))"
  shows "(case score_run predict q state of
       Ok out \<Rightarrow> answers_score q (score_result (so_QuestionID out) (so_Answer out)) | Err e \<Rightarrow> True
     | Panic \<Rightarrow> engine state [ScoreQ q] = Panic)"
proof (cases "predict state [ScoreQ q]")
  case (Ok p)
  then obtain r where "first_result p = Ok r" "answers (ScoreQ q) r" unfolding assms by (rule single_answer)
  with Ok show ?thesis by (cases r) (simp_all add: score_run_def answers_def deref_def scoreResult_def)
qed (use predict_Panic in \<open>simp_all add: score_run_def assms\<close>)

lemma noul_run_total:
  assumes "predict = (\<lambda>state qs. fst (Model_Predict c state qs acq engine))"
  shows "(case noul_run predict q state of
       Ok out \<Rightarrow> answers_noul q (noul_result (nu_QuestionID out) (nu_Answer out)) | Err e \<Rightarrow> True
     | Panic \<Rightarrow> engine state [NoulQ q] = Panic)"
proof (cases "predict state [NoulQ q]")
  case (Ok p)
  then obtain r where "first_result p = Ok r" "answers (NoulQ q) r" unfolding assms by (rule single_answer)
  with Ok show ?thesis by (cases r) (simp_all add: noul_run_def answers_def deref_def noulResult_def)
qed (use predict_Panic in \<open>simp_all add: noul_run_def assms\<close>)

text \<open>What a data node promises: \<open>good\<close> outputs under a live context, no panic of its own.\<close>

definition node_sound ::
  "('o \<Rightarrow> bool) \<Rightarrow> (State \<Rightarrow> bool) \<Rightarrow> 'i projector option \<Rightarrow> NodeOptions \<Rightarrow> 'r store \<Rightarrow> ('i, 'o) FunctionNode res \<times> 'r store \<Rightarrow> bool" where
  "node_sound good enginePanics projector opts s out \<longleftrightarrow>
     (case out of
        (Ok node, s') \<Rightarrow> fn_name node = no_Name opts \<and> trim_space (fn_name node) \<noteq> '''' \<and> fn_name node \<noteq> ''user'' \<and>
          config_values s' (fn_config node) = config_values s (no_Config opts) \<and>
          (\<forall>ctx input. case fn_run node ctx input of
              Ok o' \<Rightarrow> ctx 0 = None \<and> ctx 1 = None \<and> ctx 2 = None \<and> good o'
            | Err e \<Rightarrow> True
            | Panic \<Rightarrow> (\<exists>f. projector = Some f \<and> f input = Panic) \<or> (\<exists>state. enginePanics state))
      | (Err e, s') \<Rightarrow> errors_is e ErrInvalidConfig \<and> s' = s
      | (Panic, s') \<Rightarrow> False)"

lemma newDataNode_sound:
  assumes "config_wf s (no_Config opts)"
    and run: "\<And>state. case run state of Ok out \<Rightarrow> good out | Err e \<Rightarrow> True | Panic \<Rightarrow> enginePanics state"
  shows "node_sound good enginePanics projector opts s (newDataNode opts projector run s)"
proof (cases "validateNodeOptions opts")
  case None
  then have name: "trim_space (no_Name opts) \<noteq> ''''" "no_Name opts \<noteq> ''user''"
    by (auto simp: validateNodeOptions_def split: if_splits)
  show ?thesis
  proof (cases projector)
    case (Some project)
    obtain cfg s' where c: "cloneNodeConfig (no_Config opts) s = (cfg, s')" by fastforce
    have "case data_fn project run ctx input of
        Ok out \<Rightarrow> ctx 0 = None \<and> ctx 1 = None \<and> ctx 2 = None \<and> good out
      | Err e \<Rightarrow> True
      | Panic \<Rightarrow> (\<exists>f. Some project = Some f \<and> f input = Panic) \<or> (\<exists>state. enginePanics state)" for ctx input
    proof (cases "data_fn project run ctx input")
      case (Ok out)
      then obtain state where "run state = Ok out" "ctx 0 = None" "ctx 1 = None" "ctx 2 = None"
        unfolding data_fn_Ok by blast
      with run [of state] Ok show ?thesis by simp
    next
      case Panic
      have "enginePanics state" if "run state = Panic" for state using run [of state] that by simp
      with data_fn_Panic [OF Panic] Panic show ?thesis by auto
    qed simp
    with None Some c name cloneNodeConfig_isolated(1) [OF assms(1) c] show ?thesis
      by (simp add: newDataNode_def node_sound_def)
  qed (simp add: newDataNode_def node_sound_def invalidConfig_def None)
next
  case (Some e)
  then have "errors_is e ErrInvalidConfig" by (auto simp: validateNodeOptions_def invalidConfig_def split: if_splits)
  with Some show ?thesis by (simp add: newDataNode_def node_sound_def)
qed

text \<open>
  C30: A typed data node over a model answers its question. Its constructor accepts exactly a
  usable name, a projector and a model, fails only with the documented category, and copies the
  configuration. Whatever the context does, an output of the node comes from a run during
  which the context was alive at all three checks, and read back as a result it answers the
  question; the node panics only if the projector or the engine does.
\<close>

theorem data_nodes_answer:
  assumes "config_wf s (no_Config opts)"
  shows "node_sound (\<lambda>out. answers_choice cq (choice_result (co_QuestionID out) (co_Answer out)))
      (\<lambda>state. engine state [ChoiceQ cq] = Panic) projector opts s
      (NewChoiceNode (Some (\<lambda>state qs. fst (Model_Predict c state qs acq engine))) projector cq opts s) \<and>
    node_sound (\<lambda>out. answers_score sq (score_result (so_QuestionID out) (so_Answer out)))
      (\<lambda>state. engine state [ScoreQ sq] = Panic) projector opts s
      (NewScoreNode (Some (\<lambda>state qs. fst (Model_Predict c state qs acq engine))) projector sq opts s) \<and>
    node_sound (\<lambda>out. answers_noul nq (noul_result (nu_QuestionID out) (nu_Answer out)))
      (\<lambda>state. engine state [NoulQ nq] = Panic) projector opts s
      (NewNoulNode (Some (\<lambda>state qs. fst (Model_Predict c state qs acq engine))) projector nq opts s)"
  unfolding NewChoiceNode_def NewScoreNode_def NewNoulNode_def newChoiceNode_def newScoreNode_def newNoulNode_def option.case
  by (intro conjI newDataNode_sound assms choice_run_total [OF refl] score_run_total [OF refl] noul_run_total [OF refl])

definition sample_node_options :: NodeOptions where
  "sample_node_options = \<lparr>no_Name = ''safe'', no_Config = \<lparr>nc_RerunOnResume = Some 0, nc_WaitForOutput = None, nc_RetryConfig = Some 1\<rparr>\<rparr>"

lemma sample_node_options_ok: "validateNodeOptions sample_node_options = None"
proof -
  have "trim_space ''safe'' = ''safe''" by (intro trim_space_visible) (simp_all add: visible_def)
  then show ?thesis by (simp add: validateNodeOptions_def sample_node_options_def)
qed

lemma sample_predicted:
  "fst (Model_Predict (Ctx None) (TextState ''hello'') [NoulQ sample_noul] None (\<lambda>s q. Ok sample_prediction)) = Ok sample_prediction"
  by code_simp

theorem data_nodes_answer_witness:
  "case NewNoulNode (Some (\<lambda>state qs. fst (Model_Predict (Ctx None) state qs None (\<lambda>s q. Ok sample_prediction))))
      (Some (\<lambda>input. Ok (TextState input))) sample_noul sample_node_options [BoolCell True, RetryCell ()] of
     (Ok node, s') \<Rightarrow> (case fn_run node (\<lambda>n. None) ''hello'' of
        Ok out \<Rightarrow> answers_noul sample_noul (noul_result (nu_QuestionID out) (nu_Answer out)) | _ \<Rightarrow> False)
   | _ \<Rightarrow> False"
proof -
  let ?node = "NewNoulNode (Some (\<lambda>state qs. fst (Model_Predict (Ctx None) state qs None (\<lambda>s q. Ok sample_prediction))))
      (Some (\<lambda>input. Ok (TextState input))) sample_noul sample_node_options [BoolCell True, RetryCell ()]"
  have wf: "config_wf [BoolCell True, RetryCell ()] (no_Config sample_node_options)"
    by (simp add: config_wf_def pointers_def sample_node_options_def)
  obtain cfg s' where c: "cloneNodeConfig (no_Config sample_node_options) [BoolCell True, RetryCell ()] = (cfg, s')" by fastforce
  define node where "node = \<lparr>fn_name = no_Name sample_node_options,
    fn_run = data_fn (\<lambda>input. Ok (TextState input))
      (noul_run (\<lambda>state qs. fst (Model_Predict (Ctx None) state qs None (\<lambda>s q. Ok sample_prediction))) sample_noul),
    fn_config = cfg\<rparr>"
  have n: "?node = (Ok node, s')"
    by (simp add: NewNoulNode_def newNoulNode_def newDataNode_def sample_node_options_ok c node_def)
  have "is_Ok (fn_run node (\<lambda>n. None) ''hello'')"
    by (simp add: node_def data_fn_def noul_run_def sample_predicted first_result_def is_Ok_def)
      (simp add: sample_prediction_def)
  then obtain out where out: "fn_run node (\<lambda>n. None) ''hello'' = Ok out" by (rule is_OkE)
  note sound = data_nodes_answer [OF wf, where nq = sample_noul and c = "Ctx None" and acq = None and
      engine = "\<lambda>s q. Ok sample_prediction" and projector = "Some (\<lambda>input. Ok (TextState input))"]
  from sound [THEN conjunct2, THEN conjunct2, unfolded n node_sound_def prod.case res.case]
  have "case fn_run node (\<lambda>n. None) ''hello'' of
      Ok out \<Rightarrow> answers_noul sample_noul (noul_result (nu_QuestionID out) (nu_Answer out)) | _ \<Rightarrow> True"
    using out by (auto dest!: spec [of _ "\<lambda>n. None"] spec [of _ "''hello''"])
  then show ?thesis by (simp add: n out)
qed

end
