(* ===== verification/Laya_Options.thy ===== *)
theory Laya_Options
  imports Laya_Errors Laya_Strings
begin

text \<open>\<open>options.go\<close>: the admission and input-budget options of a Model.\<close>

type_synonym TruncationPolicy = uint8

definition RejectOverflow :: TruncationPolicy where "RejectOverflow = 0"
definition TruncateOverflow :: TruncationPolicy where "TruncateOverflow = 1"

record ModelOptions =
  QueueCapacity :: int
  MaxQueueWait :: int
  InputTokenLimit :: int
  Truncation :: TruncationPolicy

record FSModelOptions =
  fso_Root :: string
  fso_WorkDir :: string
  fso_ModelOptions :: ModelOptions

definition ModelOptions_validate :: "ModelOptions \<Rightarrow> go_error option" where
  "ModelOptions_validate o' =
     (if QueueCapacity o' < 0 then Some (wrap ErrInvalidConfig ''queue capacity cannot be negative'')
      else if MaxQueueWait o' < 0 then Some (wrap ErrInvalidConfig ''maximum queue wait cannot be negative'')
      else if InputTokenLimit o' < 0 then Some (wrap ErrInvalidConfig ''input token limit cannot be negative'')
      else if Truncation o' \<noteq> RejectOverflow \<and> Truncation o' \<noteq> TruncateOverflow
        then Some (wrap ErrInvalidConfig ''unknown truncation policy'')
      else None)"

definition FSModelOptions_validate :: "FSModelOptions \<Rightarrow> go_error option" where
  "FSModelOptions_validate o' =
     (case ModelOptions_validate (fso_ModelOptions o') of
        Some e \<Rightarrow> Some e
      | None \<Rightarrow>
          (if fso_Root o' \<noteq> '''' \<and> \<not> fs_ValidPath (fso_Root o')
             then Some (wrap ErrInvalidConfig ''fs root is not a valid path'')
           else if fso_WorkDir o' = ''''
             then Some (wrap ErrInvalidConfig ''fs materialization work directory is empty'')
           else None))"

lemma ModelOptions_validate_None_iff [ok_simps]:
  "ModelOptions_validate o' = None \<longleftrightarrow>
     0 \<le> QueueCapacity o' \<and> 0 \<le> MaxQueueWait o' \<and> 0 \<le> InputTokenLimit o' \<and>
     Truncation o' \<in> {RejectOverflow, TruncateOverflow}"
  by (auto simp: ModelOptions_validate_def)

lemma FSModelOptions_validate_None_iff [ok_simps]:
  "FSModelOptions_validate o' = None \<longleftrightarrow>
     ModelOptions_validate (fso_ModelOptions o') = None \<and>
     (fso_Root o' = '''' \<or> fs_ValidPath (fso_Root o')) \<and> fso_WorkDir o' \<noteq> ''''"
  by (auto simp: FSModelOptions_validate_def split: option.splits)

lemma ModelOptions_validate_error:
  "ModelOptions_validate o' = Some e \<Longrightarrow> errors_is e ErrInvalidConfig"
  by (auto simp: ModelOptions_validate_def split: if_splits)

lemma FSModelOptions_validate_error:
  "FSModelOptions_validate o' = Some e \<Longrightarrow> errors_is e ErrInvalidConfig"
  by (auto simp: FSModelOptions_validate_def dest: ModelOptions_validate_error
      split: if_splits option.splits)

end
