(* ===== verification/Laya_Admission.thy ===== *)
theory Laya_Admission
  imports Laya_Context Laya_Options "HOL-Library.Sublist"
begin

text \<open>
  \<open>model.go\<close>: bounded admission and the lifecycle of a Model, as operations on the fields
  the mutex protects and as a step relation of the goroutines that call them.

  A waiter is named by its caller; \<open>m_granted\<close> and \<open>m_ready\<close> are the callers whose
  waiter has \<open>granted\<close> set and its \<open>ready\<close> channel closed. A channel is the flag that
  says it is closed; closing a closed channel panics. The \<open>closeDone\<close> channels are numbered
  as they are made.
\<close>

subsection \<open>Lifecycle\<close>

datatype lifecycle = Uninit | Open | Closing | Closed

fun lifecycle_rank :: "lifecycle \<Rightarrow> nat" where
  "lifecycle_rank Uninit = 0"
| "lifecycle_rank Open = 1"
| "lifecycle_rank Closing = 2"
| "lifecycle_rank Closed = 3"

lemma lifecycle_rank_inject: "lifecycle_rank a = lifecycle_rank b \<Longrightarrow> a = b"
  by (cases a; cases b) simp_all

instantiation lifecycle :: linorder
begin

definition less_eq_lifecycle :: "lifecycle \<Rightarrow> lifecycle \<Rightarrow> bool" where
  "less_eq_lifecycle a b \<longleftrightarrow> lifecycle_rank a \<le> lifecycle_rank b"

definition less_lifecycle :: "lifecycle \<Rightarrow> lifecycle \<Rightarrow> bool" where
  "less_lifecycle a b \<longleftrightarrow> lifecycle_rank a < lifecycle_rank b"

instance
  by standard (auto simp: less_eq_lifecycle_def less_lifecycle_def intro: lifecycle_rank_inject)

end

lemma lifecycle_less_eq [simp]:
  "Closing \<le> s \<longleftrightarrow> s = Closing \<or> s = Closed" "Open \<le> s \<longleftrightarrow> s \<noteq> Uninit" "Closed \<le> s \<longleftrightarrow> s = Closed"
  "Uninit \<le> s"
  by (cases s; simp add: less_eq_lifecycle_def)+

subsection \<open>The queue of waiters\<close>

text \<open>
  \<open>copy(ws[i:], ws[i+1:]); ws = ws[:len(ws)-1]\<close>: the elements after \<open>i\<close> move down
  over it, and the last slot is cut off.
\<close>

definition remove_at :: "nat \<Rightarrow> 'a list \<Rightarrow> 'a list" where
  "remove_at i ws = butlast (take i ws @ drop (Suc i) ws @ [last ws])"

fun waiter_index :: "'a \<Rightarrow> 'a list \<Rightarrow> nat option" where
  "waiter_index w [] = None"
| "waiter_index w (x # xs) = (if x = w then Some 0 else map_option Suc (waiter_index w xs))"

definition cancel_remove :: "'a \<Rightarrow> 'a list \<Rightarrow> 'a list" where
  "cancel_remove w ws = (case waiter_index w ws of None \<Rightarrow> ws | Some i \<Rightarrow> remove_at i ws)"

definition append_waiter :: "'a \<Rightarrow> 'a list \<Rightarrow> 'a list" where
  "append_waiter w ws = ws @ [w]"

definition pop_waiter :: "'a list \<Rightarrow> ('a \<times> 'a list) option" where
  "pop_waiter ws = (if length ws > 0 then Some (ws ! 0, remove_at 0 ws) else None)"

subsection \<open>Operations under the mutex\<close>

record model =
  m_opts :: ModelOptions
  m_state :: lifecycle
  m_active :: bool
  m_waiters :: "nat list"
  m_granted :: "nat set"
  m_ready :: "nat set"
  m_idle :: bool
  m_idleSet :: bool
  m_closing :: bool
  m_closeInProgress :: bool
  m_closeDone :: "nat option"
  m_doneClosed :: "nat set"
  m_nextDone :: nat

definition newModel :: "ModelOptions \<Rightarrow> model" where
  "newModel opts =
     \<lparr>m_opts = opts, m_state = Open, m_active = False, m_waiters = [], m_granted = {}, m_ready = {},
      m_idle = False, m_idleSet = False, m_closing = False, m_closeInProgress = False,
      m_closeDone = None, m_doneClosed = {}, m_nextDone = 0\<rparr>"

definition signalIdleLocked :: "model \<Rightarrow> model res" where
  "signalIdleLocked m =
     (if m_state m = Closing \<and> \<not> m_active m \<and> length (m_waiters m) = 0 \<and> \<not> m_idleSet m
      then if m_idle m then Panic else Ok (m\<lparr>m_idleSet := True, m_idle := True\<rparr>)
      else Ok m)"

definition releaseLocked :: "model \<Rightarrow> model res" where
  "releaseLocked m =
     (case pop_waiter (m_waiters m) of
        Some (w, ws) \<Rightarrow>
          (let m' = m\<lparr>m_waiters := ws, m_granted := insert w (m_granted m)\<rparr>
           in if w \<in> m_ready m' then Panic else Ok (m'\<lparr>m_ready := insert w (m_ready m')\<rparr>))
      | None \<Rightarrow> signalIdleLocked (m\<lparr>m_active := False\<rparr>))"

definition release :: "model \<Rightarrow> model res" where
  "release m = releaseLocked m"

definition cancelWaiter :: "nat \<Rightarrow> model \<Rightarrow> model res" where
  "cancelWaiter w m =
     (if w \<in> m_granted m then releaseLocked m
      else signalIdleLocked (m\<lparr>m_waiters := cancel_remove w (m_waiters m)\<rparr>))"

datatype admission = Admitted | Queued | Rejected go_error

text \<open>The part of \<open>acquire\<close> before it waits.\<close>

definition acquire :: "nat \<Rightarrow> model \<Rightarrow> admission \<times> model" where
  "acquire w m =
     (if m_state m = Closing \<or> m_state m = Closed then (Rejected (Sentinel ErrModelClosed), m)
      else if m_state m \<noteq> Open then (Rejected (wrap ErrInvalidState ''model is not initialized''), m)
      else if \<not> m_active m then (Admitted, m\<lparr>m_active := True\<rparr>)
      else if int (length (m_waiters m)) \<ge> QueueCapacity (m_opts m)
        then (Rejected (QueueError QueueFull (QueueCapacity (m_opts m)) 0 None), m)
      else (Queued, m\<lparr>m_waiters := append_waiter w (m_waiters m)\<rparr>))"

text \<open>The two ways a queued \<open>acquire\<close> gives up: the context's error, or the timer.\<close>

definition wait_error :: "model \<Rightarrow> go_error \<Rightarrow> bool \<Rightarrow> go_error option" where
  "wait_error m ctxErr timer =
     (if \<not> timer then Some ctxErr
      else if MaxQueueWait (m_opts m) = 0 then None
      else Some (QueueError QueueWaitTimeout (QueueCapacity (m_opts m)) (MaxQueueWait (m_opts m)) None))"

datatype close_next =
    CloseReturn "go_error option"
  | AwaitIdle
  | AwaitDone "nat option"
  | RunEngine nat

definition close_error :: "go_error \<Rightarrow> go_error" where
  "close_error e = Errorf ''close model'' [e]"

text \<open>The decisions of one round of \<open>Close\<close> once the model is closing.\<close>

definition close_wait :: "model \<Rightarrow> close_next \<times> model" where
  "close_wait m =
     (if m_active m \<or> length (m_waiters m) > 0 then (AwaitIdle, m)
      else if m_closeInProgress m then (AwaitDone (m_closeDone m), m)
      else (RunEngine (m_nextDone m),
            m\<lparr>m_closeInProgress := True, m_closeDone := Some (m_nextDone m), m_nextDone := Suc (m_nextDone m)\<rparr>))"

definition close_enter :: "go_error option \<Rightarrow> model \<Rightarrow> (close_next \<times> model) res" where
  "close_enter ctxErr m =
     (case m_state m of
        Closed \<Rightarrow> Ok (CloseReturn None, m)
      | Open \<Rightarrow>
          (case ctxErr of
             Some e \<Rightarrow> Ok (CloseReturn (Some (close_error e)), m)
           | None \<Rightarrow>
               if m_closing m then Panic
               else res_bind (signalIdleLocked (m\<lparr>m_state := Closing, m_closing := True\<rparr>))
                      (\<lambda>m'. Ok (close_wait m')))
      | Closing \<Rightarrow>
          (case ctxErr of
             Some e \<Rightarrow> Ok (CloseReturn (Some (close_error e)), m)
           | None \<Rightarrow> Ok (close_wait m))
      | Uninit \<Rightarrow> Ok (CloseReturn (Some (wrap ErrInvalidState ''model is not initialized'')), m))"

definition close_finish :: "nat \<Rightarrow> go_error option \<Rightarrow> model \<Rightarrow> model res" where
  "close_finish d err m =
     (let m' = m\<lparr>m_closeInProgress := False, m_state := (if err = None then Closed else m_state m)\<rparr>
      in if d \<in> m_doneClosed m' then Panic else Ok (m'\<lparr>m_doneClosed := insert d (m_doneClosed m')\<rparr>))"

subsection \<open>Goroutines\<close>

datatype pc =
    Idle
  | PWait | PCancel go_error | PEngine | PRelease "go_error option" | PDone "go_error option"
  | CEnter | CIdle | CDone "nat option" | CEngine nat | CUnregister nat
  | CFinish nat "go_error option" | CReturn "go_error option"

text \<open>
  The model, the callers by number, whether the runtime still owns the model, and two records
  of the history: the callers in the order they were admitted or queued, and in the order they
  were given the engine.
\<close>

record system =
  sy_model :: model
  sy_pc :: "nat \<Rightarrow> pc"
  sy_registered :: bool
  sy_arrivals :: "nat list"
  sy_grants :: "nat list"
  sy_panic :: bool

definition system_init :: "ModelOptions \<Rightarrow> system" where
  "system_init opts =
     \<lparr>sy_model = newModel opts, sy_pc = (\<lambda>_. Idle), sy_registered = True, sy_arrivals = [],
      sy_grants = [], sy_panic = False\<rparr>"

definition go_to :: "nat \<Rightarrow> pc \<Rightarrow> system \<Rightarrow> system" where
  "go_to t p s = s\<lparr>sy_pc := (sy_pc s)(t := p)\<rparr>"

text \<open>A critical section: its result becomes the model, or the process panics.\<close>

definition run_locked :: "model res \<Rightarrow> system \<Rightarrow> system" where
  "run_locked r s = (case r of Ok m \<Rightarrow> s\<lparr>sy_model := m\<rparr> | _ \<Rightarrow> s\<lparr>sy_panic := True\<rparr>)"

definition note_arrival :: "nat \<Rightarrow> system \<Rightarrow> system" where
  "note_arrival t s = s\<lparr>sy_arrivals := sy_arrivals s @ [t]\<rparr>"

definition note_grants :: "nat list \<Rightarrow> system \<Rightarrow> system" where
  "note_grants ws s = s\<lparr>sy_grants := sy_grants s @ ws\<rparr>"

definition handed_over :: "model \<Rightarrow> nat list" where
  "handed_over m = (case pop_waiter (m_waiters m) of None \<Rightarrow> [] | Some (w, ws) \<Rightarrow> [w])"

fun after_acquire :: "nat \<Rightarrow> admission \<Rightarrow> system \<Rightarrow> system" where
  "after_acquire t Admitted s = go_to t PEngine (note_grants [t] (note_arrival t s))"
| "after_acquire t Queued s = go_to t PWait (note_arrival t s)"
| "after_acquire t (Rejected e) s = go_to t (PDone (Some e)) s"

fun close_pc :: "close_next \<Rightarrow> pc" where
  "close_pc (CloseReturn r) = CReturn r"
| "close_pc AwaitIdle = CIdle"
| "close_pc (AwaitDone d) = CDone d"
| "close_pc (RunEngine d) = CEngine d"

definition after_enter :: "nat \<Rightarrow> (close_next \<times> model) res \<Rightarrow> system \<Rightarrow> system" where
  "after_enter t r s =
     (case r of Ok (n, m) \<Rightarrow> go_to t (close_pc n) (s\<lparr>sy_model := m\<rparr>) | _ \<Rightarrow> s\<lparr>sy_panic := True\<rparr>)"

inductive adm_step :: "system \<Rightarrow> system \<Rightarrow> bool" where
  predict_acquire:
    "\<lbrakk>\<not> sy_panic s; sy_pc s t = Idle; acquire t (sy_model s) = (a, m)\<rbrakk>
     \<Longrightarrow> adm_step s (after_acquire t a (s\<lparr>sy_model := m\<rparr>))"
| wait_ready:
    "\<lbrakk>\<not> sy_panic s; sy_pc s t = PWait; t \<in> m_ready (sy_model s)\<rbrakk> \<Longrightarrow> adm_step s (go_to t PEngine s)"
| wait_ends:
    "\<lbrakk>\<not> sy_panic s; sy_pc s t = PWait; wait_error (sy_model s) ctxErr timer = Some e\<rbrakk>
     \<Longrightarrow> adm_step s (go_to t (PCancel e) s)"
| wait_cancel:
    "\<lbrakk>\<not> sy_panic s; sy_pc s t = PCancel e\<rbrakk>
     \<Longrightarrow> adm_step s (run_locked (cancelWaiter t (sy_model s))
           (note_grants (if t \<in> m_granted (sy_model s) then handed_over (sy_model s) else [])
              (go_to t (PDone (Some e)) s)))"
| engine_returns:
    "\<lbrakk>\<not> sy_panic s; sy_pc s t = PEngine\<rbrakk> \<Longrightarrow> adm_step s (go_to t (PRelease reply) s)"
| predict_release:
    "\<lbrakk>\<not> sy_panic s; sy_pc s t = PRelease reply\<rbrakk>
     \<Longrightarrow> adm_step s (run_locked (release (sy_model s))
           (note_grants (handed_over (sy_model s)) (go_to t (PDone reply) s)))"
| close_call:
    "\<lbrakk>\<not> sy_panic s; sy_pc s t = Idle \<or> sy_pc s t = CEnter\<rbrakk>
     \<Longrightarrow> adm_step s (after_enter t (close_enter ctxErr (sy_model s)) s)"
| idle_closed:
    "\<lbrakk>\<not> sy_panic s; sy_pc s t = CIdle; m_idle (sy_model s)\<rbrakk> \<Longrightarrow> adm_step s (go_to t CEnter s)"
| done_closed:
    "\<lbrakk>\<not> sy_panic s; sy_pc s t = CDone (Some d); d \<in> m_doneClosed (sy_model s)\<rbrakk>
     \<Longrightarrow> adm_step s (go_to t CEnter s)"
| close_context_ends:
    "\<lbrakk>\<not> sy_panic s; sy_pc s t = CIdle \<or> sy_pc s t = CDone d\<rbrakk>
     \<Longrightarrow> adm_step s (go_to t (CReturn (Some (close_error e))) s)"
| engine_close_fails:
    "\<lbrakk>\<not> sy_panic s; sy_pc s t = CEngine d\<rbrakk> \<Longrightarrow> adm_step s (go_to t (CFinish d (Some e)) s)"
| engine_closed:
    "\<lbrakk>\<not> sy_panic s; sy_pc s t = CEngine d\<rbrakk> \<Longrightarrow> adm_step s (go_to t (CUnregister d) s)"
| close_unregister:
    "\<lbrakk>\<not> sy_panic s; sy_pc s t = CUnregister d\<rbrakk>
     \<Longrightarrow> adm_step s (go_to t (CFinish d None) (s\<lparr>sy_registered := False\<rparr>))"
| close_end:
    "\<lbrakk>\<not> sy_panic s; sy_pc s t = CFinish d err\<rbrakk>
     \<Longrightarrow> adm_step s (run_locked (close_finish d err (sy_model s))
           (go_to t (CReturn (map_option close_error err)) s))"

inductive_cases adm_stepE: "adm_step s s'"

subsection \<open>The waiter list as a FIFO queue\<close>

lemma subseq_remove1: "subseq (remove1 w xs) xs"
  by (induction xs) auto

text \<open>
  What admission needs of its queue, and the order it gets from it: whoever is handed the
  engine or still waits does so in the order of arrival.
\<close>

locale fifo_queue =
  fixes push :: "'w \<Rightarrow> 'q \<Rightarrow> 'q"
    and pop :: "'q \<Rightarrow> ('w \<times> 'q) option"
    and withdraw :: "'w \<Rightarrow> 'q \<Rightarrow> 'q"
    and items :: "'q \<Rightarrow> 'w list"
  assumes items_push: "items (push w q) = items q @ [w]"
    and pop_None: "pop q = None \<longleftrightarrow> items q = []"
    and pop_Some: "pop q = Some (w, q') \<Longrightarrow> items q = w # items q'"
    and items_withdraw: "items (withdraw w q) = remove1 w (items q)"
begin

definition in_order :: "'w list \<Rightarrow> 'q \<Rightarrow> 'w list \<Rightarrow> bool" where
  "in_order grants q arrivals \<longleftrightarrow> subseq (grants @ items q) arrivals"

lemma in_order_push: "in_order grants q arrivals \<Longrightarrow> in_order grants (push w q) (arrivals @ [w])"
  by (simp add: in_order_def items_push) (metis append.assoc list_emb_append_mono subseq_order.refl)

lemma in_order_pop: "pop q = Some (w, q') \<Longrightarrow> in_order grants q arrivals \<Longrightarrow> in_order (grants @ [w]) q' arrivals"
  using pop_Some by (simp add: in_order_def)

lemma in_order_withdraw: "in_order grants q arrivals \<Longrightarrow> in_order grants (withdraw w q) arrivals"
proof -
  have "subseq (grants @ remove1 w (items q)) (grants @ items q)"
    by (intro list_emb_append_mono subseq_order.refl subseq_remove1)
  then show "in_order grants q arrivals \<Longrightarrow> in_order grants (withdraw w q) arrivals"
    unfolding in_order_def items_withdraw by (rule subseq_order.trans)
qed

lemma in_order_admit: "items q = [] \<Longrightarrow> in_order grants q arrivals \<Longrightarrow> in_order (grants @ [w]) q (arrivals @ [w])"
  by (simp add: in_order_def list_emb_append_mono)

end

lemma remove_at_eq: "i < length ws \<Longrightarrow> remove_at i ws = take i ws @ drop (Suc i) ws"
  by (simp add: remove_at_def butlast_append)

lemma waiter_index_None: "waiter_index w ws = None \<longleftrightarrow> w \<notin> set ws"
  by (induction ws) auto

lemma waiter_index_Some: "waiter_index w ws = Some i \<Longrightarrow> i < length ws \<and> remove_at i ws = remove1 w ws"
proof (induction ws arbitrary: i)
  case (Cons x xs)
  show ?case
  proof (cases "x = w")
    case True
    with Cons.prems show ?thesis by (auto simp: remove_at_eq)
  next
    case False
    with Cons.prems obtain j where j: "waiter_index w xs = Some j" "i = Suc j" by auto
    with Cons.IH [OF j(1)] False show ?thesis using remove_at_eq [of j xs] by (simp add: remove_at_eq)
  qed
qed simp

lemma cancel_remove_eq: "cancel_remove w ws = remove1 w ws"
proof (cases "waiter_index w ws")
  case None
  then show ?thesis
    using waiter_index_None [of w ws] by (simp add: cancel_remove_def remove1_idem)
next
  case (Some i)
  then show ?thesis using waiter_index_Some [OF Some] by (simp add: cancel_remove_def)
qed

lemma pop_waiter_Nil [simp]: "pop_waiter [] = None"
  by (simp add: pop_waiter_def)

lemma pop_waiter_Cons [simp]: "pop_waiter (w # ws) = Some (w, ws)"
  by (simp add: pop_waiter_def remove_at_eq)

interpretation waiters: fifo_queue append_waiter pop_waiter cancel_remove "\<lambda>ws. ws"
proof unfold_locales
  show "pop_waiter q = None \<longleftrightarrow> q = []" for q :: "'a list" by (cases q) simp_all
  show "pop_waiter q = Some (w, q') \<Longrightarrow> q = w # q'" for q q' :: "'a list" and w by (cases q) simp_all
qed (simp_all add: append_waiter_def cancel_remove_eq)

subsection \<open>Invariants\<close>

definition waiting :: "pc \<Rightarrow> bool" where
  "waiting p \<longleftrightarrow> (case p of PWait \<Rightarrow> True | PCancel e \<Rightarrow> True | _ \<Rightarrow> False)"

definition running :: "pc \<Rightarrow> bool" where
  "running p \<longleftrightarrow> (case p of PEngine \<Rightarrow> True | PRelease r \<Rightarrow> True | _ \<Rightarrow> False)"

text \<open>Who owns the single admission slot: a caller in the engine, or a granted waiter.\<close>

definition holds :: "system \<Rightarrow> nat \<Rightarrow> bool" where
  "holds s t \<longleftrightarrow> running (sy_pc s t) \<or> waiting (sy_pc s t) \<and> t \<in> m_granted (sy_model s)"

definition holder_is :: "system \<Rightarrow> nat option \<Rightarrow> bool" where
  "holder_is s h \<longleftrightarrow> (\<forall>t. holds s t \<longleftrightarrow> h = Some t)"

definition closing_pc :: "pc \<Rightarrow> nat option" where
  "closing_pc p = (case p of CEngine d \<Rightarrow> Some d | CUnregister d \<Rightarrow> Some d | CFinish d e \<Rightarrow> Some d | _ \<Rightarrow> None)"

definition slot_inv :: "system \<Rightarrow> bool" where
  "slot_inv s \<longleftrightarrow> (\<exists>h. holder_is s h \<and> (m_active (sy_model s) \<longleftrightarrow> h \<noteq> None))"

definition queue_inv :: "system \<Rightarrow> bool" where
  "queue_inv s \<longleftrightarrow>
     (let m = sy_model s in
      distinct (m_waiters m) \<and> m_granted m = m_ready m \<and>
      (\<forall>t. t \<in> set (m_waiters m) \<longleftrightarrow> waiting (sy_pc s t) \<and> t \<notin> m_granted m) \<and>
      (\<forall>t. sy_pc s t = Idle \<longrightarrow> t \<notin> m_granted m) \<and>
      (m_waiters m \<noteq> [] \<longrightarrow> m_active m) \<and>
      int (length (m_waiters m)) \<le> max 0 (QueueCapacity (m_opts m)))"

definition idle_inv :: "model \<Rightarrow> bool" where
  "idle_inv m \<longleftrightarrow>
     m_state m \<noteq> Uninit \<and> m_idle m = m_idleSet m \<and> (m_closing m \<longleftrightarrow> Closing \<le> m_state m) \<and>
     (m_idleSet m \<longleftrightarrow> Closing \<le> m_state m \<and> \<not> m_active m \<and> m_waiters m = []) \<and>
     (m_state m = Closed \<longrightarrow> m_idleSet m)"

definition closer_is :: "system \<Rightarrow> (nat \<times> nat) option \<Rightarrow> bool" where
  "closer_is s c \<longleftrightarrow> (\<forall>t d. closing_pc (sy_pc s t) = Some d \<longleftrightarrow> c = Some (t, d))"

definition close_inv :: "system \<Rightarrow> bool" where
  "close_inv s \<longleftrightarrow>
     (let m = sy_model s in
      (\<exists>c. closer_is s c \<and> (m_closeInProgress m \<longleftrightarrow> c \<noteq> None) \<and>
         (\<forall>t d. c = Some (t, d) \<longrightarrow> m_closeDone m = Some d \<and> d \<notin> m_doneClosed m \<and> d < m_nextDone m \<and>
            m_state m = Closing \<and> m_idleSet m \<and> (sy_registered s \<longleftrightarrow> sy_pc s t \<noteq> CFinish d None))) \<and>
      (\<forall>d\<in>m_doneClosed m. d < m_nextDone m) \<and>
      (\<forall>t x. sy_pc s t = CDone x \<longrightarrow>
         (\<exists>d. x = Some d \<and> (d \<in> m_doneClosed m \<or> m_closeInProgress m \<and> m_closeDone m = Some d))) \<and>
      (\<forall>t. sy_pc s t = CIdle \<longrightarrow> Closing \<le> m_state m) \<and>
      (\<not> m_closeInProgress m \<longrightarrow> (sy_registered s \<longleftrightarrow> m_state m \<noteq> Closed)))"

definition history_inv :: "system \<Rightarrow> bool" where
  "history_inv s \<longleftrightarrow>
     waiters.in_order (sy_grants s) (m_waiters (sy_model s)) (sy_arrivals s) \<and> distinct (sy_arrivals s) \<and>
     (\<forall>t\<in>set (sy_arrivals s). sy_pc s t \<noteq> Idle)"

definition adm_inv :: "system \<Rightarrow> bool" where
  "adm_inv s \<longleftrightarrow>
     \<not> sy_panic s \<and> slot_inv s \<and> queue_inv s \<and> idle_inv (sy_model s) \<and> close_inv s \<and> history_inv s"

lemma pc_simps [simp]:
  "waiting PWait" "waiting (PCancel e)" "\<not> waiting Idle" "\<not> waiting PEngine" "\<not> waiting (PRelease r)"
  "\<not> waiting (PDone r)" "\<not> waiting CEnter" "\<not> waiting CIdle" "\<not> waiting (CDone x)" "\<not> waiting (CEngine d)"
  "\<not> waiting (CUnregister d)" "\<not> waiting (CFinish d e')" "\<not> waiting (CReturn r)"
  "running PEngine" "running (PRelease r)" "\<not> running Idle" "\<not> running PWait" "\<not> running (PCancel e)"
  "\<not> running (PDone r)" "\<not> running CEnter" "\<not> running CIdle" "\<not> running (CDone x)" "\<not> running (CEngine d)"
  "\<not> running (CUnregister d)" "\<not> running (CFinish d e')" "\<not> running (CReturn r)"
  "closing_pc (CEngine d) = Some d" "closing_pc (CUnregister d) = Some d" "closing_pc (CFinish d e') = Some d"
  "closing_pc Idle = None" "closing_pc PWait = None" "closing_pc (PCancel e) = None" "closing_pc PEngine = None"
  "closing_pc (PRelease r) = None" "closing_pc (PDone r) = None" "closing_pc CEnter = None"
  "closing_pc CIdle = None" "closing_pc (CDone x) = None" "closing_pc (CReturn r) = None"
  by (simp_all add: waiting_def running_def closing_pc_def)

lemma running_not_waiting: "running p \<Longrightarrow> \<not> waiting p"
  by (cases p) simp_all

lemma adm_init: "adm_inv (system_init opts)"
  by (auto simp: adm_inv_def system_init_def newModel_def slot_inv_def holder_is_def holds_def queue_inv_def
      idle_inv_def close_inv_def closer_is_def history_inv_def waiters.in_order_def)

subsection \<open>Preservation\<close>

lemma go_to_simps [simp]:
  "sy_pc (go_to t p s) = (sy_pc s)(t := p)" "sy_model (go_to t p s) = sy_model s"
  "sy_registered (go_to t p s) = sy_registered s" "sy_arrivals (go_to t p s) = sy_arrivals s"
  "sy_grants (go_to t p s) = sy_grants s" "sy_panic (go_to t p s) = sy_panic s"
  by (simp_all add: go_to_def)

lemma note_simps [simp]:
  "sy_pc (note_grants ws s) = sy_pc s" "sy_model (note_grants ws s) = sy_model s"
  "sy_registered (note_grants ws s) = sy_registered s" "sy_arrivals (note_grants ws s) = sy_arrivals s"
  "sy_grants (note_grants ws s) = sy_grants s @ ws" "sy_panic (note_grants ws s) = sy_panic s"
  "sy_pc (note_arrival t s) = sy_pc s" "sy_model (note_arrival t s) = sy_model s"
  "sy_registered (note_arrival t s) = sy_registered s" "sy_arrivals (note_arrival t s) = sy_arrivals s @ [t]"
  "sy_grants (note_arrival t s) = sy_grants s" "sy_panic (note_arrival t s) = sy_panic s"
  by (simp_all add: note_grants_def note_arrival_def)

lemma run_locked_Ok [simp]: "run_locked (Ok m) s = s\<lparr>sy_model := m\<rparr>"
  by (simp add: run_locked_def)

lemma signalIdleLocked_eq:
  assumes "m_idle m = m_idleSet m"
  shows "signalIdleLocked m =
     (let b = m_idleSet m \<or> m_state m = Closing \<and> \<not> m_active m \<and> m_waiters m = []
      in Ok (m\<lparr>m_idleSet := b, m_idle := b\<rparr>))"
  using assms by (cases m) (auto simp: signalIdleLocked_def Let_def)

lemma closer_is_move:
  assumes "sy_pc s' = (sy_pc s)(t := p)" and "closing_pc p = closing_pc (sy_pc s t)"
  shows "closer_is s' c \<longleftrightarrow> closer_is s c"
  using assms by (auto simp: closer_is_def)

text \<open>The closing protocol reads only part of the model.\<close>

lemma close_inv_frame:
  assumes "close_inv s" and pc: "sy_pc s' = (sy_pc s)(t := p)" and "sy_registered s' = sy_registered s"
    and role: "closing_pc p = closing_pc (sy_pc s t)"
    and p: "p = CIdle \<longrightarrow> Closing \<le> m_state (sy_model s)"
      "\<forall>x. p = CDone x \<longrightarrow> m_closeInProgress (sy_model s) \<and> x = m_closeDone (sy_model s)"
      "\<forall>d. (sy_pc s t = CFinish d None) = (p = CFinish d None)"
    and m: "m_closeInProgress (sy_model s') = m_closeInProgress (sy_model s)"
      "m_closeDone (sy_model s') = m_closeDone (sy_model s)" "m_doneClosed (sy_model s') = m_doneClosed (sy_model s)"
      "m_nextDone (sy_model s') = m_nextDone (sy_model s)" "m_state (sy_model s') = m_state (sy_model s)"
      "m_idleSet (sy_model s) \<longrightarrow> m_idleSet (sy_model s')"
  shows "close_inv s'"
proof -
  have c: "closer_is s' c \<longleftrightarrow> closer_is s c" for c
    using pc role by (rule closer_is_move)
  have fin: "sy_pc s' t' = CFinish d None \<longleftrightarrow> sy_pc s t' = CFinish d None" for t' d
    using pc p(3) by auto
  from assms(1) obtain k where k: "closer_is s k" "m_closeInProgress (sy_model s) \<longleftrightarrow> k \<noteq> None"
    "\<forall>t d. k = Some (t, d) \<longrightarrow> m_closeDone (sy_model s) = Some d \<and> d \<notin> m_doneClosed (sy_model s) \<and>
       d < m_nextDone (sy_model s) \<and> m_state (sy_model s) = Closing \<and> m_idleSet (sy_model s) \<and>
       (sy_registered s \<longleftrightarrow> sy_pc s t \<noteq> CFinish d None)"
    and dn: "\<forall>t x. sy_pc s t = CDone x \<longrightarrow> (\<exists>d. x = Some d \<and> (d \<in> m_doneClosed (sy_model s) \<or>
       m_closeInProgress (sy_model s) \<and> m_closeDone (sy_model s) = Some d))"
    and rest: "\<forall>d\<in>m_doneClosed (sy_model s). d < m_nextDone (sy_model s)"
      "\<forall>t. sy_pc s t = CIdle \<longrightarrow> Closing \<le> m_state (sy_model s)"
      "\<not> m_closeInProgress (sy_model s) \<longrightarrow> (sy_registered s \<longleftrightarrow> m_state (sy_model s) \<noteq> Closed)"
    unfolding close_inv_def Let_def by blast
  have "\<forall>u x. sy_pc s' u = CDone x \<longrightarrow> (\<exists>d. x = Some d \<and> (d \<in> m_doneClosed (sy_model s) \<or>
       m_closeInProgress (sy_model s) \<and> m_closeDone (sy_model s) = Some d))"
    using dn p(2) k(2,3) by (auto simp: pc split: if_splits)
  moreover have "\<forall>u. sy_pc s' u = CIdle \<longrightarrow> Closing \<le> m_state (sy_model s)"
    using rest(2) p(1) by (auto simp: pc split: if_splits)
  ultimately show ?thesis
    unfolding close_inv_def Let_def m(1-5) c fin using k m(6) rest(1,3) assms(3) by blast
qed

text \<open>Moving one goroutine within the same role changes nothing the invariant reads.\<close>

lemma adm_inv_move:
  assumes inv: "adm_inv s"
    and role: "running p = running (sy_pc s t)" "waiting p = waiting (sy_pc s t)"
      "closing_pc p = closing_pc (sy_pc s t)"
    and p: "p \<noteq> Idle" "p \<noteq> CIdle" "\<forall>x. p \<noteq> CDone x"
    and fin: "\<forall>d. (sy_pc s t = CFinish d None) = (p = CFinish d None)"
  shows "adm_inv (go_to t p s)"
proof -
  have "holds (go_to t p s) = holds s"
    using role by (auto simp: holds_def fun_eq_iff)
  then have "slot_inv (go_to t p s)"
    using inv by (simp add: adm_inv_def slot_inv_def holder_is_def)
  moreover have "queue_inv (go_to t p s)"
    using inv role p by (auto simp: adm_inv_def queue_inv_def Let_def)
  moreover have "close_inv (go_to t p s)"
    by (rule close_inv_frame [of s _ t p]) (use inv role p fin in \<open>auto simp: adm_inv_def\<close>)
  moreover have "history_inv (go_to t p s)"
    using inv p by (auto simp: adm_inv_def history_inv_def)
  ultimately show ?thesis using inv by (simp add: adm_inv_def)
qed

lemma adm_inv_wait_ready:
  assumes inv: "adm_inv s" and t: "sy_pc s t = PWait" "t \<in> m_ready (sy_model s)"
  shows "adm_inv (go_to t PEngine s)"
proof -
  have g: "t \<in> m_granted (sy_model s)" using inv t by (simp add: adm_inv_def queue_inv_def Let_def)
  have "holds (go_to t PEngine s) = holds s"
    using t g by (auto simp: holds_def fun_eq_iff)
  then have "slot_inv (go_to t PEngine s)"
    using inv by (simp add: adm_inv_def slot_inv_def holder_is_def)
  moreover have "queue_inv (go_to t PEngine s)"
    using inv t g by (auto simp: adm_inv_def queue_inv_def Let_def)
  moreover have "close_inv (go_to t PEngine s)"
    by (rule close_inv_frame [of s _ t PEngine]) (use inv t in \<open>auto simp: adm_inv_def\<close>)
  moreover have "history_inv (go_to t PEngine s)"
    using inv t by (auto simp: adm_inv_def history_inv_def)
  ultimately show ?thesis using inv by (simp add: adm_inv_def)
qed

text \<open>The slot passes to the first waiter, or becomes free.\<close>

definition after_release :: "nat \<Rightarrow> go_error option \<Rightarrow> system \<Rightarrow> system" where
  "after_release t r s =
     run_locked (releaseLocked (sy_model s)) (note_grants (handed_over (sy_model s)) (go_to t (PDone r) s))"

lemma adm_inv_release:
  assumes inv: "adm_inv s" and t: "holds s t"
  shows "adm_inv (after_release t r s)"
proof -
  let ?m = "sy_model s"
  obtain h where "holder_is s h" "m_active ?m \<longleftrightarrow> h \<noteq> None"
    using inv by (auto simp: adm_inv_def slot_inv_def)
  with t have hold: "\<forall>u. holds s u \<longleftrightarrow> u = t" and active: "m_active ?m"
    by (auto simp: holder_is_def)
  have role: "closing_pc (sy_pc s t) = None" "sy_pc s t \<noteq> Idle" "\<forall>d. sy_pc s t \<noteq> CFinish d None"
    using t by (cases "sy_pc s t"; simp add: holds_def)+
  have q: "queue_inv s" and i: "idle_inv ?m" and c: "close_inv s" and hist: "history_inv s" and np: "\<not> sy_panic s"
    using inv by (auto simp: adm_inv_def)
  show ?thesis
  proof (cases "m_waiters ?m")
    case Nil
    let ?b = "m_idleSet ?m \<or> m_state ?m = Closing"
    let ?m' = "?m\<lparr>m_active := False, m_idleSet := ?b, m_idle := ?b\<rparr>"
    let ?s' = "(go_to t (PDone r) s)\<lparr>sy_model := ?m'\<rparr>"
    have eq: "after_release t r s = ?s'"
      using Nil i
      by (simp add: after_release_def releaseLocked_def signalIdleLocked_eq Let_def idle_inv_def handed_over_def
          note_grants_def go_to_def)
    have "\<not> holds ?s' u" for u using hold by (auto simp: holds_def)
    then have "slot_inv ?s'" by (auto simp: slot_inv_def holder_is_def)
    moreover have "queue_inv ?s'" using q Nil role hold by (auto simp: queue_inv_def Let_def holds_def)
    moreover have "idle_inv ?m'" using i Nil active by (auto simp: idle_inv_def)
    moreover have "close_inv ?s'"
      by (rule close_inv_frame [of s _ t "PDone r"]) (use c role in auto)
    moreover have "history_inv ?s'" using hist role Nil by (auto simp: history_inv_def)
    ultimately show ?thesis using np by (simp add: adm_inv_def eq)
  next
    case (Cons w ws)
    let ?m' = "?m\<lparr>m_waiters := ws, m_granted := insert w (m_granted ?m), m_ready := insert w (m_ready ?m)\<rparr>"
    let ?s' = "(note_grants [w] (go_to t (PDone r) s))\<lparr>sy_model := ?m'\<rparr>"
    have w: "waiting (sy_pc s w)" "w \<notin> m_granted ?m" "m_ready ?m = m_granted ?m" "w \<notin> set ws" "distinct ws"
      using q Cons by (auto simp: queue_inv_def Let_def)
    have eq: "after_release t r s = ?s'"
      using Cons w by (simp add: after_release_def releaseLocked_def Let_def handed_over_def)
    have "w \<noteq> t" using w t running_not_waiting [of "sy_pc s t"] by (auto simp: holds_def)
    then have "holds ?s' u \<longleftrightarrow> u = w" for u using hold w by (auto simp: holds_def)
    then have "slot_inv ?s'" using active by (auto simp: slot_inv_def holder_is_def intro!: exI [of _ "Some w"])
    moreover have "t \<notin> set (m_waiters ?m)"
      using q t running_not_waiting [of "sy_pc s t"] by (auto simp: queue_inv_def Let_def holds_def)
    then have "queue_inv ?s'"
      using q Cons w role hold active by (auto simp: queue_inv_def Let_def holds_def)
    moreover have "idle_inv ?m'" using i Cons active by (auto simp: idle_inv_def)
    moreover have "close_inv ?s'"
      by (rule close_inv_frame [of s _ t "PDone r"]) (use c role in auto)
    moreover have "history_inv ?s'"
      using hist role Cons waiters.in_order_pop [of "m_waiters ?m" w ws] by (auto simp: history_inv_def)
    ultimately show ?thesis using np by (simp add: adm_inv_def eq)
  qed
qed

text \<open>A waiter that was not granted leaves the queue.\<close>

lemma adm_inv_withdraw:
  assumes inv: "adm_inv s" and t: "sy_pc s t = PCancel e" "t \<notin> m_granted (sy_model s)"
  shows "adm_inv (run_locked (cancelWaiter t (sy_model s)) (note_grants [] (go_to t (PDone r) s)))"
proof -
  let ?m = "sy_model s" and ?ws = "remove1 t (m_waiters (sy_model s))"
  have q: "queue_inv s" and i: "idle_inv ?m" and c: "close_inv s" and hist: "history_inv s" and np: "\<not> sy_panic s"
    and slot: "slot_inv s"
    using inv by (auto simp: adm_inv_def)
  have active: "m_active ?m" using q t by (auto simp: queue_inv_def Let_def)
  let ?s' = "(note_grants [] (go_to t (PDone r) s))\<lparr>sy_model := ?m\<lparr>m_waiters := ?ws\<rparr>\<rparr>"
  have eq: "run_locked (cancelWaiter t ?m) (note_grants [] (go_to t (PDone r) s)) = ?s'"
    using t i active
    by (simp add: cancelWaiter_def cancel_remove_eq signalIdleLocked_def)
  have "holds ?s' = holds s" using t by (auto simp: holds_def fun_eq_iff)
  then have "slot_inv ?s'" using slot by (simp add: slot_inv_def holder_is_def)
  moreover have "queue_inv ?s'"
    using q t active length_remove1 [of t "m_waiters ?m"] by (auto simp: queue_inv_def Let_def)
  moreover have "idle_inv (?m\<lparr>m_waiters := ?ws\<rparr>)" using i active by (auto simp: idle_inv_def)
  moreover have "close_inv ?s'"
    by (rule close_inv_frame [of s _ t "PDone r"]) (use c t in auto)
  moreover have "history_inv ?s'"
    using hist t waiters.in_order_withdraw [of "sy_grants s" "m_waiters ?m" "sy_arrivals s" t]
    by (auto simp: history_inv_def cancel_remove_eq)
  ultimately show ?thesis using np by (simp add: adm_inv_def eq)
qed

lemma adm_inv_acquire:
  assumes inv: "adm_inv s" and t: "sy_pc s t = Idle" and acq: "acquire t (sy_model s) = (a, m)"
  shows "adm_inv (after_acquire t a (s\<lparr>sy_model := m\<rparr>))"
proof -
  let ?m = "sy_model s"
  have q: "queue_inv s" and i: "idle_inv ?m" and c: "close_inv s" and hist: "history_inv s" and np: "\<not> sy_panic s"
    using inv by (auto simp: adm_inv_def)
  obtain h where h: "holder_is s h" "m_active ?m \<longleftrightarrow> h \<noteq> None"
    using inv by (auto simp: adm_inv_def slot_inv_def)
  show ?thesis
  proof (cases a)
    case (Rejected e)
    then have "m = ?m" using acq by (auto simp: acquire_def split: if_splits)
    then show ?thesis
      using adm_inv_move [OF inv, of "PDone (Some e)" t] t Rejected by simp
  next
    case Admitted
    then have m: "m = ?m\<lparr>m_active := True\<rparr>" and st: "m_state ?m = Open" "\<not> m_active ?m"
      using acq by (auto simp: acquire_def split: if_splits)
    let ?s' = "go_to t PEngine (note_grants [t] (note_arrival t (s\<lparr>sy_model := m\<rparr>)))"
    have empty: "m_waiters ?m = []" using q st by (auto simp: queue_inv_def Let_def)
    have "\<not> holds s u" for u using h st by (auto simp: holder_is_def)
    then have "holds ?s' u \<longleftrightarrow> u = t" for u using t by (auto simp: holds_def m)
    then have "slot_inv ?s'" by (auto simp: slot_inv_def holder_is_def m intro!: exI [of _ "Some t"])
    moreover have "queue_inv ?s'" using q t empty by (auto simp: queue_inv_def Let_def m)
    moreover have "idle_inv m" using i st by (auto simp: idle_inv_def m)
    moreover have "close_inv ?s'"
      by (rule close_inv_frame [of s _ t PEngine]) (use c t in \<open>auto simp: m\<close>)
    moreover have "t \<notin> set (sy_arrivals s)" using hist t by (auto simp: history_inv_def)
    then have "history_inv ?s'"
      using hist t empty waiters.in_order_admit [of "m_waiters ?m" "sy_grants s" "sy_arrivals s" t]
      by (auto simp: history_inv_def m)
    ultimately show ?thesis using np Admitted by (simp add: adm_inv_def)
  next
    case Queued
    then have m: "m = ?m\<lparr>m_waiters := append_waiter t (m_waiters ?m)\<rparr>" and st: "m_state ?m = Open" "m_active ?m"
      and cap: "int (length (m_waiters ?m)) < QueueCapacity (m_opts ?m)"
      using acq by (auto simp: acquire_def split: if_splits)
    let ?s' = "go_to t PWait (note_arrival t (s\<lparr>sy_model := m\<rparr>))"
    have fresh: "t \<notin> m_granted ?m" "t \<notin> set (m_waiters ?m)" using q t by (auto simp: queue_inv_def Let_def)
    have "holds ?s' = holds s" using t fresh by (auto simp: holds_def fun_eq_iff m)
    then have "slot_inv ?s'" using h by (auto simp: slot_inv_def holder_is_def m)
    moreover have "queue_inv ?s'"
      using q t fresh st cap by (auto simp: queue_inv_def Let_def m append_waiter_def)
    moreover have "idle_inv m" using i st by (auto simp: idle_inv_def m)
    moreover have "close_inv ?s'"
      by (rule close_inv_frame [of s _ t PWait]) (use c t in \<open>auto simp: m\<close>)
    moreover have "t \<notin> set (sy_arrivals s)" using hist t by (auto simp: history_inv_def)
    then have "history_inv ?s'"
      using hist t waiters.in_order_push [of "sy_grants s" "m_waiters ?m" "sy_arrivals s" t]
      by (auto simp: history_inv_def m)
    ultimately show ?thesis using np Queued by (simp add: adm_inv_def)
  qed
qed

subsubsection \<open>Closing\<close>

lemma adm_inv_start_close:
  assumes inv: "adm_inv s" and st: "m_state (sy_model s) = Open"
  defines "m1 \<equiv> (sy_model s)\<lparr>m_state := Closing, m_closing := True\<rparr>"
  shows "\<exists>m2. signalIdleLocked m1 = Ok m2 \<and> adm_inv (s\<lparr>sy_model := m2\<rparr>) \<and> m_state m2 = Closing"
proof -
  let ?m = "sy_model s"
  let ?b = "\<not> m_active ?m \<and> m_waiters ?m = []"
  let ?m2 = "m1\<lparr>m_idleSet := ?b, m_idle := ?b\<rparr>"
  let ?s' = "s\<lparr>sy_model := ?m2\<rparr>"
  have q: "queue_inv s" and i: "idle_inv ?m" and c: "close_inv s" and hist: "history_inv s" and np: "\<not> sy_panic s"
    and slot: "slot_inv s"
    using inv by (auto simp: adm_inv_def)
  have clear: "\<not> m_idleSet ?m" "\<not> m_idle ?m" using i st by (auto simp: idle_inv_def)
  then have eq: "signalIdleLocked m1 = Ok ?m2" by (simp add: signalIdleLocked_eq m1_def Let_def)
  have "holds ?s' = holds s" by (auto simp: holds_def fun_eq_iff m1_def)
  then have "slot_inv ?s'" using slot by (simp add: slot_inv_def holder_is_def m1_def)
  moreover have "queue_inv ?s'" using q by (auto simp: queue_inv_def Let_def m1_def)
  moreover have "idle_inv ?m2" using i st clear by (auto simp: idle_inv_def m1_def)
  moreover have "close_inv ?s'"
  proof -
    have "closer_is ?s' x \<longleftrightarrow> closer_is s x" for x by (simp add: closer_is_def)
    then show ?thesis using c st by (auto simp: close_inv_def Let_def m1_def)
  qed
  moreover have "history_inv ?s'" using hist by (simp add: history_inv_def m1_def)
  ultimately have "adm_inv ?s'" using np by (simp add: adm_inv_def)
  then show ?thesis unfolding eq by (simp add: m1_def)
qed

lemma adm_inv_close_wait:
  assumes inv: "adm_inv s" and st: "m_state (sy_model s) = Closing"
    and t: "sy_pc s t = Idle \<or> sy_pc s t = CEnter" and n: "close_wait (sy_model s) = (n, m')"
  shows "adm_inv (go_to t (close_pc n) (s\<lparr>sy_model := m'\<rparr>))"
proof -
  let ?m = "sy_model s" and ?s' = "go_to t (close_pc n) (s\<lparr>sy_model := m'\<rparr>)"
  have q: "queue_inv s" and i: "idle_inv ?m" and c: "close_inv s" and hist: "history_inv s" and np: "\<not> sy_panic s"
    and slot: "slot_inv s"
    using inv by (auto simp: adm_inv_def)
  obtain k where k: "closer_is s k" "m_closeInProgress ?m \<longleftrightarrow> k \<noteq> None"
    "\<forall>t d. k = Some (t, d) \<longrightarrow> m_closeDone ?m = Some d \<and> d \<notin> m_doneClosed ?m \<and> d < m_nextDone ?m \<and>
            m_state ?m = Closing \<and> m_idleSet ?m \<and> (sy_registered s \<longleftrightarrow> sy_pc s t \<noteq> CFinish d None)"
    using c by (auto simp: close_inv_def Let_def)
  have none: "closing_pc (sy_pc s t) = None" using t by auto
  consider (idle) "m_active ?m \<or> m_waiters ?m \<noteq> []" "n = AwaitIdle" "m' = ?m"
    | (wait) "m_closeInProgress ?m" "n = AwaitDone (m_closeDone ?m)" "m' = ?m"
    | (run) "\<not> m_active ?m" "m_waiters ?m = []" "\<not> m_closeInProgress ?m" "n = RunEngine (m_nextDone ?m)"
        "m' = ?m\<lparr>m_closeInProgress := True, m_closeDone := Some (m_nextDone ?m), m_nextDone := Suc (m_nextDone ?m)\<rparr>"
  proof (cases "m_active ?m \<or> m_waiters ?m \<noteq> []")
    case True
    with n show thesis by (intro idle) (simp_all add: close_wait_def)
  next
    case False
    with n show thesis by (cases "m_closeInProgress ?m") (auto simp: close_wait_def intro: wait run)
  qed
  then have close: "close_inv ?s'"
  proof cases
    case idle
    show ?thesis by (rule close_inv_frame [of s _ t CIdle]) (use c none t st idle in auto)
  next
    case wait
    show ?thesis
      by (rule close_inv_frame [of s _ t "CDone (m_closeDone ?m)"]) (use c none t wait in auto)
  next
    case run
    have "k = None" using k(2) run(3) by blast
    then have "closing_pc (sy_pc s u) = None" for u
      using k(1) by (auto simp: closer_is_def)
    then have "closer_is ?s' (Some (t, m_nextDone ?m))" using run by (auto simp: closer_is_def)
    moreover have "m_nextDone ?m \<notin> m_doneClosed ?m" "m_idleSet ?m"
      using c i st run by (auto simp: close_inv_def idle_inv_def Let_def)
    moreover have "sy_registered s" using c run st by (simp add: close_inv_def Let_def)
    ultimately show ?thesis
      using c st run unfolding close_inv_def Let_def
      by (auto intro!: exI [of _ "Some (t, m_nextDone ?m)"] simp: less_Suc_eq) blast
  qed
  have same: "m_active m' = m_active ?m" "m_waiters m' = m_waiters ?m" "m_granted m' = m_granted ?m"
    "m_ready m' = m_ready ?m" "m_opts m' = m_opts ?m" "m_state m' = m_state ?m" "m_idleSet m' = m_idleSet ?m"
    "m_idle m' = m_idle ?m" "m_closing m' = m_closing ?m"
    using n by (auto simp: close_wait_def split: if_splits)
  have role: "\<not> running (close_pc n)" "\<not> waiting (close_pc n)" "close_pc n \<noteq> Idle"
    by (cases n; simp)+
  have "holds ?s' = holds s" using t role same by (auto simp: holds_def fun_eq_iff)
  then have "slot_inv ?s'" using slot same by (simp add: slot_inv_def holder_is_def)
  moreover have "queue_inv ?s'" using q same role t by (auto simp: queue_inv_def Let_def)
  moreover have "idle_inv m'" using i unfolding idle_inv_def same .
  moreover have "history_inv ?s'" using hist role same by (auto simp: history_inv_def)
  ultimately show ?thesis using np close by (simp add: adm_inv_def)
qed

lemma closer_obtain:
  assumes "adm_inv s" and "closing_pc (sy_pc s t) = Some d"
  shows "closer_is s (Some (t, d))" "m_closeInProgress (sy_model s)" "m_closeDone (sy_model s) = Some d"
    "d \<notin> m_doneClosed (sy_model s)" "d < m_nextDone (sy_model s)" "m_state (sy_model s) = Closing"
    "m_idleSet (sy_model s)" "sy_registered s \<longleftrightarrow> sy_pc s t \<noteq> CFinish d None"
proof -
  obtain k where "closer_is s k" "m_closeInProgress (sy_model s) \<longleftrightarrow> k \<noteq> None"
    "\<forall>t d. k = Some (t, d) \<longrightarrow> m_closeDone (sy_model s) = Some d \<and> d \<notin> m_doneClosed (sy_model s) \<and>
       d < m_nextDone (sy_model s) \<and> m_state (sy_model s) = Closing \<and> m_idleSet (sy_model s) \<and>
       (sy_registered s \<longleftrightarrow> sy_pc s t \<noteq> CFinish d None)"
    using assms(1) by (auto simp: adm_inv_def close_inv_def Let_def)
  moreover from this(1) assms(2) have "k = Some (t, d)" by (simp add: closer_is_def)
  ultimately show "closer_is s (Some (t, d))" "m_closeInProgress (sy_model s)" "m_closeDone (sy_model s) = Some d"
    "d \<notin> m_doneClosed (sy_model s)" "d < m_nextDone (sy_model s)" "m_state (sy_model s) = Closing"
    "m_idleSet (sy_model s)" "sy_registered s \<longleftrightarrow> sy_pc s t \<noteq> CFinish d None"
    by auto
qed

lemma adm_inv_unregister:
  assumes inv: "adm_inv s" and t: "sy_pc s t = CUnregister d"
  shows "adm_inv (go_to t (CFinish d None) (s\<lparr>sy_registered := False\<rparr>))"
proof -
  let ?s' = "go_to t (CFinish d None) (s\<lparr>sy_registered := False\<rparr>)"
  have role: "closing_pc (sy_pc s t) = Some d" using t by simp
  note k = closer_obtain [OF inv role]
  have "closer_is ?s' (Some (t, d))" using k(1) t by (auto simp: closer_is_def)
  then have "close_inv ?s'"
    using inv k unfolding adm_inv_def close_inv_def Let_def
    by (auto intro!: exI [of _ "Some (t, d)"])
  moreover have "holds ?s' = holds s" using t by (auto simp: holds_def fun_eq_iff)
  then have "slot_inv ?s'" using inv by (simp add: adm_inv_def slot_inv_def holder_is_def)
  moreover have "queue_inv ?s'" using inv t by (auto simp: adm_inv_def queue_inv_def Let_def)
  moreover have "history_inv ?s'" using inv by (auto simp: adm_inv_def history_inv_def)
  ultimately show ?thesis using inv by (simp add: adm_inv_def)
qed

lemma adm_inv_close_end:
  assumes inv: "adm_inv s" and t: "sy_pc s t = CFinish d err"
  shows "adm_inv (run_locked (close_finish d err (sy_model s)) (go_to t (CReturn r) s))"
proof -
  let ?m = "sy_model s"
  let ?m' = "?m\<lparr>m_closeInProgress := False, m_state := (if err = None then Closed else Closing),
      m_doneClosed := insert d (m_doneClosed ?m)\<rparr>"
  let ?s' = "(go_to t (CReturn r) s)\<lparr>sy_model := ?m'\<rparr>"
  have role: "closing_pc (sy_pc s t) = Some d" using t by simp
  note k = closer_obtain [OF inv role]
  have eq: "run_locked (close_finish d err ?m) (go_to t (CReturn r) s) = ?s'"
    using k by (simp add: close_finish_def)
  have "closing_pc (sy_pc s u) = None" if "u \<noteq> t" for u
    using k(1) that by (cases "closing_pc (sy_pc s u)") (auto simp: closer_is_def)
  then have "closer_is ?s' None" by (auto simp: closer_is_def)
  moreover have "sy_registered s \<longleftrightarrow> err \<noteq> None" using k(8) t by auto
  ultimately have "close_inv ?s'"
    using inv k unfolding adm_inv_def close_inv_def Let_def by (auto intro!: exI [of _ None]) blast+
  moreover have "holds ?s' = holds s" using t by (auto simp: holds_def fun_eq_iff)
  then have "slot_inv ?s'" using inv by (simp add: adm_inv_def slot_inv_def holder_is_def)
  moreover have "queue_inv ?s'" using inv t by (auto simp: adm_inv_def queue_inv_def Let_def)
  moreover have "idle_inv ?m'" using inv k by (auto simp: adm_inv_def idle_inv_def)
  moreover have "history_inv ?s'" using inv by (auto simp: adm_inv_def history_inv_def)
  ultimately show ?thesis using inv by (simp add: adm_inv_def eq)
qed

lemma adm_inv_close_call:
  assumes inv: "adm_inv s" and t: "sy_pc s t = Idle \<or> sy_pc s t = CEnter"
  shows "adm_inv (after_enter t (close_enter ctxErr (sy_model s)) s)"
proof -
  have ret: "adm_inv (after_enter t (Ok (CloseReturn r, sy_model s)) s)" for r
    using adm_inv_move [OF inv, of "CReturn r" t] t by (auto simp: after_enter_def)
  have wait: "adm_inv (after_enter t (Ok (close_wait (sy_model s'))) s')"
    if "adm_inv s'" "m_state (sy_model s') = Closing" "sy_pc s' = sy_pc s" for s'
    using adm_inv_close_wait [OF that(1,2), of t "fst (close_wait (sy_model s'))" "snd (close_wait (sy_model s'))"]
      t that(3) by (simp add: after_enter_def split_beta)
  have st: "m_state (sy_model s) \<noteq> Uninit" using inv by (simp add: adm_inv_def idle_inv_def)
  show ?thesis
  proof (cases "m_state (sy_model s)")
    case Open
    show ?thesis
    proof (cases ctxErr)
      case None
      from adm_inv_start_close [OF inv Open] obtain m2
        where m2: "signalIdleLocked ((sy_model s)\<lparr>m_state := Closing, m_closing := True\<rparr>) = Ok m2"
          "adm_inv (s\<lparr>sy_model := m2\<rparr>)" "m_state m2 = Closing" by blast
      have "\<not> m_closing (sy_model s)" using inv Open by (simp add: adm_inv_def idle_inv_def)
      then have "close_enter ctxErr (sy_model s) = Ok (close_wait m2)"
        using Open None m2(1) by (simp add: close_enter_def)
      with wait [OF m2(2)] m2(3) show ?thesis by (simp add: after_enter_def split_beta go_to_def)
    qed (simp add: close_enter_def Open ret)
  next
    case Closing
    then show ?thesis using wait [OF inv] ret by (cases ctxErr) (simp_all add: close_enter_def)
  next
    case Closed
    then show ?thesis using ret by (simp add: close_enter_def)
  qed (simp add: st)
qed

lemma adm_step_inv: "adm_step s s' \<Longrightarrow> adm_inv s \<Longrightarrow> adm_inv s'"
proof (induction rule: adm_step.induct)
  case (wait_cancel s t e)
  show ?case
  proof (cases "t \<in> m_granted (sy_model s)")
    case True
    with wait_cancel have "holds s t" by (simp add: holds_def)
    with adm_inv_release [OF wait_cancel(3), of t "Some e"] True show ?thesis
      by (simp add: after_release_def cancelWaiter_def)
  next
    case False
    with adm_inv_withdraw [OF wait_cancel(3,2)] show ?thesis by simp
  qed
next
  case (predict_release s t reply)
  then have "holds s t" by (simp add: holds_def)
  with adm_inv_release [OF predict_release(3), of t reply] show ?case
    by (simp add: after_release_def release_def)
next
  case (close_context_ends s t d e)
  then show ?case by (intro adm_inv_move) auto
qed (auto intro: adm_inv_acquire adm_inv_wait_ready adm_inv_unregister adm_inv_close_end adm_inv_close_call
    adm_inv_move)

interpretation admission_steps: step_invariant system_init adm_step adm_inv
  by unfold_locales (auto intro: adm_init adm_step_inv)

lemmas adm_reach_inv = admission_steps.reachable_inv

subsection \<open>Refinement of an abstract admission queue\<close>

text \<open>
  The contract in the comment on \<open>Model\<close>: one active call, a bounded queue in FIFO order,
  callers that give up leave it.
\<close>

inductive slot_spec :: "int \<Rightarrow> nat option \<times> nat list \<Rightarrow> nat option \<times> nat list \<Rightarrow> bool" for cap where
  take_slot: "slot_spec cap (None, []) (Some t, [])"
| enqueue: "int (length q) < cap \<Longrightarrow> t \<notin> set q \<Longrightarrow> slot_spec cap (Some h, q) (Some h, q @ [t])"
| give_up: "slot_spec cap (Some h, q) (Some h, remove1 t q)"
| finish: "slot_spec cap (Some h, []) (None, [])"
| pass_on: "slot_spec cap (Some h, w # q) (Some w, q)"

inductive_simps slot_spec_simps: "slot_spec cap (h, q) (h', q')"

text \<open>\<open>s'\<close> abstracts to what \<open>s\<close> abstracts to, or to an abstract step from it.\<close>

definition simulates :: "system \<Rightarrow> system \<Rightarrow> bool" where
  "simulates s s' \<longleftrightarrow>
     (\<exists>h h'. holder_is s h \<and> holder_is s' h' \<and>
        ((h', m_waiters (sy_model s')) = (h, m_waiters (sy_model s)) \<or>
         slot_spec (QueueCapacity (m_opts (sy_model s))) (h, m_waiters (sy_model s)) (h', m_waiters (sy_model s'))))"

lemma simulates_same:
  assumes "adm_inv s" and "holds s' = holds s" and "m_waiters (sy_model s') = m_waiters (sy_model s)"
  shows "simulates s s'"
  using assms by (auto simp: simulates_def adm_inv_def slot_inv_def holder_is_def)

lemma holder_of: "adm_inv s \<Longrightarrow> holds s t \<Longrightarrow> holder_is s (Some t) \<and> m_active (sy_model s)"
  by (auto simp: adm_inv_def slot_inv_def holder_is_def)

lemma simulates_release:
  assumes inv: "adm_inv s" and t: "holds s t"
  shows "simulates s (after_release t r s)"
proof -
  let ?m = "sy_model s"
  note hold = holder_of [OF inv t]
  have i: "m_idle ?m = m_idleSet ?m" using inv by (simp add: adm_inv_def idle_inv_def)
  show ?thesis
  proof (cases "m_waiters ?m")
    case Nil
    then have "holder_is (after_release t r s) None \<and> m_waiters (sy_model (after_release t r s)) = []"
      using hold i unfolding after_release_def releaseLocked_def
      by (auto simp: signalIdleLocked_eq Let_def holder_is_def holds_def)
    with hold Nil show ?thesis
      unfolding simulates_def by (intro exI [of _ "Some t"] exI [of _ None]) (auto intro: finish)
  next
    case (Cons w ws)
    have w: "waiting (sy_pc s w)" "w \<notin> m_ready ?m" "m_ready ?m = m_granted ?m"
      using inv Cons by (auto simp: adm_inv_def queue_inv_def Let_def)
    then have "w \<noteq> t" using t running_not_waiting [of "sy_pc s t"] by (auto simp: holds_def)
    with Cons w hold have "holder_is (after_release t r s) (Some w) \<and> m_waiters (sy_model (after_release t r s)) = ws"
      unfolding after_release_def releaseLocked_def
      by (auto simp: Let_def holder_is_def holds_def)
    with hold Cons show ?thesis
      unfolding simulates_def by (intro exI [of _ "Some t"] exI [of _ "Some w"]) (auto intro: pass_on)
  qed
qed

lemma simulates_acquire:
  assumes inv: "adm_inv s" and t: "sy_pc s t = Idle" and acq: "acquire t (sy_model s) = (a, m)"
  shows "simulates s (after_acquire t a (s\<lparr>sy_model := m\<rparr>))"
proof -
  let ?m = "sy_model s"
  obtain h where h: "holder_is s h" "m_active ?m \<longleftrightarrow> h \<noteq> None"
    using inv by (auto simp: adm_inv_def slot_inv_def)
  have q: "queue_inv s" using inv by (simp add: adm_inv_def)
  have fresh: "t \<notin> m_granted ?m" "t \<notin> set (m_waiters ?m)" using q t by (auto simp: queue_inv_def Let_def)
  show ?thesis
  proof (cases a)
    case (Rejected e)
    then have "m = ?m" using acq by (auto simp: acquire_def split: if_splits)
    then show ?thesis using t Rejected by (intro simulates_same [OF inv]) (auto simp: holds_def fun_eq_iff)
  next
    case Admitted
    then have m: "m = ?m\<lparr>m_active := True\<rparr>" and st: "\<not> m_active ?m"
      using acq by (auto simp: acquire_def split: if_splits)
    then have "m_waiters ?m = []" "h = None" using q h by (auto simp: queue_inv_def Let_def)
    then show ?thesis
      using h t Admitted unfolding simulates_def
      by (intro exI [of _ None] exI [of _ "Some t"]) (auto simp: m holder_is_def holds_def intro: take_slot)
  next
    case Queued
    then have m: "m = ?m\<lparr>m_waiters := append_waiter t (m_waiters ?m)\<rparr>" and st: "m_active ?m"
      and cap: "int (length (m_waiters ?m)) < QueueCapacity (m_opts ?m)"
      using acq by (auto simp: acquire_def split: if_splits)
    obtain k where k: "h = Some k" using h st by auto
    have "holds (after_acquire t a (s\<lparr>sy_model := m\<rparr>)) = holds s"
      using t fresh Queued by (auto simp: m holds_def fun_eq_iff)
    then have "holder_is (after_acquire t a (s\<lparr>sy_model := m\<rparr>)) (Some k)"
      using h k by (simp add: holder_is_def)
    then show ?thesis
      using h k Queued fresh cap unfolding simulates_def
      by (intro exI [of _ "Some k"] exI [of _ "Some k"]) (auto simp: m append_waiter_def intro: enqueue)
  qed
qed

lemma close_enter_slot:
  assumes "close_enter ctxErr m = Ok (n, m')"
  shows "m_active m' = m_active m" "m_waiters m' = m_waiters m" "m_granted m' = m_granted m" "m_opts m' = m_opts m"
    "m_state m \<le> m_state m'"
  using assms
  by (auto simp: close_enter_def close_wait_def signalIdleLocked_def less_eq_lifecycle_def
      split: lifecycle.splits option.splits if_splits)

lemma close_pc_role [simp]: "\<not> running (close_pc n)" "\<not> waiting (close_pc n)"
  by (cases n; simp)+

lemma simulates_step: "adm_step s s' \<Longrightarrow> adm_inv s \<Longrightarrow> simulates s s'"
proof (induction rule: adm_step.induct)
  case (predict_acquire s t a m)
  then show ?case by (intro simulates_acquire)
next
  case (wait_ready s t)
  then show ?case
    by (intro simulates_same) (auto simp: holds_def fun_eq_iff adm_inv_def queue_inv_def Let_def)
next
  case (wait_cancel s t e)
  show ?case
  proof (cases "t \<in> m_granted (sy_model s)")
    case True
    with wait_cancel have "holds s t" by (simp add: holds_def)
    with simulates_release [OF wait_cancel(3), of t "Some e"] True show ?thesis
      by (simp add: after_release_def cancelWaiter_def)
  next
    case False
    let ?m = "sy_model s"
    have "m_waiters ?m \<noteq> []" using wait_cancel False by (auto simp: adm_inv_def queue_inv_def Let_def)
    then have active: "m_active ?m" using wait_cancel by (simp add: adm_inv_def queue_inv_def Let_def)
    then obtain h where h: "holder_is s (Some h)"
      using wait_cancel by (auto simp: adm_inv_def slot_inv_def)
    let ?s' = "go_to t (PDone (Some e)) s\<lparr>sy_model := ?m\<lparr>m_waiters := remove1 t (m_waiters ?m)\<rparr>\<rparr>"
    have "run_locked (cancelWaiter t ?m) (note_grants [] (go_to t (PDone (Some e)) s)) = ?s'"
      using False active by (simp add: cancelWaiter_def cancel_remove_eq signalIdleLocked_def note_grants_def)
    moreover have "holds ?s' = holds s" using wait_cancel False by (auto simp: holds_def fun_eq_iff)
    then have "holder_is ?s' (Some h)" using h by (simp add: holder_is_def)
    ultimately show ?thesis
      using h False unfolding simulates_def
      by (intro exI [of _ "Some h"]) (auto intro: give_up)
  qed
next
  case (predict_release s t reply)
  then have "holds s t" by (simp add: holds_def)
  with simulates_release [OF predict_release(3), of t reply] show ?case
    by (simp add: after_release_def release_def)
next
  case (close_call s t ctxErr)
  show ?case
  proof (cases "close_enter ctxErr (sy_model s)")
    case (Ok r)
    obtain n m' where r: "r = (n, m')" by (cases r)
    note keep = close_enter_slot [OF Ok [unfolded r]]
    let ?s' = "go_to t (close_pc n) (s\<lparr>sy_model := m'\<rparr>)"
    have "holds ?s' = holds s" using close_call(2) by (auto simp: holds_def fun_eq_iff keep)
    then have "simulates s ?s'" using close_call(3) by (intro simulates_same) (simp_all add: keep)
    then show ?thesis by (simp add: after_enter_def Ok r)
  qed (use close_call in \<open>auto intro!: simulates_same simp: after_enter_def holds_def fun_eq_iff\<close>)
next
  case (close_end s t d err)
  then show ?case
    by (intro simulates_same)
      (auto simp: run_locked_def close_finish_def Let_def holds_def fun_eq_iff split: if_splits)
qed (auto intro!: simulates_same simp: holds_def fun_eq_iff)

subsection \<open>The lifecycle only moves forward\<close>

lemma signalIdleLocked_keeps:
  "signalIdleLocked m = Ok m' \<Longrightarrow> m_opts m' = m_opts m \<and> m_state m' = m_state m"
  by (auto simp: signalIdleLocked_def split: if_splits)

lemma releaseLocked_keeps:
  "releaseLocked m = Ok m' \<Longrightarrow> m_opts m' = m_opts m \<and> m_state m' = m_state m"
  by (auto simp: releaseLocked_def Let_def dest: signalIdleLocked_keeps split: option.splits if_splits)

lemma cancelWaiter_keeps:
  "cancelWaiter t m = Ok m' \<Longrightarrow> m_opts m' = m_opts m \<and> m_state m' = m_state m"
  by (auto simp: cancelWaiter_def dest: releaseLocked_keeps signalIdleLocked_keeps split: if_splits)

lemma acquire_keeps: "acquire t m = (a, m') \<Longrightarrow> m_opts m' = m_opts m \<and> m_state m' = m_state m"
  by (auto simp: acquire_def split: if_splits)

lemma run_locked_model: "sy_model (run_locked r s) = (case r of Ok m \<Rightarrow> m | _ \<Rightarrow> sy_model s)"
  by (simp add: run_locked_def split: res.split)

lemma after_acquire_model [simp]: "sy_model (after_acquire t a s) = sy_model s"
  by (cases a) simp_all

lemma adm_step_keeps:
  "adm_step s s' \<Longrightarrow> adm_inv s \<Longrightarrow>
     m_opts (sy_model s') = m_opts (sy_model s) \<and> m_state (sy_model s) \<le> m_state (sy_model s')"
proof (induction rule: adm_step.induct)
  case (close_call s t ctxErr)
  then show ?case
    using close_enter_slot(4,5)
    by (auto simp: after_enter_def split: res.split prod.split)
next
  case (close_end s t d err)
  then have "m_state (sy_model s) = Closing" using closer_obtain(6) [of s t d] by simp
  then show ?case by (auto simp: run_locked_model close_finish_def Let_def)
qed (auto simp: run_locked_model release_def dest: acquire_keeps cancelWaiter_keeps releaseLocked_keeps
    split: res.split)

lemma adm_reach_opts: "adm_step\<^sup>*\<^sup>* (system_init opts) s \<Longrightarrow> m_opts (sy_model s) = opts"
proof (induction rule: rtranclp_induct)
  case base
  then show ?case by (simp add: system_init_def newModel_def)
next
  case (step s s')
  then show ?case using adm_step_keeps [OF step(2) adm_reach_inv [OF step(1)]] by simp
qed

subsection \<open>No caller is left behind\<close>

text \<open>A caller that can move without its context or timer ending, and one that is finished.\<close>

definition can_move :: "system \<Rightarrow> nat \<Rightarrow> bool" where
  "can_move s t \<longleftrightarrow>
     (case sy_pc s t of
        PWait \<Rightarrow> t \<in> m_ready (sy_model s)
      | CIdle \<Rightarrow> m_idle (sy_model s)
      | CDone x \<Rightarrow> (case x of Some d \<Rightarrow> d \<in> m_doneClosed (sy_model s) | None \<Rightarrow> False)
      | PCancel e \<Rightarrow> True | PEngine \<Rightarrow> True | PRelease r \<Rightarrow> True | CEnter \<Rightarrow> True | CEngine d \<Rightarrow> True
      | CUnregister d \<Rightarrow> True | CFinish d e \<Rightarrow> True
      | _ \<Rightarrow> False)"

definition settled :: "pc \<Rightarrow> bool" where
  "settled p \<longleftrightarrow> (case p of Idle \<Rightarrow> True | PDone r \<Rightarrow> True | CReturn r \<Rightarrow> True | _ \<Rightarrow> False)"

lemma can_move_steps:
  assumes "adm_inv s" and "can_move s t"
  shows "\<exists>s'. adm_step s s'"
proof -
  have "\<not> sy_panic s" using assms(1) by (simp add: adm_inv_def)
  with assms(2) show ?thesis
    by (cases "sy_pc s t") (auto simp: can_move_def split: option.splits intro: adm_step.intros)
qed

text \<open>Whoever cannot move waits for a caller that can.\<close>

lemma someone_can_move:
  assumes inv: "adm_inv s" and t: "\<not> settled (sy_pc s t)"
  shows "\<exists>u. can_move s u"
proof -
  let ?m = "sy_model s"
  obtain h where h: "holder_is s h" "m_active ?m \<longleftrightarrow> h \<noteq> None"
    using inv by (auto simp: adm_inv_def slot_inv_def)
  have granted_ready: "m_granted ?m = m_ready ?m" and queued: "\<And>u. u \<in> set (m_waiters ?m) \<longleftrightarrow> waiting (sy_pc s u) \<and> u \<notin> m_granted ?m"
    and held: "m_waiters ?m \<noteq> [] \<longrightarrow> m_active ?m"
    using inv by (auto simp: adm_inv_def queue_inv_def Let_def)
  have owner: "\<exists>u. can_move s u" if active: "m_active ?m"
  proof -
    obtain u where "holds s u" using active h by (auto simp: holder_is_def)
    then have "can_move s u"
      using granted_ready by (cases "sy_pc s u") (auto simp: holds_def can_move_def)
    then show ?thesis ..
  qed
  show ?thesis
  proof (cases "can_move s t")
    case False
    with t consider "sy_pc s t = PWait" "t \<notin> m_ready ?m" | "sy_pc s t = CIdle" "\<not> m_idle ?m"
      | x where "sy_pc s t = CDone x" "\<forall>d. x = Some d \<longrightarrow> d \<notin> m_doneClosed ?m"
      by (cases "sy_pc s t") (auto simp: can_move_def settled_def split: option.splits)
    then show ?thesis
    proof cases
      case 1
      then have "m_waiters ?m \<noteq> []" using queued [of t] granted_ready by auto
      then show ?thesis using owner held by simp
    next
      case 2
      then have "Closing \<le> m_state ?m" using inv by (auto simp: adm_inv_def close_inv_def Let_def)
      then show ?thesis using 2 inv owner held unfolding adm_inv_def idle_inv_def by blast
    next
      case 3
      then have "m_closeInProgress ?m"
        using inv unfolding adm_inv_def close_inv_def Let_def by blast
      then obtain u d where "closing_pc (sy_pc s u) = Some d"
        using inv unfolding adm_inv_def close_inv_def closer_is_def Let_def by (metis not_None_eq surj_pair)
      then have "can_move s u" by (cases "sy_pc s u") (auto simp: can_move_def)
      then show ?thesis ..
    qed
  qed auto
qed

subsection \<open>Properties\<close>

lemma in_engine_unique:
  assumes "adm_inv s" and "sy_pc s t = PEngine" and "sy_pc s u = PEngine"
  shows "t = u"
  using holder_of [OF assms(1), of t] holder_of [OF assms(1), of u] assms(2,3)
  by (auto simp: holder_is_def holds_def)

lemma closing_excludes_engine:
  assumes "adm_inv s" and "closing_pc (sy_pc s t) = Some d"
  shows "\<not> holds s u" and "m_waiters (sy_model s) = []" and "closing_pc (sy_pc s u) = Some d' \<Longrightarrow> u = t"
proof -
  note k = closer_obtain [OF assms]
  have quiet: "\<not> m_active (sy_model s)" "m_waiters (sy_model s) = []"
    using k(7) assms(1) by (auto simp: adm_inv_def idle_inv_def)
  then show "\<not> holds s u" "m_waiters (sy_model s) = []" using holder_of [OF assms(1), of u] by auto
  show "closing_pc (sy_pc s u) = Some d' \<Longrightarrow> u = t" using k(1) by (auto simp: closer_is_def)
qed

text \<open>A queue of one place: caller 0 runs, caller 1 waits.\<close>

definition small_options :: ModelOptions where
  "small_options = \<lparr>QueueCapacity = 1, MaxQueueWait = 0, InputTokenLimit = 0, Truncation = RejectOverflow\<rparr>"

definition busy_system :: system where
  "busy_system =
     (let s1 = after_acquire 0 Admitted ((system_init small_options)\<lparr>sy_model := (newModel small_options)\<lparr>m_active := True\<rparr>\<rparr>)
      in after_acquire 1 Queued (s1\<lparr>sy_model := (newModel small_options)\<lparr>m_active := True, m_waiters := [1]\<rparr>\<rparr>))"

lemma busy_reachable: "adm_step\<^sup>*\<^sup>* (system_init small_options) busy_system"
proof -
  let ?s1 = "after_acquire 0 Admitted ((system_init small_options)\<lparr>sy_model := (newModel small_options)\<lparr>m_active := True\<rparr>\<rparr>)"
  have "adm_step (system_init small_options) ?s1"
    by (rule predict_acquire) (simp_all add: system_init_def newModel_def acquire_def)
  moreover have "adm_step ?s1 busy_system"
    unfolding busy_system_def Let_def
    by (rule predict_acquire) (simp_all add: system_init_def newModel_def acquire_def append_waiter_def
        note_grants_def note_arrival_def go_to_def small_options_def)
  ultimately show ?thesis by (meson converse_rtranclp_into_rtranclp rtranclp.rtrancl_refl)
qed

lemma closed_reachable: "\<exists>s. adm_step\<^sup>*\<^sup>* (system_init small_options) s \<and> m_state (sy_model s) = Closed"
proof -
  let ?s0 = "system_init small_options"
  let ?s1 = "after_enter 0 (close_enter None (sy_model ?s0)) ?s0"
  let ?s2 = "go_to 0 (CUnregister 0) ?s1"
  let ?s3 = "go_to 0 (CFinish 0 None) (?s2\<lparr>sy_registered := False\<rparr>)"
  let ?s4 = "run_locked (close_finish 0 None (sy_model ?s3)) (go_to 0 (CReturn (map_option close_error None)) ?s3)"
  note eval = system_init_def newModel_def close_enter_def signalIdleLocked_def close_wait_def after_enter_def
    close_finish_def Let_def
  have "adm_step ?s0 ?s1" by (rule close_call) (simp_all add: eval)
  moreover have "adm_step ?s1 ?s2" by (rule engine_closed) (simp_all add: eval)
  moreover have "adm_step ?s2 ?s3" by (rule close_unregister) (simp_all add: eval)
  moreover have "adm_step ?s3 ?s4" by (rule close_end) (simp_all add: eval)
  moreover have "m_state (sy_model ?s4) = Closed" by (simp add: eval)
  ultimately show ?thesis by (meson converse_rtranclp_into_rtranclp rtranclp.rtrancl_refl)
qed

text \<open>
  C3: The engine of a Model is used by one caller at a time. In every reachable state no channel
  was closed twice, at most one caller is inside \<open>engine.Predict\<close>, at most one is inside
  \<open>engine.Close\<close>, and while one is, nobody predicts, nobody waits and nobody holds the slot.
\<close>

theorem admission_exclusive:
  assumes "adm_step\<^sup>*\<^sup>* (system_init opts) s"
  shows "\<not> sy_panic s \<and>
    (\<forall>t u. sy_pc s t = PEngine \<and> sy_pc s u = PEngine \<longrightarrow> t = u) \<and>
    (\<forall>t d. sy_pc s t = CEngine d \<longrightarrow>
       m_waiters (sy_model s) = [] \<and> (\<forall>u. \<not> holds s u \<and> sy_pc s u \<noteq> PEngine) \<and>
       (\<forall>u d'. sy_pc s u = CEngine d' \<longrightarrow> u = t))"
proof -
  note inv = adm_reach_inv [OF assms]
  have close: "closing_pc (sy_pc s t) = Some d" if "sy_pc s t = CEngine d" for t d using that by simp
  have no_engine: "sy_pc s u \<noteq> PEngine" if "sy_pc s t = CEngine d" for t d u
    using closing_excludes_engine(1) [OF inv close [OF that], of u] by (auto simp: holds_def)
  show ?thesis
    using inv in_engine_unique [OF inv] closing_excludes_engine [OF inv close] no_engine close
    by (auto simp: adm_inv_def)
qed

theorem admission_exclusive_witness:
  "{u. sy_pc busy_system u = PEngine} = {0} \<and> \<not> sy_panic busy_system"
proof -
  have "sy_pc busy_system 0 = PEngine" by (simp add: busy_system_def Let_def)
  with admission_exclusive [OF busy_reachable] show ?thesis by blast
qed

text \<open>
  C8: Admission is bounded and first in, first out: in every reachable state at most
  \<open>QueueCapacity\<close> callers wait, callers wait only behind an active one, and the callers
  given the engine so far, followed by those still waiting, are in the order of arrival.
\<close>

theorem admission_bounded_fifo:
  assumes "adm_step\<^sup>*\<^sup>* (system_init opts) s"
  shows "int (length (m_waiters (sy_model s))) \<le> max 0 (QueueCapacity opts) \<and>
    (m_waiters (sy_model s) \<noteq> [] \<longrightarrow> m_active (sy_model s)) \<and>
    subseq (sy_grants s @ m_waiters (sy_model s)) (sy_arrivals s) \<and> distinct (sy_arrivals s)"
  using adm_reach_inv [OF assms] adm_reach_opts [OF assms]
  by (simp add: adm_inv_def queue_inv_def history_inv_def waiters.in_order_def Let_def)

theorem admission_bounded_fifo_witness:
  "m_waiters (sy_model busy_system) = [1] \<and> subseq ([0] @ [1]) (sy_arrivals busy_system)"
  using admission_bounded_fifo [OF busy_reachable]
  by (simp add: busy_system_def Let_def system_init_def)

text \<open>
  C5: No wake-up is lost and nobody deadlocks: in every reachable state in which some caller has
  not finished, some caller can take a step of its own, without waiting for a context or a
  timer to end.
\<close>

theorem admission_no_deadlock:
  assumes "adm_step\<^sup>*\<^sup>* (system_init opts) s" and "\<not> settled (sy_pc s t)"
  shows "\<exists>u s'. can_move s u \<and> adm_step s s'"
  using someone_can_move [OF adm_reach_inv [OF assms(1)] assms(2)] can_move_steps [OF adm_reach_inv [OF assms(1)]]
  by blast

theorem admission_no_deadlock_witness:
  "\<not> can_move busy_system 1 \<and> (\<exists>u s'. can_move busy_system u \<and> adm_step busy_system s')"
proof -
  have "sy_pc busy_system 1 = PWait" by (simp add: busy_system_def Let_def)
  moreover have "\<not> can_move busy_system 1"
    by (simp add: busy_system_def Let_def can_move_def newModel_def)
  ultimately show ?thesis
    using admission_no_deadlock [OF busy_reachable, of 1] by (simp add: settled_def)
qed

text \<open>
  The lifecycle of a Model only moves forward, and a closed Model is quiescent: nobody
  holds the slot or waits for it, nobody is closing it, and the runtime has released it; the
  runtime keeps owning it for as long as it is not closed and nobody is past a successful
  engine close.
\<close>

theorem admission_lifecycle:
  assumes "adm_step\<^sup>*\<^sup>* (system_init opts) s"
  shows "(\<forall>s'. adm_step s s' \<longrightarrow> m_state (sy_model s) \<le> m_state (sy_model s')) \<and>
    (m_state (sy_model s) = Closed \<longrightarrow>
       (\<forall>t. \<not> holds s t \<and> closing_pc (sy_pc s t) = None) \<and> m_waiters (sy_model s) = [] \<and> \<not> sy_registered s) \<and>
    (\<not> sy_registered s \<longrightarrow> m_state (sy_model s) = Closed \<or> (\<exists>t d. sy_pc s t = CFinish d None))"
proof -
  note inv = adm_reach_inv [OF assms]
  have closed: "(\<forall>t. \<not> holds s t \<and> closing_pc (sy_pc s t) = None) \<and> m_waiters (sy_model s) = [] \<and> \<not> sy_registered s"
    if c: "m_state (sy_model s) = Closed"
  proof -
    have quiet: "\<not> m_active (sy_model s)" "m_waiters (sy_model s) = []"
      using c inv by (auto simp: adm_inv_def idle_inv_def)
    have none: "closing_pc (sy_pc s t) = None" for t
      using closer_obtain(6) [OF inv, of t] c by (cases "closing_pc (sy_pc s t)") auto
    have "\<not> m_closeInProgress (sy_model s)"
      using inv none unfolding adm_inv_def close_inv_def closer_is_def Let_def by (metis not_None_eq surj_pair option.distinct(1))
    then have "\<not> sy_registered s" using inv c by (auto simp: adm_inv_def close_inv_def Let_def)
    with quiet none show ?thesis using holder_of [OF inv] by blast
  qed
  have "\<exists>t d. sy_pc s t = CFinish d None" if r: "\<not> sy_registered s" and "m_state (sy_model s) \<noteq> Closed"
  proof -
    have "m_closeInProgress (sy_model s)" using inv that by (auto simp: adm_inv_def close_inv_def Let_def)
    then obtain t d where "closing_pc (sy_pc s t) = Some d"
      using inv unfolding adm_inv_def close_inv_def closer_is_def Let_def by (metis not_None_eq surj_pair)
    then have "sy_pc s t = CFinish d None" using closer_obtain(8) [OF inv] r by blast
    then show ?thesis by blast
  qed
  with closed show ?thesis using adm_step_keeps [OF _ inv] by blast
qed

theorem admission_lifecycle_witness:
  "\<exists>s. adm_step\<^sup>*\<^sup>* (system_init small_options) s \<and> m_state (sy_model s) = Closed \<and> \<not> sy_registered s"
proof -
  obtain s where s: "adm_step\<^sup>*\<^sup>* (system_init small_options) s" "m_state (sy_model s) = Closed"
    using closed_reachable by blast
  with admission_lifecycle [OF s(1)] show ?thesis by blast
qed

text \<open>
  C4: Admission refines the contract in the comment on \<open>Model\<close>: every step of the goroutines
  is, on the pair of slot holder and queue, either no change or a step of the abstract bounded
  FIFO queue with the configured capacity.
\<close>

theorem admission_refines_queue:
  assumes "adm_step\<^sup>*\<^sup>* (system_init opts) s" and "adm_step s s'"
  shows "\<exists>h h'. holder_is s h \<and> holder_is s' h' \<and>
    ((h', m_waiters (sy_model s')) = (h, m_waiters (sy_model s)) \<or>
     slot_spec (QueueCapacity opts) (h, m_waiters (sy_model s)) (h', m_waiters (sy_model s')))"
  using simulates_step [OF assms(2) adm_reach_inv [OF assms(1)]] adm_reach_opts [OF assms(1)]
  by (simp add: simulates_def)

theorem admission_refines_queue_witness:
  "\<exists>s' h h'. adm_step busy_system s' \<and> holder_is busy_system h \<and> holder_is s' h'"
proof -
  have "\<exists>u s'. can_move busy_system u \<and> adm_step busy_system s'"
    using someone_can_move [OF adm_reach_inv [OF busy_reachable], of 1]
      can_move_steps [OF adm_reach_inv [OF busy_reachable]]
    by (auto simp: busy_system_def Let_def settled_def)
  then obtain s' where s': "adm_step busy_system s'" by blast
  show ?thesis using admission_refines_queue [OF busy_reachable s'] s' by blast
qed

end
