(* ===== verification/Laya_Runtime.thy ===== *)
theory Laya_Runtime
  imports Laya_Admission
begin

text \<open>
  \<open>runtime.go\<close>: the Runtime that owns the models. Its operations under the mutex, and the
  step relation of the goroutines that open models, close models and close the Runtime. Live
  models are numbered; the engine behind the interface \<open>runtimeEngine\<close> may answer any call in
  any way, so its replies are free in the step relation.
\<close>

subsection \<open>Operations under the mutex\<close>

record runtime =
  rt_state :: lifecycle
  rt_models :: "nat set"
  rt_opening :: int
  rt_closeInProgress :: bool
  rt_closeDone :: "nat option"
  rt_doneClosed :: "nat set"
  rt_nextDone :: nat

text \<open>\<open>newRuntime\<close>; the argument says whether the engine interface is non-nil.\<close>

definition newRuntime :: "bool \<Rightarrow> runtime res" where
  "newRuntime engine =
     (if \<not> engine then Err (wrap ErrInvalidConfig ''create internal runtime'')
      else Ok \<lparr>rt_state = Open, rt_models = {}, rt_opening = 0, rt_closeInProgress = False,
               rt_closeDone = None, rt_doneClosed = {}, rt_nextDone = 0\<rparr>)"

text \<open>
  \<open>NewRuntime\<close>, with the outcome of \<open>newNativeRuntimeEngine\<close> as an argument; the second
  component says whether the engine is closed again.
\<close>

definition NewRuntime :: "go_ctx \<Rightarrow> bool res \<Rightarrow> runtime res \<times> bool" where
  "NewRuntime ctx native =
     (case validateContext ctx of Some e \<Rightarrow> (Err (Errorf ''create runtime'' [e]), False)
      | None \<Rightarrow>
          (case res_wrap ''create runtime'' native of
             Err e \<Rightarrow> (Err e, False) | Panic \<Rightarrow> (Panic, False)
           | Ok engine \<Rightarrow> (newRuntime engine, \<not> is_Ok (newRuntime engine))))"

text \<open>The checks before \<open>beginOpen\<close>.\<close>

definition OpenModelDir_checks :: "go_ctx \<Rightarrow> string \<Rightarrow> ModelOptions \<Rightarrow> go_error option" where
  "OpenModelDir_checks ctx dir opts =
     map_option (\<lambda>e. Errorf ''open model directory'' [e])
       (case validateContext ctx of Some e \<Rightarrow> Some e
        | None \<Rightarrow> if dir = '''' then Some (Sentinel ErrInvalidConfig) else ModelOptions_validate opts)"

definition OpenModelFS_checks :: "go_ctx \<Rightarrow> bool \<Rightarrow> FSModelOptions \<Rightarrow> go_error option" where
  "OpenModelFS_checks ctx fsys opts =
     map_option (\<lambda>e. Errorf ''open model filesystem'' [e])
       (case validateContext ctx of Some e \<Rightarrow> Some e
        | None \<Rightarrow> if \<not> fsys then Some (Sentinel ErrInvalidConfig) else FSModelOptions_validate opts)"

definition beginOpen :: "runtime \<Rightarrow> runtime res" where
  "beginOpen r =
     (if rt_state r \<noteq> Open then Err (wrap ErrInvalidState ''runtime is not open'')
      else Ok (r\<lparr>rt_opening := rt_opening r + 1\<rparr>))"

text \<open>
  \<open>finishOpen\<close> on the engine's reply: whether it returned a model engine, and its error. The
  new model has the given number.
\<close>

definition finishOpen :: "string \<Rightarrow> nat \<Rightarrow> bool \<Rightarrow> go_error option \<Rightarrow> runtime \<Rightarrow> (go_error + nat) \<times> runtime" where
  "finishOpen operation k engine openErr r =
     (let r' = r\<lparr>rt_opening := rt_opening r - 1\<rparr>
      in case openErr of
           Some e \<Rightarrow> (Inl (Errorf operation [e]), r')
         | None \<Rightarrow>
             if \<not> engine then (Inl (wrap ErrNativeFailure ''engine returned a nil model''), r')
             else if rt_state r' \<noteq> Open then (Inl (wrap ErrInvalidState ''runtime stopped during open''), r')
             else (Inr k, r'\<lparr>rt_models := insert k (rt_models r')\<rparr>))"

definition unregister :: "nat \<Rightarrow> runtime \<Rightarrow> runtime" where
  "unregister k r = r\<lparr>rt_models := rt_models r - {k}\<rparr>"

datatype rt_next = RtReturn "go_error option" | RtAwait "nat option" | RtRun nat

definition rt_error :: "go_error \<Rightarrow> go_error" where
  "rt_error e = Errorf ''close runtime'' [e]"

definition rt_close_slot :: "runtime \<Rightarrow> rt_next \<times> runtime" where
  "rt_close_slot r =
     (if rt_closeInProgress r then (RtAwait (rt_closeDone r), r)
      else (RtRun (rt_nextDone r),
            r\<lparr>rt_closeInProgress := True, rt_closeDone := Some (rt_nextDone r), rt_nextDone := Suc (rt_nextDone r)\<rparr>))"

text \<open>One round of \<open>Close\<close>, up to the wait or the engine call.\<close>

definition rt_close_enter :: "go_error option \<Rightarrow> runtime \<Rightarrow> rt_next \<times> runtime" where
  "rt_close_enter ctxErr r =
     (case rt_state r of
        Closed \<Rightarrow> (RtReturn None, r)
      | Open \<Rightarrow>
          (case ctxErr of
             Some e \<Rightarrow> (RtReturn (Some (rt_error e)), r)
           | None \<Rightarrow>
               if rt_opening r > 0 \<or> rt_models r \<noteq> {}
               then (RtReturn (Some (wrap ErrModelsOpen ''close runtime'')), r)
               else rt_close_slot (r\<lparr>rt_state := Closing\<rparr>))
      | Closing \<Rightarrow>
          (case ctxErr of
             Some e \<Rightarrow> (RtReturn (Some (rt_error e)), r)
           | None \<Rightarrow> rt_close_slot r)
      | Uninit \<Rightarrow> (RtReturn (Some (wrap ErrInvalidState ''runtime is not initialized'')), r))"

text \<open>After the engine call; closing a \<open>done\<close> channel twice would panic.\<close>

definition rt_close_finish :: "nat \<Rightarrow> go_error option \<Rightarrow> runtime \<Rightarrow> runtime res" where
  "rt_close_finish d err r =
     (let r' = r\<lparr>rt_closeInProgress := False, rt_state := (if err = None then Closed else rt_state r)\<rparr>
      in if d \<in> rt_doneClosed r' then Panic else Ok (r'\<lparr>rt_doneClosed := insert d (rt_doneClosed r')\<rparr>))"

subsection \<open>Goroutines\<close>

datatype rpc =
    RIdle
  | ROpening | ROpened "go_error + nat"
  | RCEnter | RCAwait "nat option" | RCEngine nat | RCFinish nat "go_error option"
  | RCReturn "go_error option"

text \<open>
  Beside the Runtime: the goroutines, the next model number, and whether the engine has been
  closed with success.
\<close>

record rsystem =
  rs_rt :: runtime
  rs_pc :: "nat \<Rightarrow> rpc"
  rs_nextModel :: nat
  rs_engineClosed :: bool
  rs_panic :: bool

definition rs_init :: "runtime \<Rightarrow> rsystem" where
  "rs_init r = \<lparr>rs_rt = r, rs_pc = (\<lambda>_. RIdle), rs_nextModel = 0, rs_engineClosed = False, rs_panic = False\<rparr>"

definition rs_goto :: "nat \<Rightarrow> rpc \<Rightarrow> rsystem \<Rightarrow> rsystem" where
  "rs_goto t p s = s\<lparr>rs_pc := (rs_pc s)(t := p)\<rparr>"

fun rt_next_pc :: "rt_next \<Rightarrow> rpc" where
  "rt_next_pc (RtReturn e) = RCReturn e"
| "rt_next_pc (RtAwait d) = RCAwait d"
| "rt_next_pc (RtRun d) = RCEngine d"

definition rs_opened :: "nat \<Rightarrow> runtime res \<Rightarrow> rsystem \<Rightarrow> rsystem" where
  "rs_opened t r s =
     (case r of Ok r' \<Rightarrow> rs_goto t ROpening (s\<lparr>rs_rt := r'\<rparr>)
      | Err e \<Rightarrow> rs_goto t (ROpened (Inl e)) s
      | Panic \<Rightarrow> s\<lparr>rs_panic := True\<rparr>)"

definition rs_locked :: "runtime res \<Rightarrow> rsystem \<Rightarrow> rsystem" where
  "rs_locked r s = (case r of Ok r' \<Rightarrow> s\<lparr>rs_rt := r'\<rparr> | _ \<Rightarrow> s\<lparr>rs_panic := True\<rparr>)"

inductive rt_step :: "rsystem \<Rightarrow> rsystem \<Rightarrow> bool" where
  open_begin:
    "\<lbrakk>\<not> rs_panic s; rs_pc s t = RIdle\<rbrakk> \<Longrightarrow> rt_step s (rs_opened t (beginOpen (rs_rt s)) s)"
| open_finish:
    "\<lbrakk>\<not> rs_panic s; rs_pc s t = ROpening; finishOpen operation (rs_nextModel s) engine openErr (rs_rt s) = (a, r)\<rbrakk>
     \<Longrightarrow> rt_step s (rs_goto t (ROpened a) (s\<lparr>rs_rt := r, rs_nextModel := Suc (rs_nextModel s)\<rparr>))"
| model_closed:
    "\<lbrakk>\<not> rs_panic s; k \<in> rt_models (rs_rt s)\<rbrakk> \<Longrightarrow> rt_step s (s\<lparr>rs_rt := unregister k (rs_rt s)\<rparr>)"
| close_call:
    "\<lbrakk>\<not> rs_panic s; rs_pc s t = RIdle \<or> rs_pc s t = RCEnter; rt_close_enter ctxErr (rs_rt s) = (n, r)\<rbrakk>
     \<Longrightarrow> rt_step s (rs_goto t (rt_next_pc n) (s\<lparr>rs_rt := r\<rparr>))"
| done_closed:
    "\<lbrakk>\<not> rs_panic s; rs_pc s t = RCAwait (Some d); d \<in> rt_doneClosed (rs_rt s)\<rbrakk>
     \<Longrightarrow> rt_step s (rs_goto t RCEnter s)"
| context_ends:
    "\<lbrakk>\<not> rs_panic s; rs_pc s t = RCAwait d\<rbrakk> \<Longrightarrow> rt_step s (rs_goto t (RCReturn (Some (rt_error e))) s)"
| engine_fails:
    "\<lbrakk>\<not> rs_panic s; rs_pc s t = RCEngine d\<rbrakk> \<Longrightarrow> rt_step s (rs_goto t (RCFinish d (Some e)) s)"
| engine_closes:
    "\<lbrakk>\<not> rs_panic s; rs_pc s t = RCEngine d\<rbrakk>
     \<Longrightarrow> rt_step s (rs_goto t (RCFinish d None) (s\<lparr>rs_engineClosed := True\<rparr>))"
| close_end:
    "\<lbrakk>\<not> rs_panic s; rs_pc s t = RCFinish d err\<rbrakk>
     \<Longrightarrow> rt_step s (rs_locked (rt_close_finish d err (rs_rt s))
           (rs_goto t (RCReturn (map_option rt_error err)) s))"

inductive_cases rt_stepE: "rt_step s s'"

subsection \<open>Invariant\<close>

definition rt_closing :: "rpc \<Rightarrow> nat option" where
  "rt_closing p = (case p of RCEngine d \<Rightarrow> Some d | RCFinish d e \<Rightarrow> Some d | _ \<Rightarrow> None)"

lemma rt_closing_simps [simp]:
  "rt_closing (RCEngine d) = Some d" "rt_closing (RCFinish d e) = Some d" "rt_closing RIdle = None"
  "rt_closing ROpening = None" "rt_closing (ROpened a) = None" "rt_closing RCEnter = None"
  "rt_closing (RCAwait x) = None" "rt_closing (RCReturn r) = None"
  by (simp_all add: rt_closing_def)

text \<open>The opens in flight are counted, and there are none, and no models, once it closes.\<close>

definition open_inv :: "rsystem \<Rightarrow> bool" where
  "open_inv s \<longleftrightarrow>
     (let r = rs_rt s; openers = {t. rs_pc s t = ROpening} in
      finite openers \<and> rt_opening r = int (card openers) \<and> rt_state r \<noteq> Uninit \<and>
      (rt_state r = Open \<or> openers = {} \<and> rt_models r = {}) \<and> rt_models r \<subseteq> {..<rs_nextModel s})"

definition rt_closer :: "rsystem \<Rightarrow> (nat \<times> nat) option \<Rightarrow> bool" where
  "rt_closer s c \<longleftrightarrow> (\<forall>t d. rt_closing (rs_pc s t) = Some d \<longleftrightarrow> c = Some (t, d))"

text \<open>The channel a \<open>Close\<close> waits for is closed, or belongs to the close in progress.\<close>

definition awaited :: "runtime \<Rightarrow> nat option \<Rightarrow> bool" where
  "awaited r x \<longleftrightarrow>
     (\<exists>d. x = Some d \<and> (d \<in> rt_doneClosed r \<or> rt_closeInProgress r \<and> rt_closeDone r = Some d))"

definition closer_inv :: "rsystem \<Rightarrow> (nat \<times> nat) option \<Rightarrow> bool" where
  "closer_inv s c \<longleftrightarrow>
     (let r = rs_rt s in
      rt_closer s c \<and> (rt_closeInProgress r \<longleftrightarrow> c \<noteq> None) \<and>
      (\<forall>t d. c = Some (t, d) \<longrightarrow> rt_closeDone r = Some d \<and> d \<notin> rt_doneClosed r \<and> d < rt_nextDone r \<and>
         rt_state r = Closing \<and> (rs_engineClosed s \<longleftrightarrow> rs_pc s t = RCFinish d None)) \<and>
      (c = None \<longrightarrow> (rs_engineClosed s \<longleftrightarrow> rt_state r = Closed)) \<and>
      (\<forall>d\<in>rt_doneClosed r. d < rt_nextDone r) \<and> (\<forall>t x. rs_pc s t = RCAwait x \<longrightarrow> awaited r x))"

definition rt_inv :: "rsystem \<Rightarrow> bool" where
  "rt_inv s \<longleftrightarrow> \<not> rs_panic s \<and> open_inv s \<and> (\<exists>c. closer_inv s c)"

lemma rs_goto_simps [simp]:
  "rs_pc (rs_goto t p s) = (rs_pc s)(t := p)" "rs_rt (rs_goto t p s) = rs_rt s"
  "rs_nextModel (rs_goto t p s) = rs_nextModel s" "rs_engineClosed (rs_goto t p s) = rs_engineClosed s"
  "rs_panic (rs_goto t p s) = rs_panic s"
  by (simp_all add: rs_goto_def)

lemma rt_inv_init: "newRuntime True = Ok r \<Longrightarrow> rt_inv (rs_init r)"
  by (auto simp: newRuntime_def rs_init_def rt_inv_def open_inv_def closer_inv_def rt_closer_def)

subsection \<open>Preservation\<close>

lemma rt_closer_move:
  assumes "rs_pc s' = (rs_pc s)(t := p)" and "rt_closing p = rt_closing (rs_pc s t)"
  shows "rt_closer s' c \<longleftrightarrow> rt_closer s c"
  using assms by (auto simp: rt_closer_def)

text \<open>A goroutine that is not closing moves to another place that is not closing.\<close>

lemma closer_inv_move:
  assumes inv: "closer_inv s c" and pc: "rs_pc s' = (rs_pc s)(t := p)"
    and role: "rt_closing (rs_pc s t) = None" "rt_closing p = None"
    and await: "\<forall>x. p = RCAwait x \<longrightarrow> rt_closeInProgress (rs_rt s) \<and> x = rt_closeDone (rs_rt s)"
    and same: "rs_engineClosed s' = rs_engineClosed s" "rt_closeInProgress (rs_rt s') = rt_closeInProgress (rs_rt s)"
      "rt_closeDone (rs_rt s') = rt_closeDone (rs_rt s)" "rt_doneClosed (rs_rt s') = rt_doneClosed (rs_rt s)"
      "rt_nextDone (rs_rt s') = rt_nextDone (rs_rt s)" "rt_state (rs_rt s') = rt_state (rs_rt s)"
  shows "closer_inv s' c"
proof -
  have "rt_closer s' c \<longleftrightarrow> rt_closer s c" using pc role by (intro rt_closer_move [of s' s t p]) auto
  moreover have "rs_pc s' u = RCFinish d e \<longleftrightarrow> rs_pc s u = RCFinish d e" for u d e
    using pc role by auto
  moreover have "awaited (rs_rt s') x" if "rs_pc s' u = RCAwait x" for u x
  proof -
    have "awaited (rs_rt s) x"
    proof (cases "u = t")
      case True
      then show ?thesis using that await pc inv
        by (cases c) (auto simp: closer_inv_def awaited_def Let_def)
    next
      case False
      then show ?thesis using that inv pc by (simp add: closer_inv_def Let_def)
    qed
    then show ?thesis by (simp add: awaited_def same)
  qed
  ultimately show ?thesis using inv unfolding closer_inv_def Let_def same by blast
qed

lemma open_inv_move:
  assumes "open_inv s" and "rs_pc s' = (rs_pc s)(t := p)" and "rs_pc s t \<noteq> ROpening" and "p \<noteq> ROpening"
    and "rt_opening (rs_rt s') = rt_opening (rs_rt s)" and "rt_models (rs_rt s') = rt_models (rs_rt s)"
    and "rs_nextModel s' = rs_nextModel s"
    and "rt_state (rs_rt s') = rt_state (rs_rt s) \<or>
      rt_state (rs_rt s') \<noteq> Uninit \<and> rt_opening (rs_rt s) = 0 \<and> rt_models (rs_rt s) = {}"
  shows "open_inv s'"
proof -
  have "{u. rs_pc s' u = ROpening} = {u. rs_pc s u = ROpening}" using assms(2-4) by auto
  with assms show ?thesis by (auto simp: open_inv_def Let_def)
qed

lemma rt_inv_move:
  assumes inv: "rt_inv s" and role: "rt_closing (rs_pc s t) = None" "rt_closing p = None"
    and opens: "rs_pc s t \<noteq> ROpening" "p \<noteq> ROpening"
    and await: "\<forall>x. p = RCAwait x \<longrightarrow> rt_closeInProgress (rs_rt s) \<and> x = rt_closeDone (rs_rt s)"
  shows "rt_inv (rs_goto t p s)"
proof -
  obtain c where "closer_inv s c" using inv by (auto simp: rt_inv_def)
  then have "closer_inv (rs_goto t p s) c"
    by (rule closer_inv_move [where t = t and p = p]) (use role await in simp_all)
  moreover have "open_inv (rs_goto t p s)"
    by (rule open_inv_move [where s = s and t = t and p = p]) (use inv opens in \<open>simp_all add: rt_inv_def\<close>)
  ultimately show ?thesis using inv by (auto simp: rt_inv_def)
qed

lemma rt_inv_begin:
  assumes inv: "rt_inv s" and t: "rs_pc s t = RIdle"
  shows "rt_inv (rs_opened t (beginOpen (rs_rt s)) s)"
proof (cases "rt_state (rs_rt s) = Open")
  case False
  let ?s' = "rs_goto t (ROpened (Inl (wrap ErrInvalidState ''runtime is not open''))) s"
  have "rs_opened t (beginOpen (rs_rt s)) s = ?s'" using False by (simp add: rs_opened_def beginOpen_def)
  moreover have "rt_inv ?s'" using inv by (rule rt_inv_move [where t = t]) (simp_all add: t)
  ultimately show ?thesis by simp
next
  case True
  let ?r = "(rs_rt s)\<lparr>rt_opening := rt_opening (rs_rt s) + 1\<rparr>"
  let ?s' = "rs_goto t ROpening (s\<lparr>rs_rt := ?r\<rparr>)"
  have eq: "rs_opened t (beginOpen (rs_rt s)) s = ?s'" using True by (simp add: rs_opened_def beginOpen_def)
  have "{u. rs_pc ?s' u = ROpening} = insert t {u. rs_pc s u = ROpening}" by auto
  moreover have "t \<notin> {u. rs_pc s u = ROpening}" using t by simp
  ultimately have "open_inv ?s'" using inv True by (auto simp: rt_inv_def open_inv_def Let_def)
  moreover obtain c where "closer_inv s c" using inv by (auto simp: rt_inv_def)
  then have "closer_inv ?s' c" by (rule closer_inv_move [where t = t and p = ROpening]) (simp_all add: t)
  ultimately show ?thesis unfolding eq using inv by (auto simp: rt_inv_def)
qed

lemma rt_inv_finish:
  assumes inv: "rt_inv s" and t: "rs_pc s t = ROpening"
    and f: "finishOpen operation (rs_nextModel s) engine openErr (rs_rt s) = (a, r)"
  shows "rt_inv (rs_goto t (ROpened a) (s\<lparr>rs_rt := r, rs_nextModel := Suc (rs_nextModel s)\<rparr>))" (is "rt_inv ?s'")
    and "rt_state (rs_rt s) = Open"
proof -
  have o: "open_inv s" using inv by (simp add: rt_inv_def)
  then show st: "rt_state (rs_rt s) = Open" using t by (auto simp: open_inv_def Let_def)
  have ops: "{u. rs_pc ?s' u = ROpening} = {u. rs_pc s u = ROpening} - {t}" by auto
  have r: "rt_opening r = rt_opening (rs_rt s) - 1" "rt_state r = rt_state (rs_rt s)"
    "rt_models r \<subseteq> insert (rs_nextModel s) (rt_models (rs_rt s))"
    "rt_closeInProgress r = rt_closeInProgress (rs_rt s)" "rt_closeDone r = rt_closeDone (rs_rt s)"
    "rt_doneClosed r = rt_doneClosed (rs_rt s)" "rt_nextDone r = rt_nextDone (rs_rt s)"
    using f by (auto simp: finishOpen_def Let_def split: option.splits if_splits)
  have "card {u. rs_pc ?s' u = ROpening} = card {u. rs_pc s u = ROpening} - 1"
    unfolding ops using t o by (simp add: open_inv_def Let_def)
  moreover have "0 < card {u. rs_pc s u = ROpening}"
    using t o by (auto simp: open_inv_def Let_def card_gt_0_iff)
  ultimately have "open_inv ?s'"
    using o st r(1-3) unfolding open_inv_def Let_def ops by (auto simp: less_Suc_eq)
  moreover obtain c where "closer_inv s c" using inv by (auto simp: rt_inv_def)
  then have "closer_inv ?s' c"
    by (rule closer_inv_move [where t = t and p = "ROpened a"]) (simp_all add: t r)
  ultimately show "rt_inv ?s'" using inv by (auto simp: rt_inv_def)
qed

lemma rt_inv_unregister:
  assumes "rt_inv s"
  shows "rt_inv (s\<lparr>rs_rt := unregister k (rs_rt s)\<rparr>)"
proof -
  let ?s' = "s\<lparr>rs_rt := unregister k (rs_rt s)\<rparr>"
  obtain c where "closer_inv s c" using assms by (auto simp: rt_inv_def)
  moreover have aw: "awaited (rs_rt ?s') = awaited (rs_rt s)"
    by (simp add: awaited_def fun_eq_iff unregister_def)
  ultimately have "closer_inv ?s' c"
    unfolding closer_inv_def rt_closer_def Let_def aw by (simp add: unregister_def)
  moreover have "open_inv ?s'" using assms by (auto simp: rt_inv_def open_inv_def unregister_def Let_def)
  ultimately show ?thesis using assms by (auto simp: rt_inv_def)
qed

text \<open>The closing goroutine, when there is one.\<close>

lemma closer_obtain_rt:
  assumes "rt_inv s" and "rt_closing (rs_pc s t) = Some d"
  shows "closer_inv s (Some (t, d))"
  using assms by (auto simp: rt_inv_def closer_inv_def rt_closer_def Let_def)

lemma closer_none:
  assumes "rt_inv s" and "\<not> rt_closeInProgress (rs_rt s)"
  shows "closer_inv s None"
proof -
  obtain c where c: "closer_inv s c" using assms(1) by (auto simp: rt_inv_def)
  then have "c = None" using assms(2) by (cases c) (auto simp: closer_inv_def Let_def)
  with c show ?thesis by simp
qed

lemma rt_inv_run:
  assumes inv: "rt_inv s" and t: "rt_closing (rs_pc s t) = None" "rs_pc s t \<noteq> ROpening"
    and free: "\<not> rt_closeInProgress (rs_rt s)" and n: "n = rt_nextDone (rs_rt s)"
    and st: "rt_state (rs_rt s) = Closing \<or>
      rt_state (rs_rt s) = Open \<and> rt_opening (rs_rt s) = 0 \<and> rt_models (rs_rt s) = {}"
  shows "rt_inv (rs_goto t (RCEngine n) (s\<lparr>rs_rt := (rs_rt s)\<lparr>rt_state := Closing, rt_closeInProgress := True,
    rt_closeDone := Some n, rt_nextDone := Suc n\<rparr>\<rparr>))" (is "rt_inv ?s'")
proof -
  note c = closer_none [OF inv free]
  have none: "rt_closing (rs_pc s u) = None" for u
    using c by (cases "rt_closing (rs_pc s u)") (auto simp: closer_inv_def rt_closer_def Let_def)
  have aw: "awaited (rs_rt s) x \<Longrightarrow> awaited (rs_rt ?s') x" for x using free by (auto simp: awaited_def)
  have "closer_inv ?s' (Some (t, n))"
    using c none st n free aw unfolding closer_inv_def rt_closer_def Let_def
    by (auto simp: less_Suc_eq)
  moreover have "open_inv ?s'"
    by (rule open_inv_move [where s = s and t = t and p = "RCEngine n"])
      (use inv t st in \<open>auto simp: rt_inv_def open_inv_def Let_def\<close>)
  ultimately show ?thesis using inv by (auto simp: rt_inv_def)
qed

lemma close_enter_cases:
  assumes inv: "rt_inv s" and e: "rt_close_enter ctxErr (rs_rt s) = (n, r)"
  obtains (return) x where "n = RtReturn x" "r = rs_rt s"
  | (await) "n = RtAwait (rt_closeDone (rs_rt s))" "r = rs_rt s" "rt_closeInProgress (rs_rt s)" "rt_state (rs_rt s) = Closing"
  | (run) d where "n = RtRun d" "d = rt_nextDone (rs_rt s)" "\<not> rt_closeInProgress (rs_rt s)"
      "rt_state (rs_rt s) = Closing \<or> rt_state (rs_rt s) = Open \<and> rt_opening (rs_rt s) = 0 \<and> rt_models (rs_rt s) = {}"
      "r = (rs_rt s)\<lparr>rt_state := Closing, rt_closeInProgress := True, rt_closeDone := Some d, rt_nextDone := Suc d\<rparr>"
proof -
  have free: "\<not> rt_closeInProgress (rs_rt s)" if "rt_state (rs_rt s) = Open"
    using inv that by (auto simp: rt_inv_def closer_inv_def Let_def)
  have nonneg: "0 \<le> rt_opening (rs_rt s)" using inv by (auto simp: rt_inv_def open_inv_def Let_def)
  note e' = e [unfolded rt_close_enter_def]
  show thesis
  proof (cases "rt_state (rs_rt s)")
    case Open
    show thesis
    proof (cases "ctxErr = None \<and> rt_opening (rs_rt s) = 0 \<and> rt_models (rs_rt s) = {}")
      case True
      with e' Open free have "n = RtRun (rt_nextDone (rs_rt s))"
        "r = (rs_rt s)\<lparr>rt_state := Closing, rt_closeInProgress := True, rt_closeDone := Some (rt_nextDone (rs_rt s)),
          rt_nextDone := Suc (rt_nextDone (rs_rt s))\<rparr>"
        by (auto simp: rt_close_slot_def)
      with True Open free show thesis by (intro run) simp_all
    next
      case False
      with e' Open nonneg have "r = rs_rt s \<and> (\<exists>x. n = RtReturn x)" by (auto split: option.splits if_splits)
      then show thesis using return by blast
    qed
  next
    case Closing
    show thesis
    proof (cases ctxErr)
      case None
      show thesis
      proof (cases "rt_closeInProgress (rs_rt s)")
        case True
        with e' Closing None show thesis by (intro await) (auto simp: rt_close_slot_def)
      next
        case False
        with e' Closing None have "n = RtRun (rt_nextDone (rs_rt s))"
          "r = (rs_rt s)\<lparr>rt_state := Closing, rt_closeInProgress := True, rt_closeDone := Some (rt_nextDone (rs_rt s)),
            rt_nextDone := Suc (rt_nextDone (rs_rt s))\<rparr>"
          by (auto simp: rt_close_slot_def)
        with False Closing show thesis by (intro run) simp_all
      qed
    next
      case (Some x)
      with e' Closing have "r = rs_rt s \<and> n = RtReturn (Some (rt_error x))" by auto
      then show thesis using return by blast
    qed
  next
    case Closed
    with e' have "r = rs_rt s \<and> n = RtReturn None" by auto
    then show thesis using return by blast
  next
    case Uninit
    with e' have "r = rs_rt s \<and> n = RtReturn (Some (wrap ErrInvalidState ''runtime is not initialized''))" by auto
    then show thesis using return by blast
  qed
qed

lemma rt_inv_close_call:
  assumes inv: "rt_inv s" and t: "rs_pc s t = RIdle \<or> rs_pc s t = RCEnter"
    and e: "rt_close_enter ctxErr (rs_rt s) = (n, r)"
  shows "rt_inv (rs_goto t (rt_next_pc n) (s\<lparr>rs_rt := r\<rparr>))"
  using inv e
proof (cases rule: close_enter_cases)
  case (return x)
  have "rt_inv (rs_goto t (RCReturn x) s)" by (rule rt_inv_move [OF inv]) (use t in auto)
  with return show ?thesis by simp
next
  case await
  have "rt_inv (rs_goto t (RCAwait (rt_closeDone (rs_rt s))) s)" by (rule rt_inv_move [OF inv]) (use t await in auto)
  with await show ?thesis by simp
next
  case (run d)
  have role: "rt_closing (rs_pc s t) = None" "rs_pc s t \<noteq> ROpening" using t by auto
  show ?thesis using rt_inv_run [OF inv role run(3,2,4)] run(1,5) by simp
qed

lemma rt_inv_engine:
  assumes inv: "rt_inv s" and t: "rs_pc s t = RCEngine d"
  shows "rt_inv (rs_goto t (RCFinish d e) (s\<lparr>rs_engineClosed := rs_engineClosed s \<or> e = None\<rparr>))" (is "rt_inv ?s'")
proof -
  have "closer_inv s (Some (t, d))" by (rule closer_obtain_rt [OF inv]) (simp add: t)
  moreover from this have "\<not> rs_engineClosed s" using t by (simp add: closer_inv_def Let_def)
  ultimately have "closer_inv ?s' (Some (t, d))"
    using t unfolding closer_inv_def rt_closer_def Let_def by auto
  moreover have "open_inv ?s'"
    by (rule open_inv_move [where s = s and t = t and p = "RCFinish d e"]) (use inv t in \<open>auto simp: rt_inv_def\<close>)
  ultimately show ?thesis using inv by (auto simp: rt_inv_def)
qed

lemma rt_inv_close_end:
  assumes inv: "rt_inv s" and t: "rs_pc s t = RCFinish d e"
  shows "rt_inv (rs_locked (rt_close_finish d e (rs_rt s)) (rs_goto t (RCReturn (map_option rt_error e)) s))"
proof -
  let ?r = "(rs_rt s)\<lparr>rt_closeInProgress := False, rt_state := (if e = None then Closed else rt_state (rs_rt s)),
      rt_doneClosed := insert d (rt_doneClosed (rs_rt s))\<rparr>"
  let ?s' = "(rs_goto t (RCReturn (map_option rt_error e)) s)\<lparr>rs_rt := ?r\<rparr>"
  have c: "closer_inv s (Some (t, d))" by (rule closer_obtain_rt [OF inv]) (simp add: t)
  then have d: "d \<notin> rt_doneClosed (rs_rt s)" "rt_state (rs_rt s) = Closing" "rt_closeDone (rs_rt s) = Some d"
    "rs_engineClosed s \<longleftrightarrow> e = None"
    using t by (auto simp: closer_inv_def Let_def)
  have eq: "rs_locked (rt_close_finish d e (rs_rt s)) (rs_goto t (RCReturn (map_option rt_error e)) s) = ?s'"
    using d(1) by (simp add: rs_locked_def rt_close_finish_def Let_def)
  have none: "rt_closing (rs_pc s u) = None" if "u \<noteq> t" for u
    using c that by (cases "rt_closing (rs_pc s u)") (auto simp: closer_inv_def rt_closer_def Let_def)
  have aw: "awaited (rs_rt s) x \<Longrightarrow> awaited ?r x" for x using d(3) by (auto simp: awaited_def)
  have "closer_inv ?s' None"
    using c none d t aw unfolding closer_inv_def rt_closer_def Let_def by auto
  moreover have "open_inv ?s'"
    by (rule open_inv_move [where s = s and t = t and p = "RCReturn (map_option rt_error e)"])
      (use inv t d in \<open>auto simp: rt_inv_def open_inv_def Let_def\<close>)
  ultimately show ?thesis unfolding eq using inv by (auto simp: rt_inv_def)
qed

lemma rt_step_inv: "rt_step s s' \<Longrightarrow> rt_inv s \<Longrightarrow> rt_inv s'"
proof (induction rule: rt_step.induct)
  case (done_closed s t d)
  show ?case by (rule rt_inv_move) (use done_closed in auto)
next
  case (context_ends s t d e)
  show ?case by (rule rt_inv_move) (use context_ends in auto)
next
  case (engine_fails s t d e)
  show ?case using rt_inv_engine [OF engine_fails(3,2), of "Some e"] by (simp add: rs_goto_def)
next
  case (engine_closes s t d)
  show ?case using rt_inv_engine [OF engine_closes(3,2), of None] by simp
qed (auto intro: rt_inv_begin rt_inv_finish rt_inv_unregister rt_inv_close_call rt_inv_close_end)

subsection \<open>Properties\<close>

definition start_runtime :: rsystem where
  "start_runtime = (case newRuntime True of Ok r \<Rightarrow> rs_init r | _ \<Rightarrow> undefined)"

interpretation runtime_steps: step_invariant "\<lambda>_ :: unit. start_runtime" rt_step rt_inv
proof unfold_locales
  show "rt_inv start_runtime" using rt_inv_init by (simp add: start_runtime_def newRuntime_def)
qed (rule rt_step_inv)

lemmas start_inv = runtime_steps.reachable_inv

text \<open>A run with one opened model, and its continuation to the closed Runtime.\<close>

definition open_runtime :: rsystem where
  "open_runtime =
     (let s1 = rs_opened 0 (beginOpen (rs_rt start_runtime)) start_runtime
      in rs_goto 0 (ROpened (Inr 0)) (s1\<lparr>rs_rt := snd (finishOpen ''open'' 0 True None (rs_rt s1)), rs_nextModel := 1\<rparr>))"

definition closing_runtime :: rsystem where
  "closing_runtime =
     (let s2 = open_runtime\<lparr>rs_rt := unregister 0 (rs_rt open_runtime)\<rparr>
      in rs_goto 1 (RCEngine 0) (s2\<lparr>rs_rt := snd (rt_close_enter None (rs_rt s2))\<rparr>))"

lemmas runtime_eval = start_runtime_def newRuntime_def rs_init_def open_runtime_def beginOpen_def finishOpen_def
  rs_opened_def rs_goto_def closing_runtime_def unregister_def rt_close_enter_def rt_close_slot_def Let_def

lemma open_reachable: "rt_step\<^sup>*\<^sup>* start_runtime open_runtime"
proof -
  let ?s1 = "rs_opened 0 (beginOpen (rs_rt start_runtime)) start_runtime"
  have "rt_step start_runtime ?s1" by (rule open_begin) (simp_all add: runtime_eval)
  moreover have "rt_step ?s1 open_runtime"
    using open_finish [of ?s1 0 "''open''" True None "Inr 0" "snd (finishOpen ''open'' 0 True None (rs_rt ?s1))"]
    by (simp add: runtime_eval)
  ultimately show ?thesis by (meson converse_rtranclp_into_rtranclp rtranclp.rtrancl_refl)
qed

lemma closing_reachable: "rt_step\<^sup>*\<^sup>* start_runtime closing_runtime"
proof -
  let ?s2 = "open_runtime\<lparr>rs_rt := unregister 0 (rs_rt open_runtime)\<rparr>"
  have "rt_step open_runtime ?s2" by (rule model_closed) (simp_all add: runtime_eval)
  moreover have "rt_step ?s2 closing_runtime"
    using close_call [of ?s2 1 None "RtRun 0" "snd (rt_close_enter None (rs_rt ?s2))"]
    by (simp add: runtime_eval)
  ultimately show ?thesis using open_reachable by (meson rtranclp.rtrancl_into_rtrancl)
qed

text \<open>
  C21: The Runtime closes its engine only when nothing uses it. In every reachable state no channel
  was closed twice; while a goroutine is inside \<open>engine.Close\<close> no open is in flight, no model
  is live and no other goroutine is closing; and once the engine is closed, it is never opened
  on or closed again.
\<close>

theorem runtime_close_exclusive:
  assumes "rt_step\<^sup>*\<^sup>* start_runtime s"
  shows "\<not> rs_panic s \<and>
    (\<forall>t d. rs_pc s t = RCEngine d \<longrightarrow>
       rt_models (rs_rt s) = {} \<and> (\<forall>u. rs_pc s u \<noteq> ROpening) \<and> \<not> rs_engineClosed s \<and>
       (\<forall>u d'. rs_pc s u = RCEngine d' \<longrightarrow> u = t)) \<and>
    (rs_engineClosed s \<longrightarrow>
       rt_models (rs_rt s) = {} \<and> (\<forall>u. rs_pc s u \<noteq> ROpening \<and> (\<forall>d. rs_pc s u \<noteq> RCEngine d)))"
proof -
  note inv = start_inv [OF assms]
  then obtain c where c: "closer_inv s c" and o: "open_inv s" and np: "\<not> rs_panic s" by (auto simp: rt_inv_def)
  have engine: "c = Some (t, d) \<and> rt_state (rs_rt s) = Closing \<and> \<not> rs_engineClosed s" if "rs_pc s t = RCEngine d" for t d
  proof -
    have "rt_closing (rs_pc s t) = Some d" using that by simp
    then have "c = Some (t, d)" using c by (simp only: closer_inv_def rt_closer_def Let_def)
    with c that show ?thesis by (simp add: closer_inv_def Let_def)
  qed
  have quiet: "rt_models (rs_rt s) = {} \<and> (\<forall>u. rs_pc s u \<noteq> ROpening)" if "rt_state (rs_rt s) \<noteq> Open"
    using o that by (auto simp: open_inv_def Let_def)
  have stopped: "rt_state (rs_rt s) \<noteq> Open" if "rs_engineClosed s"
    using c that by (cases c) (auto simp: closer_inv_def Let_def)
  have "u = t" if "rs_pc s t = RCEngine d" "rs_pc s u = RCEngine d'" for t u d d'
    using engine [OF that(1)] engine [OF that(2)] by simp
  moreover have "rt_state (rs_rt s) \<noteq> Open" if "rs_pc s t = RCEngine d" for t d
    using engine [OF that] by simp
  ultimately show ?thesis using np quiet stopped engine by blast
qed

theorem runtime_close_exclusive_witness:
  "rs_pc closing_runtime 1 = RCEngine 0 \<and> rt_models (rs_rt closing_runtime) = {} \<and>
   {u. \<exists>d. rs_pc closing_runtime u = RCEngine d} = {1}"
proof -
  have "rs_pc closing_runtime 1 = RCEngine 0" by (simp add: runtime_eval)
  with runtime_close_exclusive [OF closing_reachable] show ?thesis by blast
qed

text \<open>
  An open that reached the engine is always finished against an open Runtime: it registers
  exactly one new model when the engine returned one, and otherwise fails with the engine's
  error or \<open>ErrNativeFailure\<close> and registers nothing. The branch ``runtime stopped during
  open'', which would leak the engine's model, is unreachable.
\<close>

theorem finishOpen_registers:
  assumes "rt_step\<^sup>*\<^sup>* start_runtime s" and "rs_pc s t = ROpening"
    and "finishOpen operation (rs_nextModel s) engine openErr (rs_rt s) = (a, r)"
  shows "rt_opening r = rt_opening (rs_rt s) - 1 \<and> 0 \<le> rt_opening r \<and>
    (case openErr of
       Some e \<Rightarrow> a = Inl (Errorf operation [e]) \<and> rt_models r = rt_models (rs_rt s)
     | None \<Rightarrow>
         if engine then a = Inr (rs_nextModel s) \<and> rs_nextModel s \<notin> rt_models (rs_rt s) \<and>
           rt_models r = insert (rs_nextModel s) (rt_models (rs_rt s))
         else (\<exists>e. a = Inl e \<and> errors_is e ErrNativeFailure) \<and> rt_models r = rt_models (rs_rt s))"
proof -
  note inv = start_inv [OF assms(1)]
  note st = rt_inv_finish [OF inv assms(2,3)]
  have "rs_nextModel s \<notin> rt_models (rs_rt s)" using inv by (auto simp: rt_inv_def open_inv_def Let_def)
  moreover have "0 \<le> rt_opening r" using st(1) by (auto simp: rt_inv_def open_inv_def Let_def)
  ultimately show ?thesis
    using assms(3) st(2) by (auto simp: finishOpen_def Let_def split: option.splits if_splits)
qed

theorem finishOpen_registers_witness:
  "\<exists>s a r. rt_step\<^sup>*\<^sup>* start_runtime s \<and> finishOpen ''open'' (rs_nextModel s) True None (rs_rt s) = (a, r) \<and>
     a = Inr 0 \<and> rt_models r = {0}"
proof -
  let ?s = "rs_opened 0 (beginOpen (rs_rt start_runtime)) start_runtime"
  let ?f = "finishOpen ''open'' (rs_nextModel ?s) True None (rs_rt ?s)"
  have r: "rt_step\<^sup>*\<^sup>* start_runtime ?s"
    by (rule r_into_rtranclp, rule open_begin) (simp_all add: runtime_eval)
  have pc: "rs_pc ?s 0 = ROpening" by (simp add: runtime_eval)
  have new: "rs_nextModel ?s = 0" "rt_models (rs_rt ?s) = {}" by (simp_all add: runtime_eval)
  have "fst ?f = Inr 0 \<and> rt_models (snd ?f) = {0}"
    using finishOpen_registers [OF r pc, of "''open''" True None "fst ?f" "snd ?f"] new by simp
  with r show ?thesis by (metis prod.collapse)
qed

text \<open>
  A call of \<open>Close\<close> with a live context has one of four outcomes in every reachable state: nil
  if the Runtime is closed; \<open>ErrModelsOpen\<close>, leaving the Runtime open and unchanged, exactly
  if an open is in flight or a model is live; the engine call, for exactly this caller; or the
  wait for a close in progress, which another goroutine is bound to end. Nobody waits for a
  channel that nobody will close.
\<close>

theorem runtime_close_outcomes:
  assumes "rt_step\<^sup>*\<^sup>* start_runtime s" and "rt_close_enter None (rs_rt s) = (n, r)"
  shows "(case rt_state (rs_rt s) of
       Closed \<Rightarrow> n = RtReturn None \<and> r = rs_rt s
     | Open \<Rightarrow>
         if (\<exists>t. rs_pc s t = ROpening) \<or> rt_models (rs_rt s) \<noteq> {}
         then r = rs_rt s \<and> (\<exists>e. n = RtReturn (Some e) \<and> errors_is e ErrModelsOpen)
         else rt_state r = Closing \<and> (\<exists>d. n = RtRun d \<and> rt_closeDone r = Some d)
     | Closing \<Rightarrow> (\<exists>d. n = RtRun d \<and> rt_closeDone r = Some d) \<or> n = RtAwait (rt_closeDone (rs_rt s)) \<and> r = rs_rt s
     | Uninit \<Rightarrow> False) \<and>
    (\<forall>t x. rs_pc s t = RCAwait x \<or> n = RtAwait x \<longrightarrow>
       (\<exists>d. x = Some d \<and> (d \<in> rt_doneClosed (rs_rt s) \<or> (\<exists>u. rt_closing (rs_pc s u) = Some d))))"
proof -
  note inv = start_inv [OF assms(1)]
  then obtain c where c: "closer_inv s c" and o: "open_inv s" by (auto simp: rt_inv_def)
  have count: "rt_opening (rs_rt s) > 0 \<longleftrightarrow> (\<exists>t. rs_pc s t = ROpening)"
    using o by (auto simp: open_inv_def Let_def card_gt_0_iff)
  have free: "rt_state (rs_rt s) = Open \<Longrightarrow> \<not> rt_closeInProgress (rs_rt s)"
    using c by (auto simp: closer_inv_def Let_def)
  have init: "rt_state (rs_rt s) \<noteq> Uninit" using o by (simp add: open_inv_def Let_def)
  have owner: "\<exists>u. rt_closing (rs_pc s u) = Some d"
    if "rt_closeInProgress (rs_rt s)" "rt_closeDone (rs_rt s) = Some d" for d
    using c that by (cases c) (auto simp: closer_inv_def rt_closer_def Let_def)
  have waiting: "\<exists>d. x = Some d \<and> (d \<in> rt_doneClosed (rs_rt s) \<or> (\<exists>u. rt_closing (rs_pc s u) = Some d))"
    if "awaited (rs_rt s) x" for x using that owner by (auto simp: awaited_def)
  have "awaited (rs_rt s) x" if "n = RtAwait x" for x
    using inv assms(2)
  proof (cases rule: close_enter_cases)
    case await
    with c that show ?thesis by (cases c) (auto simp: closer_inv_def awaited_def Let_def)
  qed (use that in simp_all)
  moreover have "awaited (rs_rt s) x" if "rs_pc s t = RCAwait x" for t x
    using c that by (auto simp: closer_inv_def Let_def)
  ultimately have wait: "\<forall>t x. rs_pc s t = RCAwait x \<or> n = RtAwait x \<longrightarrow>
       (\<exists>d. x = Some d \<and> (d \<in> rt_doneClosed (rs_rt s) \<or> (\<exists>u. rt_closing (rs_pc s u) = Some d)))"
    using waiting by blast
  have "case rt_state (rs_rt s) of
       Closed \<Rightarrow> n = RtReturn None \<and> r = rs_rt s
     | Open \<Rightarrow>
         if (\<exists>t. rs_pc s t = ROpening) \<or> rt_models (rs_rt s) \<noteq> {}
         then r = rs_rt s \<and> (\<exists>e. n = RtReturn (Some e) \<and> errors_is e ErrModelsOpen)
         else rt_state r = Closing \<and> (\<exists>d. n = RtRun d \<and> rt_closeDone r = Some d)
     | Closing \<Rightarrow> (\<exists>d. n = RtRun d \<and> rt_closeDone r = Some d) \<or> n = RtAwait (rt_closeDone (rs_rt s)) \<and> r = rs_rt s
     | Uninit \<Rightarrow> False"
    using assms(2) init free count
    by (cases "rt_state (rs_rt s)") (auto simp: rt_close_enter_def rt_close_slot_def split: if_splits)
  with wait show ?thesis by blast
qed

theorem runtime_close_outcomes_witness:
  "\<exists>n e. rt_close_enter None (rs_rt open_runtime) = (n, rs_rt open_runtime) \<and> n = RtReturn (Some e) \<and>
     errors_is e ErrModelsOpen"
proof -
  have "rt_state (rs_rt open_runtime) = Open" "rt_models (rs_rt open_runtime) = {0}" by (simp_all add: runtime_eval)
  with runtime_close_outcomes [OF open_reachable prod.collapse [symmetric]]
  have "snd (rt_close_enter None (rs_rt open_runtime)) = rs_rt open_runtime \<and>
    (\<exists>e. fst (rt_close_enter None (rs_rt open_runtime)) = RtReturn (Some e) \<and> errors_is e ErrModelsOpen)"
    by auto
  then show ?thesis by (metis prod.collapse)
qed

end
