(* ===== verification/Laya_Softmax.thy ===== *)
theory Laya_Softmax
  imports Laya_Float Laya_Prelude Laya_Errors
begin

text \<open>
  The numeric part of \<open>postprocess.go\<close>, in binary64 arithmetic: softmax, confidence,
  the best index, the expected score and rounding to four decimals, with error bounds.

  Every addition, multiplication and division is rounded by \<open>round64\<close>; a \<open>float32\<close>
  logit converts to \<open>float64\<close> exactly, so logits are \<open>f64\<close> values. The native build
  is amd64 only, where the compiler does not fuse operations. \<open>math.Exp\<close> and
  \<open>math.Log\<close> are arguments; the predicates \<open>exp_laws\<close> and \<open>log_laws\<close>
  below say what the proofs use of them.
\<close>

subsection \<open>Row functions\<close>

text \<open>First loop of \<open>stableSoftmax\<close>: scale the logits and track the maximum.\<close>

fun softmax_scale :: "f64 \<Rightarrow> f64 list \<Rightarrow> f64 \<Rightarrow> (f64 list \<times> f64) res" where
  "softmax_scale temperature [] maximum = Ok ([], maximum)"
| "softmax_scale temperature (logit # logits) maximum =
     (if \<not> isFinite logit then Err (wrap ErrInvalidOutput ''logit is not finite'')
      else let s = f_div logit temperature
           in res_bind (softmax_scale temperature logits (f_max maximum s)) (\<lambda>(scaled, top).
                Ok (s # scaled, top)))"

definition softmax_total :: "f64 list \<Rightarrow> f64" where
  "softmax_total xs = foldl f_add (Fin 0) xs"

definition stableSoftmax :: "(f64 \<Rightarrow> f64) \<Rightarrow> f64 list \<Rightarrow> f64 \<Rightarrow> f64 list res" where
  "stableSoftmax mexp logits temperature =
     (if length logits = 0 then Err (wrap ErrInvalidOutput ''logits are empty'')
      else if \<not> isFinite temperature \<or> f_le temperature (Fin 0)
        then Err (wrap ErrInvalidOutput ''softmax temperature is invalid'')
      else res_bind (softmax_scale temperature logits (f_neg MaxFloat64)) (\<lambda>(scaled, maximum).
        (let weights = map (\<lambda>v. mexp (f_sub v maximum)) scaled;
             total = softmax_total weights
         in if \<not> isFinite total \<or> f_le total (Fin 0)
            then Err (wrap ErrInvalidOutput ''softmax normalization is invalid'')
            else Ok (map (\<lambda>w. f_div w total) weights))))"

definition entropy_step :: "(f64 \<Rightarrow> f64) \<Rightarrow> f64 \<Rightarrow> f64 \<Rightarrow> f64" where
  "entropy_step mlog entropy p =
     f_sub entropy (f_mul p (mlog (f_min (Fin 1) (f_max (round64 (1 / 10 ^ 12)) p))))"

definition confidenceFromProbabilities :: "(f64 \<Rightarrow> f64) \<Rightarrow> f64 list \<Rightarrow> f64" where
  "confidenceFromProbabilities mlog ps =
     (if length ps < 2 then Fin 1
      else f_min (Fin 1) (f_max (Fin 0)
             (f_sub (Fin 1) (f_div (foldl (entropy_step mlog) (Fin 0) ps) (mlog (f_of_int (int (length ps))))))))"

fun maximum_loop :: "f64 list \<Rightarrow> nat \<Rightarrow> nat list \<Rightarrow> nat" where
  "maximum_loop values best [] = best"
| "maximum_loop values best (i # is) =
     maximum_loop values (if f_lt (values ! best) (values ! i) then i else best) is"

definition maximumIndex :: "f64 list \<Rightarrow> nat" where
  "maximumIndex vs = maximum_loop vs 0 [1..<length vs]"

definition roundFour :: "f64 \<Rightarrow> f64" where
  "roundFour v = f_div (math_Round (f_mul v (Fin 10000))) (Fin 10000)"

definition expected_score :: "f64 list \<Rightarrow> f64" where
  "expected_score ps =
     foldl (\<lambda>acc (i, p). f_add acc (f_mul (f_of_int (int i)) p)) (Fin 0) (indexed ps)"

subsection \<open>The elementary functions\<close>

text \<open>
  What the documentation of package \<open>math\<close> and the analytic functions give: \<open>Exp\<close>
  is one at zero and in the unit interval below; \<open>Log\<close> is finite and not positive on
  \<open>(0, 1]\<close>, and at least a half (and finite) at the integers from two on.
\<close>

definition exp_laws :: "(f64 \<Rightarrow> f64) \<Rightarrow> bool" where
  "exp_laws mexp \<longleftrightarrow>
     mexp (Fin 0) = Fin 1 \<and>
     (\<forall>x. x \<le> 0 \<longrightarrow> (\<exists>r. mexp (Fin x) = Fin r \<and> on_grid r \<and> 0 \<le> r \<and> r \<le> 1))"

definition log_laws :: "(f64 \<Rightarrow> f64) \<Rightarrow> bool" where
  "log_laws mlog \<longleftrightarrow>
     (\<forall>x. pow2 (- 40) \<le> x \<and> x \<le> 1 \<longrightarrow> (\<exists>r. mlog (Fin x) = Fin r \<and> - 1024 \<le> r \<and> r \<le> 0)) \<and>
     (\<forall>n::nat. 2 \<le> n \<longrightarrow> (\<exists>r. mlog (Fin (of_nat n)) = Fin r \<and> 1 / 2 \<le> r))"

subsection \<open>Softmax\<close>

text \<open>A logit as \<open>float32\<close> can hold it.\<close>

definition logit_ok :: "f64 \<Rightarrow> bool" where
  "logit_ok v = (case v of Fin r \<Rightarrow> \<bar>r\<bar> \<le> pow2 128 | _ \<Rightarrow> False)"

lemma logit_okE: assumes "logit_ok v" obtains r where "v = Fin r" "\<bar>r\<bar> \<le> pow2 128"
  using assms by (cases v) (auto simp: logit_ok_def)

lemma scaled_logit:
  assumes "\<bar>r\<bar> \<le> pow2 128" and "1 / 2 \<le> t"
  shows "f_div (Fin r) (Fin t) = Fin (rnd (r / t))" and "\<bar>rnd (r / t)\<bar> \<le> pow2 129"
proof -
  have "\<bar>r / t\<bar> = \<bar>r\<bar> / t" using assms(2) by simp
  also have "\<dots> \<le> pow2 128 / (1 / 2)"
    using assms by (intro frac_le) simp_all
  also have "\<dots> = pow2 129" by (simp add: power_int_def)
  finally have b: "\<bar>r / t\<bar> \<le> pow2 129" .
  from round64_pow2 [OF b] show "f_div (Fin r) (Fin t) = Fin (rnd (r / t))" "\<bar>rnd (r / t)\<bar> \<le> pow2 129"
    using assms(2) by simp_all
qed

lemma softmax_scale_Ok:
  assumes "list_all logit_ok logits" and "1 / 2 \<le> t"
  shows "\<exists>xs M. softmax_scale (Fin t) logits (Fin M0) = Ok (map Fin xs, Fin M) \<and> length xs = length logits \<and>
     (\<forall>x\<in>set xs. \<bar>x\<bar> \<le> pow2 129 \<and> x \<le> M) \<and> M0 \<le> M \<and> (M = M0 \<or> M \<in> set xs)"
  using assms(1)
proof (induction logits arbitrary: M0)
  case (Cons v logits)
  from Cons.prems obtain r where r: "v = Fin r" "\<bar>r\<bar> \<le> pow2 128" by (auto elim: logit_okE)
  note s = scaled_logit [OF r(2) assms(2)]
  obtain xs M where IH: "softmax_scale (Fin t) logits (Fin (max M0 (rnd (r / t)))) = Ok (map Fin xs, Fin M)"
    "length xs = length logits" "\<forall>x\<in>set xs. \<bar>x\<bar> \<le> pow2 129 \<and> x \<le> M" "max M0 (rnd (r / t)) \<le> M"
    "M = max M0 (rnd (r / t)) \<or> M \<in> set xs"
    using Cons.IH [of "max M0 (rnd (r / t))"] Cons.prems by auto
  show ?case
    by (rule exI [of _ "rnd (r / t) # xs"], rule exI [of _ M])
      (use IH s in \<open>auto simp: r(1) s(1) max_def split: if_splits\<close>)
qed simp

lemma softmax_weights:
  assumes laws: "exp_laws mexp" and xs: "\<forall>x\<in>set xs. \<bar>x\<bar> \<le> pow2 129 \<and> x \<le> M" and M: "M \<in> set xs"
  shows "\<exists>ws. map (\<lambda>v. mexp (f_sub v (Fin M))) (map Fin xs) = map Fin ws \<and> length ws = length xs \<and>
     (\<forall>w\<in>set ws. on_grid w \<and> 0 \<le> w \<and> w \<le> 1) \<and> 1 \<in> set ws"
proof -
  have "\<exists>w. mexp (f_sub (Fin x) (Fin M)) = Fin w \<and> on_grid w \<and> 0 \<le> w \<and> w \<le> 1 \<and> (x = M \<longrightarrow> w = 1)"
    if x: "x \<in> set xs" for x
  proof -
    have "\<bar>x - M\<bar> \<le> \<bar>x\<bar> + \<bar>M\<bar>" by (rule abs_triangle_ineq4)
    also have "\<dots> \<le> pow2 129 + pow2 129" using xs x M by (intro add_mono) auto
    also have "\<dots> = pow2 130" by (simp add: power_int_def)
    finally have b: "\<bar>x - M\<bar> \<le> pow2 130" .
    have sub: "f_sub (Fin x) (Fin M) = Fin (rnd (x - M))"
      using round64_pow2 [OF b] by (simp add: f_sub_def)
    have "rnd (x - M) \<le> 0" using rnd_mono [of "x - M" 0] xs x by simp
    then obtain w where w: "mexp (Fin (rnd (x - M))) = Fin w" "on_grid w" "0 \<le> w" "w \<le> 1"
      using laws unfolding exp_laws_def by blast
    moreover have "w = 1" if "x = M" using w(1) laws that by (simp add: exp_laws_def)
    ultimately show ?thesis unfolding sub by blast
  qed
  then obtain f where f: "\<And>x. x \<in> set xs \<Longrightarrow> mexp (f_sub (Fin x) (Fin M)) = Fin (f x) \<and> on_grid (f x) \<and>
      0 \<le> f x \<and> f x \<le> 1 \<and> (x = M \<longrightarrow> f x = 1)"
    by metis
  show ?thesis
  proof (intro exI conjI)
    show "map (\<lambda>v. mexp (f_sub v (Fin M))) (map Fin xs) = map Fin (map f xs)" using f by simp
    show "1 \<in> set (map f xs)" using f [OF M] M by (metis image_eqI list.set_map)
  qed (use f in auto)
qed

text \<open>A float sum of terms in \<open>[0, c]\<close> is the rounded sum of the rationals.\<close>

lemma float_sum:
  assumes "\<forall>w\<in>set ws. 0 \<le> w \<and> w \<le> of_nat c" and "0 \<le> s" and "s \<le> of_nat (k * c)"
    and "(k + length ws) * c \<le> 2 ^ 53"
  shows "foldl f_add (Fin s) (map Fin ws) = Fin (fold (\<lambda>x s. rnd (s + x)) ws s)"
  using assms
proof (induction ws arbitrary: s k)
  case (Cons w ws)
  have k: "Suc k * c \<le> 2 ^ 53" and rest: "(Suc k + length ws) * c \<le> 2 ^ 53"
    using Cons.prems(4) by (simp_all add: algebra_simps)
  note g = accurate64.grid_nat [OF k]
  have w: "0 \<le> w" "w \<le> of_nat c" using Cons.prems(1) by auto
  have "s + w \<le> of_nat (k * c) + of_nat c" using Cons.prems(3) w by (rule_tac add_mono)
  also have "\<dots> = of_nat (Suc k * c)" by simp
  finally have le: "s + w \<le> of_nat (Suc k * c)" .
  then have b: "\<bar>s + w\<bar> \<le> of_nat (Suc k * c)" using Cons.prems(2) w by simp
  have add: "round64 (s + w) = Fin (rnd (s + w))"
    using round64_bounded [OF b g of_nat_lt_overflow [OF k]] by simp
  have le': "rnd (s + w) \<le> of_nat (Suc k * c)" using le g by (rule binary64.rd_le)
  have "foldl f_add (Fin (rnd (s + w))) (map Fin ws) = Fin (fold (\<lambda>x s. rnd (s + x)) ws (rnd (s + w)))"
    using Cons.prems(1,2) w le' rest by (intro Cons.IH [of _ "Suc k"]) (auto intro: rnd_nonneg)
  then show ?case by (simp add: add)
qed simp

text \<open>The normalised weights sum to one up to rounding.\<close>

lemma sum_list_le_error:
  "(\<And>x. x \<in> set xs \<Longrightarrow> f x \<le> g x + e) \<Longrightarrow> sum_list (map f xs) \<le> sum_list (map g xs) + of_nat (length xs) * (e :: rat)"
proof (induction xs)
  case (Cons x xs)
  then have "f x \<le> g x + e" "sum_list (map f xs) \<le> sum_list (map g xs) + of_nat (length xs) * e" by auto
  then show ?case by (simp add: algebra_simps)
qed simp

lemma sum_list_divide: "sum_list (map (\<lambda>w. w / T) ws) = sum_list ws / (T :: rat)"
  by (induction ws) (simp_all add: add_divide_distrib)

lemma softmax_sum:
  assumes ws: "\<forall>w\<in>set ws. on_grid w \<and> 0 \<le> w \<and> w \<le> 1" and len: "length ws \<le> 1024" and T: "1 \<le> T"
    and near: "\<bar>T - sum_list ws\<bar> \<le> 1024 * (1024 * ulp64 + tiny64)"
  shows "sum_list (map (\<lambda>w. rnd (w / T)) ws) \<le> 1 + 2000000 * ulp64"
proof -
  have each: "rnd (w / T) \<le> w / T + 2 * ulp64" if "w \<in> set ws" for w
  proof -
    have "\<bar>w / T\<bar> \<le> 1" using ws that T by (auto simp: divide_le_eq_1)
    then have "\<bar>rnd (w / T) - w / T\<bar> \<le> 1 * ulp64 + tiny64" by (rule accurate64.rd_error_bound)
    then show ?thesis using tiny64_le by linarith
  qed
  have "sum_list (map (\<lambda>w. rnd (w / T)) ws) \<le> sum_list (map (\<lambda>w. w / T) ws) + of_nat (length ws) * (2 * ulp64)"
    by (rule sum_list_le_error) (rule each)
  moreover have "sum_list (map (\<lambda>w. w / T) ws) \<le> 1 + 1049600 * ulp64"
  proof -
    have "- (T - sum_list ws) \<le> 1024 * (1024 * ulp64 + tiny64)" using near by (rule abs_le_D2)
    moreover have "1024 * (1024 * ulp64 + tiny64) \<le> 1024 * (1025 * ulp64)" using tiny64_le by simp
    ultimately have "sum_list ws \<le> T + 1049600 * ulp64" by simp
    also have "\<dots> \<le> T * (1 + 1049600 * ulp64)"
      using T ulp64_pos by (simp add: algebra_simps)
    finally show ?thesis unfolding sum_list_divide using T by (simp add: pos_divide_le_eq mult.commute)
  qed
  moreover have "of_nat (length ws) * (2 * ulp64) \<le> 1024 * (2 * ulp64)"
    using len ulp64_pos by (intro mult_right_mono) simp_all
  ultimately show ?thesis using ulp64_pos by linarith
qed

lemma stableSoftmax_Ok:
  assumes laws: "exp_laws mexp" and logits: "list_all logit_ok logits" and ne: "logits \<noteq> []"
    and len: "length logits \<le> 1024" and t: "1 / 2 \<le> t"
  shows "\<exists>ps. stableSoftmax mexp logits (Fin t) = Ok (map Fin ps) \<and> length ps = length logits \<and>
     (\<forall>p\<in>set ps. 0 \<le> p \<and> p \<le> 1) \<and> sum_list ps \<le> 1 + 2000000 * ulp64"
proof -
  define M0 :: rat where "M0 = - ((2 ^ 53 - 1) * pow2 971)"
  obtain xs M where scale: "softmax_scale (Fin t) logits (Fin M0) = Ok (map Fin xs, Fin M)"
    and lx: "length xs = length logits" and bx: "\<forall>x\<in>set xs. \<bar>x\<bar> \<le> pow2 129 \<and> x \<le> M"
    and M: "M0 \<le> M" "M = M0 \<or> M \<in> set xs"
    using softmax_scale_Ok [OF logits t, of M0] by blast
  have start: "f_neg MaxFloat64 = Fin M0" by (simp add: MaxFloat64_def M0_def)
  have "M0 < - pow2 129" by (simp add: M0_def power_int_def)
  obtain x where x: "x \<in> set xs" using ne lx by (cases xs) auto
  have "- pow2 129 \<le> x" "x \<le> M" using bx x by (auto simp: abs_le_iff)
  with \<open>M0 < - pow2 129\<close> have "M \<noteq> M0" by linarith
  with M have mem: "M \<in> set xs" by simp
  obtain ws where ws: "map (\<lambda>v. mexp (f_sub v (Fin M))) (map Fin xs) = map Fin ws" "length ws = length xs"
    "\<forall>w\<in>set ws. on_grid w \<and> 0 \<le> w \<and> w \<le> 1" "1 \<in> set ws"
    using softmax_weights [OF laws bx mem] by blast
  define T where "T = fold (\<lambda>x s. rnd (s + x)) ws 0"
  have total: "softmax_total (map Fin ws) = Fin T"
    unfolding softmax_total_def T_def
    using float_sum [of ws 1 0 0] ws len lx by simp
  have T: "1 \<le> T"
    unfolding T_def using ws binary64.grid_0 binary64.grid_1 by (intro binary64.fold_sum_ge_member) auto
  have div: "f_div (Fin w) (Fin T) = Fin (rnd (w / T)) \<and> 0 \<le> rnd (w / T) \<and> rnd (w / T) \<le> 1" if "w \<in> set ws" for w
  proof -
    have "0 \<le> w / T" "w / T \<le> 1" using ws(3) that T by (auto simp: divide_le_eq_1)
    from round64_unit [OF this] show ?thesis using T by simp
  qed
  have near: "\<bar>T - sum_list ws\<bar> \<le> 1024 * (1024 * ulp64 + tiny64)"
  proof -
    have "\<bar>T - (0 + sum_list ws)\<bar> \<le> of_nat (length ws) * (of_nat 1024 * ulp64 + tiny64)"
      unfolding T_def using ws(2,3) len lx by (intro accurate64.fold_sum_error [where c = 1 and k = 0]) auto
    also have "\<dots> \<le> 1024 * (1024 * ulp64 + tiny64)"
      using len ws(2) lx ulp64_pos tiny64_nonneg by (intro mult_mono) simp_all
    finally show ?thesis by simp
  qed
  have "sum_list (map (\<lambda>w. rnd (w / T)) ws) \<le> 1 + 2000000 * ulp64"
    using softmax_sum [OF ws(3) _ T near] ws(2) len lx by simp
  moreover have t0: "0 < t" using t by (simp add: order_less_le_trans [of 0 "1/2"])
  have "stableSoftmax mexp logits (Fin t) = Ok (map Fin (map (\<lambda>w. rnd (w / T)) ws))"
    using ne t0 scale ws(1) total T div by (simp add: stableSoftmax_def start Let_def)
  ultimately show ?thesis
    using div ws(2) lx by (intro exI [of _ "map (\<lambda>w. rnd (w / T)) ws"]) auto
qed

subsection \<open>Confidence\<close>

lemma clamp_unit: "\<exists>c. f_min (Fin 1) (f_max (Fin 0) (Fin q)) = Fin c \<and> 0 \<le> c \<and> c \<le> 1"
  by (simp add: min_def max_def)

lemma smallest_bound: "\<exists>c. round64 (1 / 10 ^ 12) = Fin c \<and> pow2 (- 40) \<le> c \<and> c \<le> 1"
proof -
  have "pow2 (- 40) \<le> 1 / 10 ^ 12" by (simp add: power_int_def power_one_over)
  then have "pow2 (- 40) \<le> rnd (1 / 10 ^ 12)" by (intro binary64.rd_ge on_grid_pow2) simp_all
  then show ?thesis using round64_unit [of "1 / 10 ^ 12"] by simp
qed

text \<open>Multiples of a power of two are on the grid and far from overflow.\<close>

lemma round64_scaled:
  assumes "\<bar>q\<bar> \<le> of_nat n * pow2 e" and "n \<le> 2 ^ 53" and "0 \<le> e" and "e \<le> 100"
  shows "\<exists>r. round64 q = Fin r \<and> \<bar>r\<bar> \<le> of_nat n * pow2 e"
proof -
  have "\<bar>int n\<bar> \<le> 2 ^ 53" using assms(2) by (metis abs_of_nat of_nat_le_iff of_nat_numeral of_nat_power)
  then have g: "on_grid (of_nat n * pow2 e)"
    unfolding on_grid_def using assms(3) by (intro exI [of _ "int n"] exI [of _ e]) simp
  have "of_nat n * pow2 e \<le> of_nat (2 ^ 53) * pow2 100"
    using assms(2,4) by (intro mult_mono pow2_mono) (simp_all only: of_nat_le_iff, simp_all)
  also have "\<dots> = pow2 153" by (simp add: power_int_def)
  also have "\<dots> < overflow_limit" by (rule overflow_limit_gt) simp_all
  finally show ?thesis using round64_bounded [OF assms(1) g] by blast
qed

lemma entropy_bounded:
  assumes laws: "log_laws mlog" and "\<forall>p\<in>set ps. 0 \<le> p \<and> p \<le> 1" and "\<bar>e\<bar> \<le> of_nat k * pow2 10"
    and "k + length ps \<le> 2 ^ 53"
  shows "\<exists>r. foldl (entropy_step mlog) (Fin e) (map Fin ps) = Fin r \<and> \<bar>r\<bar> \<le> of_nat (k + length ps) * pow2 10"
  using assms(2-)
proof (induction ps arbitrary: e k)
  case (Cons p ps)
  obtain c where c: "round64 (1 / 10 ^ 12) = Fin c" "pow2 (- 40) \<le> c" "c \<le> 1" using smallest_bound by blast
  have "pow2 (- 40) \<le> min 1 (max c p)" "min 1 (max c p) \<le> 1" using c by auto
  then obtain l where l: "mlog (Fin (min 1 (max c p))) = Fin l" "- 1024 \<le> l" "l \<le> 0"
    using laws unfolding log_laws_def by blast
  have p: "0 \<le> p" "p \<le> 1" using Cons.prems(1) by auto
  have "\<bar>p * l\<bar> \<le> 1 * 1024" unfolding abs_mult using p l by (intro mult_mono) auto
  then obtain m where m: "round64 (p * l) = Fin m" "\<bar>m\<bar> \<le> pow2 10"
    using round64_scaled [of "p * l" 1 10] by auto
  have "\<bar>e - m\<bar> \<le> \<bar>e\<bar> + \<bar>m\<bar>" by (rule abs_triangle_ineq4)
  also have "\<dots> \<le> of_nat (Suc k) * pow2 10" using Cons.prems(2) m(2) by (simp add: algebra_simps)
  finally obtain e' where e': "round64 (e - m) = Fin e'" "\<bar>e'\<bar> \<le> of_nat (Suc k) * pow2 10"
    using round64_scaled [of "e - m" "Suc k" 10] Cons.prems(3) by auto
  have step: "entropy_step mlog (Fin e) (Fin p) = Fin e'"
    unfolding entropy_step_def c(1) by (simp add: l(1) m(1) f_sub_def e'(1))
  show ?case using Cons.IH [of e' "Suc k"] Cons.prems e' by (simp add: step)
qed simp

lemma confidence_unit:
  assumes laws: "log_laws mlog" and "\<forall>p\<in>set ps. 0 \<le> p \<and> p \<le> 1" and "length ps \<le> 1024"
  shows "\<exists>c. confidenceFromProbabilities mlog (map Fin ps) = Fin c \<and> 0 \<le> c \<and> c \<le> 1"
proof (cases "length ps < 2")
  case False
  obtain r where r: "foldl (entropy_step mlog) (Fin 0) (map Fin ps) = Fin r" "\<bar>r\<bar> \<le> of_nat (length ps) * pow2 10"
    using entropy_bounded [OF laws assms(2), of 0 0] assms(3) by auto
  have n: "f_of_int (int (length ps)) = Fin (of_nat (length ps))" using assms(3) by (intro f_of_int_exact) simp
  obtain l where l: "mlog (Fin (of_nat (length ps))) = Fin l" "1 / 2 \<le> l"
    using laws False unfolding log_laws_def by (metis not_less)
  have "\<bar>r / l\<bar> = \<bar>r\<bar> / l" using l by simp
  also have "\<dots> \<le> (of_nat (length ps) * pow2 10) / (1 / 2)" using r(2) l by (intro frac_le) simp_all
  also have "\<dots> = of_nat (length ps) * pow2 11" by (simp add: power_int_def)
  finally obtain d where d: "round64 (r / l) = Fin d" "\<bar>d\<bar> \<le> of_nat (length ps) * pow2 11"
    using round64_scaled [of "r / l" "length ps" 11] assms(3) by auto
  have "\<bar>1 - d\<bar> \<le> \<bar>1\<bar> + \<bar>d\<bar>" by (rule abs_triangle_ineq4)
  also have "\<dots> \<le> of_nat (Suc (length ps)) * pow2 11" using d(2) by (simp add: power_int_def algebra_simps)
  finally obtain q where q: "round64 (1 - d) = Fin q"
    using round64_scaled [of "1 - d" "Suc (length ps)" 11] assms(3) by auto
  have l0: "l \<noteq> 0" using l(2) by auto
  show ?thesis
    using False clamp_unit [of q]
    by (simp add: confidenceFromProbabilities_def r(1) n l(1) l0 d(1) f_sub_def q)
qed (simp add: confidenceFromProbabilities_def)

subsection \<open>Rounding to four decimals\<close>

lemma round_away_bounds: "0 \<le> q \<Longrightarrow> q < of_int n + 1 / 2 \<Longrightarrow> 0 \<le> round_away q \<and> round_away q \<le> n"
proof -
  assume q: "0 \<le> q" "q < of_int n + 1 / 2"
  have "0 \<le> \<lfloor>q + 1 / 2\<rfloor>" using q(1) by simp
  moreover have "q + 1 / 2 < of_int (n + 1)" using q(2) by simp
  then have "\<lfloor>q + 1 / 2\<rfloor> < n + 1" by (simp only: floor_less_iff)
  ultimately show ?thesis using q(1) by (simp add: round_away_def)
qed

lemma roundFour_bounds:
  assumes "0 \<le> v" and "v \<le> of_nat n + 1 / 40000" and "n \<le> 1024"
  shows "\<exists>r. roundFour (Fin v) = Fin r \<and> 0 \<le> r \<and> r \<le> of_nat n"
proof -
  define b where "b = (of_int (40000 * int n + 1) * pow2 (- 2) :: rat)"
  have g: "on_grid b" unfolding on_grid_def b_def using assms(3)
    by (intro exI [of _ "40000 * int n + 1"] exI [of _ "- 2"]) simp
  have b: "b = of_nat n * 10000 + 1 / 4" by (simp add: b_def power_int_def power_one_over field_simps)
  have "b \<le> pow2 30" using assms(3) by (simp add: b power_int_def)
  then have small: "b < overflow_limit" using overflow_limit_gt [of 30] by simp
  have "v * 10000 \<le> b" using assms(2) by (simp add: b)
  then have "\<bar>v * 10000\<bar> \<le> b" using assms(1) by simp
  from round64_bounded [OF this g small] have mul: "round64 (v * 10000) = Fin (rnd (v * 10000))"
    and top: "rnd (v * 10000) \<le> b" by auto
  have "0 \<le> rnd (v * 10000)" using assms(1) by (intro rnd_nonneg) simp
  moreover have "rnd (v * 10000) < of_int (int n * 10000) + 1 / 2" using top by (simp add: b)
  ultimately have k: "0 \<le> round_away (rnd (v * 10000))" "round_away (rnd (v * 10000)) \<le> int n * 10000"
    using round_away_bounds by blast+
  define k where "k = round_away (rnd (v * 10000))"
  have "(of_int k :: rat) \<le> of_int (int n * 10000)" using k(2) by (simp only: k_def of_int_le_iff)
  then have le: "of_int k / 10000 \<le> (of_nat n :: rat)" by (simp add: divide_le_eq)
  have ge: "0 \<le> of_int k / (10000 :: rat)" using k(1) by (simp add: k_def)
  have gn: "on_grid (of_nat n)" using assms(3) by (intro accurate64.grid_nat) simp
  have "\<bar>of_int k / 10000\<bar> \<le> (of_nat n :: rat)" using le ge by simp
  from round64_bounded [OF this gn of_nat_lt_overflow] assms(3)
  have "round64 (of_int k / 10000) = Fin (rnd (of_int k / 10000))" "rnd (of_int k / 10000) \<le> of_nat n" by auto
  moreover have "0 \<le> rnd (of_int k / 10000)" using ge by (rule rnd_nonneg)
  ultimately show ?thesis by (simp add: roundFour_def mul math_Round_def k_def)
qed

subsection \<open>Expected score\<close>

lemma expected_summand:
  assumes "i < 1024" and "0 \<le> p" and "p \<le> 1"
  shows "f_mul (f_of_int (int i)) (Fin p) = Fin (rnd (of_nat i * p))"
    and "0 \<le> rnd (of_nat i * p)" and "rnd (of_nat i * p) \<le> of_nat 1024"
    and "rnd (of_nat i * p) \<le> of_nat i * p + (1024 * ulp64 + tiny64)"
proof -
  have i: "f_of_int (int i) = Fin (of_nat i)" using assms(1) by (intro f_of_int_exact) simp
  have "of_nat i * p \<le> of_nat 1024 * 1" using assms by (intro mult_mono) simp_all
  then have b: "\<bar>of_nat i * p\<bar> \<le> of_nat 1024" using assms by simp
  have g: "on_grid (of_nat 1024)" by (rule accurate64.grid_nat) simp
  have "\<bar>rnd (of_nat i * p) - of_nat i * p\<bar> \<le> of_nat 1024 * ulp64 + tiny64"
    using b by (rule accurate64.rd_error_bound)
  then show "rnd (of_nat i * p) \<le> of_nat i * p + (1024 * ulp64 + tiny64)" by simp
  have "round64 (of_nat i * p) = Fin (rnd (of_nat i * p)) \<and> \<bar>rnd (of_nat i * p)\<bar> \<le> of_nat 1024"
    using b g by (rule round64_bounded) (rule of_nat_lt_overflow, simp)
  then show "f_mul (f_of_int (int i)) (Fin p) = Fin (rnd (of_nat i * p))"
    "rnd (of_nat i * p) \<le> of_nat 1024" by (simp add: i, blast dest: abs_le_D1)
  show "0 \<le> rnd (of_nat i * p)" using assms by (intro rnd_nonneg) simp
qed

definition expected_terms :: "nat \<Rightarrow> rat list \<Rightarrow> rat list" where
  "expected_terms k ps = map (\<lambda>(i, p). rnd (of_nat i * p)) (List.enumerate k ps)"

lemma expected_terms_fold:
  assumes "\<forall>p\<in>set ps. 0 \<le> p \<and> p \<le> 1" and "k + length ps \<le> 1024"
  shows "foldl (\<lambda>acc (i, p). f_add acc (f_mul (f_of_int (int i)) p)) a (List.enumerate k (map Fin ps)) =
     foldl f_add a (map Fin (expected_terms k ps))"
  using assms
  by (induction ps arbitrary: a k) (simp_all add: expected_terms_def expected_summand(1) del: f_mul.simps)

lemma expected_terms_range:
  assumes "\<forall>p\<in>set ps. 0 \<le> p \<and> p \<le> 1" and "k + length ps \<le> 1024"
  shows "\<forall>w\<in>set (expected_terms k ps). 0 \<le> w \<and> w \<le> of_nat 1024"
  using assms
proof (induction ps arbitrary: k)
  case (Cons p ps)
  have "\<forall>w\<in>set (expected_terms (Suc k) ps). 0 \<le> w \<and> w \<le> of_nat 1024"
    using Cons.prems by (intro Cons.IH) auto
  with Cons.prems expected_summand(2,3) [of k p] show ?case by (simp add: expected_terms_def)
qed (simp add: expected_terms_def)

lemma expected_terms_sum:
  assumes "\<forall>p\<in>set ps. 0 \<le> p \<and> p \<le> 1" and "k + length ps \<le> Suc n" and "n < 1024"
  shows "sum_list (expected_terms k ps) \<le> of_nat n * sum_list ps + of_nat (length ps) * (1025 * ulp64)"
  using assms(1,2)
proof (induction ps arbitrary: k)
  case (Cons p ps)
  have p: "0 \<le> p" "p \<le> 1" and k: "k \<le> n" using Cons.prems by auto
  have "of_nat k * p \<le> of_nat n * p" using k p by (intro mult_right_mono) simp_all
  then have "rnd (of_nat k * p) \<le> of_nat n * p + 1025 * ulp64"
    using expected_summand(4) [of k p] k p assms(3) tiny64_le by simp
  moreover have "sum_list (expected_terms (Suc k) ps) \<le> of_nat n * sum_list ps + of_nat (length ps) * (1025 * ulp64)"
    using Cons.prems by (intro Cons.IH) auto
  moreover have "expected_terms k (p # ps) = rnd (of_nat k * p) # expected_terms (Suc k) ps"
    by (simp add: expected_terms_def)
  ultimately show ?case by (simp add: algebra_simps)
qed (simp add: expected_terms_def)

lemma length_expected_terms [simp]: "length (expected_terms k ps) = length ps"
  by (simp add: expected_terms_def)

text \<open>The expected level of a softmax distribution exceeds the last level by rounding only.\<close>

lemma expected_score_bounds:
  assumes "\<forall>p\<in>set ps. 0 \<le> p \<and> p \<le> 1" and sum: "sum_list ps \<le> 1 + 2000000 * ulp64"
    and "length ps = Suc n" and "n < 1024"
  shows "\<exists>v. expected_score (map Fin ps) = Fin v \<and> 0 \<le> v \<and> v \<le> of_nat n + 1 / 40000"
proof -
  let ?ts = "expected_terms 0 ps"
  define v where "v = fold (\<lambda>x s. rnd (s + x)) ?ts 0"
  have range: "\<forall>w\<in>set ?ts. 0 \<le> w \<and> w \<le> of_nat 1024"
    using assms by (intro expected_terms_range) simp_all
  have len: "length ps \<le> 1024" using assms(3,4) by simp
  have small: "(0 + length ?ts) * 1024 \<le> 2 ^ 20" using len by simp
  then have fits: "(0 + length ?ts) * 1024 \<le> 2 ^ 53" by (rule le_trans) simp
  have "expected_score (map Fin ps) = foldl f_add (Fin 0) (map Fin ?ts)"
    unfolding expected_score_def using len assms(1) by (intro expected_terms_fold) simp_all
  also have "\<dots> = Fin v"
    unfolding v_def using range fits by (intro float_sum [where c = 1024 and k = 0]) simp_all
  finally have eq: "expected_score (map Fin ps) = Fin v" .
  have nonneg: "0 \<le> v" unfolding v_def using range by (intro binary64.fold_nonneg) simp_all
  have "\<bar>v - (0 + sum_list ?ts)\<bar> \<le> of_nat (length ?ts) * (of_nat (2 ^ 20) * ulp64 + tiny64)"
    unfolding v_def using range small
    by (intro accurate64.fold_sum_error [where c = 1024 and k = 0]) simp_all
  also have "\<dots> \<le> 1024 * (1048577 * ulp64)"
    using len ulp64_pos tiny64_nonneg tiny64_le by (intro mult_mono) simp_all
  finally have 1: "v \<le> sum_list ?ts + 1073742848 * ulp64" by linarith
  have 2: "sum_list ?ts \<le> of_nat n * sum_list ps + of_nat (length ps) * (1025 * ulp64)"
    using assms by (intro expected_terms_sum) simp_all
  have "of_nat n * sum_list ps \<le> of_nat n * (1 + 2000000 * ulp64)"
    using sum by (intro mult_left_mono) simp_all
  also have "\<dots> = of_nat n + of_nat n * (2000000 * ulp64)" by (simp add: distrib_left)
  also have "of_nat n * (2000000 * ulp64) \<le> 1024 * (2000000 * ulp64)"
    using assms(4) ulp64_pos by (intro mult_right_mono) simp_all
  finally have 3: "of_nat n * sum_list ps \<le> of_nat n + 1024 * (2000000 * ulp64)" by simp
  have 4: "of_nat (length ps) * (1025 * ulp64) \<le> 1024 * (1025 * ulp64)"
    using len ulp64_pos by (intro mult_right_mono) simp_all
  have "4000000000 * ulp64 \<le> 1 / 40000" by (simp add: ulp64_eq)
  with 1 2 3 4 ulp64_pos have "v \<le> of_nat n + 1 / 40000" by linarith
  with eq nonneg show ?thesis by blast
qed

subsection \<open>The best index\<close>

text \<open>The index is the first largest among the values scanned so far.\<close>

definition first_max :: "rat list \<Rightarrow> nat \<Rightarrow> nat \<Rightarrow> bool" where
  "first_max ps m k \<longleftrightarrow> k < m \<and> (\<forall>j<m. ps ! j \<le> ps ! k) \<and> (\<forall>j<k. ps ! j < ps ! k)"

lemma first_max_step:
  assumes "first_max ps m k"
  shows "first_max ps (Suc m) (if ps ! k < ps ! m then m else k)"
  using assms unfolding first_max_def less_Suc_eq
  by (auto intro: order_le_less_trans less_imp_le)

lemma maximum_loop_first_max:
  assumes "first_max ps m best" and "m \<le> length ps"
  shows "first_max ps (length ps) (maximum_loop (map Fin ps) best [m..<length ps])"
  using assms
proof (induction "length ps - m" arbitrary: m best)
  case (Suc d)
  then have m: "m < length ps" by simp
  have best: "best < length ps" using Suc.prems by (simp add: first_max_def)
  have "first_max ps (length ps) (maximum_loop (map Fin ps) (if ps ! best < ps ! m then m else best) [Suc m..<length ps])"
    using Suc.hyps(2) m first_max_step [OF Suc.prems(1)] by (intro Suc.hyps(1)) simp_all
  with m best show ?case by (simp add: upt_conv_Cons)
qed simp

subsection \<open>Properties\<close>

text \<open>Step functions with the laws of \<open>Exp\<close> and \<open>Log\<close>, for the witnesses.\<close>

definition step_exp :: "f64 \<Rightarrow> f64" where
  "step_exp x = (if x = Fin 0 then Fin 1 else Fin (pow2 (- 1)))"

definition step_log :: "f64 \<Rightarrow> f64" where
  "step_log x = (if f_le x (Fin 1) then Fin 0 else Fin 1)"

lemma step_laws: "exp_laws step_exp" "log_laws step_log"
proof -
  show "exp_laws step_exp"
    unfolding exp_laws_def
  proof (intro conjI allI impI)
    fix x :: rat
    have "on_grid (pow2 (- 1))" by (rule on_grid_pow2) simp
    moreover have "on_grid 1" by (rule binary64.grid_1)
    moreover have "0 \<le> pow2 (- 1)" "pow2 (- 1) \<le> 1" by (simp_all add: power_int_def)
    ultimately show "\<exists>r. step_exp (Fin x) = Fin r \<and> on_grid r \<and> 0 \<le> r \<and> r \<le> 1"
      by (intro exI [of _ "if x = 0 then 1 else pow2 (- 1)"]) (simp add: step_exp_def)
  qed (simp add: step_exp_def)
  show "log_laws step_log" by (auto simp: log_laws_def step_log_def)
qed

text \<open>
  C12: For at most 1024 finite \<open>float32\<close> logits and a temperature of at least a half, the
  softmax never fails: it returns one finite probability in the unit interval per logit, and
  their exact sum exceeds one by rounding errors of at most two million units of the last place.
\<close>

theorem softmax_gives_probabilities:
  assumes "exp_laws mexp" and "list_all logit_ok logits" and "logits \<noteq> []"
    and "length logits \<le> 1024" and "1 / 2 \<le> t"
  shows "\<exists>ps. stableSoftmax mexp logits (Fin t) = Ok (map Fin ps) \<and> length ps = length logits \<and>
     (\<forall>p\<in>set ps. 0 \<le> p \<and> p \<le> 1) \<and> sum_list ps \<le> 1 + 2000000 * ulp64"
  by (rule stableSoftmax_Ok [OF assms])

theorem softmax_gives_probabilities_witness:
  "\<exists>ps. stableSoftmax step_exp [Fin 3, Fin (- 2), Fin 3] (Fin 2) = Ok (map Fin ps) \<and> length ps = 3 \<and>
     list_all (\<lambda>p. 0 \<le> p \<and> p \<le> 1) ps"
proof -
  have ok: "list_all logit_ok [Fin 3, Fin (- 2), Fin 3]" by (simp add: logit_ok_def power_int_def)
  show ?thesis using softmax_gives_probabilities [OF step_laws(1) ok, of 2] by (auto simp: list_all_iff)
qed

text \<open>
  \<open>maximumIndex\<close> on finite values returns the first index of a largest value, so a choice
  selects the first of its most probable criteria.
\<close>

theorem maximumIndex_first_maximum:
  assumes "ps \<noteq> []"
  defines "k \<equiv> maximumIndex (map Fin ps)"
  shows "k < length ps \<and> (\<forall>j<length ps. ps ! j \<le> ps ! k) \<and> (\<forall>j<k. ps ! j < ps ! k)"
proof -
  have "first_max ps (Suc 0) 0" by (simp add: first_max_def)
  then have "first_max ps (length ps) k"
    unfolding k_def maximumIndex_def using assms(1) maximum_loop_first_max [of ps 1 0]
    by (simp add: Suc_leI)
  then show ?thesis by (simp add: first_max_def)
qed

theorem maximumIndex_first_maximum_witness:
  "maximumIndex (map Fin [1 / 8, 1 / 2, 1 / 2]) = 1 \<and> list_all (\<lambda>p. p \<le> 1 / 2) [1 / 8, 1 / 2, 1 / 2 :: rat]"
proof -
  have k: "maximumIndex (map Fin [1 / 8, 1 / 2, 1 / 2]) = 1" by (simp add: maximumIndex_def upt_rec)
  have "[1 / 8, 1 / 2, 1 / 2] \<noteq> ([] :: rat list)" by simp
  from maximumIndex_first_maximum [OF this] show ?thesis unfolding k by (simp add: list_all_length)
qed

text \<open>
  The confidence of at most 1024 probabilities is a finite number in the unit interval,
  whatever rounding does to the entropy.
\<close>

theorem confidence_in_unit_interval:
  assumes "log_laws mlog" and "\<forall>p\<in>set ps. 0 \<le> p \<and> p \<le> 1" and "length ps \<le> 1024"
  shows "\<exists>c. confidenceFromProbabilities mlog (map Fin ps) = Fin c \<and> 0 \<le> c \<and> c \<le> 1"
  by (rule confidence_unit [OF assms])

theorem confidence_in_unit_interval_witness:
  "\<exists>c. confidenceFromProbabilities step_log (map Fin [1 / 4, 3 / 4]) = Fin c \<and> 0 \<le> c \<and> c \<le> 1"
  using confidence_in_unit_interval [OF step_laws(2), of "[1 / 4, 3 / 4]"] by simp

end
