(* ===== verification/Laya_Manifest.thy ===== *)
theory Laya_Manifest
  imports Laya_Float
begin

text \<open>
  \<open>internal/bundle/manifest.go\<close>: the parsed bundle manifest. \<open>mf_id\<close> is the content
  identity that \<open>Parse\<close> derives from the manifest bytes.
\<close>

record BundleIdentity =
  bi_ID :: string
  bi_Version :: string

record SourceModel =
  sm_ID :: string
  sm_Revision :: string

record SDK =
  sdk_Repository :: string
  sdk_Revision :: string
  sdk_Version :: string

record ProfileIdentity =
  pf_ID :: string
  pf_SHA256 :: string

record Exporter =
  ex_Name :: string
  ex_Version :: string
  ex_SourceSHA256 :: string
  ex_GitRevision :: string

record Lock =
  lk_Path :: string
  lk_SHA256 :: string

record License =
  li_Component :: string
  li_SPDX :: string
  li_Path :: string

record Provenance =
  pv_SourceModel :: SourceModel
  pv_SDK :: SDK
  pv_Profile :: ProfileIdentity
  pv_Exporter :: Exporter
  pv_Lock :: Lock
  pv_CreatedAt :: string
  pv_SourceDateEpoch :: int
  pv_Redistribution :: string
  pv_Licenses :: "License list"

record QTypes =
  qt_Choice :: int
  qt_Score :: int
  qt_Noul :: int

record Preprocessing =
  pp_Version :: int
  pp_MaxLen :: int
  pp_HeadMaxLen :: int
  pp_OptionMaxLen :: int
  pp_HeadReserve :: int
  pp_TruncationSide :: string
  pp_QTypes :: QTypes

record TensorDescriptor =
  td_Name :: string
  td_DType :: string
  td_Dimensions :: "string list"

record ModelDecl =
  md_Path :: string
  md_Format :: string
  md_Opset :: int
  md_Precision :: string
  md_ExternalData :: "string list"
  md_Inputs :: "TensorDescriptor list"
  md_Outputs :: "TensorDescriptor list"

record SpecialTokens =
  tok_CLS :: int
  tok_SEP :: int
  tok_Mask :: int
  tok_Pad :: int

record Tokenizer =
  tk_JSONPath :: string
  tk_ConfigPath :: string
  tk_SpecialTokens :: SpecialTokens

record Action =
  ac_Index :: int
  ac_ID :: string

record CalibrationDecl =
  cal_ConfigPath :: string
  cal_TemperatureMin :: f64
  cal_TemperatureMax :: f64
  cal_InvalidTemperature :: f64
  cal_SelectionOrder :: "string list"
  cal_Actions :: "Action list"

record RuntimeDecl =
  rt_Engine :: string
  rt_MinimumVersion :: string
  rt_MaximumExclusive :: string
  rt_ExecutionProviders :: "string list"

record File =
  fl_Role :: string
  fl_Path :: string
  fl_Size :: int
  fl_SHA256 :: string

record Manifest =
  mf_SchemaVersion :: int
  mf_Bundle :: BundleIdentity
  mf_Provenance :: Provenance
  mf_Preprocessing :: Preprocessing
  mf_Model :: ModelDecl
  mf_Tokenizer :: Tokenizer
  mf_Calibration :: CalibrationDecl
  mf_Runtime :: RuntimeDecl
  mf_Files :: "File list"
  mf_id :: string

text \<open>
  The numeric part of what \<open>validateManifest\<close> establishes and the later components use.
\<close>

definition preprocessing_ok :: "Preprocessing \<Rightarrow> bool" where
  "preprocessing_ok p \<longleftrightarrow>
     0 < pp_MaxLen p \<and> 0 < pp_HeadMaxLen p \<and> 0 < pp_OptionMaxLen p \<and> 0 < pp_HeadReserve p \<and>
     pp_HeadMaxLen p \<le> pp_MaxLen p"

text \<open>A small manifest the witnesses evaluate on.\<close>

definition sample_manifest :: "int \<Rightarrow> Manifest" where
  "sample_manifest optionMaxLen =
     \<lparr>mf_SchemaVersion = 1,
      mf_Bundle = \<lparr>bi_ID = ''b'', bi_Version = ''1''\<rparr>,
      mf_Provenance =
        \<lparr>pv_SourceModel = \<lparr>sm_ID = ''m'', sm_Revision = ''r''\<rparr>,
         pv_SDK = \<lparr>sdk_Repository = ''s'', sdk_Revision = ''r'', sdk_Version = ''1''\<rparr>,
         pv_Profile = \<lparr>pf_ID = ''p'', pf_SHA256 = ''h''\<rparr>,
         pv_Exporter = \<lparr>ex_Name = ''e'', ex_Version = ''1'', ex_SourceSHA256 = ''h'', ex_GitRevision = ''g''\<rparr>,
         pv_Lock = \<lparr>lk_Path = ''l'', lk_SHA256 = ''h''\<rparr>, pv_CreatedAt = ''t'', pv_SourceDateEpoch = 0,
         pv_Redistribution = ''n'', pv_Licenses = []\<rparr>,
      mf_Preprocessing =
        \<lparr>pp_Version = 1, pp_MaxLen = 64, pp_HeadMaxLen = 24, pp_OptionMaxLen = optionMaxLen,
         pp_HeadReserve = 8, pp_TruncationSide = ''right'',
         pp_QTypes = \<lparr>qt_Choice = 0, qt_Score = 1, qt_Noul = 2\<rparr>\<rparr>,
      mf_Model = \<lparr>md_Path = ''model.onnx'', md_Format = ''onnx'', md_Opset = 17, md_Precision = ''fp32'',
                  md_ExternalData = [], md_Inputs = [], md_Outputs = []\<rparr>,
      mf_Tokenizer = \<lparr>tk_JSONPath = ''t.json'', tk_ConfigPath = ''c.json'',
                      tk_SpecialTokens = \<lparr>tok_CLS = 1, tok_SEP = 2, tok_Mask = 3, tok_Pad = 0\<rparr>\<rparr>,
      mf_Calibration = \<lparr>cal_ConfigPath = ''k.json'', cal_TemperatureMin = Fin (1/2),
                        cal_TemperatureMax = Fin 5, cal_InvalidTemperature = Fin 1,
                        cal_SelectionOrder = [], cal_Actions = []\<rparr>,
      mf_Runtime = \<lparr>rt_Engine = ''onnxruntime'', rt_MinimumVersion = ''1'', rt_MaximumExclusive = ''2'',
                    rt_ExecutionProviders = []\<rparr>,
      mf_Files = [], mf_id = ''i''\<rparr>"

text \<open>A tokenizer with one token per byte, away from the special tokens.\<close>

definition byte_tokenizer :: "string \<Rightarrow> 'e + 32 word list" where
  "byte_tokenizer s = Inr (map (\<lambda>c. of_nat (of_char c) + 10) s)"

end
