(* ===== verification/Laya_Preprocess.thy ===== *)
theory Laya_Preprocess
  imports Laya_State Laya_Options Laya_Question Laya_Result Laya_Manifest
begin

text \<open>
  \<open>preprocess.go\<close>: from a State and questions to the padded tensor batch.

  The tokenizer is third-party code behind the interface \<open>textTokenizer\<close>: a parameter, a
  function from a text to an error or a list of \<open>uint32\<close> identifiers. Nothing is
  assumed of it. Slice expressions \<open>s[:n]\<close> panic when \<open>n\<close> is negative.
\<close>

type_synonym tokenizer = "string \<Rightarrow> go_error + 32 word list"

definition maskTokenText :: string where "maskTokenText = ''<mask>''"

datatype preparedQuestionKind = preparedChoice | preparedScore | preparedNoul

record preparedQuestion =
  pq_id :: string
  pq_kind :: preparedQuestionKind
  pq_instructions :: string
  pq_optionIDs :: "string list"
  pq_optionLabels :: "string list"
  pq_options :: "string list"
  pq_qtype :: int

record preparedItem =
  pi_question :: preparedQuestion
  pi_inputIDs :: "int list"
  pi_markerPositions :: "int list"
  pi_originalTokens :: int
  pi_truncated :: bool

record preparedBatch =
  pb_inputIDs :: "int list list"
  pb_attentionMask :: "int list list"
  pb_markerPos :: "int list list"
  pb_markerMask :: "bool list list"
  pb_qtype :: "int list"
  pb_items :: "preparedItem list"
  pb_usage :: Usage
  pb_truncation :: TruncationMetadata

definition modelStateText :: "State \<Rightarrow> string res" where
  "modelStateText s =
     (if st_kind s = StateKindText then Ok (fst (State_Text s))
      else if st_kind s = StateKindJSON then Ok (fst (State_JSON s))
      else Err (wrap ErrInvalidState ''unsupported state kind''))"

subsection \<open>Questions to model text\<close>

definition normalizeChoice :: "ChoiceQuestion \<Rightarrow> Manifest \<Rightarrow> preparedQuestion" where
  "normalizeChoice q m =
     \<lparr>pq_id = cq_id q, pq_kind = preparedChoice, pq_instructions = cq_instructions q,
      pq_optionIDs = map crit_ID (cq_criteria q), pq_optionLabels = [],
      pq_options = map (\<lambda>c. if crit_Description c = '''' then crit_ID c
                            else crit_ID c @ '': '' @ crit_Description c) (cq_criteria q),
      pq_qtype = qt_Choice (pp_QTypes (mf_Preprocessing m))\<rparr>"

definition normalizeScore :: "ScoreQuestion \<Rightarrow> Manifest \<Rightarrow> preparedQuestion" where
  "normalizeScore q m =
     \<lparr>pq_id = sq_id q, pq_kind = preparedScore, pq_instructions = sq_instructions q,
      pq_optionIDs = [], pq_optionLabels = map lvl_Label (sq_rubric q),
      pq_options = map (\<lambda>(i, l). ''level '' @ show_nat i @ '': '' @ lvl_Description l) (indexed (sq_rubric q)),
      pq_qtype = qt_Score (pp_QTypes (mf_Preprocessing m))\<rparr>"

definition normalizeNoul :: "NoulQuestion \<Rightarrow> Manifest \<Rightarrow> preparedQuestion" where
  "normalizeNoul q m =
     (let f = (if nq_falseDescription q = '''' then ''no, the statement does not hold'' else nq_falseDescription q);
          t = (if nq_trueDescription q = '''' then ''yes, the statement holds'' else nq_trueDescription q)
      in \<lparr>pq_id = nq_id q, pq_kind = preparedNoul, pq_instructions = nq_instructions q,
          pq_optionIDs = [], pq_optionLabels = [],
          pq_options = [''false: '' @ f, ''true: '' @ t],
          pq_qtype = qt_Noul (pp_QTypes (mf_Preprocessing m))\<rparr>)"

definition normalizeQuestion :: "Question \<Rightarrow> Manifest \<Rightarrow> preparedQuestion res" where
  "normalizeQuestion q m =
     (case q of
        ChoiceQ c \<Rightarrow> Ok (normalizeChoice c m)
      | ChoiceQPtr None \<Rightarrow> Err (wrap ErrInvalidRequest ''choice question is nil'')
      | ChoiceQPtr (Some c) \<Rightarrow> Ok (normalizeChoice c m)
      | ScoreQ s \<Rightarrow> Ok (normalizeScore s m)
      | ScoreQPtr None \<Rightarrow> Err (wrap ErrInvalidRequest ''score question is nil'')
      | ScoreQPtr (Some s) \<Rightarrow> Ok (normalizeScore s m)
      | NoulQ n \<Rightarrow> Ok (normalizeNoul n m)
      | NoulQPtr None \<Rightarrow> Err (wrap ErrInvalidRequest ''noul question is nil'')
      | NoulQPtr (Some n) \<Rightarrow> Ok (normalizeNoul n m)
      | OtherQuestion \<Rightarrow> Err (wrap ErrInvalidRequest ''unsupported question type''))"

definition questionKindName :: "preparedQuestionKind \<Rightarrow> string" where
  "questionKindName k =
     (case k of preparedChoice \<Rightarrow> ''choice'' | preparedScore \<Rightarrow> ''score'' | preparedNoul \<Rightarrow> ''noul'')"

subsection \<open>One question to one token sequence\<close>

definition encodeText :: "tokenizer \<Rightarrow> string \<Rightarrow> string \<Rightarrow> int list res" where
  "encodeText encode txt stage =
     (case encode txt of
        Inl err \<Rightarrow> Err (newInferenceStageError (Sentinel ErrNativeFailure) (''tokenize '' @ stage) (Some err))
      | Inr ids \<Rightarrow> Ok (map uint ids))"

definition totalLength :: "'a list list \<Rightarrow> int" where
  "totalLength vs = (\<Sum>v\<leftarrow>vs. int (length v))"

text \<open>\<open>s[:n]\<close>, evaluated only where \<open>n\<close> is below the length.\<close>

definition slice_to :: "int \<Rightarrow> 'a list \<Rightarrow> 'a list res" where
  "slice_to n xs = (if 0 \<le> n \<and> n \<le> int (length xs) then Ok (take (nat n) xs) else Panic)"

text \<open>The shape \<open>if len(s) > n { s = s[:n] }\<close>.\<close>

definition cut_to :: "int \<Rightarrow> 'a list \<Rightarrow> 'a list res" where
  "cut_to n xs = (if int (length xs) > n then slice_to n xs else Ok xs)"

text \<open>Go's integer division truncates towards zero.\<close>

definition go_quot :: "int \<Rightarrow> int \<Rightarrow> int" where
  "go_quot a b = sgn a * sgn b * (\<bar>a\<bar> div \<bar>b\<bar>)"

definition encodeOption :: "tokenizer \<Rightarrow> Manifest \<Rightarrow> string \<Rightarrow> int list res" where
  "encodeOption encode m option =
     res_bind (encodeText encode ('' '' @ replace_all option maskTokenText '' '') ''option'') (\<lambda>encoded.
       res_bind (cut_to (pp_OptionMaxLen (mf_Preprocessing m)) encoded) (\<lambda>cut.
         Ok (tok_Mask (tk_SpecialTokens (mf_Tokenizer m)) # cut)))"

text \<open>Shorten every option when the head would be left with less than its reserve.\<close>

definition fitOptions :: "Preprocessing \<Rightarrow> int list list \<Rightarrow> int list list res" where
  "fitOptions p optionIDs =
     (if pp_HeadMaxLen p - totalLength optionIDs < pp_HeadReserve p then
        (let perOption = max 4 (go_quot (pp_HeadMaxLen p - pp_HeadReserve p)
                                        (max 1 (int (length optionIDs))))
         in res_map (cut_to perOption) optionIDs)
      else Ok optionIDs)"

fun placeOptions :: "int list \<Rightarrow> int list \<Rightarrow> int list list \<Rightarrow> int list \<times> int list" where
  "placeOptions inputIDs markers [] = (inputIDs, markers)"
| "placeOptions inputIDs markers (opt # opts) =
     placeOptions (inputIDs @ opt) (markers @ [int (length inputIDs)]) opts"

text \<open>The part after the options are placed: budget checks, state tokens, final markers.\<close>

definition finishItem ::
  "preparedQuestion \<Rightarrow> SpecialTokens \<Rightarrow> int \<Rightarrow> TruncationPolicy \<Rightarrow> int list \<Rightarrow> int list \<Rightarrow> int list
   \<Rightarrow> preparedItem res" where
  "finishItem question toks limit policy inputIDs markers stateIDs =
     (let originalTokens = int (length inputIDs) + int (length stateIDs) + 1
      in if originalTokens > limit \<and> policy = RejectOverflow
           then Err (InputTooLongError originalTokens limit None)
         else if int (length inputIDs) + 1 > limit
           then Err (InputTooLongError originalTokens limit
                  (Some (Opaque ''question options do not fit within the input limit'')))
         else
           res_bind (cut_to (max 0 (limit - int (length inputIDs) - 1)) stateIDs) (\<lambda>kept.
           res_bind (cut_to limit (inputIDs @ kept @ [tok_SEP toks])) (\<lambda>full.
             (let retained = filter (\<lambda>mk. mk < limit) markers
              in if length retained \<noteq> length (pq_options question)
                 then Err (InputTooLongError originalTokens limit
                        (Some (Opaque ''option markers do not fit within the input limit'')))
                 else Ok \<lparr>pi_question = question, pi_inputIDs = full, pi_markerPositions = retained,
                          pi_originalTokens = originalTokens,
                          pi_truncated = (originalTokens > int (length full))\<rparr>))))"

definition prepareItem ::
  "string \<Rightarrow> preparedQuestion \<Rightarrow> Manifest \<Rightarrow> tokenizer \<Rightarrow> int \<Rightarrow> TruncationPolicy \<Rightarrow> preparedItem res" where
  "prepareItem state question m encode limit policy =
     (let p = mf_Preprocessing m;
          toks = tk_SpecialTokens (mf_Tokenizer m);
          kind = questionKindName (pq_kind question);
          instructions = replace_all (pq_instructions question) maskTokenText '' ''
      in res_bind (encodeText encode (kind @ '' question: '' @ instructions) ''instructions'') (\<lambda>headIDs.
         res_bind (res_map (encodeOption encode m) (pq_options question)) (\<lambda>encodedOptions.
         res_bind (fitOptions p encodedOptions) (\<lambda>optionIDs.
         res_bind (cut_to (max 8 (pp_HeadMaxLen p - totalLength optionIDs)) headIDs) (\<lambda>head.
           (let (body, markers) = placeOptions (tok_CLS toks # head @ [tok_SEP toks]) [] optionIDs;
                inputIDs = body @ [tok_SEP toks]
            in res_bind (encodeText encode (replace_all state maskTokenText '' '') ''state'') (\<lambda>stateIDs.
                 finishItem question toks limit policy inputIDs markers stateIDs)))))))"

subsection \<open>Padding\<close>

definition maxLength :: "'a list list \<Rightarrow> nat" where
  "maxLength xss = fold (\<lambda>xs n. max n (length xs)) xss 0"

definition padRow :: "'a \<Rightarrow> nat \<Rightarrow> 'a list \<Rightarrow> 'a list" where
  "padRow z n xs = xs @ replicate (n - length xs) z"

definition collatePrepared :: "preparedItem list \<Rightarrow> int \<Rightarrow> preparedBatch" where
  "collatePrepared items padID =
     (let sequenceLength = maxLength (map pi_inputIDs items);
          markerLength = maxLength (map pi_markerPositions items)
      in \<lparr>pb_inputIDs = map (\<lambda>it. padRow padID sequenceLength (pi_inputIDs it)) items,
          pb_attentionMask = map (\<lambda>it. padRow 0 sequenceLength (map (\<lambda>_. 1) (pi_inputIDs it))) items,
          pb_markerPos = map (\<lambda>it. padRow 0 markerLength (pi_markerPositions it)) items,
          pb_markerMask = map (\<lambda>it. padRow False markerLength (map (\<lambda>_. True) (pi_markerPositions it))) items,
          pb_qtype = map (\<lambda>it. pq_qtype (pi_question it)) items,
          pb_items = items,
          pb_usage = \<lparr>InputTokens = (\<Sum>it\<leftarrow>items. int (length (pi_inputIDs it))), OutputTokens = 0\<rparr>,
          pb_truncation = \<lparr>Truncated = list_ex pi_truncated items,
                           OriginalInputTokens = (\<Sum>it\<leftarrow>items. pi_originalTokens it),
                           EffectiveInputTokens = (\<Sum>it\<leftarrow>items. int (length (pi_inputIDs it)))\<rparr>\<rparr>)"

definition effectiveLimit :: "Manifest \<Rightarrow> ModelOptions \<Rightarrow> int" where
  "effectiveLimit m opts =
     (let limit = pp_MaxLen (mf_Preprocessing m)
      in if InputTokenLimit opts > 0 \<and> InputTokenLimit opts < limit then InputTokenLimit opts else limit)"

definition prepareInferenceBatch ::
  "State \<Rightarrow> Question list \<Rightarrow> Manifest \<Rightarrow> tokenizer option \<Rightarrow> ModelOptions \<Rightarrow> preparedBatch res" where
  "prepareInferenceBatch state questions m tok opts =
     check_then (State_validate state)
       (res_bind (validateQuestions questions) (\<lambda>_.
          (case tok of
             None \<Rightarrow> Err (wrap ErrNativeUnavailable ''tokenizer is nil'')
           | Some encode \<Rightarrow>
               check_then (ModelOptions_validate opts)
                 (let limit = effectiveLimit m opts
                  in if limit \<le> 0 then Err (wrap ErrInvalidConfig ''input token limit is not positive'')
                     else res_bind (modelStateText state) (\<lambda>stateText.
                       res_bind (res_map (\<lambda>q.
                            res_bind (res_wrap ''prepare question'' (normalizeQuestion q m)) (\<lambda>prepared.
                              res_wrap ''prepare question''
                                (prepareItem stateText prepared m encode limit (Truncation opts)))) questions)
                         (\<lambda>items. Ok (collatePrepared items (tok_Pad (tk_SpecialTokens (mf_Tokenizer m))))))))))"

subsection \<open>Slices\<close>

lemma cut_to_nonneg: "0 \<le> n \<Longrightarrow> cut_to n xs = Ok (take (nat n) xs)"
  by (simp add: cut_to_def slice_to_def)

lemma totalLength_nonneg: "0 \<le> totalLength vs"
  by (induction vs) (simp_all add: totalLength_def)

subsection \<open>Where the markers end up\<close>

fun offsets :: "nat \<Rightarrow> 'a list list \<Rightarrow> int list" where
  "offsets k [] = []"
| "offsets k (x # xs) = int k # offsets (k + length x) xs"

lemma length_offsets [simp]: "length (offsets k xs) = length xs"
  by (induction k xs rule: offsets.induct) simp_all

lemma placeOptions_eq:
  "placeOptions inputIDs markers opts =
     (inputIDs @ concat opts, markers @ offsets (length inputIDs) opts)"
  by (induction inputIDs markers opts rule: placeOptions.induct) simp_all

lemma offsets_ge: "x \<in> set (offsets k opts) \<Longrightarrow> int k \<le> x"
  by (induction k opts rule: offsets.induct) auto

lemma offsets_less:
  "list_all (\<lambda>x. x \<noteq> []) opts \<Longrightarrow> x \<in> set (offsets k opts) \<Longrightarrow> x < int k + int (length (concat opts))"
  by (induction k opts rule: offsets.induct) (auto simp: neq_Nil_conv)

lemma offsets_sorted:
  "list_all (\<lambda>x. x \<noteq> []) opts \<Longrightarrow> sorted_wrt (<) (offsets k opts)"
proof (induction k opts rule: offsets.induct)
  case (2 k x xs)
  have "int k < y" if "y \<in> set (offsets (k + length x) xs)" for y
    using offsets_ge [OF that] 2 by (cases x) auto
  with 2 show ?case by simp
qed simp

lemma offsets_point:
  assumes "list_all (\<lambda>x. x \<noteq> []) opts" and "i < length opts" and "length pre = k"
  shows "(pre @ concat opts @ post) ! nat (offsets k opts ! i) = hd (opts ! i)"
  using assms
proof (induction opts arbitrary: k pre i)
  case (Cons x xs)
  show ?case
  proof (cases i)
    case 0
    with Cons.prems show ?thesis by (cases x) (auto simp: nth_append)
  next
    case (Suc j)
    have "((pre @ x) @ concat xs @ post) ! nat (offsets (k + length x) xs ! j) = hd (xs ! j)"
      using Cons.prems Suc by (intro Cons.IH) simp_all
    with Suc show ?thesis by simp
  qed
qed simp

subsection \<open>What an item looks like\<close>

text \<open>
  The layout of one input sequence: class token, question head, separator, the options each
  introduced by the mask token, separator, state tokens, separator.
\<close>

record layout =
  ly_head :: "int list"
  ly_options :: "int list list"
  ly_state :: "int list"

definition layout_base :: "SpecialTokens \<Rightarrow> layout \<Rightarrow> int list" where
  "layout_base toks l =
     (tok_CLS toks # ly_head l @ [tok_SEP toks]) @ concat (ly_options l) @ [tok_SEP toks]"

definition layout_original :: "SpecialTokens \<Rightarrow> layout \<Rightarrow> int" where
  "layout_original toks l = int (length (layout_base toks l)) + int (length (ly_state l)) + 1"

definition options_marked :: "int \<Rightarrow> int list list \<Rightarrow> bool" where
  "options_marked mk opts \<longleftrightarrow> list_all (\<lambda>x. x \<noteq> [] \<and> hd x = mk) opts"

lemma finishItem_eq:
  assumes "length markers = length (pq_options q)" and "\<forall>mk\<in>set markers. mk < int (length inputIDs)"
  shows "finishItem q toks limit policy inputIDs markers stateIDs =
     (let originalTokens = int (length inputIDs) + int (length stateIDs) + 1
      in if originalTokens > limit \<and> policy = RejectOverflow
           then Err (InputTooLongError originalTokens limit None)
         else if int (length inputIDs) + 1 > limit
           then Err (InputTooLongError originalTokens limit
                  (Some (Opaque ''question options do not fit within the input limit'')))
         else Ok \<lparr>pi_question = q,
                pi_inputIDs = inputIDs @ take (nat (limit - int (length inputIDs) - 1)) stateIDs @ [tok_SEP toks],
                pi_markerPositions = markers, pi_originalTokens = originalTokens,
                pi_truncated = (originalTokens > limit)\<rparr>)"
proof (cases "int (length inputIDs) + 1 > limit")
  case True
  then show ?thesis by (simp add: finishItem_def Let_def)
next
  case False
  define n where "n = nat (limit - int (length inputIDs) - 1)"
  have room: "max 0 (limit - int (length inputIDs) - 1) = int n" using False by (simp add: n_def)
  have full: "int (length (inputIDs @ take n stateIDs @ [tok_SEP toks])) \<le> limit"
    using False by (simp add: n_def)
  have cut: "cut_to limit (inputIDs @ take n stateIDs @ [tok_SEP toks]) =
      Ok (inputIDs @ take n stateIDs @ [tok_SEP toks])"
    using full unfolding cut_to_def by simp
  have retained: "filter (\<lambda>mk. mk < limit) markers = markers"
    using assms(2) False by (auto simp: filter_id_conv)
  have trunc: "(int (length inputIDs) + int (length stateIDs) + 1 >
      int (length (inputIDs @ take n stateIDs @ [tok_SEP toks]))) =
      (int (length inputIDs) + int (length stateIDs) + 1 > limit)"
    using False by (auto simp: n_def)
  show ?thesis
    unfolding finishItem_def Let_def room
    using False assms(1) trunc
    by (simp add: cut_to_nonneg [of "int n"] cut retained n_def [symmetric])
qed

lemma encodeOption_Ok:
  assumes "encodeOption encode m opt = Ok x"
  shows "x \<noteq> [] \<and> hd x = tok_Mask (tk_SpecialTokens (mf_Tokenizer m))"
  using assms by (auto simp: encodeOption_def res_bind_Ok_iff)

lemma fitOptions_eq:
  "fitOptions p opts =
     Ok (if pp_HeadMaxLen p - totalLength opts < pp_HeadReserve p
         then map (take (nat (max 4 (go_quot (pp_HeadMaxLen p - pp_HeadReserve p) (max 1 (int (length opts))))))) opts
         else opts)"
proof -
  have "res_map (cut_to k) opts = Ok (map (take (nat k)) opts)" if "0 \<le> k" for k
    using that by (induction opts) (simp_all add: cut_to_nonneg)
  then show ?thesis by (simp add: fitOptions_def Let_def max_def)
qed

lemma fitOptions_marked:
  assumes "options_marked mk opts" and "fitOptions p opts = Ok ys"
  shows "options_marked mk ys" and "length ys = length opts"
  using assms
  by (auto simp: fitOptions_eq options_marked_def list_all_iff hd_take split: if_splits)

lemma encodeOptions_marked:
  assumes "res_map (encodeOption encode m) opts = Ok ys"
  shows "options_marked (tok_Mask (tk_SpecialTokens (mf_Tokenizer m))) ys" and "length ys = length opts"
proof -
  have "encodeOption encode m (opts ! i) = Ok (ys ! i)" if "i < length opts" for i
    using res_map_Ok_nth [OF assms that] .
  moreover show "length ys = length opts" using res_map_Ok_length [OF assms] .
  ultimately show "options_marked (tok_Mask (tk_SpecialTokens (mf_Tokenizer m))) ys"
    unfolding options_marked_def list_all_length using encodeOption_Ok by metis
qed

text \<open>The item a layout gives.\<close>

definition layout_item ::
  "preparedQuestion \<Rightarrow> SpecialTokens \<Rightarrow> int \<Rightarrow> layout \<Rightarrow> preparedItem" where
  "layout_item q toks limit l =
     (let base = layout_base toks l
      in \<lparr>pi_question = q,
          pi_inputIDs = base @ take (nat (limit - int (length base) - 1)) (ly_state l) @ [tok_SEP toks],
          pi_markerPositions = offsets (length (ly_head l) + 2) (ly_options l),
          pi_originalTokens = layout_original toks l,
          pi_truncated = (layout_original toks l > limit)\<rparr>)"

definition layout_ok :: "preparedQuestion \<Rightarrow> SpecialTokens \<Rightarrow> int \<Rightarrow> TruncationPolicy \<Rightarrow> layout \<Rightarrow> bool" where
  "layout_ok q toks limit policy l \<longleftrightarrow>
     options_marked (tok_Mask toks) (ly_options l) \<and> length (ly_options l) = length (pq_options q) \<and>
     int (length (layout_base toks l)) + 1 \<le> limit \<and>
     (policy = RejectOverflow \<longrightarrow> layout_original toks l \<le> limit)"

text \<open>The two checks against the limit, on a layout.\<close>

definition budget_result ::
  "preparedQuestion \<Rightarrow> SpecialTokens \<Rightarrow> int \<Rightarrow> TruncationPolicy \<Rightarrow> layout \<Rightarrow> preparedItem res" where
  "budget_result q toks limit policy l =
     (if layout_original toks l > limit \<and> policy = RejectOverflow
        then Err (InputTooLongError (layout_original toks l) limit None)
      else if int (length (layout_base toks l)) + 1 > limit
        then Err (InputTooLongError (layout_original toks l) limit
               (Some (Opaque ''question options do not fit within the input limit'')))
      else Ok (layout_item q toks limit l))"

lemma layout_original_ge: "int (length (layout_base toks l)) + 1 \<le> layout_original toks l"
  by (simp add: layout_original_def)

lemma budget_result_ok:
  "layout_ok q toks limit policy l \<Longrightarrow> budget_result q toks limit policy l = Ok (layout_item q toks limit l)"
  by (auto simp: budget_result_def layout_ok_def)

lemma budget_result_not_ok:
  assumes "options_marked (tok_Mask toks) (ly_options l)"
    and "length (ly_options l) = length (pq_options q)" and "\<not> layout_ok q toks limit policy l"
  obtains n e where "limit < n" and "budget_result q toks limit policy l = Err (InputTooLongError n limit e)"
  using assms layout_original_ge [of toks l] that
  unfolding layout_ok_def budget_result_def by (smt (verit, best))

definition headText :: "preparedQuestion \<Rightarrow> string" where
  "headText q = questionKindName (pq_kind q) @ '' question: '' @
     replace_all (pq_instructions q) maskTokenText '' ''"

lemma prepareItem_layout:
  assumes opt: "0 \<le> pp_OptionMaxLen (mf_Preprocessing m)"
    and toks: "toks = tk_SpecialTokens (mf_Tokenizer m)"
    and head: "encodeText encode (headText q) ''instructions'' = Ok h"
    and eo: "res_map (encodeOption encode m) (pq_options q) = Ok eo"
    and st: "encodeText encode (replace_all state maskTokenText '' '') ''state'' = Ok st"
  obtains l where "options_marked (tok_Mask toks) (ly_options l)"
    and "length (ly_options l) = length (pq_options q)" and "ly_state l = st"
    and "prepareItem state q m encode limit policy = budget_result q toks limit policy l"
proof -
  note marked = encodeOptions_marked [OF eo]
  obtain opts where fit: "fitOptions (mf_Preprocessing m) eo = Ok opts"
    by (simp add: fitOptions_eq)
  note mk = fitOptions_marked [OF marked(1) fit]
  define hd' where "hd' = take (nat (max 8 (pp_HeadMaxLen (mf_Preprocessing m) - totalLength opts))) h"
  define pre where "pre = tok_CLS toks # hd' @ [tok_SEP toks]"
  define l where "l = \<lparr>ly_head = hd', ly_options = opts, ly_state = st\<rparr>"
  have lens: "length (offsets (length pre) opts) = length (pq_options q)"
    using mk(2) marked(2) by simp
  have ne: "list_all (\<lambda>x. x \<noteq> []) opts"
    using mk(1) by (simp add: options_marked_def list_all_iff)
  have bound: "\<forall>p\<in>set (offsets (length pre) opts).
      p < int (length ((pre @ concat opts) @ [tok_SEP toks]))"
    using offsets_less [OF ne] by fastforce
  have base: "layout_base toks l = (pre @ concat opts) @ [tok_SEP toks]"
    by (simp add: layout_base_def l_def pre_def)
  have orig: "layout_original toks l =
      int (length ((pre @ concat opts) @ [tok_SEP toks])) + int (length st) + 1"
    unfolding layout_original_def base by (simp add: l_def)
  have "prepareItem state q m encode limit policy =
      finishItem q toks limit policy ((pre @ concat opts) @ [tok_SEP toks]) (offsets (length pre) opts) st"
    using head eo fit st
    by (simp add: prepareItem_def headText_def Let_def cut_to_nonneg placeOptions_eq
        pre_def hd'_def toks)
  also have "\<dots> = budget_result q toks limit policy l"
  proof -
    have state: "ly_state l = st" and options: "ly_options l = opts"
      and markers: "length (ly_head l) + 2 = length pre" by (simp_all add: l_def pre_def)
    show ?thesis
      unfolding finishItem_eq [OF lens bound] budget_result_def layout_item_def Let_def
        base orig state options markers ..
  qed
  finally show ?thesis
    using mk marked(2) by (intro that [of l]) (simp_all add: l_def toks)
qed

definition tokenize_error :: "tokenizer \<Rightarrow> go_error \<Rightarrow> bool" where
  "tokenize_error encode x \<longleftrightarrow>
     (\<exists>s t e. encode t = Inl e \<and> x = newInferenceStageError (Sentinel ErrNativeFailure) s (Some e))"

lemma tokenize_error_is: "tokenize_error encode x \<Longrightarrow> errors_is x ErrNativeFailure \<and> (\<exists>t. isl (encode t))"
  by (auto simp: tokenize_error_def) (metis sum.disc(1))

lemma encodeText_cases:
  obtains ids where "encodeText encode t st = Ok ids"
  | x where "encodeText encode t st = Err x" "tokenize_error encode x"
  unfolding encodeText_def tokenize_error_def by (cases "encode t") force+

lemma encodeOption_cases:
  assumes "0 \<le> pp_OptionMaxLen (mf_Preprocessing m)"
  obtains ids where "encodeOption encode m t = Ok ids"
  | x where "encodeOption encode m t = Err x" "tokenize_error encode x"
proof (cases rule: encodeText_cases [of encode "'' '' @ replace_all t maskTokenText '' ''" "''option''"])
  case 1
  with assms show ?thesis by (intro that(1)) (simp add: encodeOption_def cut_to_nonneg)
next
  case 2
  then show ?thesis by (intro that(2)) (simp_all add: encodeOption_def)
qed

text \<open>The three ways \<open>prepareItem\<close> ends; it never panics.\<close>

lemma prepareItem_cases:
  assumes opt: "0 \<le> pp_OptionMaxLen (mf_Preprocessing m)"
    and toks: "toks = tk_SpecialTokens (mf_Tokenizer m)"
  obtains (item) l where "layout_ok q toks limit policy l"
      "prepareItem state q m encode limit policy = Ok (layout_item q toks limit l)"
  | (too_long) n e where "limit < n"
      "prepareItem state q m encode limit policy = Err (InputTooLongError n limit e)"
  | (native) x where "tokenize_error encode x" "prepareItem state q m encode limit policy = Err x"
proof (cases rule: encodeText_cases [of encode "headText q" "''instructions''"])
  case (2 x)
  then show ?thesis by (intro native) (simp_all add: prepareItem_def headText_def Let_def)
next
  case head: (1 h)
  show ?thesis
  proof (cases "res_map (encodeOption encode m) (pq_options q)")
    case (Err x)
    then obtain t where "encodeOption encode m t = Err x" using res_map_Err by blast
    then have "tokenize_error encode x" by (cases rule: encodeOption_cases [OF opt, of encode t]) auto
    with Err head show ?thesis by (intro native) (simp_all add: prepareItem_def headText_def Let_def)
  next
    case Panic
    then obtain t where "encodeOption encode m t = Panic" using res_map_Panic by blast
    then show ?thesis by (cases rule: encodeOption_cases [OF opt, of encode t]) auto
  next
    case eo: (Ok eo)
    show ?thesis
    proof (cases rule: encodeText_cases [of encode "replace_all state maskTokenText '' ''" "''state''"])
      case (2 x)
      with head eo show ?thesis
        by (intro native [of x])
          (simp_all add: prepareItem_def headText_def Let_def cut_to_nonneg placeOptions_eq fitOptions_eq)
    next
      case (1 st)
      obtain l where l: "options_marked (tok_Mask toks) (ly_options l)"
        "length (ly_options l) = length (pq_options q)" "ly_state l = st"
        "prepareItem state q m encode limit policy = budget_result q toks limit policy l"
        by (rule prepareItem_layout [OF opt toks head eo 1])
      show ?thesis
      proof (cases "layout_ok q toks limit policy l")
        case True
        then show ?thesis
          by (intro item [of l]) (simp_all add: l(4) budget_result_ok)
      next
        case False
        then obtain n e where "limit < n" "budget_result q toks limit policy l = Err (InputTooLongError n limit e)"
          by (rule budget_result_not_ok [OF l(1,2)])
        then show ?thesis by (intro too_long [of n e]) (simp_all add: l(4))
      qed
    qed
  qed
qed

subsection \<open>Well-formed items\<close>

definition markers_ok :: "int \<Rightarrow> int list \<Rightarrow> int list \<Rightarrow> bool" where
  "markers_ok mk ids markers \<longleftrightarrow>
     sorted_wrt (<) markers \<and>
     list_all (\<lambda>p. 0 < p \<and> p < int (length ids) \<and> ids ! nat p = mk) markers"

definition item_ok :: "SpecialTokens \<Rightarrow> int \<Rightarrow> TruncationPolicy \<Rightarrow> nat \<Rightarrow> preparedItem \<Rightarrow> bool" where
  "item_ok toks limit policy options it \<longleftrightarrow>
     pi_inputIDs it \<noteq> [] \<and> int (length (pi_inputIDs it)) \<le> limit \<and>
     hd (pi_inputIDs it) = tok_CLS toks \<and> last (pi_inputIDs it) = tok_SEP toks \<and>
     length (pi_markerPositions it) = options \<and>
     markers_ok (tok_Mask toks) (pi_inputIDs it) (pi_markerPositions it) \<and>
     int (length (pi_inputIDs it)) \<le> pi_originalTokens it \<and>
     (pi_truncated it \<longleftrightarrow> int (length (pi_inputIDs it)) < pi_originalTokens it) \<and>
     (policy = RejectOverflow \<longrightarrow> \<not> pi_truncated it)"

lemma layout_markers_ok:
  assumes "options_marked mk opts" and "length pre = k" and "0 < k"
  shows "markers_ok mk (pre @ concat opts @ post) (offsets k opts)"
proof -
  have ne: "list_all (\<lambda>x. x \<noteq> []) opts"
    using assms(1) by (simp add: options_marked_def list_all_iff)
  have "0 < offsets k opts ! i" "offsets k opts ! i < int (length (pre @ concat opts @ post))"
    "(pre @ concat opts @ post) ! nat (offsets k opts ! i) = mk" if "i < length opts" for i
  proof -
    have mem: "offsets k opts ! i \<in> set (offsets k opts)" using that by simp
    show "0 < offsets k opts ! i" using offsets_ge [OF mem] assms(3) by simp
    show "offsets k opts ! i < int (length (pre @ concat opts @ post))"
      using offsets_less [OF ne mem] assms(2) by simp
    show "(pre @ concat opts @ post) ! nat (offsets k opts ! i) = mk"
      using offsets_point [OF ne that assms(2)] assms(1) that
      by (simp add: options_marked_def list_all_length)
  qed
  then show ?thesis
    using offsets_sorted [OF ne] by (simp add: markers_ok_def list_all_length)
qed

lemma layout_item_ok:
  assumes "layout_ok q toks limit policy l"
  shows "item_ok toks limit policy (length (pq_options q)) (layout_item q toks limit l)"
proof -
  let ?it = "layout_item q toks limit l" and ?b = "layout_base toks l"
  let ?rest = "take (nat (limit - int (length ?b) - 1)) (ly_state l) @ [tok_SEP toks]"
  have ids: "pi_inputIDs ?it = ?b @ ?rest" by (simp add: layout_item_def Let_def)
  have base: "?b = (tok_CLS toks # ly_head l @ [tok_SEP toks]) @ concat (ly_options l) @ [tok_SEP toks]"
    by (simp add: layout_base_def)
  have fits: "int (length ?b) + 1 \<le> limit" using assms by (simp add: layout_ok_def)
  have len: "int (length (pi_inputIDs ?it)) = min limit (layout_original toks l)"
  proof -
    obtain n where n: "limit = int (length ?b) + 1 + int n"
      using fits zle_iff_zadd by (metis add.commute)
    show ?thesis unfolding ids layout_original_def by (simp add: n)
  qed
  have mk: "markers_ok (tok_Mask toks) (pi_inputIDs ?it) (pi_markerPositions ?it)"
    using layout_markers_ok [of "tok_Mask toks" "ly_options l" "tok_CLS toks # ly_head l @ [tok_SEP toks]"
        "length (ly_head l) + 2" "tok_SEP toks # ?rest"] assms
    by (simp add: ids base layout_item_def Let_def layout_ok_def)
  have "hd (pi_inputIDs ?it) = tok_CLS toks" "last (pi_inputIDs ?it) = tok_SEP toks"
    "pi_inputIDs ?it \<noteq> []" by (simp_all add: ids base)
  then show ?thesis
    using assms mk len
    unfolding item_ok_def layout_ok_def by (auto simp: layout_item_def Let_def)
qed

lemma prepareItem_item_ok:
  assumes "0 \<le> pp_OptionMaxLen (mf_Preprocessing m)"
    and "prepareItem state q m encode limit policy = Ok it"
  shows "item_ok (tk_SpecialTokens (mf_Tokenizer m)) limit policy (length (pq_options q)) it \<and> pi_question it = q"
  using assms(2)
  by (cases rule: prepareItem_cases [OF assms(1) refl, of q limit policy state encode])
    (auto dest: layout_item_ok simp: layout_item_def Let_def)

subsection \<open>Padding and collation\<close>

lemma maxLength_fold: "fold (\<lambda>xs n. max n (length xs)) xss k = fold max (map length xss) k"
  by (induction xss arbitrary: k) (simp_all add: max.commute)

lemma maxLength_ge: "xs \<in> set xss \<Longrightarrow> length xs \<le> maxLength xss"
  unfolding maxLength_def maxLength_fold by (metis List.finite_set Max.set_eq_fold Max_ge list.set_intros(2) image_eqI list.set_map)

lemma length_padRow: "length (padRow z n xs) = max n (length xs)"
  by (simp add: padRow_def)

lemma padRow_take: "take (length xs) (padRow z n xs) = xs"
  by (simp add: padRow_def)

lemma padRow_maxLength: "xs \<in> set xss \<Longrightarrow> length (padRow z (maxLength xss) xs) = maxLength xss"
  using maxLength_ge [of xs xss] by (simp add: length_padRow)

text \<open>
  A batch is rectangular, its attention mask selects exactly the tokens of each item, its
  marker mask exactly the marker positions, and each valid marker points at the mask token of
  its own row.
\<close>

definition row_ok :: "SpecialTokens \<Rightarrow> nat \<Rightarrow> nat \<Rightarrow> int list \<Rightarrow> int list \<Rightarrow> int list \<Rightarrow> bool list \<Rightarrow> preparedItem \<Rightarrow> bool" where
  "row_ok toks width markerWidth ids att pos posMask it \<longleftrightarrow>
     length ids = width \<and> length att = width \<and> length pos = markerWidth \<and> length posMask = markerWidth \<and>
     (let n = length (pi_inputIDs it); k = length (pi_markerPositions it)
      in take n ids = pi_inputIDs it \<and> att = replicate n 1 @ replicate (width - n) 0 \<and>
         list_all (\<lambda>x. x = tok_Pad toks) (drop n ids) \<and>
         take k pos = pi_markerPositions it \<and>
         posMask = replicate k True @ replicate (markerWidth - k) False \<and>
         list_all (\<lambda>p. ids ! nat p = tok_Mask toks \<and> att ! nat p = 1) (take k pos))"

definition batch_rows_ok :: "SpecialTokens \<Rightarrow> preparedBatch \<Rightarrow> bool" where
  "batch_rows_ok toks b \<longleftrightarrow>
     (let n = length (pb_items b) in
      length (pb_inputIDs b) = n \<and> length (pb_attentionMask b) = n \<and> length (pb_markerPos b) = n \<and>
      length (pb_markerMask b) = n \<and> length (pb_qtype b) = n \<and>
      list_all (\<lambda>i. row_ok toks (maxLength (map pi_inputIDs (pb_items b)))
           (maxLength (map pi_markerPositions (pb_items b)))
           (pb_inputIDs b ! i) (pb_attentionMask b ! i) (pb_markerPos b ! i) (pb_markerMask b ! i)
           (pb_items b ! i)) [0..<n])"

lemma collate_row_ok:
  assumes "it \<in> set items" and "markers_ok (tok_Mask toks) (pi_inputIDs it) (pi_markerPositions it)"
  defines "w \<equiv> maxLength (map pi_inputIDs items)" and "k \<equiv> maxLength (map pi_markerPositions items)"
  shows "row_ok toks w k (padRow (tok_Pad toks) w (pi_inputIDs it))
     (padRow 0 w (map (\<lambda>_. 1) (pi_inputIDs it))) (padRow 0 k (pi_markerPositions it))
     (padRow False k (map (\<lambda>_. True) (pi_markerPositions it))) it"
proof -
  have w: "length (pi_inputIDs it) \<le> w" and k: "length (pi_markerPositions it) \<le> k"
    using assms(1) by (auto simp: w_def k_def intro: maxLength_ge)
  have "list_all (\<lambda>p. padRow (tok_Pad toks) w (pi_inputIDs it) ! nat p = tok_Mask toks \<and>
      padRow 0 w (map (\<lambda>_. 1) (pi_inputIDs it)) ! nat p = (1::int)) (pi_markerPositions it)"
    using assms(2) by (auto simp: markers_ok_def list_all_iff padRow_def nth_append nat_less_iff)
  then show ?thesis
    using w k by (simp add: row_ok_def Let_def length_padRow padRow_take padRow_def map_replicate_const
        list_all_iff in_set_replicate)
qed

lemma collate_rows_ok:
  assumes "\<forall>it\<in>set items. markers_ok (tok_Mask toks) (pi_inputIDs it) (pi_markerPositions it)"
  shows "batch_rows_ok toks (collatePrepared items (tok_Pad toks))"
  using collate_row_ok [of _ items toks] assms
  by (simp add: batch_rows_ok_def Let_def collatePrepared_def list_all_iff)

lemma prepareInferenceBatch_Ok:
  assumes "prepareInferenceBatch state qs m tok opts = Ok b"
  obtains encode stext items where "tok = Some encode" and "0 < effectiveLimit m opts"
    and "State_validate state = None" and "ModelOptions_validate opts = None"
    and "validateQuestions qs = Ok ()" and "modelStateText state = Ok stext"
    and "list_all2 (\<lambda>q it. \<exists>pq. normalizeQuestion q m = Ok pq \<and>
          prepareItem stext pq m encode (effectiveLimit m opts) (Truncation opts) = Ok it) qs items"
    and "b = collatePrepared items (tok_Pad (tk_SpecialTokens (mf_Tokenizer m)))"
  using assms
  by (auto simp: prepareInferenceBatch_def res_ok_iffs res_map_Ok_iff Let_def
      split: option.splits if_splits)

lemma normalizeQuestion_no_panic: "normalizeQuestion q m \<noteq> Panic"
  by (simp add: normalizeQuestion_def split: Question.splits option.splits)

lemma modelStateText_valid: "State_validate s = None \<Longrightarrow> \<exists>t. modelStateText s = Ok t"
  by (auto simp: State_validate_def modelStateText_def split: if_splits)

lemma prepareItem_no_panic:
  assumes "0 \<le> pp_OptionMaxLen (mf_Preprocessing m)"
  shows "prepareItem state q m encode limit policy \<noteq> Panic"
  by (cases rule: prepareItem_cases [OF assms refl, of q limit policy state encode]) auto

lemma prepareInferenceBatch_not_Panic:
  assumes "0 \<le> pp_OptionMaxLen (mf_Preprocessing m)"
  shows "prepareInferenceBatch state qs m tok opts \<noteq> Panic"
proof
  assume "prepareInferenceBatch state qs m tok opts = Panic"
  then show False
    using modelStateText_valid [of state] validateQuestions_no_panic [of qs]
    by (auto simp: prepareInferenceBatch_def res_panic_iffs Let_def normalizeQuestion_no_panic
        prepareItem_no_panic [OF assms] split: option.splits if_splits dest!: res_map_Panic)
qed

subsection \<open>Properties\<close>

definition sample_choice :: ChoiceQuestion where
  "sample_choice = \<lparr>cq_id = ''q'', cq_instructions = ''ok?'',
     cq_criteria = [\<lparr>crit_ID = ''a'', crit_Description = ''x''\<rparr>, \<lparr>crit_ID = ''b'', crit_Description = ''y''\<rparr>]\<rparr>"

definition sample_options :: "TruncationPolicy \<Rightarrow> ModelOptions" where
  "sample_options policy = \<lparr>QueueCapacity = 2, MaxQueueWait = 0, InputTokenLimit = 0, Truncation = policy\<rparr>"

text \<open>
  C38: Every sequence \<open>prepareItem\<close> returns fits the limit, starts with the class token and
  ends with the separator, has one marker per option, the markers strictly increase and each
  points at the mask token of its option, the truncation flag says whether tokens were dropped
  from the assembled sequence, and under \<open>RejectOverflow\<close> it is never set.
\<close>

theorem prepareItem_well_formed:
  assumes "0 \<le> pp_OptionMaxLen (mf_Preprocessing m)"
    and "prepareItem state q m encode limit policy = Ok it"
  shows "item_ok (tk_SpecialTokens (mf_Tokenizer m)) limit policy (length (pq_options q)) it \<and> pi_question it = q"
  by (rule prepareItem_item_ok [OF assms])

theorem prepareItem_well_formed_witness:
  "\<exists>it. prepareItem ''hello'' (normalizeChoice sample_choice (sample_manifest 4)) (sample_manifest 4)
      byte_tokenizer 40 TruncateOverflow = Ok it \<and>
    item_ok (tk_SpecialTokens (mf_Tokenizer (sample_manifest 4))) 40 TruncateOverflow 2 it"
proof -
  let ?r = "prepareItem ''hello'' (normalizeChoice sample_choice (sample_manifest 4)) (sample_manifest 4)
      byte_tokenizer 40 TruncateOverflow"
  have "is_Ok ?r" by code_simp
  then obtain it where it: "?r = Ok it" by (rule is_OkE)
  have nonneg: "0 \<le> pp_OptionMaxLen (mf_Preprocessing (sample_manifest 4))" by code_simp
  have "length (pq_options (normalizeChoice sample_choice (sample_manifest 4))) = 2" by code_simp
  with prepareItem_well_formed [OF nonneg it] it show ?thesis by auto
qed

text \<open>
  C11: A batch \<open>prepareInferenceBatch\<close> returns is rectangular; the attention mask of each row
  selects exactly the tokens of its item and the rest is padding; the marker mask selects exactly
  its markers, and each points at an attended mask token; there is one item per question, in
  question order, each well formed for the effective limit and the truncation policy.
\<close>

theorem prepareInferenceBatch_well_formed:
  assumes "0 \<le> pp_OptionMaxLen (mf_Preprocessing m)"
    and "prepareInferenceBatch state qs m tok opts = Ok b"
  shows "batch_rows_ok (tk_SpecialTokens (mf_Tokenizer m)) b \<and>
    list_all2 (\<lambda>q it. normalizeQuestion q m = Ok (pi_question it) \<and>
      item_ok (tk_SpecialTokens (mf_Tokenizer m)) (effectiveLimit m opts) (Truncation opts)
        (length (pq_options (pi_question it))) it) qs (pb_items b)"
proof -
  from assms(2) obtain encode stext items where items: "list_all2 (\<lambda>q it. \<exists>pq. normalizeQuestion q m = Ok pq \<and>
          prepareItem stext pq m encode (effectiveLimit m opts) (Truncation opts) = Ok it) qs items"
    and b: "b = collatePrepared items (tok_Pad (tk_SpecialTokens (mf_Tokenizer m)))"
    by (rule prepareInferenceBatch_Ok)
  have each: "list_all2 (\<lambda>q it. normalizeQuestion q m = Ok (pi_question it) \<and>
      item_ok (tk_SpecialTokens (mf_Tokenizer m)) (effectiveLimit m opts) (Truncation opts)
        (length (pq_options (pi_question it))) it) qs items"
    using items by (rule list_all2_mono) (auto dest: prepareItem_item_ok [OF assms(1)])
  then have "\<forall>it\<in>set items. markers_ok (tok_Mask (tk_SpecialTokens (mf_Tokenizer m)))
      (pi_inputIDs it) (pi_markerPositions it)"
    by (auto simp: list_all2_conv_all_nth in_set_conv_nth item_ok_def)
  then show ?thesis
    using each by (simp add: b collate_rows_ok) (simp add: collatePrepared_def Let_def)
qed

theorem prepareInferenceBatch_well_formed_witness:
  "\<exists>b. prepareInferenceBatch (TextState ''hello'') [ChoiceQ sample_choice] (sample_manifest 4)
      (Some byte_tokenizer) (sample_options RejectOverflow) = Ok b \<and>
    batch_rows_ok (tk_SpecialTokens (mf_Tokenizer (sample_manifest 4))) b"
proof -
  let ?r = "prepareInferenceBatch (TextState ''hello'') [ChoiceQ sample_choice] (sample_manifest 4)
      (Some byte_tokenizer) (sample_options RejectOverflow)"
  have "is_Ok ?r" by code_simp
  then obtain b where b: "?r = Ok b" by (rule is_OkE)
  have nonneg: "0 \<le> pp_OptionMaxLen (mf_Preprocessing (sample_manifest 4))" by code_simp
  from prepareInferenceBatch_well_formed [OF nonneg b] b show ?thesis by auto
qed

text \<open>
  \<open>prepareItem\<close> never panics: it returns a sequence, or an error in the category
  \<open>ErrInputTooLong\<close>, or, when a tokenizer call fails, one in \<open>ErrNativeFailure\<close>; and
  with a tokenizer that does not fail, the outcome is the sequence or \<open>ErrInputTooLong\<close>.
\<close>

theorem prepareItem_outcomes:
  assumes "0 \<le> pp_OptionMaxLen (mf_Preprocessing m)"
  shows "(case prepareItem state q m encode limit policy of
       Ok it \<Rightarrow> int (length (pi_inputIDs it)) \<le> limit
     | Err e \<Rightarrow> (\<exists>n r. e = InputTooLongError n limit r \<and> limit < n) \<or>
         errors_is e ErrNativeFailure \<and> (\<exists>t. isl (encode t))
     | Panic \<Rightarrow> False)"
  by (cases rule: prepareItem_cases [OF assms refl, of q limit policy state encode])
    (auto dest: layout_item_ok tokenize_error_is simp: item_ok_def)

theorem prepareItem_outcomes_witness:
  "case prepareItem ''hello'' (normalizeChoice sample_choice (sample_manifest 4)) (sample_manifest 4)
      byte_tokenizer 20 RejectOverflow of
     Ok it \<Rightarrow> int (length (pi_inputIDs it)) \<le> 20
   | Err e \<Rightarrow> (\<exists>n r. e = InputTooLongError n 20 r \<and> 20 < n) \<or>
       errors_is e ErrNativeFailure \<and> (\<exists>t. isl (byte_tokenizer t :: go_error + 32 word list))
   | Panic \<Rightarrow> False"
proof -
  have nonneg: "0 \<le> pp_OptionMaxLen (mf_Preprocessing (sample_manifest 4))" by code_simp
  show ?thesis by (rule prepareItem_outcomes [OF nonneg])
qed

subsection \<open>What of an option reaches the sequence\<close>

text \<open>Two options whose tokens agree up to the manifest's limit for one option.\<close>

definition same_kept :: "Manifest \<Rightarrow> tokenizer \<Rightarrow> string \<Rightarrow> string \<Rightarrow> bool" where
  "same_kept m encode o1 o2 \<longleftrightarrow>
     (case encode ('' '' @ replace_all o1 maskTokenText '' '') of Inl e \<Rightarrow> False
      | Inr ids1 \<Rightarrow>
          (case encode ('' '' @ replace_all o2 maskTokenText '' '') of Inl e \<Rightarrow> False
           | Inr ids2 \<Rightarrow>
               (let n = nat (pp_OptionMaxLen (mf_Preprocessing m)) in take n ids1 = take n ids2)))"

lemma encodeOption_same_kept:
  assumes "0 \<le> pp_OptionMaxLen (mf_Preprocessing m)" and "same_kept m encode o1 o2"
  shows "encodeOption encode m o1 = encodeOption encode m o2"
  using assms
  by (auto simp: same_kept_def encodeOption_def encodeText_def cut_to_nonneg take_map Let_def split: sum.splits)

lemma res_map_cong2: "list_all2 (\<lambda>x y. f x = f y) xs ys \<Longrightarrow> res_map f xs = res_map f ys"
  by (induction rule: list_all2_induct) simp_all

text \<open>The same outcome for another question.\<close>

definition for_question :: "preparedQuestion \<Rightarrow> preparedItem res \<Rightarrow> preparedItem res" where
  "for_question q r = res_bind r (\<lambda>it. Ok (it\<lparr>pi_question := q\<rparr>))"

lemma for_question_simps [simp]:
  "for_question q (Ok it) = Ok (it\<lparr>pi_question := q\<rparr>)" "for_question q (Err e) = Err e"
  "for_question q (if c then r else r') = (if c then for_question q r else for_question q r')"
  "for_question q (res_bind r'' f) = res_bind r'' (\<lambda>x. for_question q (f x))"
  by (simp_all add: for_question_def) (cases r''; simp)

lemma finishItem_for_question:
  assumes "length (pq_options q') = length (pq_options q)"
  shows "finishItem q' toks limit policy inputIDs markers stateIDs =
    for_question q' (finishItem q toks limit policy inputIDs markers stateIDs)"
  using assms unfolding finishItem_def Let_def by (simp cong: if_cong)

text \<open>
  C16: What of an option reaches the model. Of every option only the first \<open>OptionMaxLen\<close> tokens
  count, under either policy and for every state, limit and tokenizer: options that agree so far
  give the same outcome, token for token and error for error. A sequence that \<open>RejectOverflow\<close>
  accepts is reported as not truncated, and as long as it was, although its options may have been cut.
\<close>

theorem prepareItem_ignores_option_tails:
  assumes "0 \<le> pp_OptionMaxLen (mf_Preprocessing m)" and "list_all2 (same_kept m encode) (pq_options q) options"
  shows "prepareItem state (q\<lparr>pq_options := options\<rparr>) m encode limit policy =
      for_question (q\<lparr>pq_options := options\<rparr>) (prepareItem state q m encode limit policy) \<and>
    (case prepareItem state q m encode limit RejectOverflow of
       Ok it \<Rightarrow> \<not> pi_truncated it \<and> pi_originalTokens it = int (length (pi_inputIDs it))
     | _ \<Rightarrow> True)"
proof -
  let ?q = "q\<lparr>pq_options := options\<rparr>"
  have "list_all2 (\<lambda>o1 o2. encodeOption encode m o1 = encodeOption encode m o2) (pq_options q) options"
    using assms(2) by (rule list_all2_mono) (rule encodeOption_same_kept [OF assms(1)])
  then have same: "res_map (encodeOption encode m) options = res_map (encodeOption encode m) (pq_options q)"
    by (simp add: res_map_cong2)
  have "length (pq_options ?q) = length (pq_options q)" using assms(2) by (simp add: list_all2_lengthD)
  then have finish: "finishItem ?q toks limit policy inputIDs markers =
      (\<lambda>stateIDs. for_question ?q (finishItem q toks limit policy inputIDs markers stateIDs))" for toks inputIDs markers
    by (intro ext finishItem_for_question)
  have "prepareItem state ?q m encode limit policy = for_question ?q (prepareItem state q m encode limit policy)"
    unfolding prepareItem_def Let_def by (simp add: same finish split_beta)
  moreover have "\<not> pi_truncated it \<and> pi_originalTokens it = int (length (pi_inputIDs it))"
    if "prepareItem state q m encode limit RejectOverflow = Ok it" for it
    using prepareItem_item_ok [OF assms(1) that] by (auto simp: item_ok_def)
  ultimately show ?thesis by (simp split: res.split)
qed

definition cut_question :: "string \<Rightarrow> preparedQuestion" where
  "cut_question option1 = \<lparr>pq_id = ''q'', pq_kind = preparedChoice, pq_instructions = ''i'',
     pq_optionIDs = [''a'', ''b''], pq_optionLabels = [], pq_options = [option1, ''b''], pq_qtype = 0\<rparr>"

theorem prepareItem_ignores_option_tails_witness:
  "\<exists>it it'. prepareItem ''s'' (cut_question ''abcdef'') (sample_manifest 4) byte_tokenizer 40 RejectOverflow = Ok it \<and>
     prepareItem ''s'' (cut_question ''abcxyz'') (sample_manifest 4) byte_tokenizer 40 RejectOverflow = Ok it' \<and>
     pi_inputIDs it' = pi_inputIDs it \<and> \<not> pi_truncated it"
proof -
  let ?prepare = "\<lambda>q. prepareItem ''s'' q (sample_manifest 4) byte_tokenizer 40 RejectOverflow"
  have nonneg: "0 \<le> pp_OptionMaxLen (mf_Preprocessing (sample_manifest 4))" by code_simp
  have kept: "list_all2 (same_kept (sample_manifest 4) byte_tokenizer) (pq_options (cut_question ''abcdef'')) [''abcxyz'', ''b'']"
    by code_simp
  have "is_Ok (?prepare (cut_question ''abcdef''))" by code_simp
  then obtain it where it: "?prepare (cut_question ''abcdef'') = Ok it" by (rule is_OkE)
  have same: "(cut_question ''abcdef'')\<lparr>pq_options := [''abcxyz'', ''b'']\<rparr> = cut_question ''abcxyz''" by (simp add: cut_question_def)
  note cut = prepareItem_ignores_option_tails [OF nonneg kept, of "''s''" 40 RejectOverflow]
  from cut same it have "?prepare (cut_question ''abcxyz'') = Ok (it\<lparr>pi_question := cut_question ''abcxyz''\<rparr>)" by simp
  moreover from cut it have "\<not> pi_truncated it" by simp
  ultimately show ?thesis using it by simp
qed

end
