(* ===== verification/Laya_Calibration.thy ===== *)
theory Laya_Calibration
  imports Laya_Preprocess
begin

text \<open>
  \<open>calibration.go\<close>: the temperature of a question.

  A decoded JSON value is what \<open>json.Decoder\<close> with \<open>UseNumber\<close> yields: numbers keep
  their text. The decoder (\<open>decode\<close>, \<open>None\<close> for an error) and \<open>strconv.ParseFloat\<close>
  (\<open>parseFloat\<close>, \<open>None\<close> for an error) are arguments; nothing is assumed of them.
\<close>

datatype json_any =
    JNull | JBool bool | JNumber string | JString string | JArray "json_any list"
  | JObject "(string \<times> json_any) list"

record calibrationValue =
  cv_raw :: json_any
  cv_effective :: f64

record calibrationConfig =
  cc_byQType :: "calibrationValue list"
  cc_byOptions :: "string \<Rightarrow> calibrationValue option"

text \<open>The cases of \<open>numericTemperature\<close> that a decoded value can take.\<close>

definition numericTemperature :: "(string \<Rightarrow> f64 option) \<Rightarrow> json_any \<Rightarrow> f64 option" where
  "numericTemperature parseFloat value =
     (case value of
        JNumber n \<Rightarrow> parseFloat n
      | JString s \<Rightarrow> parseFloat s
      | JBool b \<Rightarrow> Some (Fin (if b then 1 else 0))
      | _ \<Rightarrow> None)"

definition parseCalibrationValue ::
  "(string \<Rightarrow> json_any option) \<Rightarrow> (string \<Rightarrow> f64 option) \<Rightarrow> Manifest \<Rightarrow> string \<Rightarrow> calibrationValue" where
  "parseCalibrationValue decode parseFloat m raw =
     (let cal = mf_Calibration m
      in case decode raw of
           None \<Rightarrow> \<lparr>cv_raw = JNull, cv_effective = cal_InvalidTemperature cal\<rparr>
         | Some value \<Rightarrow>
             (let effective = (case numericTemperature parseFloat value of
                                 None \<Rightarrow> cal_InvalidTemperature cal
                               | Some e \<Rightarrow> if isFinite e then e else cal_InvalidTemperature cal)
              in \<lparr>cv_raw = value,
                  cv_effective = f_min (cal_TemperatureMax cal) (f_max (cal_TemperatureMin cal) effective)\<rparr>))"

definition temperatureBucket :: "string \<Rightarrow> int \<Rightarrow> string" where
  "temperatureBucket kind optionCount =
     (let size = (if optionCount \<le> 2 then ''2''
                  else if optionCount \<le> 5 then ''3-5''
                  else if optionCount \<le> 10 then ''6-10''
                  else ''11+'')
      in kind @ '':'' @ size)"

definition selectValue :: "calibrationConfig \<Rightarrow> preparedQuestion \<Rightarrow> calibrationValue res" where
  "selectValue c question =
     (let index = pq_qtype question
      in if index < 0 \<or> index \<ge> int (length (cc_byQType c))
           then Err (wrap ErrInvalidOutput ''calibration qtype is outside the configured range'')
         else (case cc_byOptions c (temperatureBucket (questionKindName (pq_kind question))
                                      (int (length (pq_options question)))) of
                 Some v \<Rightarrow> Ok v
               | None \<Rightarrow> Ok (cc_byQType c ! nat index)))"

text \<open>The configuration \<open>parseCalibrationConfig\<close> builds from the decoded document.\<close>

definition calibration_from ::
  "(string \<Rightarrow> json_any option) \<Rightarrow> (string \<Rightarrow> f64 option) \<Rightarrow> Manifest \<Rightarrow> string list
   \<Rightarrow> (string \<times> string) list \<Rightarrow> calibrationConfig res" where
  "calibration_from decode parseFloat m temperature byOptions =
     (if length temperature \<noteq> 3
      then Err (wrap ErrUnsupportedBundle ''calibration temperature must contain three values'')
      else Ok \<lparr>cc_byQType = map (parseCalibrationValue decode parseFloat m) temperature,
               cc_byOptions = map_of (map (\<lambda>(b, raw). (b, parseCalibrationValue decode parseFloat m raw)) byOptions)\<rparr>)"

subsection \<open>Temperatures stay in the declared range\<close>

text \<open>The bounds the bundle validation establishes.\<close>

definition calibration_bounds :: "rat \<Rightarrow> rat \<Rightarrow> CalibrationDecl \<Rightarrow> bool" where
  "calibration_bounds lo hi cal \<longleftrightarrow>
     cal_TemperatureMin cal = Fin lo \<and> cal_TemperatureMax cal = Fin hi \<and> lo \<le> hi \<and>
     (\<exists>i. cal_InvalidTemperature cal = Fin i \<and> lo \<le> i \<and> i \<le> hi)"

definition temperature_in :: "rat \<Rightarrow> rat \<Rightarrow> calibrationValue \<Rightarrow> bool" where
  "temperature_in lo hi v = (case cv_effective v of Fin t \<Rightarrow> lo \<le> t \<and> t \<le> hi | _ \<Rightarrow> False)"

lemma parseCalibrationValue_in:
  assumes "calibration_bounds lo hi (mf_Calibration m)"
  shows "temperature_in lo hi (parseCalibrationValue decode parseFloat m raw)"
proof -
  let ?cal = "mf_Calibration m"
  obtain i where cal: "cal_TemperatureMin ?cal = Fin lo" "cal_TemperatureMax ?cal = Fin hi"
    "cal_InvalidTemperature ?cal = Fin i" and order: "lo \<le> hi" "lo \<le> i" "i \<le> hi"
    using assms by (auto simp: calibration_bounds_def)
  show ?thesis
  proof (cases "decode raw")
    case None
    then show ?thesis using order by (simp add: parseCalibrationValue_def temperature_in_def cal)
  next
    case (Some val)
    have "isFinite (case numericTemperature parseFloat val of None \<Rightarrow> Fin i
        | Some e \<Rightarrow> if isFinite e then e else Fin i)" by (simp split: option.split)
    then obtain t where "(case numericTemperature parseFloat val of None \<Rightarrow> Fin i
        | Some e \<Rightarrow> if isFinite e then e else Fin i) = Fin t" by (rule isFiniteE)
    then show ?thesis
      using Some order unfolding parseCalibrationValue_def Let_def cal by (simp add: temperature_in_def)
  qed
qed

definition calibration_ok :: "rat \<Rightarrow> rat \<Rightarrow> calibrationConfig \<Rightarrow> bool" where
  "calibration_ok lo hi c \<longleftrightarrow>
     length (cc_byQType c) = 3 \<and> list_all (temperature_in lo hi) (cc_byQType c) \<and>
     (\<forall>b v. cc_byOptions c b = Some v \<longrightarrow> temperature_in lo hi v)"

lemma calibration_from_ok:
  assumes "calibration_bounds lo hi (mf_Calibration m)"
    and "calibration_from decode parseFloat m temperature byOptions = Ok c"
  shows "calibration_ok lo hi c"
  using assms
  by (auto simp: calibration_from_def calibration_ok_def list_all_iff parseCalibrationValue_in
      dest!: map_of_SomeD split: if_splits)

lemma selectValue_in:
  assumes "calibration_ok lo hi c" and "0 \<le> pq_qtype q" and "pq_qtype q < 3"
  shows "\<exists>v. selectValue c q = Ok v \<and> temperature_in lo hi v"
proof -
  have "nat (pq_qtype q) < length (cc_byQType c)" using assms by (simp add: calibration_ok_def)
  then have "temperature_in lo hi (cc_byQType c ! nat (pq_qtype q))"
    using assms(1) by (auto simp: calibration_ok_def intro: list_all_nth)
  then show ?thesis
    using assms by (auto simp: selectValue_def Let_def calibration_ok_def split: option.splits)
qed

subsection \<open>Properties\<close>

text \<open>
  Whatever a calibration file holds (numbers, strings, booleans, infinities, malformed
  values), every temperature of the configuration built from it is a finite value within the
  bounds of the manifest, and selecting the temperature of any question whose type index is
  one of the three succeeds with such a value.
\<close>

theorem calibration_clamped:
  assumes "calibration_bounds lo hi (mf_Calibration m)"
    and "calibration_from decode parseFloat m temperature byOptions = Ok c"
    and "0 \<le> pq_qtype q" and "pq_qtype q < 3"
  shows "calibration_ok lo hi c \<and> (\<exists>v t. selectValue c q = Ok v \<and> cv_effective v = Fin t \<and> lo \<le> t \<and> t \<le> hi)"
proof -
  note c = calibration_from_ok [OF assms(1,2)]
  obtain v where v: "selectValue c q = Ok v" "temperature_in lo hi v"
    using selectValue_in [OF c assms(3,4)] by blast
  then obtain t where "cv_effective v = Fin t" "lo \<le> t" "t \<le> hi"
    by (cases "cv_effective v") (auto simp: temperature_in_def)
  with v c show ?thesis by blast
qed

theorem calibration_clamped_witness:
  "\<exists>c v t. calibration_from (\<lambda>s. Some (JNumber s)) (\<lambda>s. if s = ''9'' then Some (Fin 9) else Some NInf)
       (sample_manifest 4) [''9'', ''x'', ''9''] [(''choice:2'', ''x'')] = Ok c \<and>
     selectValue c (normalizeChoice sample_choice (sample_manifest 4)) = Ok v \<and> cv_effective v = Fin t \<and> 1/2 \<le> t"
proof -
  let ?r = "calibration_from (\<lambda>s. Some (JNumber s)) (\<lambda>s. if s = ''9'' then Some (Fin 9) else Some NInf)
       (sample_manifest 4) [''9'', ''x'', ''9''] [(''choice:2'', ''x'')]"
  obtain c where c: "?r = Ok c" by (simp add: calibration_from_def)
  have bounds: "calibration_bounds (1/2) 5 (mf_Calibration (sample_manifest 4))"
    by (simp add: calibration_bounds_def sample_manifest_def)
  have q: "0 \<le> pq_qtype (normalizeChoice sample_choice (sample_manifest 4))"
    "pq_qtype (normalizeChoice sample_choice (sample_manifest 4)) < 3" by code_simp+
  from calibration_clamped [OF bounds c q] c show ?thesis by blast
qed

end
