(* ===== verification/Laya_Tensor.thy ===== *)
theory Laya_Tensor
  imports Laya_Preprocess
begin

text \<open>
  The tensor boundary of \<open>native_backend_enabled.go\<close>: dimension checks, flattening into
  the runtime's row-major buffers, splitting the output buffers, and the ownership of the
  native values.

  ONNX Runtime is third-party code. A native value is its shape and data; \<open>newTensor\<close> is
  the reply of the allocation (\<open>None\<close>: the value exists), \<open>destroy\<close> the reply of
  \<open>Destroy\<close>. The functions return, beside their result, the native values they allocated
  and the values they destroyed, in order.
\<close>

datatype ort_value =
    IntTensor "int list" "int list"
  | BoolTensor "int list" "bool list"
  | FloatTensor "int list" "f64 list"
  | ForeignValue

definition batch_inconsistent :: "preparedBatch \<Rightarrow> bool" where
  "batch_inconsistent b \<longleftrightarrow>
     (let rows = length (pb_items b)
      in rows = 0 \<or> length (pb_inputIDs b) \<noteq> rows \<or> length (pb_attentionMask b) \<noteq> rows \<or>
         length (pb_markerPos b) \<noteq> rows \<or> length (pb_markerMask b) \<noteq> rows \<or> length (pb_qtype b) \<noteq> rows)"

definition preparedTensorDimensions :: "preparedBatch \<Rightarrow> (nat \<times> nat \<times> nat) res" where
  "preparedTensorDimensions b =
     (if batch_inconsistent b
        then Err (wrap ErrNativeFailure ''prepared tensor batch dimensions are inconsistent'')
      else
        (let rows = length (pb_items b);
             sequenceWidth = length (pb_inputIDs b ! 0);
             markerWidth = length (pb_markerPos b ! 0)
         in if sequenceWidth = 0 \<or> markerWidth = 0
              then Err (wrap ErrNativeFailure ''prepared tensor widths are empty'')
            else if list_ex (\<lambda>row. length (pb_inputIDs b ! row) \<noteq> sequenceWidth \<or>
                   length (pb_attentionMask b ! row) \<noteq> sequenceWidth \<or>
                   length (pb_markerPos b ! row) \<noteq> markerWidth \<or>
                   length (pb_markerMask b ! row) \<noteq> markerWidth) [0..<rows]
              then Err (wrap ErrNativeFailure ''prepared tensor rows are not rectangular'')
            else Ok (rows, sequenceWidth, markerWidth)))"

definition flattenTensorRows :: "'a list list \<Rightarrow> 'a list" where
  "flattenTensorRows rows = foldl (\<lambda>values row. values @ row) [] rows"

text \<open>The slice \<open>values[start:start+width]\<close> panics beyond the buffer.\<close>

definition splitFloat32Rows :: "'a list \<Rightarrow> nat \<Rightarrow> nat \<Rightarrow> 'a list list res" where
  "splitFloat32Rows values rows width =
     res_map (\<lambda>row. if row * width + width \<le> length values
                    then Ok (take width (drop (row * width) values)) else Panic) [0..<rows]"

text \<open>
  The destruction loop runs from the last value to the first and skips nil entries; it gives
  the joined error and the values it destroyed, in order.
\<close>

definition destroyORTValues ::
  "(ort_value \<Rightarrow> go_error option) \<Rightarrow> ort_value option list \<Rightarrow> go_error option \<times> ort_value list" where
  "destroyORTValues destroy values =
     fold (\<lambda>v (err, gone). case v of
             None \<Rightarrow> (err, gone)
           | Some x \<Rightarrow> (errors_join [err, destroy x], gone @ [x])) (rev values) (None, [])"

definition cleanupFailedORTInputs ::
  "(ort_value \<Rightarrow> go_error option) \<Rightarrow> ort_value list \<Rightarrow> go_error \<Rightarrow> go_error \<times> ort_value list" where
  "cleanupFailedORTInputs destroy values cause =
     (let (err, gone) = destroyORTValues destroy (map Some values)
      in (newInferenceStageError (Sentinel ErrNativeFailure) ''allocate ONNX input tensors''
            (errors_join [Some cause, err]), gone))"

text \<open>The five input tensors, in the order the code allocates them.\<close>

definition input_tensors :: "preparedBatch \<Rightarrow> nat \<Rightarrow> nat \<Rightarrow> nat \<Rightarrow> ort_value list" where
  "input_tensors b rows sequenceWidth markerWidth =
     (let sequenceShape = [int rows, int sequenceWidth]; markerShape = [int rows, int markerWidth]
      in [IntTensor sequenceShape (flattenTensorRows (pb_inputIDs b)),
          IntTensor sequenceShape (flattenTensorRows (pb_attentionMask b)),
          IntTensor markerShape (flattenTensorRows (pb_markerPos b)),
          BoolTensor markerShape (flattenTensorRows (pb_markerMask b)),
          IntTensor [int rows] (pb_qtype b)])"

text \<open>The chain of \<open>add\<close> calls, each leaving through the cleanup when it fails.\<close>

fun add_tensors ::
  "(ort_value \<Rightarrow> go_error option) \<Rightarrow> (ort_value \<Rightarrow> go_error option) \<Rightarrow> ort_value list \<Rightarrow> ort_value list
   \<Rightarrow> ort_value list res \<times> ort_value list" where
  "add_tensors newTensor destroy values [] = (Ok values, [])"
| "add_tensors newTensor destroy values (t # ts) =
     (case newTensor t of
        Some err \<Rightarrow> (let (e, gone) = cleanupFailedORTInputs destroy values err in (Err e, gone))
      | None \<Rightarrow> add_tensors newTensor destroy (values @ [t]) ts)"

definition newORTInputs ::
  "(ort_value \<Rightarrow> go_error option) \<Rightarrow> (ort_value \<Rightarrow> go_error option) \<Rightarrow> preparedBatch
   \<Rightarrow> nat \<Rightarrow> nat \<Rightarrow> nat \<Rightarrow> ort_value list res \<times> ort_value list" where
  "newORTInputs newTensor destroy b rows sequenceWidth markerWidth =
     add_tensors newTensor destroy [] (input_tensors b rows sequenceWidth markerWidth)"

record rawModelOutputs =
  ro_logits :: "f64 list list"
  ro_actionLogits :: "f64 list list"

definition copyORTOutputs :: "ort_value option list \<Rightarrow> nat \<Rightarrow> nat \<Rightarrow> rawModelOutputs res" where
  "copyORTOutputs values rows markerWidth =
     (if length values \<noteq> 2 then Err (wrap ErrInvalidOutput ''ONNX output count is not 2'')
      else case values ! 0 of
        Some (FloatTensor logitsShape logits) \<Rightarrow>
          (case values ! 1 of
             Some (FloatTensor actionShape actionLogits) \<Rightarrow>
               (if logitsShape \<noteq> [int rows, int markerWidth]
                  then Err (wrap ErrInvalidOutput ''logits output shape does not match the prepared batch'')
                else if actionShape \<noteq> [int rows, 2]
                  then Err (wrap ErrInvalidOutput ''action output shape does not match the prepared batch'')
                else res_bind (splitFloat32Rows logits rows markerWidth) (\<lambda>ls.
                     res_bind (splitFloat32Rows actionLogits rows 2) (\<lambda>acts.
                       Ok \<lparr>ro_logits = ls, ro_actionLogits = acts\<rparr>)))
           | _ \<Rightarrow> Err (wrap ErrInvalidOutput ''action output has an incompatible tensor type''))
      | _ \<Rightarrow> Err (wrap ErrInvalidOutput ''logits output has an incompatible tensor type''))"

text \<open>
  No rune outside ASCII has a lower case that occurs in one of the five words, so lower-casing
  the ASCII letters decides the comparison.
\<close>

definition nativeTelemetryDisabled :: "string \<Rightarrow> bool" where
  "nativeTelemetryDisabled v =
     (ascii_lower (trim_space v) \<in> {''1'', ''true'', ''yes'', ''on'', ''y''})"

subsection \<open>Flattening and splitting\<close>

lemma flattenTensorRows_concat: "flattenTensorRows rows = concat rows"
proof -
  have "foldl (\<lambda>values row. values @ row) acc rows = acc @ concat rows" for acc
    by (induction rows arbitrary: acc) simp_all
  then show ?thesis by (simp add: flattenTensorRows_def)
qed

lemma length_concat_rect: "list_all (\<lambda>r. length r = w) rows \<Longrightarrow> length (concat rows) = length rows * w"
  by (induction rows) simp_all

lemma take_drop_concat:
  "list_all (\<lambda>r. length r = w) rows \<Longrightarrow> i < length rows \<Longrightarrow> take w (drop (i * w) (concat rows)) = rows ! i"
proof (induction rows arbitrary: i)
  case (Cons r rows)
  then show ?case by (cases i) simp_all
qed simp

lemma split_flatten:
  assumes "list_all (\<lambda>r. length r = w) rows" and "length rows = n"
  shows "splitFloat32Rows (flattenTensorRows rows) n w = Ok rows"
proof -
  have "(row + 1) * w \<le> n * w" if "row < n" for row
    using that by (intro mult_le_mono1) simp
  then show ?thesis
    using assms unfolding splitFloat32Rows_def res_map_Ok_iff list_all2_conv_all_nth
    by (simp add: flattenTensorRows_concat length_concat_rect take_drop_concat add.commute)
qed

lemma split_total:
  assumes "n * w \<le> length values"
  shows "\<exists>rows. splitFloat32Rows values n w = Ok rows \<and> length rows = n \<and>
     list_all (\<lambda>r. length r = w) rows \<and> flattenTensorRows rows = take (n * w) values"
proof -
  let ?f = "\<lambda>i. take w (drop (i * w) values)"
  have bound: "i * w + w \<le> length values" if "i < n" for i
  proof -
    have "(i + 1) * w \<le> n * w" using that by (intro mult_le_mono1) simp
    with assms show ?thesis by (simp add: add.commute)
  qed
  have "splitFloat32Rows values n w = Ok (map ?f [0..<n])"
    using bound by (simp add: splitFloat32Rows_def res_map_Ok_iff list_all2_conv_all_nth)
  moreover have "concat (map ?f [0..<n]) = take (n * w) values"
  proof (induction n)
    case (Suc k)
    have "take (Suc k * w) values = take (k * w) values @ take w (drop (k * w) values)"
      by (metis add.commute mult_Suc take_add)
    with Suc show ?case by simp
  qed simp
  moreover have "list_all (\<lambda>r. length r = w) (map ?f [0..<n])"
  proof -
    have "length (?f i) = w" if "i < n" for i using bound [OF that] by simp
    then show ?thesis by (simp add: list_all_iff)
  qed
  ultimately show ?thesis by (simp add: flattenTensorRows_concat)
qed

subsection \<open>Ownership of native values\<close>

lemma destroyORTValues_gone: "snd (destroyORTValues destroy values) = rev (somes values)"
proof -
  have "snd (fold (\<lambda>v (err, gone). case v of None \<Rightarrow> (err, gone)
       | Some x \<Rightarrow> (errors_join [err, destroy x], gone @ [x])) vs (e, g)) = g @ somes vs" for vs e g
  proof (induction vs arbitrary: e g)
    case (Cons v vs)
    then show ?case by (cases v) simp_all
  qed simp
  moreover have "somes (rev vs) = rev (somes vs)" for vs :: "ort_value option list"
  proof (induction vs)
    case (Cons v vs)
    have "somes (xs @ ys) = somes xs @ somes ys" for xs ys :: "ort_value option list"
      by (induction xs rule: somes.induct) simp_all
    with Cons show ?case by (cases v) simp_all
  qed simp
  ultimately show ?thesis by (simp add: destroyORTValues_def)
qed

lemma somes_map_Some [simp]: "somes (map Some xs) = xs"
  by (induction xs) simp_all

lemma add_tensors_cases:
  "add_tensors newTensor destroy values ts = (r, gone) \<Longrightarrow>
     (r = Ok (values @ ts) \<and> gone = [] \<and> (\<forall>t\<in>set ts. newTensor t = None)) \<or>
     (\<exists>created t rest e. ts = created @ t # rest \<and> (\<forall>t\<in>set created. newTensor t = None) \<and> newTensor t \<noteq> None \<and>
        r = Err e \<and> errors_is e ErrNativeFailure \<and> gone = rev (values @ created))"
proof (induction newTensor destroy "values" ts rule: add_tensors.induct)
  case (2 newTensor destroy vs t ts)
  show ?case
  proof (cases "newTensor t")
    case (Some err)
    have "snd (cleanupFailedORTInputs destroy vs err) = rev vs"
      using destroyORTValues_gone [of destroy "map Some vs"]
      by (simp add: cleanupFailedORTInputs_def split_beta)
    moreover have "errors_is (fst (cleanupFailedORTInputs destroy vs err)) ErrNativeFailure"
      by (simp add: cleanupFailedORTInputs_def split_beta)
    ultimately show ?thesis
      using 2(2) Some by (intro disjI2 exI [of _ "[]"] exI [of _ t] exI [of _ ts]) (auto split: prod.splits)
  next
    case None
    with 2 have "(r = Ok ((vs @ [t]) @ ts) \<and> gone = [] \<and> (\<forall>t\<in>set ts. newTensor t = None)) \<or>
     (\<exists>created t' rest e. ts = created @ t' # rest \<and> (\<forall>t\<in>set created. newTensor t = None) \<and> newTensor t' \<noteq> None \<and>
        r = Err e \<and> errors_is e ErrNativeFailure \<and> gone = rev ((vs @ [t]) @ created))"
      by simp
    then show ?thesis
    proof (elim disjE exE conjE)
      fix created t' rest e
      assume "ts = created @ t' # rest" "\<forall>t\<in>set created. newTensor t = None" "newTensor t' \<noteq> None"
        "r = Err e" "errors_is e ErrNativeFailure" "gone = rev ((vs @ [t]) @ created)"
      with None show ?thesis by (intro disjI2 exI [of _ "t # created"] exI [of _ t'] exI [of _ rest]) auto
    qed (use None in auto)
  qed
qed simp

subsection \<open>Batches fit the tensors\<close>

lemma normalized_options:
  assumes "validateQuestion q = None" and "normalizeQuestion q m = Ok pq"
  shows "2 \<le> length (pq_options pq)"
  using assms
  by (auto simp: validateQuestion_def normalizeQuestion_def normalizeChoice_def normalizeScore_def
      normalizeNoul_def Let_def ok_simps split: Question.splits option.splits)

lemma row_ok_lengths:
  "row_ok toks w k ids att pos posMask it \<Longrightarrow>
     length ids = w \<and> length att = w \<and> length pos = k \<and> length posMask = k"
  unfolding row_ok_def by blast

lemma batch_dimensions:
  assumes "batch_rows_ok toks b" and "pb_items b \<noteq> []"
    and "\<forall>it\<in>set (pb_items b). pi_inputIDs it \<noteq> [] \<and> pi_markerPositions it \<noteq> []"
  shows "preparedTensorDimensions b = Ok (length (pb_items b), maxLength (map pi_inputIDs (pb_items b)),
     maxLength (map pi_markerPositions (pb_items b)))"
    and "list_all (\<lambda>r. length r = maxLength (map pi_inputIDs (pb_items b))) (pb_inputIDs b)"
    and "list_all (\<lambda>r. length r = maxLength (map pi_markerPositions (pb_items b))) (pb_markerPos b)"
    and "length (pb_inputIDs b) = length (pb_items b)" "length (pb_markerPos b) = length (pb_items b)"
proof -
  let ?n = "length (pb_items b)" and ?w = "maxLength (map pi_inputIDs (pb_items b))"
    and ?k = "maxLength (map pi_markerPositions (pb_items b))"
  obtain it where it: "it \<in> set (pb_items b)" using assms(2) by (cases "pb_items b") auto
  have "length (pi_inputIDs it) \<le> ?w" "length (pi_markerPositions it) \<le> ?k"
    using it by (auto intro: maxLength_ge)
  then have pos: "?w \<noteq> 0" "?k \<noteq> 0" using it assms(3) by (metis le_zero_eq length_0_conv)+
  have lens: "length (pb_inputIDs b) = ?n" "length (pb_attentionMask b) = ?n" "length (pb_markerPos b) = ?n"
      "length (pb_markerMask b) = ?n" "length (pb_qtype b) = ?n"
    using assms(1) by (simp_all add: batch_rows_ok_def Let_def)
  have rows: "length (pb_inputIDs b ! i) = ?w \<and> length (pb_attentionMask b ! i) = ?w \<and>
      length (pb_markerPos b ! i) = ?k \<and> length (pb_markerMask b ! i) = ?k" if "i < ?n" for i
    using assms(1) that by (auto simp: batch_rows_ok_def Let_def list_all_iff dest!: row_ok_lengths)
  have "\<not> batch_inconsistent b" using assms(2) lens by (simp add: batch_inconsistent_def Let_def)
  moreover have "\<not> list_ex (\<lambda>row. length (pb_inputIDs b ! row) \<noteq> ?w \<or> length (pb_attentionMask b ! row) \<noteq> ?w \<or>
      length (pb_markerPos b ! row) \<noteq> ?k \<or> length (pb_markerMask b ! row) \<noteq> ?k) [0..<?n]"
    using rows by (auto simp: list_ex_iff)
  ultimately show "preparedTensorDimensions b = Ok (?n, ?w, ?k)"
    using rows [of 0] assms(2) pos by (simp add: preparedTensorDimensions_def Let_def)
  show "list_all (\<lambda>r. length r = ?w) (pb_inputIDs b)" "list_all (\<lambda>r. length r = ?k) (pb_markerPos b)"
    using rows lens by (simp_all add: list_all_length)
  show "length (pb_inputIDs b) = ?n" "length (pb_markerPos b) = ?n" using lens by auto
qed

lemma batch_items_nonempty:
  assumes "0 \<le> pp_OptionMaxLen (mf_Preprocessing m)"
    and "prepareInferenceBatch state qs m tok opts = Ok b"
  shows "batch_rows_ok (tk_SpecialTokens (mf_Tokenizer m)) b" and "length (pb_items b) = length qs"
    and "pb_items b \<noteq> []"
    and "\<forall>it\<in>set (pb_items b). pi_inputIDs it \<noteq> [] \<and> pi_markerPositions it \<noteq> []"
proof -
  from assms(2) obtain encode stext items where valid: "validateQuestions qs = Ok ()"
    and items: "list_all2 (\<lambda>q it. \<exists>pq. normalizeQuestion q m = Ok pq \<and>
          prepareItem stext pq m encode (effectiveLimit m opts) (Truncation opts) = Ok it) qs items"
    and b: "b = collatePrepared items (tok_Pad (tk_SpecialTokens (mf_Tokenizer m)))"
    by (rule prepareInferenceBatch_Ok)
  have [simp]: "pb_items b = items" by (simp add: b collatePrepared_def Let_def)
  have each: "item_ok (tk_SpecialTokens (mf_Tokenizer m)) (effectiveLimit m opts) (Truncation opts)
      (length (pi_markerPositions it)) it \<and> pi_markerPositions it \<noteq> []" if it: "it \<in> set items" for it
  proof -
    obtain q pq where q: "q \<in> set qs" "normalizeQuestion q m = Ok pq"
      "prepareItem stext pq m encode (effectiveLimit m opts) (Truncation opts) = Ok it"
      using list_all2_right [OF items it] by blast
    have "2 \<le> length (pq_options pq)"
      using valid q by (intro normalized_options) (auto simp: validateQuestions_Ok_iff list_all_iff)
    with prepareItem_item_ok [OF assms(1) q(3)] show ?thesis by (auto simp: item_ok_def)
  qed
  then have "\<forall>it\<in>set items. markers_ok (tok_Mask (tk_SpecialTokens (mf_Tokenizer m)))
      (pi_inputIDs it) (pi_markerPositions it)" by (simp add: item_ok_def)
  then show "batch_rows_ok (tk_SpecialTokens (mf_Tokenizer m)) b" by (simp add: b collate_rows_ok)
  show "length (pb_items b) = length qs" using items by (auto dest: list_all2_lengthD)
  then show "pb_items b \<noteq> []" using valid by (auto simp: validateQuestions_Ok_iff)
  show "\<forall>it\<in>set (pb_items b). pi_inputIDs it \<noteq> [] \<and> pi_markerPositions it \<noteq> []"
    using each by (simp add: item_ok_def)
qed

subsection \<open>Properties\<close>

text \<open>
  C15: Every batch \<open>prepareInferenceBatch\<close> returns passes the dimension check of the native
  boundary, with one row per question; flattening its rows into a tensor buffer and splitting
  the buffer again gives the rows back, for the sequence and for the marker tensors.
\<close>

theorem prepared_batch_fits_tensors:
  assumes "0 \<le> pp_OptionMaxLen (mf_Preprocessing m)"
    and "prepareInferenceBatch state qs m tok opts = Ok b"
  shows "\<exists>w k. preparedTensorDimensions b = Ok (length qs, w, k) \<and>
     splitFloat32Rows (flattenTensorRows (pb_inputIDs b)) (length qs) w = Ok (pb_inputIDs b) \<and>
     splitFloat32Rows (flattenTensorRows (pb_markerPos b)) (length qs) k = Ok (pb_markerPos b)"
proof -
  note items = batch_items_nonempty [OF assms]
  note dims = batch_dimensions [OF items(1,3,4)]
  show ?thesis
    by (intro exI conjI) (rule dims(1) [unfolded items(2)], (rule split_flatten, use dims items in simp_all)+)
qed

theorem prepared_batch_fits_tensors_witness:
  "\<exists>b w k. prepareInferenceBatch (TextState ''hello'') [ChoiceQ sample_choice] (sample_manifest 4)
      (Some byte_tokenizer) (sample_options RejectOverflow) = Ok b \<and>
    preparedTensorDimensions b = Ok (1, w, k)"
proof -
  let ?r = "prepareInferenceBatch (TextState ''hello'') [ChoiceQ sample_choice] (sample_manifest 4)
      (Some byte_tokenizer) (sample_options RejectOverflow)"
  have "is_Ok ?r" by code_simp
  then obtain b where b: "?r = Ok b" by (rule is_OkE)
  have nonneg: "0 \<le> pp_OptionMaxLen (mf_Preprocessing (sample_manifest 4))" by code_simp
  from prepared_batch_fits_tensors [OF nonneg b] b show ?thesis by auto
qed

text \<open>
  \<open>newORTInputs\<close> owns its native values: when every allocation succeeds it returns the
  five tensors and destroys none; when one fails, it destroys exactly the tensors allocated
  before it, each once and in reverse order, and fails in the category \<open>ErrNativeFailure\<close>.
\<close>

theorem newORTInputs_ownership:
  "let ts = input_tensors b rows w k;
       created = takeWhile (\<lambda>t. newTensor t = None) ts;
       (r, gone) = newORTInputs newTensor destroy b rows w k
   in if created = ts then r = Ok ts \<and> gone = []
      else gone = rev created \<and> (\<exists>e. r = Err e \<and> errors_is e ErrNativeFailure)"
proof -
  let ?ts = "input_tensors b rows w k" and ?c = "takeWhile (\<lambda>t. newTensor t = None)"
  obtain r gone where rg: "newORTInputs newTensor destroy b rows w k = (r, gone)" by fastforce
  note cases = add_tensors_cases [OF rg [unfolded newORTInputs_def], simplified]
  from cases show ?thesis
  proof (elim disjE exE conjE)
    assume "r = Ok ?ts" "gone = []" "\<forall>t\<in>set ?ts. newTensor t = None"
    then show ?thesis by (simp add: rg takeWhile_eq_all_conv)
  next
    fix created t rest e e'
    assume *: "?ts = created @ t # rest" "\<forall>t\<in>set created. newTensor t = None" "newTensor t = Some e'"
      "r = Err e" "errors_is e ErrNativeFailure" "gone = rev created"
    then have "?c ?ts = created" by (simp add: takeWhile_append2)
    with * show ?thesis by (simp add: rg)
  qed
qed

end
