(* ===== verification/Laya_Postprocess.thy ===== *)
theory Laya_Postprocess
  imports Laya_Softmax Laya_Calibration Laya_Tensor
begin

text \<open>
  \<open>postprocess.go\<close>: from the model's rows of logits to validated results and the prediction.
\<close>

subsection \<open>Rows and batches\<close>

record rowDerivation =
  rd_probabilities :: "f64 list"
  rd_actionProbabilities :: "f64 list"
  rd_confidence :: f64
  rd_expectedScore :: f64
  rd_trueProbability :: f64
  rd_temperature :: calibrationValue

text \<open>An index expression panics out of range.\<close>

definition index_at :: "'a list \<Rightarrow> nat \<Rightarrow> 'a res" where
  "index_at xs i = (if i < length xs then Ok (xs ! i) else Panic)"

definition deriveOutputRow ::
  "(f64 \<Rightarrow> f64) \<Rightarrow> (f64 \<Rightarrow> f64) \<Rightarrow> preparedQuestion \<Rightarrow> f64 list \<Rightarrow> f64 list \<Rightarrow> calibrationConfig
   \<Rightarrow> rowDerivation res" where
  "deriveOutputRow mexp mlog question logits actionLogits calibration =
     (if length logits \<noteq> length (pq_options question)
        then Err (wrap ErrInvalidOutput ''logit count does not match option count'')
      else res_bind (selectValue calibration question) (\<lambda>temperature.
           res_bind (stableSoftmax mexp logits (cv_effective temperature)) (\<lambda>probabilities.
           res_bind (stableSoftmax mexp actionLogits (Fin 1)) (\<lambda>actionProbabilities.
           res_bind (if pq_kind question = preparedNoul then index_at probabilities 1 else Ok (Fin 0))
             (\<lambda>trueProbability.
               Ok \<lparr>rd_probabilities = probabilities, rd_actionProbabilities = actionProbabilities,
                   rd_confidence = confidenceFromProbabilities mlog probabilities,
                   rd_expectedScore = (if pq_kind question = preparedScore then expected_score probabilities else Fin 0),
                   rd_trueProbability = trueProbability, rd_temperature = temperature\<rparr>)))))"

definition criterion_probabilities :: "string list \<Rightarrow> f64 list \<Rightarrow> CriterionProbability list res" where
  "criterion_probabilities ids ps =
     res_map (\<lambda>(i, oid). res_bind (index_at ps i) (\<lambda>p.
        Ok \<lparr>cp_CriterionID = oid, cp_Probability = roundFour p\<rparr>)) (indexed ids)"

definition score_distribution :: "string list \<Rightarrow> f64 list \<Rightarrow> ScoreProbability list res" where
  "score_distribution labels ps =
     res_map (\<lambda>(i, l). res_bind (index_at ps i) (\<lambda>p.
        Ok \<lparr>sp_Level = int i, sp_Label = l, sp_Probability = roundFour p\<rparr>)) (indexed labels)"

definition resultFromDerivation :: "preparedQuestion \<Rightarrow> rowDerivation \<Rightarrow> Result res" where
  "resultFromDerivation question d =
     res_bind (index_at (rd_actionProbabilities d) 0) (\<lambda>a.
       (let actionProbability = roundFour a
        in case pq_kind question of
             preparedChoice \<Rightarrow>
               res_bind (criterion_probabilities (pq_optionIDs question) (rd_probabilities d)) (\<lambda>probabilities.
               res_bind (index_at (pq_optionIDs question) (maximumIndex (rd_probabilities d))) (\<lambda>selected.
               res_bind (NewChoiceResult (pq_id question)
                  \<lparr>ca_Selected = selected, ca_Probabilities = probabilities,
                   ca_Confidence = roundFour (rd_confidence d), ca_ActionProbability = actionProbability\<rparr>) (\<lambda>r.
               Ok (ChoiceR r))))
           | preparedScore \<Rightarrow>
               res_bind (score_distribution (pq_optionLabels question) (rd_probabilities d)) (\<lambda>distribution.
               res_bind (NewScoreResult (pq_id question)
                  \<lparr>sa_ExpectedLevel = roundFour (rd_expectedScore d), sa_Distribution = distribution,
                   sa_Confidence = roundFour (rd_confidence d), sa_ActionProbability = actionProbability\<rparr>) (\<lambda>r.
               Ok (ScoreR r)))
           | preparedNoul \<Rightarrow>
               res_bind (NewNoulResult (pq_id question)
                  \<lparr>na_TrueProbability = roundFour (rd_trueProbability d),
                   na_ActionProbability = actionProbability\<rparr>) (\<lambda>r.
               Ok (NoulR r))))"

text \<open>The row checks, in the order of the code.\<close>

definition raw_row_error :: "nat \<Rightarrow> f64 list \<Rightarrow> f64 list \<Rightarrow> go_error option" where
  "raw_row_error markerWidth logits actionLogits =
     (if length logits \<noteq> markerWidth then Some (wrap ErrInvalidOutput ''logits row has another width'')
      else if length actionLogits \<noteq> 2 then Some (wrap ErrInvalidOutput ''action logits row has another width'')
      else if list_ex (\<lambda>v. \<not> isFinite v) logits then Some (wrap ErrInvalidOutput ''logits row is not finite'')
      else if list_ex (\<lambda>v. \<not> isFinite v) actionLogits
        then Some (wrap ErrInvalidOutput ''action logits row is not finite'')
      else None)"

fun raw_rows_loop :: "nat \<Rightarrow> (f64 list \<times> f64 list) list \<Rightarrow> go_error option" where
  "raw_rows_loop markerWidth [] = None"
| "raw_rows_loop markerWidth ((l, a) # rest) =
     (case raw_row_error markerWidth l a of Some e \<Rightarrow> Some e | None \<Rightarrow> raw_rows_loop markerWidth rest)"

definition validateRawOutputs :: "preparedBatch \<Rightarrow> rawModelOutputs \<Rightarrow> unit res" where
  "validateRawOutputs b outputs =
     (let rows = length (pb_items b)
      in if length (ro_logits outputs) \<noteq> rows \<or> length (ro_actionLogits outputs) \<noteq> rows
           then Err (wrap ErrInvalidOutput ''output batch dimensions do not match the input rows'')
         else res_bind (if rows > 0 then res_bind (index_at (pb_markerPos b) 0) (\<lambda>r. Ok (length r)) else Ok 0)
           (\<lambda>markerWidth.
             check_then (raw_rows_loop markerWidth (zip (ro_logits outputs) (ro_actionLogits outputs))) (Ok ())))"

definition format_row ::
  "(f64 \<Rightarrow> f64) \<Rightarrow> (f64 \<Rightarrow> f64) \<Rightarrow> rawModelOutputs \<Rightarrow> calibrationConfig \<Rightarrow> nat \<times> preparedItem \<Rightarrow> Result res" where
  "format_row mexp mlog outputs calibration = (\<lambda>(index, item).
     res_bind (index_at (ro_logits outputs) index) (\<lambda>row.
     res_bind (slice_to (int (length (pq_options (pi_question item)))) row) (\<lambda>logits.
     res_bind (index_at (ro_actionLogits outputs) index) (\<lambda>action.
     res_bind (res_wrap ''format output row'' (deriveOutputRow mexp mlog (pi_question item) logits action calibration))
       (\<lambda>derivation.
     res_wrap ''format output row'' (resultFromDerivation (pi_question item) derivation))))))"

definition formatInferencePrediction ::
  "(f64 \<Rightarrow> f64) \<Rightarrow> (f64 \<Rightarrow> f64) \<Rightarrow> preparedBatch \<Rightarrow> rawModelOutputs \<Rightarrow> calibrationConfig \<Rightarrow> PredictionMetadata
   \<Rightarrow> Prediction res" where
  "formatInferencePrediction mexp mlog b outputs calibration metadata =
     res_bind (validateRawOutputs b outputs) (\<lambda>_.
     res_bind (res_map (format_row mexp mlog outputs calibration) (indexed (pb_items b))) (\<lambda>results.
     res_wrap ''format prediction''
       (NewPrediction results (pb_usage b) (metadata\<lparr>pm_Truncation := pb_truncation b\<rparr>))))"

subsection \<open>Results from rows\<close>

text \<open>What \<open>normalizeQuestion\<close> makes of a valid question.\<close>

definition prepared_ok :: "preparedQuestion \<Rightarrow> bool" where
  "prepared_ok q \<longleftrightarrow>
     pq_id q \<noteq> '''' \<and> 2 \<le> length (pq_options q) \<and>
     (case pq_kind q of
        preparedChoice \<Rightarrow> length (pq_optionIDs q) = length (pq_options q) \<and>
          distinct (pq_optionIDs q) \<and> list_all (\<lambda>i. i \<noteq> '''') (pq_optionIDs q)
      | preparedScore \<Rightarrow> length (pq_optionLabels q) = length (pq_options q) \<and> list_all (\<lambda>l. l \<noteq> '''') (pq_optionLabels q)
      | preparedNoul \<Rightarrow> length (pq_options q) = 2)"

lemma normalizeQuestion_ok:
  assumes "validateQuestion q = None" and "normalizeQuestion q m = Ok pq"
  shows "prepared_ok pq" and "Question_ID q = Ok (pq_id pq)"
  using assms
  by (auto simp: validateQuestion_def normalizeQuestion_def normalizeChoice_def normalizeScore_def
      normalizeNoul_def Let_def ok_simps prepared_ok_def Question_ID_def list_all_iff criterion_ok_def level_ok_def
      split: Question.splits option.splits)

definition row_derived :: "preparedQuestion \<Rightarrow> rowDerivation \<Rightarrow> bool" where
  "row_derived q d \<longleftrightarrow>
     (\<exists>ps acts c. rd_probabilities d = map Fin ps \<and> length ps = length (pq_options q) \<and>
        (\<forall>p\<in>set ps. 0 \<le> p \<and> p \<le> 1) \<and>
        rd_actionProbabilities d = map Fin acts \<and> length acts = 2 \<and> (\<forall>p\<in>set acts. 0 \<le> p \<and> p \<le> 1) \<and>
        rd_confidence d = Fin c \<and> 0 \<le> c \<and> c \<le> 1 \<and>
        (pq_kind q = preparedScore \<longrightarrow> (\<exists>v. rd_expectedScore d = Fin v \<and> 0 \<le> v \<and>
           v \<le> of_nat (length ps - 1) + 1 / 40000)) \<and>
        (pq_kind q = preparedNoul \<longrightarrow> (\<exists>v. rd_trueProbability d = Fin v \<and> 0 \<le> v \<and> v \<le> 1)))"

lemma deriveOutputRow_Ok:
  assumes laws: "exp_laws mexp" "log_laws mlog" and cal: "calibration_ok lo hi c" "1 / 2 \<le> lo"
    and q: "prepared_ok q" "0 \<le> pq_qtype q" "pq_qtype q < 3" "length (pq_options q) \<le> 1024"
    and logits: "list_all logit_ok logits" "length logits = length (pq_options q)"
    and acts: "list_all logit_ok actionLogits" "length actionLogits = 2"
  shows "\<exists>d. deriveOutputRow mexp mlog q logits actionLogits c = Ok d \<and> row_derived q d"
proof -
  obtain v where v: "selectValue c q = Ok v" "temperature_in lo hi v"
    using selectValue_in [OF cal(1) q(2,3)] by blast
  then obtain t where t: "cv_effective v = Fin t" "1 / 2 \<le> t"
    using cal(2) by (auto simp: temperature_in_def split: f64.splits)
  have ne: "logits \<noteq> []" using logits(2) q(1) by (auto simp: prepared_ok_def)
  obtain ps where ps: "stableSoftmax mexp logits (Fin t) = Ok (map Fin ps)" "length ps = length logits"
    "\<forall>p\<in>set ps. 0 \<le> p \<and> p \<le> 1" "sum_list ps \<le> 1 + 2000000 * ulp64"
    using stableSoftmax_Ok [OF laws(1) logits(1) ne _ t(2)] logits(2) q(4) by auto
  have "actionLogits \<noteq> []" using acts(2) by auto
  then obtain as where as: "stableSoftmax mexp actionLogits (Fin 1) = Ok (map Fin as)" "length as = 2"
    "\<forall>p\<in>set as. 0 \<le> p \<and> p \<le> 1"
    using stableSoftmax_Ok [OF laws(1) acts(1), of 1] acts(2) by auto
  obtain cf where cf: "confidenceFromProbabilities mlog (map Fin ps) = Fin cf" "0 \<le> cf" "cf \<le> 1"
    using confidence_unit [OF laws(2) ps(3)] ps(2) logits(2) q(4) by auto
  have len: "length ps = length (pq_options q)" "2 \<le> length ps" using ps(2) logits(2) q(1) by (auto simp: prepared_ok_def)
  have "length ps = Suc (length ps - 1)" "length ps - 1 < 1024" using len q(4) by auto
  then obtain ex where ex: "expected_score (map Fin ps) = Fin ex" "0 \<le> ex" "ex \<le> of_nat (length ps - 1) + 1 / 40000"
    using expected_score_bounds [OF ps(3,4)] by blast
  have one: "index_at (map Fin ps) 1 = Ok (Fin (ps ! 1))" "0 \<le> ps ! 1" "ps ! 1 \<le> 1"
    using len ps(3) by (auto simp: index_at_def)
  define d where "d = \<lparr>rd_probabilities = map Fin ps, rd_actionProbabilities = map Fin as,
     rd_confidence = Fin cf, rd_expectedScore = (if pq_kind q = preparedScore then Fin ex else Fin 0),
     rd_trueProbability = (if pq_kind q = preparedNoul then Fin (ps ! 1) else Fin 0), rd_temperature = v\<rparr>"
  have "deriveOutputRow mexp mlog q logits actionLogits c = Ok d"
    using logits(2) v(1) t(1) ps(1) as(1) cf(1) ex(1) one(1) by (simp add: deriveOutputRow_def d_def)
  moreover have "row_derived q d"
    unfolding row_derived_def
    by (rule exI [of _ ps], rule exI [of _ as], rule exI [of _ cf])
      (use len(1) ps as cf ex one in \<open>simp add: d_def\<close>)
  ultimately show ?thesis by blast
qed

lemma index_at_Ok: "i < length xs \<Longrightarrow> index_at xs i = Ok (xs ! i)"
  by (simp add: index_at_def)

lemma maximum_loop_less:
  "best < length vs \<Longrightarrow> list_all (\<lambda>i. i < length vs) is \<Longrightarrow> maximum_loop vs best is < length vs"
  by (induction vs best "is" rule: maximum_loop.induct) auto

lemma maximumIndex_less: "vs \<noteq> [] \<Longrightarrow> maximumIndex vs < length vs"
  unfolding maximumIndex_def by (rule maximum_loop_less) (auto simp: list_all_iff)

lemma criterion_probabilities_eq:
  assumes "length ids = length ps"
  shows "criterion_probabilities ids (map Fin ps) =
     Ok (map (\<lambda>i. \<lparr>cp_CriterionID = ids ! i, cp_Probability = roundFour (Fin (ps ! i))\<rparr>) [0..<length ids])"
  using assms
  by (auto simp: criterion_probabilities_def res_map_Ok_iff list_all2_conv_all_nth index_at_def nth_enumerate_eq)

lemma score_distribution_eq:
  assumes "length labels = length ps"
  shows "score_distribution labels (map Fin ps) =
     Ok (map (\<lambda>i. \<lparr>sp_Level = int i, sp_Label = labels ! i, sp_Probability = roundFour (Fin (ps ! i))\<rparr>) [0..<length labels])"
  using assms
  by (auto simp: score_distribution_def res_map_Ok_iff list_all2_conv_all_nth index_at_def nth_enumerate_eq)

definition result_for :: "preparedQuestion \<Rightarrow> Result \<Rightarrow> bool" where
  "result_for q r \<longleftrightarrow>
     validateResult r = Ok () \<and> Result_QuestionID r = Ok (pq_id q) \<and>
     (case pq_kind q of
        preparedChoice \<Rightarrow> (\<exists>c. r = ChoiceR c \<and> map cp_CriterionID (cr_probabilities c) = pq_optionIDs q)
      | preparedScore \<Rightarrow> (\<exists>s. r = ScoreR s \<and> map sp_Label (sr_distribution s) = pq_optionLabels q)
      | preparedNoul \<Rightarrow> (\<exists>n. r = NoulR n))"

lemma roundFour_unit: "0 \<le> p \<Longrightarrow> p \<le> 1 \<Longrightarrow> is_probability (roundFour (Fin p))"
  using roundFour_bounds [of p 1] by auto

lemma roundFour_nth: "\<forall>p\<in>set ps. 0 \<le> p \<and> p \<le> 1 \<Longrightarrow> i < length ps \<Longrightarrow> is_probability (roundFour (Fin (ps ! i)))"
  by (intro roundFour_unit) auto

lemma map_upt_nth: "map (\<lambda>i. xs ! i) [0..<length xs] = xs"
  by (rule map_nth)

lemma choice_result_Ok:
  assumes q: "prepared_ok q" "pq_kind q = preparedChoice" and ps: "length ps = length (pq_options q)" "\<forall>p\<in>set ps. 0 \<le> p \<and> p \<le> 1"
    and d: "rd_probabilities d = map Fin ps" "is_probability (roundFour (rd_confidence d))"
    and act: "rd_actionProbabilities d \<noteq> []" "is_probability (roundFour (rd_actionProbabilities d ! 0))"
  shows "\<exists>r. resultFromDerivation q d = Ok r \<and> result_for q r"
proof -
  define probs where "probs = map (\<lambda>i. \<lparr>cp_CriterionID = pq_optionIDs q ! i,
      cp_Probability = roundFour (Fin (ps ! i))\<rparr>) [0..<length (pq_optionIDs q)]"
  define k where "k = maximumIndex (map Fin ps)"
  define c where "c = \<lparr>cr_questionID = pq_id q, cr_selected = pq_optionIDs q ! k, cr_probabilities = probs,
      cr_confidence = roundFour (rd_confidence d), cr_actionProbability = roundFour (rd_actionProbabilities d ! 0)\<rparr>"
  have ids: "length (pq_optionIDs q) = length ps" "distinct (pq_optionIDs q)" "list_all (\<lambda>i. i \<noteq> '''') (pq_optionIDs q)"
    and two: "2 \<le> length ps" and qid: "pq_id q \<noteq> ''''"
    using q ps(1) by (auto simp: prepared_ok_def)
  have "ps \<noteq> []" using two by (cases ps) simp_all
  then have k: "k < length (pq_optionIDs q)"
    using maximumIndex_less [of "map Fin ps"] ids(1) by (simp add: k_def)
  have names: "map cp_CriterionID probs = pq_optionIDs q" by (simp add: probs_def comp_def map_nth)
  have "ChoiceResult_validate c = Ok ()"
    unfolding ChoiceResult_validate_Ok_iff
  proof (intro conjI)
    show "list_all (\<lambda>p. cp_CriterionID p \<noteq> '''' \<and> is_probability (cp_Probability p)) (cr_probabilities c)"
      using ids ps(2) by (auto simp: c_def probs_def list_all_length roundFour_nth)
    show "distinct (map cp_CriterionID (cr_probabilities c))" using ids(2) by (simp add: c_def names)
    have "cp_CriterionID ` set probs = set (pq_optionIDs q)" by (metis names list.set_map)
    then show "cr_selected c \<in> cp_CriterionID ` set (cr_probabilities c)" using k by (simp add: c_def)
    show "cr_selected c \<noteq> ''''" using ids(3) k by (simp add: c_def list_all_length)
    show "cr_probabilities c \<noteq> []" using \<open>ps \<noteq> []\<close> ids(1) by (simp add: c_def probs_def)
  qed (use qid d act in \<open>simp_all add: c_def\<close>)
  moreover have "resultFromDerivation q d = Ok (ChoiceR c)"
    using calculation q(2) act k ids(1)
    by (simp add: resultFromDerivation_def index_at_Ok Let_def d(1) criterion_probabilities_eq
        NewChoiceResult_def k_def [symmetric] c_def probs_def)
  ultimately show ?thesis
    using names q(2) by (auto simp: result_for_def validateResult_def Result_QuestionID_def c_def)
qed

lemma score_result_Ok:
  assumes q: "prepared_ok q" "pq_kind q = preparedScore" and ps: "length ps = length (pq_options q)" "\<forall>p\<in>set ps. 0 \<le> p \<and> p \<le> 1"
    and len: "length ps \<le> 1024"
    and d: "rd_probabilities d = map Fin ps" "is_probability (roundFour (rd_confidence d))"
      "rd_expectedScore d = Fin v" "0 \<le> v" "v \<le> of_nat (length ps - 1) + 1 / 40000"
    and act: "rd_actionProbabilities d \<noteq> []" "is_probability (roundFour (rd_actionProbabilities d ! 0))"
  shows "\<exists>r. resultFromDerivation q d = Ok r \<and> result_for q r"
proof -
  define dist where "dist = map (\<lambda>i. \<lparr>sp_Level = int i, sp_Label = pq_optionLabels q ! i,
      sp_Probability = roundFour (Fin (ps ! i))\<rparr>) [0..<length (pq_optionLabels q)]"
  define s where "s = \<lparr>sr_questionID = pq_id q, sr_expectedLevel = roundFour (rd_expectedScore d), sr_distribution = dist,
      sr_confidence = roundFour (rd_confidence d), sr_actionProbability = roundFour (rd_actionProbabilities d ! 0)\<rparr>"
  have labels: "length (pq_optionLabels q) = length ps" "list_all (\<lambda>l. l \<noteq> '''') (pq_optionLabels q)"
    and two: "2 \<le> length ps" and qid: "pq_id q \<noteq> ''''"
    using q ps(1) by (auto simp: prepared_ok_def)
  have names: "map sp_Label dist = pq_optionLabels q" by (simp add: dist_def comp_def map_nth)
  have n: "length dist = length ps" using labels(1) by (simp add: dist_def)
  have last: "length ps - 1 \<le> 1024" using len by simp
  obtain e where e: "roundFour (rd_expectedScore d) = Fin e" "0 \<le> e" "e \<le> of_nat (length ps - 1)"
    using roundFour_bounds [OF d(4,5) last] d(3) by auto
  have top: "f_of_int (int (length ps) - 1) = Fin (of_nat (length ps - 1))"
    using f_of_int_exact [of "length ps - 1"] two len by (simp add: of_nat_diff)
  have "ScoreResult_validate s = Ok ()"
    unfolding ScoreResult_validate_Ok_iff
  proof (intro conjI)
    show "\<exists>e. sr_expectedLevel s = Fin e \<and> 0 \<le> e \<and> \<not> f_lt (f_of_int (int (length (sr_distribution s)) - 1)) (Fin e)"
      using e by (simp add: s_def n top)
    show "\<forall>k<length (sr_distribution s). sp_Level (sr_distribution s ! k) = int k \<and>
        sp_Label (sr_distribution s ! k) \<noteq> '''' \<and> is_probability (sp_Probability (sr_distribution s ! k))"
      using labels ps(2) by (auto simp: s_def dist_def list_all_length roundFour_nth)
    show "sr_distribution s \<noteq> []" using two n by (auto simp: s_def)
  qed (use qid d act in \<open>simp_all add: s_def\<close>)
  moreover have "resultFromDerivation q d = Ok (ScoreR s)"
    using calculation q(2) act labels(1)
    by (simp add: resultFromDerivation_def index_at_Ok Let_def d(1) score_distribution_eq
        NewScoreResult_def s_def dist_def)
  ultimately show ?thesis
    using names q(2) by (auto simp: result_for_def validateResult_def Result_QuestionID_def s_def)
qed

lemma noul_result_Ok:
  assumes q: "prepared_ok q" "pq_kind q = preparedNoul"
    and d: "is_probability (roundFour (rd_trueProbability d))"
    and act: "rd_actionProbabilities d \<noteq> []" "is_probability (roundFour (rd_actionProbabilities d ! 0))"
  shows "\<exists>r. resultFromDerivation q d = Ok r \<and> result_for q r"
proof -
  define n where "n = \<lparr>nr_questionID = pq_id q, nr_trueProbability = roundFour (rd_trueProbability d),
      nr_actionProbability = roundFour (rd_actionProbabilities d ! 0)\<rparr>"
  have "NoulResult_validate n = Ok ()"
    using q d act by (simp add: NoulResult_validate_Ok_iff n_def prepared_ok_def)
  moreover have "resultFromDerivation q d = Ok (NoulR n)"
    using calculation q(2) act
    by (simp add: resultFromDerivation_def index_at_Ok Let_def NewNoulResult_def n_def)
  ultimately show ?thesis
    using q(2) by (auto simp: result_for_def validateResult_def Result_QuestionID_def n_def)
qed

lemma resultFromDerivation_Ok:
  assumes q: "prepared_ok q" "length (pq_options q) \<le> 1024" and d: "row_derived q d"
  shows "\<exists>r. resultFromDerivation q d = Ok r \<and> result_for q r"
proof -
  from d obtain ps acts c where f: "rd_probabilities d = map Fin ps" "length ps = length (pq_options q)"
      "\<forall>p\<in>set ps. 0 \<le> p \<and> p \<le> 1" "rd_actionProbabilities d = map Fin acts" "length acts = 2"
      "\<forall>p\<in>set acts. 0 \<le> p \<and> p \<le> 1" "rd_confidence d = Fin c" "0 \<le> c" "c \<le> 1"
      "pq_kind q = preparedScore \<longrightarrow> (\<exists>v. rd_expectedScore d = Fin v \<and> 0 \<le> v \<and> v \<le> of_nat (length ps - 1) + 1 / 40000)"
      "pq_kind q = preparedNoul \<longrightarrow> (\<exists>v. rd_trueProbability d = Fin v \<and> 0 \<le> v \<and> v \<le> 1)"
    unfolding row_derived_def by blast
  have conf: "is_probability (roundFour (rd_confidence d))" using f(7-9) by (simp add: roundFour_unit)
  have act: "rd_actionProbabilities d \<noteq> []" "is_probability (roundFour (rd_actionProbabilities d ! 0))"
    using f(4-6) by (auto simp: roundFour_nth)
  show ?thesis
  proof (cases "pq_kind q")
    case preparedChoice
    then show ?thesis using q(1) f(1-3) conf act by (intro choice_result_Ok)
  next
    case preparedScore
    then show ?thesis using q f(1-3,10) conf act score_result_Ok [OF q(1) preparedScore f(2,3)] by auto
  next
    case preparedNoul
    then obtain v where "rd_trueProbability d = Fin v" "0 \<le> v" "v \<le> 1" using f(11) by blast
    then show ?thesis using q(1) preparedNoul act by (intro noul_result_Ok) (simp_all add: roundFour_unit)
  qed
qed

end
