(* ===== verification/Laya_Pipeline.thy ===== *)
theory Laya_Pipeline
  imports Laya_Postprocess Laya_Predict
begin

text \<open>
  The inference path end to end: \<open>prepareInferenceBatch\<close>, any model run whose outputs pass
  \<open>validateRawOutputs\<close>, \<open>formatInferencePrediction\<close> and the checks of
  \<open>Model.Predict\<close>. No definition of this theory models code of its own; it composes the
  ones of the theories it imports.
\<close>

subsection \<open>What a supported manifest gives\<close>

definition inference_profile :: "Manifest \<Rightarrow> bool" where
  "inference_profile m \<longleftrightarrow>
     0 \<le> pp_OptionMaxLen (mf_Preprocessing m) \<and> pp_MaxLen (mf_Preprocessing m) \<le> 1024 \<and>
     (let q = pp_QTypes (mf_Preprocessing m)
      in 0 \<le> qt_Choice q \<and> qt_Choice q < 3 \<and> 0 \<le> qt_Score q \<and> qt_Score q < 3 \<and>
         0 \<le> qt_Noul q \<and> qt_Noul q < 3)"

text \<open>A \<open>float32\<close> output: not finite, or at most \<open>2 ^ 128\<close>.\<close>

definition f32_value :: "f64 \<Rightarrow> bool" where
  "f32_value v = (case v of Fin r \<Rightarrow> \<bar>r\<bar> \<le> pow2 128 | _ \<Rightarrow> True)"

definition f32_outputs :: "rawModelOutputs \<Rightarrow> bool" where
  "f32_outputs out \<longleftrightarrow> list_all (list_all f32_value) (ro_logits out) \<and> list_all (list_all f32_value) (ro_actionLogits out)"

lemma finite_f32_logit: "f32_value v \<Longrightarrow> isFinite v \<Longrightarrow> logit_ok v"
  by (cases v) (simp_all add: f32_value_def logit_ok_def isFinite_def)

subsection \<open>Items\<close>

lemma sorted_ints_length:
  assumes "sorted_wrt (<) xs" and "\<forall>x\<in>set xs. 0 \<le> x \<and> x < (n :: int)"
  shows "int (length xs) \<le> max 0 n"
proof -
  have "length xs = card (set xs)"
    using assms(1) by (simp add: strict_sorted_iff distinct_card)
  also have "\<dots> \<le> card {0..<n}" using assms(2) by (intro card_mono) auto
  finally show ?thesis by simp
qed

lemma markers_bounded:
  assumes "item_ok toks limit policy k it"
  shows "int k \<le> limit"
proof -
  have "int (length (pi_markerPositions it)) \<le> max 0 (int (length (pi_inputIDs it)))"
    using assms by (intro sorted_ints_length) (auto simp: item_ok_def markers_ok_def list_all_iff)
  then show ?thesis using assms by (simp add: item_ok_def)
qed

lemma normalized_qtype:
  assumes "inference_profile m" and "normalizeQuestion q m = Ok pq"
  shows "0 \<le> pq_qtype pq" and "pq_qtype pq < 3"
  using assms
  by (auto simp: inference_profile_def normalizeQuestion_def normalizeChoice_def normalizeScore_def
      normalizeNoul_def Let_def split: Question.splits option.splits)

text \<open>The facts about one row that the formatting needs.\<close>

definition row_ready :: "preparedItem \<Rightarrow> bool" where
  "row_ready it \<longleftrightarrow>
     (let q = pi_question it
      in prepared_ok q \<and> 0 \<le> pq_qtype q \<and> pq_qtype q < 3 \<and> length (pq_options q) \<le> 1024 \<and>
         length (pi_markerPositions it) = length (pq_options q))"

lemma effectiveLimit_le: "effectiveLimit m opts \<le> pp_MaxLen (mf_Preprocessing m)"
  by (simp add: effectiveLimit_def Let_def)

lemma batch_rows_ready:
  assumes profile: "inference_profile m" and b: "prepareInferenceBatch state qs m tok opts = Ok b"
  shows "list_all2 (\<lambda>q it. normalizeQuestion q m = Ok (pi_question it) \<and> validateQuestion q = None \<and>
      row_ready it \<and> item_ok (tk_SpecialTokens (mf_Tokenizer m)) (effectiveLimit m opts) (Truncation opts)
        (length (pq_options (pi_question it))) it) qs (pb_items b)"
proof -
  from b obtain encode stext items where valid: "validateQuestions qs = Ok ()"
    and items: "list_all2 (\<lambda>q it. \<exists>pq. normalizeQuestion q m = Ok pq \<and>
          prepareItem stext pq m encode (effectiveLimit m opts) (Truncation opts) = Ok it) qs items"
    and bi: "pb_items b = items"
    by (rule prepareInferenceBatch_Ok) (simp add: collatePrepared_def Let_def)
  have nonneg: "0 \<le> pp_OptionMaxLen (mf_Preprocessing m)"
    and max: "effectiveLimit m opts \<le> 1024"
    using profile effectiveLimit_le [of m opts] by (auto simp: inference_profile_def)
  show ?thesis
    unfolding bi
  proof (rule list_all2_all_nthI)
    show len: "length qs = length items" using items by (rule list_all2_lengthD)
    fix n assume n: "n < length qs"
    from items n obtain pq where pq: "normalizeQuestion (qs ! n) m = Ok pq"
      and it: "prepareItem stext pq m encode (effectiveLimit m opts) (Truncation opts) = Ok (items ! n)"
      by (auto simp: list_all2_conv_all_nth)
    have vn: "validateQuestion (qs ! n) = None"
      using valid n by (simp add: validateQuestions_Ok_iff list_all_length)
    from prepareItem_item_ok [OF nonneg it]
    have ok: "item_ok (tk_SpecialTokens (mf_Tokenizer m)) (effectiveLimit m opts) (Truncation opts) (length (pq_options pq)) (items ! n)"
      and q: "pi_question (items ! n) = pq" by auto
    have "length (pq_options pq) \<le> 1024" using markers_bounded [OF ok] max by simp
    then have "row_ready (items ! n)"
      using ok normalizeQuestion_ok [OF vn pq] normalized_qtype [OF profile pq]
      by (simp add: row_ready_def q item_ok_def)
    with pq ok vn show "normalizeQuestion (qs ! n) m = Ok (pi_question (items ! n)) \<and> validateQuestion (qs ! n) = None \<and>
        row_ready (items ! n) \<and> item_ok (tk_SpecialTokens (mf_Tokenizer m)) (effectiveLimit m opts) (Truncation opts)
          (length (pq_options (pi_question (items ! n)))) (items ! n)"
      by (simp add: q)
  qed
qed

subsection \<open>Raw outputs\<close>

lemma raw_row_error_None:
  "raw_row_error k l a = None \<longleftrightarrow>
     length l = k \<and> length a = 2 \<and> list_all isFinite l \<and> list_all isFinite a"
  by (auto simp: raw_row_error_def list_ex_iff list_all_iff)

lemma raw_rows_loop_None:
  "raw_rows_loop k rows = None \<longleftrightarrow> list_all (\<lambda>(l, a). raw_row_error k l a = None) rows"
  by (induction k rows rule: raw_rows_loop.induct) (auto split: option.splits)

lemma validateRawOutputs_Ok_iff:
  assumes "pb_markerPos b \<noteq> []" and "pb_items b \<noteq> []"
  shows "validateRawOutputs b out = Ok u \<longleftrightarrow>
     length (ro_logits out) = length (pb_items b) \<and> length (ro_actionLogits out) = length (pb_items b) \<and>
     (\<forall>i<length (pb_items b). length (ro_logits out ! i) = length (hd (pb_markerPos b)) \<and>
        length (ro_actionLogits out ! i) = 2 \<and> list_all isFinite (ro_logits out ! i) \<and>
        list_all isFinite (ro_actionLogits out ! i))"
  using assms
  by (auto simp: validateRawOutputs_def Let_def index_at_def hd_conv_nth ok_simps check_then_Ok_iff
      raw_rows_loop_None raw_row_error_None list_all_length)

lemma validateRawOutputs_no_panic:
  assumes "pb_items b \<noteq> [] \<longrightarrow> pb_markerPos b \<noteq> []"
  shows "validateRawOutputs b out \<noteq> Panic"
  using assms by (auto simp: validateRawOutputs_def Let_def index_at_def res_panic_iffs)

subsection \<open>Rows\<close>

lemma slice_of_logits:
  assumes "n \<le> length row" and "list_all f32_value row" and "list_all isFinite row"
  shows "slice_to (int n) row = Ok (take n row)" and "list_all logit_ok (take n row)"
    and "length (take n row) = n"
  using assms by (auto simp: slice_to_def list_all_iff intro: finite_f32_logit dest: in_set_takeD)

lemma format_row_Ok:
  assumes laws: "exp_laws mexp" "log_laws mlog" and cal: "calibration_ok lo hi c" "1 / 2 \<le> lo"
    and it: "row_ready it" and i: "i < length (ro_logits out)" "i < length (ro_actionLogits out)"
    and row: "length (pq_options (pi_question it)) \<le> length (ro_logits out ! i)" "list_all isFinite (ro_logits out ! i)"
    and act: "length (ro_actionLogits out ! i) = 2" "list_all isFinite (ro_actionLogits out ! i)"
    and f32: "f32_outputs out"
  shows "\<exists>r. format_row mexp mlog out c (i, it) = Ok r \<and> result_for (pi_question it) r"
proof -
  let ?q = "pi_question it" and ?l = "take (length (pq_options (pi_question it))) (ro_logits out ! i)"
  have f: "list_all f32_value (ro_logits out ! i)" "list_all f32_value (ro_actionLogits out ! i)"
    using f32 i by (simp_all add: f32_outputs_def list_all_length)
  note l = slice_of_logits [OF row(1) f(1) row(2)]
  have a: "list_all logit_ok (ro_actionLogits out ! i)"
    using f(2) act(2) by (auto simp: list_all_iff intro: finite_f32_logit)
  have q: "prepared_ok ?q" "0 \<le> pq_qtype ?q" "pq_qtype ?q < 3" "length (pq_options ?q) \<le> 1024"
    using it by (simp_all add: row_ready_def Let_def)
  obtain d where d: "deriveOutputRow mexp mlog ?q ?l (ro_actionLogits out ! i) c = Ok d" "row_derived ?q d"
    using deriveOutputRow_Ok [OF laws cal q l(2,3) a act(1)] by blast
  obtain r where r: "resultFromDerivation ?q d = Ok r" "result_for ?q r"
    using resultFromDerivation_Ok [OF q(1,4) d(2)] by blast
  have "format_row mexp mlog out c (i, it) = Ok r"
    using i by (simp add: format_row_def index_at_Ok l(1) d(1) r(1) del: take_map)
  with r(2) show ?thesis by blast
qed

lemma map_length_eq: "map f xs = map g ys \<Longrightarrow> length xs = length ys"
  by (metis length_map)

lemma criteria_match_map:
  assumes "map cp_CriterionID ps = map crit_ID cs"
  shows "length ps = length cs" and "criteria_match ps cs = Ok ()"
  using assms map_length_eq [OF assms] criteria_match_Ok_iff by blast+

lemma rubric_match_map:
  assumes "map sp_Label ds = map lvl_Label ls"
  shows "length ds = length ls" and "rubric_match ds ls = Ok ()"
  using assms map_length_eq [OF assms] rubric_match_Ok_iff by blast+

lemmas match_intros = criteria_match_map rubric_match_map

text \<open>A result for a normalised question answers the question it came from.\<close>

lemma result_for_answers:
  assumes v: "validateQuestion q = None" and n: "normalizeQuestion q m = Ok pq" and r: "result_for pq r"
  shows "validateResultForQuestion r q = Ok ()" and "Result_QuestionID r = Question_ID q"
proof -
  show "Result_QuestionID r = Question_ID q"
    using r normalizeQuestion_ok(2) [OF v n] by (simp add: result_for_def)
  show "validateResultForQuestion r q = Ok ()"
  proof (cases q)
    case (ChoiceQ c)
    with n r show ?thesis
      by (auto simp: result_for_def normalizeQuestion_def normalizeChoice_def validateResultForQuestion_def
          validateChoiceResultForQuestion_def choiceResult_def match_intros)
  next
    case (ChoiceQPtr p)
    with v n r show ?thesis
      by (auto simp: result_for_def normalizeQuestion_def normalizeChoice_def validateResultForQuestion_def validateQuestion_def
          validateChoiceResultForQuestion_def choiceResult_def match_intros split: option.splits)
  next
    case (ScoreQ s)
    with n r show ?thesis
      by (auto simp: result_for_def normalizeQuestion_def normalizeScore_def validateResultForQuestion_def
          validateScoreResultForQuestion_def scoreResult_def match_intros)
  next
    case (ScoreQPtr p)
    with v n r show ?thesis
      by (auto simp: result_for_def normalizeQuestion_def normalizeScore_def validateResultForQuestion_def validateQuestion_def
          validateScoreResultForQuestion_def scoreResult_def match_intros split: option.splits)
  qed (use v n r in \<open>auto simp: result_for_def normalizeQuestion_def normalizeNoul_def validateResultForQuestion_def
      validateQuestion_def noulResult_def split: option.splits\<close>)
qed

lemma results_match_Ok:
  "list_all2 (\<lambda>q r. (\<exists>i. Question_ID q = Ok i \<and> Result_QuestionID r = Ok i) \<and> validateResultForQuestion r q = Ok ()) qs rs
    \<Longrightarrow> results_match rs qs = Ok ()"
  by (induction rs qs rule: results_match.induct) (auto simp: list_all2_Cons2)

subsection \<open>Token totals\<close>

lemma truncation_totals:
  assumes "\<forall>it\<in>set items. int (length (pi_inputIDs it)) \<le> pi_originalTokens it \<and>
      (pi_truncated it \<longleftrightarrow> int (length (pi_inputIDs it)) < pi_originalTokens it)"
  shows "(if list_ex pi_truncated items
     then (\<Sum>it\<leftarrow>items. int (length (pi_inputIDs it))) < (\<Sum>it\<leftarrow>items. pi_originalTokens it)
     else (\<Sum>it\<leftarrow>items. int (length (pi_inputIDs it))) = (\<Sum>it\<leftarrow>items. pi_originalTokens it))"
  using assms by (induction items) (auto split: if_splits)

lemma token_sum_nonneg: "0 \<le> (\<Sum>it\<leftarrow>items. int (length (pi_inputIDs it)))"
  by (induction items) simp_all

lemma batch_truncation_valid:
  assumes "\<forall>it\<in>set items. int (length (pi_inputIDs it)) \<le> pi_originalTokens it \<and>
      (pi_truncated it \<longleftrightarrow> int (length (pi_inputIDs it)) < pi_originalTokens it)"
  shows "validateTruncation (pb_truncation (collatePrepared items pad)) = Ok ()"
  using truncation_totals [OF assms] token_sum_nonneg [of items]
  by (auto simp: validateTruncation_Ok_iff collatePrepared_def Let_def split: if_splits)

subsection \<open>Properties\<close>

lemma batch_is_collated:
  "prepareInferenceBatch state qs m tok opts = Ok b \<Longrightarrow>
     b = collatePrepared (pb_items b) (tok_Pad (tk_SpecialTokens (mf_Tokenizer m)))"
  by (erule prepareInferenceBatch_Ok) (simp add: collatePrepared_def Let_def)

lemma formatted_rows:
  assumes laws: "exp_laws mexp" "log_laws mlog" and cal: "calibration_ok lo hi c" "1 / 2 \<le> lo"
    and profile: "inference_profile m" and b: "prepareInferenceBatch state qs m tok opts = Ok b"
    and f32: "f32_outputs out" and raw: "validateRawOutputs b out = Ok ()"
  obtains rs where "res_map (format_row mexp mlog out c) (indexed (pb_items b)) = Ok rs"
    and "list_all2 (\<lambda>it r. result_for (pi_question it) r) (pb_items b) rs"
proof -
  note ready = batch_rows_ready [OF profile b]
  have nonneg: "0 \<le> pp_OptionMaxLen (mf_Preprocessing m)" using profile by (simp add: inference_profile_def)
  note items = batch_items_nonempty [OF nonneg b]
  have rows: "row_ready (pb_items b ! i)" if "i < length (pb_items b)" for i
    using ready that by (simp add: list_all2_conv_all_nth)
  note dims = batch_dimensions [OF items(1,3,4)]
  have mp: "pb_markerPos b \<noteq> []" using dims(5) items(3) by auto
  have width: "length (hd (pb_markerPos b)) = maxLength (map pi_markerPositions (pb_items b))"
    using dims(3) mp by (cases "pb_markerPos b") auto
  note ok = raw [unfolded validateRawOutputs_Ok_iff [OF mp items(3)] width]
  have each: "\<exists>r. format_row mexp mlog out c (i, pb_items b ! i) = Ok r \<and> result_for (pi_question (pb_items b ! i)) r"
    if i: "i < length (pb_items b)" for i
  proof (rule format_row_Ok [OF laws cal rows [OF i] _ _ _ _ _ _ f32])
    have "length (pi_markerPositions (pb_items b ! i)) \<le> maxLength (map pi_markerPositions (pb_items b))"
      using i by (intro maxLength_ge) auto
    then show "length (pq_options (pi_question (pb_items b ! i))) \<le> length (ro_logits out ! i)"
      using rows [OF i] ok i by (simp add: row_ready_def Let_def)
  qed (use ok i in auto)
  then obtain f where f: "\<And>i. i < length (pb_items b) \<Longrightarrow>
      format_row mexp mlog out c (i, pb_items b ! i) = Ok (f i) \<and> result_for (pi_question (pb_items b ! i)) (f i)"
    by metis
  show ?thesis
    by (rule that [of "map f [0..<length (pb_items b)]"])
      (use f in \<open>auto simp: res_map_Ok_iff list_all2_conv_all_nth nth_enumerate_eq\<close>)
qed

lemma formatted_prediction:
  assumes profile: "inference_profile m" and b: "prepareInferenceBatch state qs m tok opts = Ok b"
    and rs: "list_all2 (\<lambda>it r. result_for (pi_question it) r) (pb_items b) rs"
  fixes metadata :: PredictionMetadata
  defines "p \<equiv> \<lparr>pr_results = rs, pr_usage = pb_usage b, pr_metadata = metadata\<lparr>pm_Truncation := pb_truncation b\<rparr>\<rparr>"
  shows "Prediction_validate p = Ok ()" and "validatePredictionForQuestions p qs = Ok ()"
proof -
  note ready = batch_rows_ready [OF profile b]
  obtain valid: "validateQuestions qs = Ok ()" using b by (rule prepareInferenceBatch_Ok)
  have pair: "validateResult (rs ! i) = Ok () \<and> validateResultForQuestion (rs ! i) (qs ! i) = Ok () \<and>
      (\<exists>k. Question_ID (qs ! i) = Ok k \<and> Result_QuestionID (rs ! i) = Ok k)" if i: "i < length qs" for i
  proof -
    have n: "normalizeQuestion (qs ! i) m = Ok (pi_question (pb_items b ! i))" "validateQuestion (qs ! i) = None"
      using ready i by (simp_all add: list_all2_conv_all_nth)
    have r: "result_for (pi_question (pb_items b ! i)) (rs ! i)"
      using rs ready i by (auto simp: list_all2_conv_all_nth)
    from result_for_answers [OF n(2,1) r] r show ?thesis by (auto simp: result_for_def)
  qed
  have len: "length rs = length qs" using rs ready by (auto dest!: list_all2_lengthD)
  have keys: "map result_key rs = map question_key qs"
  proof (rule nth_equalityI)
    fix i assume "i < length (map result_key rs)"
    then show "map result_key rs ! i = map question_key qs ! i"
      using pair [of i] len by (auto simp: result_key_def question_key_def)
  qed (simp add: len)
  have "validateTruncation (pb_truncation b) = Ok ()"
    by (subst batch_is_collated [OF b], rule batch_truncation_valid)
      (use ready in \<open>auto simp: list_all2_conv_all_nth in_set_conv_nth item_ok_def\<close>)
  moreover have "0 \<le> InputTokens (pb_usage b)" "0 \<le> OutputTokens (pb_usage b)"
    by (subst batch_is_collated [OF b], simp add: collatePrepared_def Let_def token_sum_nonneg)+
  ultimately show valid_p: "Prediction_validate p = Ok ()"
    using valid pair len keys
    by (auto simp: p_def Prediction_validate_Ok_iff validateQuestions_Ok_iff list_all_length)
  have "results_match rs qs = Ok ()"
    using pair len by (intro results_match_Ok) (auto simp: list_all2_conv_all_nth)
  with valid_p len show "validatePredictionForQuestions p qs = Ok ()"
    by (simp add: validatePredictionForQuestions_def p_def)
qed

lemma formatted_total:
  assumes "exp_laws mexp" and "log_laws mlog" and "calibration_ok lo hi c" and "1 / 2 \<le> lo"
    and "inference_profile m" and "prepareInferenceBatch state qs m tok opts = Ok b" and "f32_outputs out"
  shows "(case formatInferencePrediction mexp mlog b out c metadata of
       Ok p \<Rightarrow> validateRawOutputs b out = Ok () \<and> validatePredictionForQuestions p qs = Ok () \<and>
         list_all2 answers qs (pr_results p) \<and> pr_usage p = pb_usage b \<and>
         pr_metadata p = metadata\<lparr>pm_Truncation := pb_truncation b\<rparr>
     | Err e \<Rightarrow> validateRawOutputs b out = Err e
     | Panic \<Rightarrow> False)"
proof (cases "validateRawOutputs b out")
  case (Ok u)
  then have raw: "validateRawOutputs b out = Ok ()" by simp
  obtain rs where rs: "res_map (format_row mexp mlog out c) (indexed (pb_items b)) = Ok rs"
    "list_all2 (\<lambda>it r. result_for (pi_question it) r) (pb_items b) rs"
    by (rule formatted_rows [OF assms(1-7) raw])
  note p = formatted_prediction [OF assms(5,6) rs(2), of metadata]
  show ?thesis
    using validatePrediction_answers [OF p(2)] p raw
    by (simp add: formatInferencePrediction_def rs(1) NewPrediction_def)
next
  case Panic
  have "0 \<le> pp_OptionMaxLen (mf_Preprocessing m)" using assms(5) by (simp add: inference_profile_def)
  note items = batch_items_nonempty [OF this assms(6)]
  have "pb_markerPos b \<noteq> []" using batch_dimensions(5) [OF items(1,3,4)] items(3) by auto
  then show ?thesis using validateRawOutputs_no_panic [of b out] Panic by blast
qed (simp add: formatInferencePrediction_def)

text \<open>
  C2: The whole inference path is total and right: for a supported manifest, a calibration
  clamped to at least a half and any \<open>float32\<close> model outputs, formatting a prepared batch never
  panics, fails only with the error of the raw output validation, and otherwise returns a
  prediction that answers the questions in order, passes every check of \<open>Model.Predict\<close>, and
  carries the token usage and truncation of the batch. Rounding errors never make it invalid.
\<close>

theorem inference_end_to_end:
  assumes "exp_laws mexp" and "log_laws mlog" and "calibration_ok lo hi c" and "1 / 2 \<le> lo"
    and "inference_profile m" and "prepareInferenceBatch state qs m tok opts = Ok b" and "f32_outputs out"
  shows "(case formatInferencePrediction mexp mlog b out c metadata of
       Ok p \<Rightarrow> validateRawOutputs b out = Ok () \<and> validatePredictionForQuestions p qs = Ok () \<and>
         list_all2 answers qs (pr_results p) \<and> pr_usage p = pb_usage b \<and>
         pr_metadata p = metadata\<lparr>pm_Truncation := pb_truncation b\<rparr>
     | Err e \<Rightarrow> validateRawOutputs b out = Err e
     | Panic \<Rightarrow> False)"
  by (rule formatted_total [OF assms])

definition sample_calibration :: calibrationConfig where
  "sample_calibration = \<lparr>cc_byQType = (let v = \<lparr>cv_raw = JNumber ''1'', cv_effective = Fin 1\<rparr> in [v, v, v]),
     cc_byOptions = (\<lambda>b. None)\<rparr>"

definition sample_outputs :: rawModelOutputs where
  "sample_outputs = \<lparr>ro_logits = [[Fin 3, Fin 1]], ro_actionLogits = [[Fin 0, Fin 2]]\<rparr>"

definition sample_metadata :: PredictionMetadata where
  "sample_metadata = \<lparr>pm_ModelID = ''m'', pm_BundleID = ''b'', pm_RuntimeID = ''r'',
     pm_Truncation = \<lparr>Truncated = False, OriginalInputTokens = 0, EffectiveInputTokens = 0\<rparr>\<rparr>"

lemma sample_inference:
  "calibration_ok 1 1 sample_calibration" "inference_profile (sample_manifest 4)" "f32_outputs sample_outputs"
  by (simp_all add: Let_def calibration_ok_def sample_calibration_def temperature_in_def inference_profile_def
      sample_manifest_def f32_outputs_def sample_outputs_def f32_value_def power_int_def)

theorem inference_end_to_end_witness:
  "\<exists>b p. prepareInferenceBatch (TextState ''hello'') [ChoiceQ sample_choice] (sample_manifest 4)
      (Some byte_tokenizer) (sample_options RejectOverflow) = Ok b \<and>
    formatInferencePrediction step_exp step_log b sample_outputs sample_calibration sample_metadata = Ok p \<and>
    validatePredictionForQuestions p [ChoiceQ sample_choice] = Ok ()"
proof -
  let ?r = "prepareInferenceBatch (TextState ''hello'') [ChoiceQ sample_choice] (sample_manifest 4)
      (Some byte_tokenizer) (sample_options RejectOverflow)"
  have "is_Ok ?r" by code_simp
  then obtain b where b: "?r = Ok b" by (rule is_OkE)
  have "case ?r of Ok b \<Rightarrow> validateRawOutputs b sample_outputs = Ok () | _ \<Rightarrow> False" by code_simp
  then have raw: "validateRawOutputs b sample_outputs = Ok ()" by (simp add: b)
  have half: "1 / 2 \<le> (1 :: rat)" by simp
  from inference_end_to_end [OF step_laws sample_inference(1) half sample_inference(2) b sample_inference(3),
      of sample_metadata] b raw
  show ?thesis by (auto split: res.splits)
qed

end
