(* ===== verification/Laya_Coordinator.thy ===== *)
theory Laya_Coordinator
  imports Laya_Context
begin

text \<open>
  \<open>native_lifecycle.go\<close>: the coordinator that shares one process-wide ONNX Runtime between
  leases. The environment behind the interface \<open>nativeEnvironment\<close> answers freely; what the
  coordinator asks of it is the list of calls an operation returns, in order.
\<close>

subsection \<open>Operations\<close>

record envKey =
  ek_libraryPath :: string
  ek_librarySHA256 :: string

definition empty_key :: envKey where
  "empty_key = \<lparr>ek_libraryPath = '''', ek_librarySHA256 = ''''\<rparr>"

record coordinator =
  co_environment :: "nat option"
  co_key :: envKey
  co_leases :: int
  co_cleanupPending :: bool

definition zero_coordinator :: coordinator where
  "zero_coordinator = \<lparr>co_environment = None, co_key = empty_key, co_leases = 0, co_cleanupPending = False\<rparr>"

text \<open>Calls of the environment with the given number; \<open>True\<close> if it returned no error.\<close>

datatype env_call =
    SetSharedLibraryPath nat string
  | Initialize nat bool
  | Version nat
  | Destroy nat bool

definition nativeONNXRuntimeVersion :: string where
  "nativeONNXRuntimeVersion = ''1.29.0''"

text \<open>What the environment answers to the calls of one \<open>acquire\<close>.\<close>

record env_reply =
  er_retry :: "go_error option"
  er_initialize :: "go_error option"
  er_version :: string
  er_destroy :: "go_error option"

text \<open>The part of \<open>acquire\<close> that retries a pending cleanup.\<close>

definition retry_cleanup :: "env_reply \<Rightarrow> coordinator \<Rightarrow> unit res \<times> coordinator \<times> env_call list" where
  "retry_cleanup reply c =
     (if \<not> co_cleanupPending c then (Ok (), c, [])
      else if co_leases c > 0 then (Err (wrap ErrNativeFailure ''cleanup must be retried by its owner''), c, [])
      else case co_environment c of
             None \<Rightarrow> (Panic, c, [])
           | Some env \<Rightarrow>
               (case er_retry reply of
                  Some e \<Rightarrow> (Err (newInferenceStageError (Sentinel ErrNativeFailure) ''retry ONNX Runtime cleanup'' (Some e)),
                            c, [Destroy env False])
                | None \<Rightarrow> (Ok (), c\<lparr>co_environment := None, co_key := empty_key, co_cleanupPending := False\<rparr>,
                          [Destroy env True])))"

text \<open>The first lease: initialise the environment and check its version.\<close>

definition start_environment ::
  "envKey \<Rightarrow> nat \<Rightarrow> env_reply \<Rightarrow> coordinator \<Rightarrow> unit res \<times> coordinator \<times> env_call list" where
  "start_environment key env reply c =
     (case er_initialize reply of
        Some e \<Rightarrow> (Err (newInferenceStageError (Sentinel ErrNativeUnavailable) ''initialize ONNX Runtime'' (Some e)), c,
                  [SetSharedLibraryPath env (ek_libraryPath key), Initialize env False])
      | None \<Rightarrow>
          if er_version reply \<noteq> nativeONNXRuntimeVersion
          then (let cause = Opaque ''runtime version mismatch'';
                    calls = [SetSharedLibraryPath env (ek_libraryPath key), Initialize env True, Version env,
                             Destroy env (er_destroy reply = None)]
                in case er_destroy reply of
                     None \<Rightarrow> (Err (newInferenceStageError (Sentinel ErrNativeUnavailable)
                               ''validate ONNX Runtime version'' (Some cause)), c, calls)
                   | Some e \<Rightarrow> (Err (newInferenceStageError (Sentinel ErrNativeUnavailable)
                               ''validate ONNX Runtime version'' (errors_join [Some cause, Some e])),
                        c\<lparr>co_environment := Some env, co_key := key, co_cleanupPending := True\<rparr>, calls))
          else (Ok (), c\<lparr>co_environment := Some env, co_key := key, co_leases := 1\<rparr>,
                [SetSharedLibraryPath env (ek_libraryPath key), Initialize env True, Version env]))"

text \<open>
  \<open>nativeCoordinator.acquire\<close>; \<open>late\<close> is the context's error once the mutex is held, and
  \<open>Ok ()\<close> returns a new lease of this coordinator.
\<close>

definition coordinator_acquire ::
  "go_ctx \<Rightarrow> go_error option \<Rightarrow> envKey \<Rightarrow> nat option \<Rightarrow> env_reply \<Rightarrow> coordinator
   \<Rightarrow> unit res \<times> coordinator \<times> env_call list" where
  "coordinator_acquire ctx late key environment reply c =
     (case validateContext ctx of Some e \<Rightarrow> (Err e, c, [])
      | None \<Rightarrow>
     (case environment of None \<Rightarrow> (Err (wrap ErrInvalidConfig ''configuration is incomplete''), c, [])
      | Some env \<Rightarrow>
          if ek_libraryPath key = '''' \<or> ek_librarySHA256 key = ''''
          then (Err (wrap ErrInvalidConfig ''configuration is incomplete''), c, [])
          else case late of Some e \<Rightarrow> (Err e, c, [])
          | None \<Rightarrow>
              (case retry_cleanup reply c of
                 (Err e, c', calls) \<Rightarrow> (Err e, c', calls)
               | (Panic, c', calls) \<Rightarrow> (Panic, c', calls)
               | (Ok u, c', calls) \<Rightarrow>
                   if co_leases c' > 0
                   then (if co_key c' \<noteq> key
                         then (Err (wrap ErrInvalidConfig ''already initialized with different local artifact''), c', calls)
                         else (Ok (), c'\<lparr>co_leases := co_leases c' + 1\<rparr>, calls))
                   else (case start_environment key env reply c' of
                           (r, c'', calls') \<Rightarrow> (r, c'', calls @ calls')))))"

text \<open>\<open>nativeLease.close\<close> on a lease of this coordinator; the first boolean is \<open>released\<close>.\<close>

definition lease_close ::
  "go_ctx \<Rightarrow> go_error option \<Rightarrow> go_error option \<Rightarrow> bool \<Rightarrow> coordinator
   \<Rightarrow> unit res \<times> bool \<times> coordinator \<times> env_call list" where
  "lease_close ctx late destroy released c =
     (case validateContext ctx of Some e \<Rightarrow> (Err e, released, c, [])
      | None \<Rightarrow>
          if released then (Ok (), released, c, [])
          else case late of Some e \<Rightarrow> (Err e, released, c, [])
          | None \<Rightarrow>
              if co_leases c \<le> 0 then (Err (wrap ErrInvalidState ''no active leases''), released, c, [])
              else if co_leases c > 1 then (Ok (), True, c\<lparr>co_leases := co_leases c - 1\<rparr>, [])
              else case co_environment c of
                     None \<Rightarrow> (Panic, released, c, [])
                   | Some env \<Rightarrow>
                       (case destroy of
                          Some e \<Rightarrow> (Err (newInferenceStageError (Sentinel ErrNativeFailure) ''destroy ONNX Runtime'' (Some e)),
                                    released, c\<lparr>co_cleanupPending := True\<rparr>, [Destroy env False])
                        | None \<Rightarrow> (Ok (), True, zero_coordinator, [Destroy env True])))"

subsection \<open>The coordinator and its leases\<close>

text \<open>
  Leases are numbered as they are handed out; \<open>cs_held\<close> are those not released, with the key
  each was acquired for. \<open>cs_up\<close> are the environments initialised and not destroyed, and
  \<open>cs_misuse\<close> records a call on an environment in the wrong state.
\<close>

record coord_system =
  cs_co :: coordinator
  cs_next :: nat
  cs_held :: "(nat \<times> envKey) list"
  cs_up :: "nat set"
  cs_misuse :: bool
  cs_panic :: bool

definition coord_init :: coord_system where
  "coord_init = \<lparr>cs_co = zero_coordinator, cs_next = 0, cs_held = [], cs_up = {}, cs_misuse = False, cs_panic = False\<rparr>"

fun env_effect :: "env_call \<Rightarrow> coord_system \<Rightarrow> coord_system" where
  "env_effect (Initialize e ok) s =
     s\<lparr>cs_up := (if ok then insert e (cs_up s) else cs_up s), cs_misuse := cs_misuse s \<or> cs_up s \<noteq> {}\<rparr>"
| "env_effect (Destroy e ok) s =
     s\<lparr>cs_up := (if ok then cs_up s - {e} else cs_up s), cs_misuse := cs_misuse s \<or> e \<notin> cs_up s\<rparr>"
| "env_effect (SetSharedLibraryPath e p) s = s\<lparr>cs_misuse := cs_misuse s \<or> cs_up s \<noteq> {}\<rparr>"
| "env_effect (Version e) s = s\<lparr>cs_misuse := cs_misuse s \<or> e \<notin> cs_up s\<rparr>"

definition env_effects :: "env_call list \<Rightarrow> coord_system \<Rightarrow> coord_system" where
  "env_effects calls s = fold env_effect calls s"

definition after_coord_acquire :: "envKey \<Rightarrow> unit res \<times> coordinator \<times> env_call list \<Rightarrow> coord_system \<Rightarrow> coord_system" where
  "after_coord_acquire key out s =
     (case out of (r, c, calls) \<Rightarrow>
        (let s' = (env_effects calls s)\<lparr>cs_co := c\<rparr>
         in case r of
              Ok u \<Rightarrow> s'\<lparr>cs_held := (cs_next s, key) # cs_held s, cs_next := Suc (cs_next s)\<rparr>
            | Err e \<Rightarrow> s'
            | Panic \<Rightarrow> s'\<lparr>cs_panic := True\<rparr>))"

definition after_lease_close :: "nat \<Rightarrow> unit res \<times> bool \<times> coordinator \<times> env_call list \<Rightarrow> coord_system \<Rightarrow> coord_system" where
  "after_lease_close l out s =
     (case out of (r, released, c, calls) \<Rightarrow>
        (let s' = (env_effects calls s)\<lparr>cs_co := c\<rparr>
         in s'\<lparr>cs_held := (if released then filter (\<lambda>h. fst h \<noteq> l) (cs_held s) else cs_held s),
               cs_panic := cs_panic s \<or> r = Panic\<rparr>))"

inductive coord_step :: "coord_system \<Rightarrow> coord_system \<Rightarrow> bool" where
  coord_acquire:
    "\<not> cs_panic s \<Longrightarrow> coord_step s
       (after_coord_acquire key (coordinator_acquire ctx late key environment reply (cs_co s)) s)"
| coord_close:
    "\<not> cs_panic s \<Longrightarrow> l < cs_next s \<Longrightarrow> coord_step s
       (after_lease_close l (lease_close ctx late destroy (l \<notin> fst ` set (cs_held s)) (cs_co s)) s)"

inductive_cases coord_stepE: "coord_step s s'"

subsection \<open>Invariant\<close>

definition coord_inv :: "coord_system \<Rightarrow> bool" where
  "coord_inv s \<longleftrightarrow>
     (let c = cs_co s in
      \<not> cs_panic s \<and> \<not> cs_misuse s \<and>
      distinct (map fst (cs_held s)) \<and> fst ` set (cs_held s) \<subseteq> {..<cs_next s} \<and>
      co_leases c = int (length (cs_held s)) \<and>
      cs_up s = (case co_environment c of None \<Rightarrow> {} | Some e \<Rightarrow> {e}) \<and>
      (co_environment c \<noteq> None \<longleftrightarrow> co_leases c > 0 \<or> co_cleanupPending c) \<and>
      (co_cleanupPending c \<longrightarrow> co_leases c \<le> 1) \<and>
      (\<forall>h\<in>set (cs_held s). snd h = co_key c))"

lemma coord_inv_init: "coord_inv coord_init"
  by (simp add: coord_inv_def coord_init_def zero_coordinator_def)

subsection \<open>Preservation\<close>

lemma env_effect_co: "env_effect a (s\<lparr>cs_co := c\<rparr>) = (env_effect a s)\<lparr>cs_co := c\<rparr>"
  by (cases a) simp_all

lemma env_effects_co: "env_effects calls (s\<lparr>cs_co := c\<rparr>) = (env_effects calls s)\<lparr>cs_co := c\<rparr>"
  by (induction calls arbitrary: s) (simp_all add: env_effects_def env_effect_co)

lemma env_effects_simps [simp]:
  "env_effects [] s = s" "env_effects (a # calls) s = env_effects calls (env_effect a s)"
  by (simp_all add: env_effects_def)

lemma env_effect_frame [simp]:
  "cs_co (env_effect a s) = cs_co s" "cs_next (env_effect a s) = cs_next s"
  "cs_held (env_effect a s) = cs_held s" "cs_panic (env_effect a s) = cs_panic s"
  by (cases a; simp)+

lemma env_effects_frame [simp]:
  "cs_co (env_effects calls s) = cs_co s" "cs_next (env_effects calls s) = cs_next s"
  "cs_held (env_effects calls s) = cs_held s" "cs_panic (env_effects calls s) = cs_panic s"
  by (induction calls arbitrary: s) simp_all

lemma env_effects_append: "env_effects (xs @ ys) s = env_effects ys (env_effects xs s)"
  by (simp add: env_effects_def)

text \<open>The calls of an acquire may be split at an intermediate coordinator.\<close>

lemma after_acquire_split:
  "after_coord_acquire key (r, c, calls @ calls') s =
     after_coord_acquire key (r, c, calls') ((env_effects calls s)\<lparr>cs_co := c'\<rparr>)"
  by (simp add: after_coord_acquire_def env_effects_append env_effects_co Let_def split: res.split)

lemma after_acquire_unchanged [simp]: "after_coord_acquire key (Err e, cs_co s, []) s = s"
  by (simp add: after_coord_acquire_def Let_def)

lemma coord_inv_retry:
  assumes inv: "coord_inv s" and r: "retry_cleanup reply (cs_co s) = (r, c, calls)"
  shows "coord_inv ((env_effects calls s)\<lparr>cs_co := c\<rparr>)" and "r \<noteq> Panic"
    and "r = Ok u \<Longrightarrow> \<not> co_cleanupPending c" and "r = Err e \<Longrightarrow> co_leases c = co_leases (cs_co s)"
proof -
  have all: "coord_inv ((env_effects calls s)\<lparr>cs_co := c\<rparr>) \<and> r \<noteq> Panic \<and> (r = Ok u \<longrightarrow> \<not> co_cleanupPending c) \<and>
      (r = Err e \<longrightarrow> co_leases c = co_leases (cs_co s))"
  proof (cases "co_cleanupPending (cs_co s) \<and> \<not> co_leases (cs_co s) > 0")
    case False
    with inv r show ?thesis by (auto simp: retry_cleanup_def split: if_splits)
  next
    case True
    then obtain env where env: "co_environment (cs_co s) = Some env"
      using inv by (auto simp: coord_inv_def Let_def)
    show ?thesis
    proof (cases "er_retry reply")
      case None
      with True env r have "r = Ok ()" "calls = [Destroy env True]"
        "c = (cs_co s)\<lparr>co_environment := None, co_key := empty_key, co_cleanupPending := False\<rparr>"
        by (simp_all add: retry_cleanup_def)
      with True env inv show ?thesis by (auto simp: coord_inv_def Let_def)
    next
      case (Some x)
      with True env r have "calls = [Destroy env False]" "c = cs_co s" "\<exists>x. r = Err x"
        by (auto simp: retry_cleanup_def)
      with True env inv show ?thesis by (auto simp: coord_inv_def Let_def)
    qed
  qed
  then show "coord_inv ((env_effects calls s)\<lparr>cs_co := c\<rparr>)" "r \<noteq> Panic" by blast+
  show "r = Ok u \<Longrightarrow> \<not> co_cleanupPending c" "r = Err e \<Longrightarrow> co_leases c = co_leases (cs_co s)"
    using all by blast+
qed

lemma coord_inv_start:
  assumes inv: "coord_inv s" and fresh: "co_leases (cs_co s) = 0" "\<not> co_cleanupPending (cs_co s)"
  shows "coord_inv (after_coord_acquire key (start_environment key env reply (cs_co s)) s)"
proof -
  have down: "co_environment (cs_co s) = None" "cs_up s = {}" "cs_held s = []" "\<not> cs_misuse s" "\<not> cs_panic s"
    using inv fresh by (auto simp: coord_inv_def Let_def)
  show ?thesis
  proof (cases "er_initialize reply")
    case (Some e)
    with inv down show ?thesis
      by (simp add: start_environment_def after_coord_acquire_def coord_inv_def Let_def)
  next
    case None
    show ?thesis
    proof (cases "er_version reply = nativeONNXRuntimeVersion")
      case True
      with None down show ?thesis
        by (simp add: start_environment_def after_coord_acquire_def coord_inv_def fresh Let_def)
    next
      case False
      with None down fresh inv show ?thesis
        by (cases "er_destroy reply")
          (simp_all add: start_environment_def after_coord_acquire_def coord_inv_def Let_def)
    qed
  qed
qed

lemma coord_inv_acquire:
  assumes inv: "coord_inv s"
  shows "coord_inv (after_coord_acquire key (coordinator_acquire ctx late key environment reply (cs_co s)) s)"
proof (cases "validateContext ctx = None \<and> environment \<noteq> None \<and> ek_libraryPath key \<noteq> '''' \<and>
    ek_librarySHA256 key \<noteq> '''' \<and> late = None")
  case False
  then have "\<exists>e. coordinator_acquire ctx late key environment reply (cs_co s) = (Err e, cs_co s, [])"
    by (auto simp: coordinator_acquire_def split: option.split)
  with inv show ?thesis by auto
next
  case True
  then obtain env where env: "environment = Some env" by blast
  obtain r c calls where rt: "retry_cleanup reply (cs_co s) = (r, c, calls)" by (cases "retry_cleanup reply (cs_co s)")
  note k = coord_inv_retry [OF inv rt]
  let ?s1 = "(env_effects calls s)\<lparr>cs_co := c\<rparr>"
  show ?thesis
  proof (cases r)
    case (Err e)
    with True env rt have "coordinator_acquire ctx late key environment reply (cs_co s) = (Err e, c, calls)"
      by (simp add: coordinator_acquire_def)
    with k(1) show ?thesis by (simp add: after_coord_acquire_def Let_def)
  next
    case (Ok u)
    then have idle: "\<not> co_cleanupPending c" using k(3) by simp
    show ?thesis
    proof (cases "co_leases c > 0")
      case False
      then have zero: "co_leases c = 0" using k(1) by (simp add: coord_inv_def Let_def)
      obtain r2 c2 calls2 where st: "start_environment key env reply c = (r2, c2, calls2)"
        by (cases "start_environment key env reply c")
      with True env rt Ok False have "coordinator_acquire ctx late key environment reply (cs_co s) = (r2, c2, calls @ calls2)"
        by (simp add: coordinator_acquire_def)
      with coord_inv_start [OF k(1), of key env reply] zero idle st show ?thesis
        by (simp add: after_acquire_split [where c' = c])
    next
      case live: True
      show ?thesis
      proof (cases "co_key c = key")
        case False
        then have "\<exists>e. coordinator_acquire ctx late key environment reply (cs_co s) = (Err e, c, calls)"
          using True env rt Ok live by (simp add: coordinator_acquire_def)
        with k(1) show ?thesis by (auto simp: after_coord_acquire_def Let_def)
      next
        case same: True
        then have eq: "coordinator_acquire ctx late key environment reply (cs_co s) =
            (Ok (), c\<lparr>co_leases := co_leases c + 1\<rparr>, calls)"
          using True env rt Ok live by (simp add: coordinator_acquire_def)
        show ?thesis
          using k(1) idle live same unfolding eq
          by (auto simp: after_coord_acquire_def coord_inv_def Let_def less_Suc_eq)
      qed
    qed
  qed (use k(2) in simp)
qed

lemma length_filter_key:
  assumes "distinct (map fst xs)" and "l \<in> fst ` set xs"
  shows "length xs = Suc (length (filter (\<lambda>h. fst h \<noteq> l) xs))"
  using assms
proof (induction xs)
  case (Cons x xs)
  show ?case
  proof (cases "fst x = l")
    case True
    have "l \<notin> fst ` set xs" using Cons.prems(1) True by simp
    then have "\<forall>h\<in>set xs. fst h \<noteq> l" by (metis image_eqI)
    then have "filter (\<lambda>h. fst h \<noteq> l) xs = xs" by (simp add: filter_id_conv)
    with True show ?thesis by simp
  qed (use Cons in auto)
qed simp

lemma coord_inv_close:
  assumes inv: "coord_inv s" and l: "l < cs_next s"
  shows "coord_inv (after_lease_close l (lease_close ctx late destroy (l \<notin> fst ` set (cs_held s)) (cs_co s)) s)"
proof (cases "validateContext ctx = None \<and> l \<in> fst ` set (cs_held s) \<and> late = None")
  case False
  have keep: "filter (\<lambda>h. fst h \<noteq> l) (cs_held s) = cs_held s" if "l \<notin> fst ` set (cs_held s)"
    using that by (auto simp: filter_id_conv)
  from False have "\<exists>r. lease_close ctx late destroy (l \<notin> fst ` set (cs_held s)) (cs_co s) =
      (r, l \<notin> fst ` set (cs_held s), cs_co s, []) \<and> r \<noteq> Panic"
    by (auto simp: lease_close_def split: option.splits)
  then have "after_lease_close l (lease_close ctx late destroy (l \<notin> fst ` set (cs_held s)) (cs_co s)) s = s"
    using inv keep by (auto simp: after_lease_close_def Let_def coord_inv_def)
  with inv show ?thesis by simp
next
  case True
  then have len: "length (cs_held s) = Suc (length (filter (\<lambda>h. fst h \<noteq> l) (cs_held s)))"
    using inv by (intro length_filter_key) (auto simp: coord_inv_def Let_def)
  then have pos: "co_leases (cs_co s) > 0" using inv by (simp add: coord_inv_def Let_def)
  then obtain env where env: "co_environment (cs_co s) = Some env" using inv by (auto simp: coord_inv_def Let_def)
  have dist: "distinct (map fst (filter (\<lambda>h. fst h \<noteq> l) (cs_held s)))"
    using inv by (auto simp: coord_inv_def Let_def distinct_map_filter)
  show ?thesis
  proof (cases "co_leases (cs_co s) > 1")
    case more: True
    then have "lease_close ctx late destroy (l \<notin> fst ` set (cs_held s)) (cs_co s) =
        (Ok (), True, (cs_co s)\<lparr>co_leases := co_leases (cs_co s) - 1\<rparr>, [])"
      using True by (simp add: lease_close_def)
    with inv dist len more show ?thesis
      by (auto simp: after_lease_close_def coord_inv_def Let_def)
  next
    case False
    then have one: "filter (\<lambda>h. fst h \<noteq> l) (cs_held s) = []" "co_leases (cs_co s) = 1"
      using len inv pos by (auto simp: coord_inv_def Let_def)
    show ?thesis
    proof (cases destroy)
      case None
      then have "lease_close ctx late destroy (l \<notin> fst ` set (cs_held s)) (cs_co s) =
          (Ok (), True, zero_coordinator, [Destroy env True])"
        using True one env by (simp add: lease_close_def)
      with inv one env show ?thesis
        by (auto simp: after_lease_close_def coord_inv_def zero_coordinator_def Let_def)
    next
      case (Some e)
      then obtain x where eq: "lease_close ctx late destroy (l \<notin> fst ` set (cs_held s)) (cs_co s) =
          (Err x, False, (cs_co s)\<lparr>co_cleanupPending := True\<rparr>, [Destroy env False])"
        using True one env by (simp add: lease_close_def)
      show ?thesis
        unfolding eq using inv one env by (simp add: after_lease_close_def coord_inv_def Let_def)
    qed
  qed
qed

interpretation coordinator_steps: step_invariant "\<lambda>_ :: unit. coord_init" coord_step coord_inv
  by unfold_locales (auto intro: coord_inv_init coord_inv_acquire coord_inv_close elim!: coord_stepE)

subsection \<open>Properties\<close>

definition sample_key :: envKey where
  "sample_key = \<lparr>ek_libraryPath = ''/lib'', ek_librarySHA256 = ''ab''\<rparr>"

definition good_reply :: env_reply where
  "good_reply = \<lparr>er_retry = None, er_initialize = None, er_version = nativeONNXRuntimeVersion, er_destroy = None\<rparr>"

definition leased :: "coord_system \<Rightarrow> coord_system" where
  "leased s = after_coord_acquire sample_key
     (coordinator_acquire (Ctx None) None sample_key (Some 7) good_reply (cs_co s)) s"

lemmas coord_eval = leased_def coord_init_def zero_coordinator_def after_coord_acquire_def coordinator_acquire_def
  retry_cleanup_def start_environment_def sample_key_def good_reply_def Let_def

lemma leased_reachable: "coord_step\<^sup>*\<^sup>* coord_init (leased (leased coord_init))"
proof -
  have "coord_step coord_init (leased coord_init)"
    unfolding leased_def by (rule coord_acquire) (simp add: coord_init_def)
  moreover have "coord_step (leased coord_init) (leased (leased coord_init))"
    unfolding leased_def [of "leased coord_init"] by (rule coord_acquire) (simp add: coord_eval)
  ultimately show ?thesis by (meson converse_rtranclp_into_rtranclp rtranclp.rtrancl_refl)
qed

lemma leased_held: "cs_held (leased (leased coord_init)) = [(1, sample_key), (0, sample_key)]"
  by (simp add: coord_eval)

text \<open>
  C18: The lease count is right and the environment follows it. In every reachable state of the
  coordinator: no nil environment was dereferenced, and no environment was initialised,
  configured or destroyed in the wrong state; the count is the number of leases handed out and
  not released; while any lease is held exactly one environment is initialised, the
  coordinator's own, and every holder asked for its key; and an environment that outlives its
  leases is marked for cleanup.
\<close>

theorem coordinator_counts_leases:
  assumes "coord_step\<^sup>*\<^sup>* coord_init s"
  shows "\<not> cs_panic s \<and> \<not> cs_misuse s \<and> co_leases (cs_co s) = int (length (cs_held s)) \<and>
    (cs_held s \<noteq> [] \<longrightarrow> (\<exists>e. co_environment (cs_co s) = Some e \<and> cs_up s = {e})) \<and>
    (\<forall>h\<in>set (cs_held s). snd h = co_key (cs_co s)) \<and>
    (cs_up s \<noteq> {} \<longrightarrow> cs_held s \<noteq> [] \<or> co_cleanupPending (cs_co s))"
proof -
  have inv: "coord_inv s" using assms by (rule coordinator_steps.reachable_inv)
  have "\<exists>e. co_environment (cs_co s) = Some e \<and> cs_up s = {e}" if "cs_held s \<noteq> []"
    using inv that by (auto simp: coord_inv_def Let_def)
  moreover have "cs_held s \<noteq> [] \<or> co_cleanupPending (cs_co s)" if "cs_up s \<noteq> {}"
    using inv that by (auto simp: coord_inv_def Let_def split: option.splits)
  ultimately show ?thesis using inv unfolding coord_inv_def Let_def by blast
qed

theorem coordinator_counts_leases_witness:
  "co_leases (cs_co (leased (leased coord_init))) = 2 \<and> cs_up (leased (leased coord_init)) = {7}"
proof -
  have env: "co_environment (cs_co (leased (leased coord_init))) = Some 7" by (simp add: coord_eval)
  with coordinator_counts_leases [OF leased_reachable] leased_held show ?thesis by auto
qed

text \<open>
  Closing a lease with a live context, in every reachable state. A released lease is closed
  again without effect; a lease that is not the last one is released without touching the
  environment; the last one destroys it, and if that fails the lease is still held, the
  environment still initialised and a later close may retry.
\<close>

theorem lease_close_outcomes:
  assumes "coord_step\<^sup>*\<^sup>* coord_init s"
    and "lease_close (Ctx None) None destroy (l \<notin> fst ` set (cs_held s)) (cs_co s) = out"
  defines "s' \<equiv> after_lease_close l out s"
  shows "if l \<notin> fst ` set (cs_held s) then fst out = Ok () \<and> snd (snd (snd out)) = [] \<and> cs_co s' = cs_co s
    else if length (cs_held s) > 1 then
      fst out = Ok () \<and> snd (snd (snd out)) = [] \<and> l \<notin> fst ` set (cs_held s') \<and> cs_up s' = cs_up s
    else case destroy of
      None \<Rightarrow> fst out = Ok () \<and> cs_held s' = [] \<and> cs_up s' = {} \<and> cs_co s' = zero_coordinator
    | Some e \<Rightarrow> (\<exists>x. fst out = Err x \<and> errors_is x ErrNativeFailure) \<and> cs_held s' = cs_held s \<and> cs_up s' = cs_up s \<and>
        co_cleanupPending (cs_co s')"
proof -
  have inv: "coord_inv s" using assms(1) by (rule coordinator_steps.reachable_inv)
  note out = assms(2) [symmetric]
  have leases: "co_leases (cs_co s) = int (length (cs_held s))" using inv by (simp add: coord_inv_def Let_def)
  have up: "co_environment (cs_co s) = Some e \<Longrightarrow> cs_up s = {e}" for e
    using inv by (auto simp: coord_inv_def Let_def)
  show ?thesis
  proof (cases "l \<in> fst ` set (cs_held s)")
    case False
    then show ?thesis by (simp add: out s'_def lease_close_def after_lease_close_def Let_def)
  next
    case held: True
    show ?thesis
    proof (cases "length (cs_held s) > 1")
      case True
      with held leases show ?thesis
        by (auto simp: out s'_def lease_close_def after_lease_close_def Let_def)
    next
      case False
      then have one: "length (cs_held s) = 1" using held by (cases "cs_held s") auto
      then have "cs_held s \<noteq> []" and lone: "co_leases (cs_co s) = 1" using leases by auto
      then obtain e where e: "co_environment (cs_co s) = Some e" using inv by (auto simp: coord_inv_def Let_def)
      have only: "filter (\<lambda>h. fst h \<noteq> l) (cs_held s) = []"
        using one held by (cases "cs_held s") auto
      show ?thesis
        using held one lone e up [OF e] only
        by (cases destroy) (simp_all add: out s'_def lease_close_def after_lease_close_def Let_def)
    qed
  qed
qed

theorem lease_close_outcomes_witness:
  "cs_up (after_lease_close 0 (lease_close (Ctx None) None None False (cs_co (leased (leased coord_init))))
     (leased (leased coord_init))) = {7}"
proof -
  have up: "cs_up (leased (leased coord_init)) = {7}" by (simp add: coord_eval)
  have "0 \<in> fst ` set (cs_held (leased (leased coord_init)))" "length (cs_held (leased (leased coord_init))) > 1"
    by (simp_all add: leased_held)
  with lease_close_outcomes [where l = 0 and destroy = None, OF leased_reachable refl] up show ?thesis by simp
qed

end
