(* ===== verification/Laya_Native.thy ===== *)
theory Laya_Native
  imports Laya_Pipeline Laya_Coordinator
begin

text \<open>
  \<open>native_lifecycle.go\<close>: the engine of a Runtime and of a Model over native resources. The
  bundle source, the tokenizer and the session are third-party or modelled elsewhere; the
  replies of their calls are arguments, and the operations return, beside their results, the
  resources they opened and closed, in order.
\<close>

subsection \<open>Error categories\<close>

definition sourceErrorCategory :: "go_error \<Rightarrow> sentinel" where
  "sourceErrorCategory err =
     (if errors_is err ErrUnsupportedSource then ErrUnsupportedSource
      else if errors_is err ErrUnsupportedBundle then ErrUnsupportedBundle
      else if errors_is err ErrIntegrity then ErrIntegrity
      else if errors_is err ErrMaterialization then ErrMaterialization
      else if errors_is err ErrSourceClosed then ErrInvalidState
      else ErrInvalidBundle)"

fun first_category :: "go_error \<Rightarrow> sentinel list \<Rightarrow> sentinel \<Rightarrow> sentinel" where
  "first_category err [] fallback = fallback"
| "first_category err (c # cs) fallback = (if errors_is err c then c else first_category err cs fallback)"

definition errorCategory :: "go_error \<Rightarrow> sentinel \<Rightarrow> sentinel" where
  "errorCategory err fallback =
     first_category err [CtxCanceled, CtxDeadlineExceeded, ErrUnsupportedSource, ErrUnsupportedBundle,
       ErrIntegrity, ErrMaterialization, ErrInvalidBundle, ErrInvalidConfig] fallback"

definition nativeSourceError :: "go_error option \<Rightarrow> string \<Rightarrow> go_error \<Rightarrow> go_error" where
  "nativeSourceError ctxErr stage err =
     (case ctxErr of
        Some c \<Rightarrow> newInferenceStageError c stage (errors_join [Some c, Some err])
      | None \<Rightarrow> newInferenceStageError (Sentinel (sourceErrorCategory err)) stage (Some err))"

subsection \<open>Opening a model\<close>

datatype resource = SourceRes | TokenizerRes | SessionRes

datatype res_call = Opened resource | Released resource "go_error option"

text \<open>The close of a resource that is not nil, and its reply.\<close>

definition close_present :: "resource \<Rightarrow> bool \<Rightarrow> go_error option \<Rightarrow> res_call list" where
  "close_present r present reply = (if present then [Released r reply] else [])"

fun reply_of :: "res_call \<Rightarrow> go_error option" where
  "reply_of (Opened r) = None"
| "reply_of (Released r e) = e"

record close_replies =
  cl_session :: "go_error option"
  cl_tokenizer :: "go_error option"
  cl_source :: "go_error option"

definition nativeOpenFailure ::
  "go_error \<Rightarrow> string \<Rightarrow> go_error \<Rightarrow> bool \<Rightarrow> bool \<Rightarrow> bool \<Rightarrow> close_replies \<Rightarrow> go_error \<times> res_call list" where
  "nativeOpenFailure category stage cause session tokenizer source cl =
     (let calls = close_present SessionRes session (cl_session cl) @
                  close_present TokenizerRes tokenizer (cl_tokenizer cl) @
                  close_present SourceRes source (cl_source cl)
      in (newInferenceStageError category stage (errors_join (Some cause # map reply_of calls)), calls))"

record open_replies =
  or_readFile :: "go_error + string"
  or_ctx1 :: "go_error option"
  or_tokenizerPath :: "go_error + string"
  or_tokenizer :: "go_error + tokenizer"
  or_ctx2 :: "go_error option"
  or_modelPath :: "go_error + string"
  or_session :: "go_error option"
  or_ctx3 :: "go_error option"
  or_close :: close_replies

record modelEngine =
  me_source :: bool
  me_tokenizer :: "tokenizer option"
  me_session :: bool
  me_manifest :: Manifest
  me_calibration :: calibrationConfig
  me_modelOpts :: ModelOptions
  me_runtimeID :: string
  me_closed :: bool

definition tensorNamesFromManifest :: "TensorDescriptor list \<Rightarrow> string list" where
  "tensorNamesFromManifest ds = map td_Name ds"

definition open_failed :: "go_error \<times> res_call list \<Rightarrow> res_call list \<Rightarrow> modelEngine res \<times> res_call list" where
  "open_failed failure opened = (Err (fst failure), opened @ snd failure)"

text \<open>\<open>parse\<close> is \<open>parseCalibrationConfig\<close>; the source is nil or already open.\<close>

definition openVerified ::
  "(Manifest \<Rightarrow> string \<Rightarrow> calibrationConfig res) \<Rightarrow> bool \<Rightarrow> Manifest \<Rightarrow> open_replies \<Rightarrow> ModelOptions \<Rightarrow> string
   \<Rightarrow> modelEngine res \<times> res_call list" where
  "openVerified parse source m r opts runtimeID =
     (if \<not> source then (Err (wrap ErrInvalidState ''verified bundle source is nil''), [])
      else
     (case or_readFile r of Inl err \<Rightarrow> open_failed (nativeOpenFailure (Sentinel (sourceErrorCategory err))
         ''read calibration config'' err False False True (or_close r)) []
      | Inr calibrationBytes \<Rightarrow>
     (case parse m calibrationBytes of Panic \<Rightarrow> (Panic, [])
      | Err err \<Rightarrow> open_failed (nativeOpenFailure (Sentinel (errorCategory err ErrInvalidBundle))
         ''parse calibration config'' err False False True (or_close r)) []
      | Ok calibration \<Rightarrow>
     (case or_ctx1 r of Some err \<Rightarrow> open_failed (nativeOpenFailure err
         ''cancel model open'' err False False True (or_close r)) []
      | None \<Rightarrow>
     (case or_tokenizerPath r of Inl err \<Rightarrow> open_failed (nativeOpenFailure (Sentinel (sourceErrorCategory err))
         ''resolve tokenizer path'' err False False True (or_close r)) []
      | Inr tokenizerPath \<Rightarrow>
     (case or_tokenizer r of Inl err \<Rightarrow> open_failed (nativeOpenFailure (Sentinel ErrNativeFailure)
         ''open local tokenizer'' err False False True (or_close r)) []
      | Inr tok \<Rightarrow>
     (case or_ctx2 r of Some err \<Rightarrow> open_failed (nativeOpenFailure err
         ''cancel model open'' err False True True (or_close r)) [Opened TokenizerRes]
      | None \<Rightarrow>
     (case or_modelPath r of Inl err \<Rightarrow> open_failed (nativeOpenFailure (Sentinel (sourceErrorCategory err))
         ''resolve model path'' err False True True (or_close r)) [Opened TokenizerRes]
      | Inr modelPath \<Rightarrow>
     (case or_session r of Some err \<Rightarrow> open_failed (nativeOpenFailure (Sentinel ErrNativeFailure)
         ''open ONNX session'' err False True True (or_close r)) [Opened TokenizerRes]
      | None \<Rightarrow>
     (case or_ctx3 r of Some err \<Rightarrow> open_failed (nativeOpenFailure err
         ''cancel model open'' err True True True (or_close r)) [Opened TokenizerRes, Opened SessionRes]
      | None \<Rightarrow>
         (Ok \<lparr>me_source = True, me_tokenizer = Some tok, me_session = True, me_manifest = m,
              me_calibration = calibration, me_modelOpts = opts, me_runtimeID = runtimeID, me_closed = False\<rparr>,
          [Opened TokenizerRes, Opened SessionRes])))))))))))"

subsection \<open>The runtime engine\<close>

record runtimeEngine =
  re_factory :: bool
  re_lease :: "nat option"
  re_runtimeID :: string
  re_closed :: bool

text \<open>
  \<open>OpenModelDir\<close> and \<open>OpenModelFS\<close> differ only in the source they open and the stage they
  name; the reply is the error, or whether the source is non-nil with its manifest.
\<close>

definition engine_open ::
  "string \<Rightarrow> (Manifest \<Rightarrow> string \<Rightarrow> calibrationConfig res) \<Rightarrow> go_ctx \<Rightarrow> go_error option \<Rightarrow> runtimeEngine option
   \<Rightarrow> go_error + (bool \<times> Manifest) \<Rightarrow> open_replies \<Rightarrow> ModelOptions \<Rightarrow> modelEngine res \<times> res_call list" where
  "engine_open stage parse ctx late engine source r opts =
     (case validateContext ctx of Some e \<Rightarrow> (Err e, [])
      | None \<Rightarrow>
     (case engine of None \<Rightarrow> (Err (wrap ErrInvalidState ''native runtime is not initialized''), [])
      | Some e \<Rightarrow>
          if \<not> re_factory e then (Err (wrap ErrInvalidState ''native runtime is not initialized''), [])
          else if re_closed e then (Err (Sentinel ErrInvalidState), [])
          else (case source of
                  Inl err \<Rightarrow> (Err (nativeSourceError late stage err), [])
                | Inr (present, m) \<Rightarrow>
                    (case openVerified parse present m r opts (re_runtimeID e) of
                       (x, calls) \<Rightarrow> (x, (if present then [Opened SourceRes] else []) @ calls)))))"

definition engine_OpenModelDir ::
  "(Manifest \<Rightarrow> string \<Rightarrow> calibrationConfig res) \<Rightarrow> go_ctx \<Rightarrow> go_error option \<Rightarrow> runtimeEngine option
   \<Rightarrow> go_error + (bool \<times> Manifest) \<Rightarrow> open_replies \<Rightarrow> ModelOptions \<Rightarrow> modelEngine res \<times> res_call list" where
  "engine_OpenModelDir = engine_open ''open directory source''"

definition engine_OpenModelFS ::
  "(Manifest \<Rightarrow> string \<Rightarrow> calibrationConfig res) \<Rightarrow> go_ctx \<Rightarrow> go_error option \<Rightarrow> runtimeEngine option
   \<Rightarrow> go_error + (bool \<times> Manifest) \<Rightarrow> open_replies \<Rightarrow> FSModelOptions \<Rightarrow> modelEngine res \<times> res_call list" where
  "engine_OpenModelFS parse ctx late engine source r opts =
     engine_open ''open filesystem source'' parse ctx late engine source r (fso_ModelOptions opts)"

text \<open>\<open>leaseClose\<close> is the outcome of \<open>nativeLease.close\<close>.\<close>

definition engine_Close :: "go_ctx \<Rightarrow> unit res \<Rightarrow> runtimeEngine option \<Rightarrow> unit res \<times> runtimeEngine option" where
  "engine_Close ctx leaseClose engine =
     (case validateContext ctx of Some x \<Rightarrow> (Err x, engine)
      | None \<Rightarrow>
     (case engine of None \<Rightarrow> (Err (wrap ErrInvalidState ''native runtime is nil''), None)
      | Some e \<Rightarrow>
          if re_closed e then (Ok (), engine)
          else case re_lease e of
                 None \<Rightarrow> (Err (wrap ErrInvalidState ''native runtime has no environment lease''), engine)
               | Some l \<Rightarrow>
                   (case leaseClose of
                      Err x \<Rightarrow> (Err x, engine)
                    | Panic \<Rightarrow> (Panic, engine)
                    | Ok u \<Rightarrow> (Ok (), Some (e\<lparr>re_closed := True, re_lease := None\<rparr>)))))"

subsection \<open>The model engine\<close>

text \<open>
  The context is read at entry and after each stage; \<open>run\<close> is the session. A failed run is
  reported by what the context, the error and their order say.
\<close>

record predict_ctx =
  pc_entry :: go_ctx
  pc_prepared :: "go_error option"
  pc_run :: "go_error option"
  pc_done :: "go_error option"

definition run_failure :: "go_error option \<Rightarrow> go_error \<Rightarrow> go_error" where
  "run_failure contextErr err =
     (case contextErr of
        Some c \<Rightarrow> newInferenceStageError c ''cancel inference'' (errors_join [Some c, Some err])
      | None \<Rightarrow>
          if errors_is err ErrInvalidOutput
          then newInferenceStageError (Sentinel ErrInvalidOutput) ''validate ONNX outputs'' (Some err)
          else newInferenceStageError (Sentinel ErrNativeFailure) ''run ONNX session'' (Some err))"

definition engine_Predict ::
  "(f64 \<Rightarrow> f64) \<Rightarrow> (f64 \<Rightarrow> f64) \<Rightarrow> predict_ctx \<Rightarrow> (preparedBatch \<Rightarrow> rawModelOutputs res) \<Rightarrow> modelEngine option
   \<Rightarrow> State \<Rightarrow> Question list \<Rightarrow> Prediction res" where
  "engine_Predict mexp mlog ctx run engine state questions =
     check_then (validateContext (pc_entry ctx))
     (case engine of None \<Rightarrow> Err (wrap ErrInvalidState ''native model is nil'')
      | Some e \<Rightarrow>
          if me_closed e then Err (Sentinel ErrModelClosed)
          else if me_tokenizer e = None \<or> \<not> me_session e
            then Err (wrap ErrInvalidState ''native model resources are incomplete'')
          else res_bind (prepareInferenceBatch state questions (me_manifest e) (me_tokenizer e) (me_modelOpts e)) (\<lambda>batch.
               check_then (pc_prepared ctx)
                 (case run batch of
                    Panic \<Rightarrow> Panic
                  | Err err \<Rightarrow> Err (run_failure (pc_run ctx) err)
                  | Ok outputs \<Rightarrow>
                      check_then (pc_done ctx)
                        (formatInferencePrediction mexp mlog batch outputs (me_calibration e)
                          \<lparr>pm_ModelID = bi_ID (mf_Bundle (me_manifest e)), pm_BundleID = mf_id (me_manifest e),
                           pm_RuntimeID = me_runtimeID e,
                           pm_Truncation = \<lparr>Truncated = False, OriginalInputTokens = 0, EffectiveInputTokens = 0\<rparr>\<rparr>))))"

text \<open>
  \<open>Close\<close> releases the session, the tokenizer and the source in that order, and stops at the
  first failure or when the context ends; what is released is forgotten.
\<close>

definition close_source :: "close_replies \<Rightarrow> modelEngine \<Rightarrow> go_error option \<times> modelEngine \<times> res_call list" where
  "close_source cl e =
     (let calls = close_present SourceRes (me_source e) (cl_source cl)
      in case (if me_source e then cl_source cl else None) of
           Some x \<Rightarrow> (Some (newInferenceStageError (Sentinel ErrMaterialization) ''close model source'' (Some x)), e, calls)
         | None \<Rightarrow> (None, e\<lparr>me_source := False, me_closed := True\<rparr>, calls))"

definition close_tokenizer ::
  "go_error option \<Rightarrow> close_replies \<Rightarrow> modelEngine \<Rightarrow> go_error option \<times> modelEngine \<times> res_call list" where
  "close_tokenizer late cl e =
     (let calls = close_present TokenizerRes (me_tokenizer e \<noteq> None) (cl_tokenizer cl)
      in case (if me_tokenizer e \<noteq> None then cl_tokenizer cl else None) of
           Some x \<Rightarrow> (Some (newInferenceStageError (Sentinel ErrNativeFailure) ''close tokenizer'' (Some x)), e, calls)
         | None \<Rightarrow>
             (let e' = e\<lparr>me_tokenizer := None\<rparr>
              in case late of Some x \<Rightarrow> (Some x, e', calls)
                 | None \<Rightarrow> (case close_source cl e' of (r, e'', calls') \<Rightarrow> (r, e'', calls @ calls'))))"

definition close_session ::
  "go_error option \<Rightarrow> go_error option \<Rightarrow> close_replies \<Rightarrow> modelEngine
   \<Rightarrow> go_error option \<times> modelEngine \<times> res_call list" where
  "close_session late1 late2 cl e =
     (let calls = close_present SessionRes (me_session e) (cl_session cl)
      in case (if me_session e then cl_session cl else None) of
           Some x \<Rightarrow> (Some (newInferenceStageError (Sentinel ErrNativeFailure) ''close ONNX session'' (Some x)), e, calls)
         | None \<Rightarrow>
             (let e' = e\<lparr>me_session := False\<rparr>
              in case late1 of Some x \<Rightarrow> (Some x, e', calls)
                 | None \<Rightarrow> (case close_tokenizer late2 cl e' of (r, e'', calls') \<Rightarrow> (r, e'', calls @ calls'))))"

definition engine_Close_model ::
  "go_ctx \<Rightarrow> go_error option \<Rightarrow> go_error option \<Rightarrow> close_replies \<Rightarrow> modelEngine option
   \<Rightarrow> go_error option \<times> modelEngine option \<times> res_call list" where
  "engine_Close_model ctx late1 late2 cl engine =
     (case validateContext ctx of Some x \<Rightarrow> (Some x, engine, [])
      | None \<Rightarrow>
     (case engine of None \<Rightarrow> (Some (wrap ErrInvalidState ''native model is nil''), None, [])
      | Some e \<Rightarrow>
          if me_closed e then (None, engine, [])
          else (case close_session late1 late2 cl e of (r, e', calls) \<Rightarrow> (r, Some e', calls))))"

subsection \<open>Opening releases what it opened\<close>

definition close_reply :: "close_replies \<Rightarrow> resource \<Rightarrow> go_error option" where
  "close_reply cl r = (case r of SourceRes \<Rightarrow> cl_source cl | TokenizerRes \<Rightarrow> cl_tokenizer cl | SessionRes \<Rightarrow> cl_session cl)"

text \<open>A failed open: what it had opened, and every resource closed again, the last opened first.\<close>

definition undone :: "close_replies \<Rightarrow> res_call list \<Rightarrow> bool" where
  "undone cl calls \<longleftrightarrow>
     (\<exists>k. let opened = take k [TokenizerRes, SessionRes]
          in calls = map Opened opened @ map (\<lambda>r. Released r (close_reply cl r)) (rev (SourceRes # opened)))"

definition reports_replies :: "go_error \<Rightarrow> res_call list \<Rightarrow> bool" where
  "reports_replies x calls \<longleftrightarrow> (\<forall>c e t. c \<in> set calls \<longrightarrow> reply_of c = Some e \<longrightarrow> errors_is e t \<longrightarrow> errors_is x t)"

lemma reports_joined:
  assumes "\<And>e. Some e \<in> reply_of ` set calls \<Longrightarrow> Some e \<in> set es"
  shows "reports_replies (newInferenceStageError cat stage (errors_join es)) calls"
  unfolding reports_replies_def newInferenceStageError_is errors_join_is using assms by force

lemma open_failed_undone:
  "open_failed (nativeOpenFailure cat stage cause False False True cl) [] = (Err x, calls) \<Longrightarrow> undone cl calls \<and> reports_replies x calls"
  "open_failed (nativeOpenFailure cat stage cause False True True cl) [Opened TokenizerRes] = (Err x, calls)
     \<Longrightarrow> undone cl calls \<and> reports_replies x calls"
  "open_failed (nativeOpenFailure cat stage cause True True True cl) [Opened TokenizerRes, Opened SessionRes] = (Err x, calls)
     \<Longrightarrow> undone cl calls \<and> reports_replies x calls"
proof -
  note eval = open_failed_def nativeOpenFailure_def close_present_def undone_def close_reply_def Let_def
  show "open_failed (nativeOpenFailure cat stage cause False False True cl) [] = (Err x, calls) \<Longrightarrow> undone cl calls \<and> reports_replies x calls"
    by (auto simp: eval intro!: reports_joined exI [of _ 0])
  show "open_failed (nativeOpenFailure cat stage cause False True True cl) [Opened TokenizerRes] = (Err x, calls)
     \<Longrightarrow> undone cl calls \<and> reports_replies x calls"
    by (auto simp: eval intro!: reports_joined exI [of _ 1])
  show "open_failed (nativeOpenFailure cat stage cause True True True cl) [Opened TokenizerRes, Opened SessionRes] = (Err x, calls)
     \<Longrightarrow> undone cl calls \<and> reports_replies x calls"
    by (auto simp: eval intro!: reports_joined exI [of _ 2])
qed

lemma openVerified_cases:
  "case openVerified parse True m r opts rid of (out, calls) \<Rightarrow>
     (case out of
        Ok e \<Rightarrow> calls = [Opened TokenizerRes, Opened SessionRes] \<and> me_source e \<and> me_session e \<and>
          me_tokenizer e \<noteq> None \<and> \<not> me_closed e \<and> me_manifest e = m
      | Err x \<Rightarrow> undone (or_close r) calls \<and> reports_replies x calls
      | Panic \<Rightarrow> \<exists>b. parse m b = Panic)"
proof (cases "\<exists>x calls. openVerified parse True m r opts rid = (Err x, calls)")
  case True
  then obtain x calls where eq: "openVerified parse True m r opts rid = (Err x, calls)" by blast
  then have "undone (or_close r) calls \<and> reports_replies x calls"
    by (auto simp: openVerified_def dest: open_failed_undone split: sum.splits res.splits option.splits)
  with eq show ?thesis by simp
next
  case False
  then show ?thesis
    by (auto simp: openVerified_def open_failed_def split: sum.split res.split option.split)
qed


subsection \<open>Staged closing\<close>

definition held_resources :: "modelEngine \<Rightarrow> resource list" where
  "held_resources e =
     (if me_session e then [SessionRes] else []) @ (if me_tokenizer e \<noteq> None then [TokenizerRes] else []) @
     (if me_source e then [SourceRes] else [])"

fun releases :: "res_call list \<Rightarrow> resource list" where
  "releases [] = []"
| "releases (Released r None # calls) = r # releases calls"
| "releases (c # calls) = releases calls"

lemma releases_append: "releases (xs @ ys) = releases xs @ releases ys"
  by (induction xs rule: releases.induct) simp_all

text \<open>What is still held was opened before what is not; a closed engine holds nothing.\<close>

definition engine_ok :: "modelEngine \<Rightarrow> bool" where
  "engine_ok e \<longleftrightarrow>
     (me_session e \<longrightarrow> me_tokenizer e \<noteq> None) \<and> (me_tokenizer e \<noteq> None \<longrightarrow> me_source e) \<and>
     (me_closed e \<longrightarrow> \<not> me_source e)"

lemma close_source_step:
  assumes "engine_ok e" and "\<not> me_session e" and "me_tokenizer e = None" and "close_source cl e = (r, e', calls)"
  shows "engine_ok e' \<and> held_resources e = releases calls @ held_resources e' \<and> (r = None \<longleftrightarrow> me_closed e') \<or> me_closed e"
  using assms
  by (cases "me_source e"; cases "cl_source cl")
    (auto simp: close_source_def close_present_def engine_ok_def held_resources_def Let_def)

lemma close_tokenizer_step:
  assumes e: "engine_ok e" "\<not> me_session e" "\<not> me_closed e" and c: "close_tokenizer late cl e = (r, e', calls)"
  shows "engine_ok e' \<and> held_resources e = releases calls @ held_resources e' \<and> (r = None \<longleftrightarrow> me_closed e')"
proof (cases "(if me_tokenizer e \<noteq> None then cl_tokenizer cl else None) = None \<and> late = None")
  case False
  with e c show ?thesis
    by (cases "me_tokenizer e"; cases "cl_tokenizer cl"; cases late)
      (auto simp: close_tokenizer_def close_present_def engine_ok_def held_resources_def Let_def)
next
  case True
  let ?e = "e\<lparr>me_tokenizer := None\<rparr>"
  obtain r' e2 calls' where s: "close_source cl ?e = (r', e2, calls')" by (cases "close_source cl ?e")
  have ok: "engine_ok ?e" "\<not> me_session ?e" "me_tokenizer ?e = None" "\<not> me_closed ?e"
    using e by (simp_all add: engine_ok_def)
  have eq: "r = r' \<and> e' = e2 \<and> calls = close_present TokenizerRes (me_tokenizer e \<noteq> None) (cl_tokenizer cl) @ calls'"
    using True c s by (auto simp: close_tokenizer_def Let_def)
  have "held_resources e = releases (close_present TokenizerRes (me_tokenizer e \<noteq> None) (cl_tokenizer cl)) @ held_resources ?e"
    using e True by (auto simp: held_resources_def close_present_def)
  with close_source_step [OF ok(1-3) s] ok(4) eq show ?thesis by (simp add: releases_append)
qed

lemma close_session_step:
  assumes e: "engine_ok e" "\<not> me_closed e" and c: "close_session late1 late2 cl e = (r, e', calls)"
  shows "engine_ok e' \<and> held_resources e = releases calls @ held_resources e' \<and> (r = None \<longleftrightarrow> me_closed e')"
proof (cases "(if me_session e then cl_session cl else None) = None \<and> late1 = None")
  case False
  with e c show ?thesis
    by (cases "me_session e"; cases "cl_session cl"; cases late1)
      (auto simp: close_session_def close_present_def engine_ok_def held_resources_def Let_def)
next
  case True
  let ?e = "e\<lparr>me_session := False\<rparr>"
  obtain r' e2 calls' where s: "close_tokenizer late2 cl ?e = (r', e2, calls')" by (cases "close_tokenizer late2 cl ?e")
  have ok: "engine_ok ?e" "\<not> me_session ?e" "\<not> me_closed ?e" using e by (simp_all add: engine_ok_def)
  have eq: "r = r' \<and> e' = e2 \<and> calls = close_present SessionRes (me_session e) (cl_session cl) @ calls'"
    using True c s by (auto simp: close_session_def Let_def)
  have "held_resources e = releases (close_present SessionRes (me_session e) (cl_session cl)) @ held_resources ?e"
    using True by (auto simp: held_resources_def close_present_def)
  with close_tokenizer_step [OF ok s] eq True show ?thesis by (auto simp: releases_append)
qed

lemma close_model_step:
  assumes e: "engine_ok e" and c: "engine_Close_model ctx late1 late2 cl (Some e) = (r, x, calls)"
  shows "\<exists>e'. x = Some e' \<and> engine_ok e' \<and> held_resources e = releases calls @ held_resources e' \<and>
    (me_closed e' \<longleftrightarrow> r = None \<or> me_closed e)"
proof (cases "ctx = Ctx None \<and> \<not> me_closed e")
  case False
  then have "engine_Close_model ctx late1 late2 cl (Some e) = (None, Some e, []) \<and> me_closed e \<or>
      (\<exists>y. engine_Close_model ctx late1 late2 cl (Some e) = (Some y, Some e, []))"
    by (cases "validateContext ctx") (auto simp: engine_Close_model_def validateContext_None_iff)
  with c e show ?thesis by auto
next
  case True
  obtain r' e' calls' where s: "close_session late1 late2 cl e = (r', e', calls')" by (cases "close_session late1 late2 cl e")
  then have "r = r' \<and> x = Some e' \<and> calls = calls'" using c True by (simp add: engine_Close_model_def)
  with close_session_step [OF e _ s] True show ?thesis by auto
qed

text \<open>Any number of attempts, each with its own context and replies.\<close>

fun close_attempts ::
  "(go_ctx \<times> go_error option \<times> go_error option \<times> close_replies) list \<Rightarrow> modelEngine option
   \<Rightarrow> modelEngine option \<times> res_call list" where
  "close_attempts [] e = (e, [])"
| "close_attempts ((ctx, l1, l2, cl) # rest) e =
     (case engine_Close_model ctx l1 l2 cl e of (r, e', calls) \<Rightarrow>
        (case close_attempts rest e' of (e'', calls') \<Rightarrow> (e'', calls @ calls')))"

text \<open>
  C20: Closing a model engine is staged and can be retried. After any number of attempts, with
  contexts that end and closes that fail at any point, what has been released so far, followed
  by what is still held, is what was held at the start in the order session, tokenizer, source:
  nothing is released twice, out of order or lost, and a closed engine holds nothing.
\<close>

theorem close_attempts_staged:
  assumes "engine_ok e" and "close_attempts attempts (Some e) = (x, calls)"
  shows "\<exists>e'. x = Some e' \<and> engine_ok e' \<and> held_resources e = releases calls @ held_resources e' \<and>
    (me_closed e' \<longrightarrow> held_resources e' = [])"
  using assms
proof (induction attempts arbitrary: e calls)
  case (Cons a attempts)
  obtain ctx l1 l2 cl where a: "a = (ctx, l1, l2, cl)" by (cases a)
  obtain r x1 calls1 where c: "engine_Close_model ctx l1 l2 cl (Some e) = (r, x1, calls1)"
    by (cases "engine_Close_model ctx l1 l2 cl (Some e)")
  from close_model_step [OF Cons.prems(1) c] obtain e1 where
    first: "x1 = Some e1" "engine_ok e1" "held_resources e = releases calls1 @ held_resources e1" by blast
  obtain x2 calls2 where rest: "close_attempts attempts (Some e1) = (x2, calls2)"
    by (cases "close_attempts attempts (Some e1)")
  with Cons.prems(2) c a first have eq: "x = x2" "calls = calls1 @ calls2" by auto
  from Cons.IH [OF first(2) rest [folded eq(1)]] first show ?case by (auto simp: eq(2) releases_append)
qed (auto simp: engine_ok_def held_resources_def)

definition sample_engine :: modelEngine where
  "sample_engine = \<lparr>me_source = True, me_tokenizer = Some byte_tokenizer, me_session = True,
     me_manifest = sample_manifest 4, me_calibration = sample_calibration, me_modelOpts = sample_options RejectOverflow,
     me_runtimeID = ''r'', me_closed = False\<rparr>"

definition replies :: "go_error option \<Rightarrow> close_replies" where
  "replies e = \<lparr>cl_session = None, cl_tokenizer = e, cl_source = None\<rparr>"

theorem close_attempts_staged_witness:
  "\<exists>e' calls. close_attempts [(Ctx None, None, None, replies (Some (Opaque ''busy''))),
       (Ctx None, None, None, replies None)] (Some sample_engine) = (Some e', calls) \<and>
     releases calls = [SessionRes, TokenizerRes, SourceRes] \<and> held_resources e' = []"
proof -
  let ?c = "close_attempts [(Ctx None, None, None, replies (Some (Opaque ''busy''))),
       (Ctx None, None, None, replies None)] (Some sample_engine)"
  obtain x calls where c: "?c = (x, calls)" by (cases ?c)
  have ok: "engine_ok sample_engine" by (simp add: engine_ok_def sample_engine_def)
  have closed: "map_option me_closed (fst ?c) = Some True"
    by (simp add: engine_Close_model_def close_session_def close_tokenizer_def close_source_def close_present_def
        replies_def sample_engine_def Let_def)
  have held: "held_resources sample_engine = [SessionRes, TokenizerRes, SourceRes]"
    by (simp add: held_resources_def sample_engine_def)
  from close_attempts_staged [OF ok c] c closed held show ?thesis by auto
qed

text \<open>
  An attempt with a live context whose closes all succeed ends the engine, from every state
  earlier attempts can leave; closing a closed engine does nothing; and a closed engine
  refuses predictions with \<open>ErrModelClosed\<close>.
\<close>

theorem close_attempt_succeeds:
  assumes "engine_ok e" and "cl = \<lparr>cl_session = None, cl_tokenizer = None, cl_source = None\<rparr>"
  shows "(case engine_Close_model (Ctx None) None None cl (Some e) of (r, x, calls) \<Rightarrow>
       r = None \<and> map_option me_closed x = Some True \<and> releases calls = held_resources e \<and>
       engine_Close_model (Ctx None) l1 l2 cl' x = (None, x, []) \<and>
       engine_Predict mexp mlog ctx run x state qs =
         (case validateContext (pc_entry ctx) of Some y \<Rightarrow> Err y | None \<Rightarrow> Err (Sentinel ErrModelClosed)))"
proof (cases "engine_Close_model (Ctx None) None None cl (Some e)")
  case (fields r x calls)
  have "r = None" using fields assms(2)
    by (auto simp: engine_Close_model_def close_session_def close_tokenizer_def close_source_def Let_def split: if_splits)
  with close_model_step [OF assms(1) fields] obtain e'
    where c: "x = Some e'" "me_closed e'" "engine_ok e'" "held_resources e = releases calls @ held_resources e'" by auto
  then have "held_resources e' = []" by (auto simp: engine_ok_def held_resources_def)
  with c \<open>r = None\<close> fields show ?thesis
    by (cases "validateContext (pc_entry ctx)") (simp_all add: engine_Close_model_def engine_Predict_def)
qed

theorem close_attempt_succeeds_witness:
  "releases (snd (snd (engine_Close_model (Ctx None) None None
     \<lparr>cl_session = None, cl_tokenizer = None, cl_source = None\<rparr> (Some sample_engine)))) =
   [SessionRes, TokenizerRes, SourceRes]"
proof -
  have ok: "engine_ok sample_engine" by (simp add: engine_ok_def sample_engine_def)
  have held: "held_resources sample_engine = [SessionRes, TokenizerRes, SourceRes]"
    by (simp add: held_resources_def sample_engine_def)
  let ?c = "engine_Close_model (Ctx None) None None
     \<lparr>cl_session = None, cl_tokenizer = None, cl_source = None\<rparr> (Some sample_engine)"
  obtain r e' calls where out: "?c = (r, e', calls)" by (cases ?c)
  from close_attempt_succeeds [OF ok refl, of None None "replies None" step_exp step_log undefined undefined undefined undefined]
  show ?thesis by (simp add: out held)
qed

subsection \<open>Predictions of the engine\<close>

lemma validateRawOutputs_error: "validateRawOutputs b out = Err x \<Longrightarrow> errors_is x ErrInvalidOutput"
proof -
  have loop: "raw_rows_loop k rows = Some y \<Longrightarrow> errors_is y ErrInvalidOutput" for k rows y
    by (induction k rows rule: raw_rows_loop.induct) (auto simp: raw_row_error_def split: if_splits)
  show "validateRawOutputs b out = Err x \<Longrightarrow> errors_is x ErrInvalidOutput"
    by (cases "length (pb_items b) > 0"; cases "length (pb_markerPos b) > 0")
      (auto simp: validateRawOutputs_def index_at_def Let_def check_then_def dest: loop split: if_splits option.splits)
qed

lemma engine_Predict_total:
  assumes "exp_laws mexp" and "log_laws mlog" and "calibration_ok lo hi (me_calibration e)" and "1 / 2 \<le> lo"
    and "inference_profile (me_manifest e)" and "me_session e" and "\<not> me_closed e" and "me_tokenizer e \<noteq> None"
    and "\<And>b. case run b of Ok out \<Rightarrow> f32_outputs out | Err x \<Rightarrow> True | Panic \<Rightarrow> False"
  shows "(case engine_Predict mexp mlog ctx run (Some e) state qs of
       Ok p \<Rightarrow> validatePredictionForQuestions p qs = Ok () \<and> list_all2 answers qs (pr_results p) \<and>
         pm_RuntimeID (pr_metadata p) = me_runtimeID e
     | Err x \<Rightarrow> Some x \<in> {validateContext (pc_entry ctx), pc_prepared ctx, pc_done ctx} \<or>
         prepareInferenceBatch state qs (me_manifest e) (me_tokenizer e) (me_modelOpts e) = Err x \<or>
         (\<exists>b y. run b = Err y \<and> x = run_failure (pc_run ctx) y) \<or> errors_is x ErrInvalidOutput
     | Panic \<Rightarrow> False)"
proof (cases "validateContext (pc_entry ctx)")
  case live: None
  have nonneg: "0 \<le> pp_OptionMaxLen (mf_Preprocessing (me_manifest e))" using assms(5) by (simp add: inference_profile_def)
  show ?thesis
  proof (cases "prepareInferenceBatch state qs (me_manifest e) (me_tokenizer e) (me_modelOpts e)")
    case (Ok b)
    show ?thesis
    proof (cases "run b")
      case out: (Ok out)
      have f32: "f32_outputs out" using assms(9) [of b] out by simp
      let ?md = "\<lparr>pm_ModelID = bi_ID (mf_Bundle (me_manifest e)), pm_BundleID = mf_id (me_manifest e),
           pm_RuntimeID = me_runtimeID e,
           pm_Truncation = \<lparr>Truncated = False, OriginalInputTokens = 0, EffectiveInputTokens = 0\<rparr>\<rparr>"
      note f = formatted_total [OF assms(1-5) Ok f32, of ?md]
      have "engine_Predict mexp mlog ctx run (Some e) state qs =
          check_then (pc_prepared ctx) (check_then (pc_done ctx)
            (formatInferencePrediction mexp mlog b out (me_calibration e) ?md))"
        using live assms(6-8) Ok out by (auto simp: engine_Predict_def)
      with f show ?thesis
        by (cases "pc_prepared ctx"; cases "pc_done ctx")
          (auto dest: validateRawOutputs_error split: res.splits)
    next
      case (Err y)
      then have "engine_Predict mexp mlog ctx run (Some e) state qs =
          check_then (pc_prepared ctx) (Err (run_failure (pc_run ctx) y))"
        using live assms(6-8) Ok by (auto simp: engine_Predict_def)
      with Err show ?thesis by (cases "pc_prepared ctx") auto
    qed (use assms(9) [of b] in simp)
  next
    case (Err x)
    then show ?thesis using live assms(6-8) by (auto simp: engine_Predict_def)
  qed (use prepareInferenceBatch_not_Panic [OF nonneg] in simp)
qed (simp add: engine_Predict_def)

text \<open>What an engine that was opened is made of.\<close>

lemma openVerified_Ok:
  assumes "openVerified parse source m r opts rid = (Ok e, calls)"
  shows "\<exists>b. parse m b = Ok (me_calibration e)" "me_manifest e = m" "me_session e" "\<not> me_closed e"
    "me_tokenizer e \<noteq> None" "me_modelOpts e = opts" "me_runtimeID e = rid"
  using assms by (auto simp: openVerified_def open_failed_def split: if_splits sum.splits res.splits option.splits)

text \<open>
  C17: What the native engine predicts is right or an error of a known origin. For an open engine
  over a supported manifest and any session that returns \<open>float32\<close> outputs, \<open>Predict\<close> never
  panics; a prediction it returns passes the checks of \<open>Model.Predict\<close> and answers the
  questions; an error is the context's, the preparation's, the reported failure of the
  session's run, or an \<open>ErrInvalidOutput\<close> of the output validation.
\<close>

theorem engine_Predict_outcomes:
  assumes "exp_laws mexp" and "log_laws mlog" and "calibration_ok lo hi (me_calibration e)" and "1 / 2 \<le> lo"
    and "inference_profile (me_manifest e)" and "me_session e" and "\<not> me_closed e" and "me_tokenizer e \<noteq> None"
    and "\<And>b. case run b of Ok out \<Rightarrow> f32_outputs out | Err x \<Rightarrow> True | Panic \<Rightarrow> False"
  shows "(case engine_Predict mexp mlog ctx run (Some e) state qs of
       Ok p \<Rightarrow> validatePredictionForQuestions p qs = Ok () \<and> list_all2 answers qs (pr_results p) \<and>
         pm_RuntimeID (pr_metadata p) = me_runtimeID e
     | Err x \<Rightarrow> Some x \<in> {validateContext (pc_entry ctx), pc_prepared ctx, pc_done ctx} \<or>
         prepareInferenceBatch state qs (me_manifest e) (me_tokenizer e) (me_modelOpts e) = Err x \<or>
         (\<exists>b y. run b = Err y \<and> x = run_failure (pc_run ctx) y) \<or> errors_is x ErrInvalidOutput
     | Panic \<Rightarrow> False)"
  by (rule engine_Predict_total [OF assms])

theorem engine_Predict_outcomes_witness:
  "\<exists>p. engine_Predict step_exp step_log \<lparr>pc_entry = Ctx None, pc_prepared = None, pc_run = None, pc_done = None\<rparr>
     (\<lambda>b. Ok sample_outputs) (Some sample_engine) (TextState ''hello'') [ChoiceQ sample_choice] = Ok p \<and>
     list_all2 answers [ChoiceQ sample_choice] (pr_results p)"
proof -
  let ?ctx = "\<lparr>pc_entry = Ctx None, pc_prepared = None, pc_run = None, pc_done = None\<rparr>"
  let ?r = "prepareInferenceBatch (TextState ''hello'') [ChoiceQ sample_choice] (sample_manifest 4)
      (Some byte_tokenizer) (sample_options RejectOverflow)"
  let ?p = "engine_Predict step_exp step_log ?ctx (\<lambda>b. Ok sample_outputs) (Some sample_engine)
      (TextState ''hello'') [ChoiceQ sample_choice]"
  have "is_Ok ?r" by code_simp
  then obtain b where b: "?r = Ok b" by (rule is_OkE)
  have "case ?r of Ok b \<Rightarrow> validateRawOutputs b sample_outputs = Ok () | _ \<Rightarrow> False" by code_simp
  then have raw: "validateRawOutputs b sample_outputs = Ok ()" by (simp add: b)
  have cal: "calibration_ok 1 1 (me_calibration sample_engine)" and profile: "inference_profile (me_manifest sample_engine)"
    and e: "me_session sample_engine" "\<not> me_closed sample_engine" "me_tokenizer sample_engine \<noteq> None"
    using sample_inference by (simp_all add: sample_engine_def)
  have half: "1 / 2 \<le> (1 :: rat)" by simp
  have run: "\<And>b. case (\<lambda>b :: preparedBatch. Ok sample_outputs) b of Ok out \<Rightarrow> f32_outputs out | Err x \<Rightarrow> True | Panic \<Rightarrow> False"
    using sample_inference by simp
  have "is_Ok (formatInferencePrediction step_exp step_log b sample_outputs sample_calibration md)" for md
    using formatted_total [OF step_laws sample_inference(1) half sample_inference(2) b sample_inference(3), of md] raw
    by (auto simp: is_Ok_def split: res.splits)
  then have "is_Ok ?p" using b by (simp add: engine_Predict_def sample_engine_def)
  then obtain p where p: "?p = Ok p" by (rule is_OkE)
  have "case ?p of Ok p \<Rightarrow> list_all2 answers [ChoiceQ sample_choice] (pr_results p) | _ \<Rightarrow> True"
    using engine_Predict_outcomes [OF step_laws cal half profile e run,
      where ctx = ?ctx and state = "TextState ''hello''" and qs = "[ChoiceQ sample_choice]"]
    by (simp split: res.splits)
  with p show ?thesis by simp
qed

text \<open>
  A cancelled model open is reported as an invalid bundle. \<open>nativeSourceError\<close> looks at the
  context first, but when the calibration file is read, \<open>Bundle.ReadFile\<close> reports the end of
  the context in a source error of that category, which \<open>sourceErrorCategory\<close> does not know:
  the error of the open then matches \<open>ErrInvalidBundle\<close> as well as the cancellation.
\<close>

lemma cancelled_read_is_invalid_bundle:
  "let cancelled = SourceError ''read bundle file'' p (Some (Sentinel CtxCanceled)) (Some (Sentinel CtxCanceled));
       opened = openVerified parse True m (r\<lparr>or_readFile := Inl cancelled\<rparr>) opts rid;
       source = nativeSourceError (Some (Sentinel CtxCanceled)) ''open directory source'' cancelled
   in (case fst opened of Err x \<Rightarrow> errors_is x CtxCanceled \<and> errors_is x ErrInvalidBundle | _ \<Rightarrow> False) \<and>
      errors_is source CtxCanceled \<and> \<not> errors_is source ErrInvalidBundle"
proof -
  let ?c = "SourceError ''read bundle file'' p (Some (Sentinel CtxCanceled)) (Some (Sentinel CtxCanceled))"
  have cat: "sourceErrorCategory ?c = ErrInvalidBundle" by (simp add: sourceErrorCategory_def)
  show ?thesis
    by (auto simp: Let_def openVerified_def open_failed_def nativeOpenFailure_def cat nativeSourceError_def
        errors_join_is)
qed

end
