(* ===== verification/Laya_Time.thy ===== *)
theory Laya_Time
  imports Laya_Json
begin

text \<open>
  The part of Go's package \<open>time\<close> that the manifest validation uses:
  \<open>time.Parse(time.RFC3339, s)\<close> followed by \<open>Unix\<close>, as the number of seconds since the epoch.
  The layout takes a year of four digits, two digits for every other field but the hour, which
  may have one, a fraction of the second after a period or a comma although the layout has none,
  and an offset that is \<open>Z\<close> or a sign, two digits, a colon and two digits, up to 24 hours and
  60 minutes.
\<close>

definition digit_value :: "char \<Rightarrow> int" where
  "digit_value c = of_char c - 48"

fun digits_value :: "string \<Rightarrow> int" where
  "digits_value s = fold (\<lambda>c n. 10 * n + digit_value c) s 0"

text \<open>\<open>getnum\<close>: two digits, or one when the field is not fixed.\<close>

fun getnum :: "bool \<Rightarrow> string \<Rightarrow> (int \<times> string) option" where
  "getnum fixed (a # b # rest) =
     (if \<not> is_digit a then None
      else if is_digit b then Some (10 * digit_value a + digit_value b, rest)
      else if fixed then None else Some (digit_value a, b # rest))"
| "getnum fixed [a] = (if is_digit a \<and> \<not> fixed then Some (digit_value a, []) else None)"
| "getnum fixed [] = None"

definition skip_char :: "char \<Rightarrow> string \<Rightarrow> string option" where
  "skip_char c s = (case s of d # rest \<Rightarrow> if d = c then Some rest else None | [] \<Rightarrow> None)"

definition in_bounds :: "int \<Rightarrow> int \<Rightarrow> (int \<times> string) option \<Rightarrow> (int \<times> string) option" where
  "in_bounds lo hi r = (case r of Some (n, s) \<Rightarrow> if lo \<le> n \<and> n \<le> hi then r else None | None \<Rightarrow> None)"

definition parse_year :: "string \<Rightarrow> (int \<times> string) option" where
  "parse_year s = (if length s \<ge> 4 \<and> list_all is_digit (take 4 s) then Some (digits_value (take 4 s), drop 4 s) else None)"

definition skip_fraction :: "string \<Rightarrow> string" where
  "skip_fraction s =
     (case s of
        c # d # rest \<Rightarrow> if (c = CHR ''.'' \<or> c = CHR '','') \<and> is_digit d then dropWhile is_digit rest else s
      | _ \<Rightarrow> s)"

text \<open>The offset in seconds; nothing may follow it.\<close>

definition parse_zone :: "string \<Rightarrow> int option" where
  "parse_zone s =
     (case s of
        c # rest \<Rightarrow>
          if c = CHR ''Z'' then (if rest = [] then Some 0 else None)
          else (case rest of
                  [h1, h2, colon, m1, m2] \<Rightarrow>
                    if colon = CHR '':'' \<and> list_all is_digit [h1, h2, m1, m2]
                    then (let h = digits_value [h1, h2]; m = digits_value [m1, m2]; secs = (h * 60 + m) * 60
                          in if h > 24 \<or> m > 60 then None
                             else if c = CHR ''+'' then Some secs
                             else if c = CHR ''-'' then Some (- secs) else None)
                    else None
                | _ \<Rightarrow> None)
      | [] \<Rightarrow> None)"

definition is_leap :: "int \<Rightarrow> bool" where
  "is_leap y \<longleftrightarrow> y mod 4 = 0 \<and> (y mod 100 \<noteq> 0 \<or> y mod 400 = 0)"

definition days_in :: "int \<Rightarrow> int \<Rightarrow> int" where
  "days_in y m = (if m = 2 then (if is_leap y then 29 else 28) else if m \<in> {4, 6, 9, 11} then 30 else 31)"

definition days_before_month :: "int \<Rightarrow> int \<Rightarrow> int" where
  "days_before_month y m = sum_list (map (days_in y) [1..m - 1])"

definition days_since_epoch :: "int \<Rightarrow> int \<Rightarrow> int \<Rightarrow> int" where
  "days_since_epoch y m d =
     (let p = y - 1 in 365 * y + p div 4 - p div 100 + p div 400 - 719527 + days_before_month y m + (d - 1))"

definition parse_rfc3339 :: "string \<Rightarrow> int option" where
  "parse_rfc3339 s =
     (case parse_year s of None \<Rightarrow> None | Some (y, s) \<Rightarrow>
     (case skip_char CHR ''-'' s of None \<Rightarrow> None | Some s \<Rightarrow>
     (case in_bounds 1 12 (getnum True s) of None \<Rightarrow> None | Some (mo, s) \<Rightarrow>
     (case skip_char CHR ''-'' s of None \<Rightarrow> None | Some s \<Rightarrow>
     (case in_bounds 1 (days_in y mo) (getnum True s) of None \<Rightarrow> None | Some (d, s) \<Rightarrow>
     (case skip_char CHR ''T'' s of None \<Rightarrow> None | Some s \<Rightarrow>
     (case in_bounds 0 23 (getnum False s) of None \<Rightarrow> None | Some (h, s) \<Rightarrow>
     (case skip_char CHR '':'' s of None \<Rightarrow> None | Some s \<Rightarrow>
     (case in_bounds 0 59 (getnum True s) of None \<Rightarrow> None | Some (mi, s) \<Rightarrow>
     (case skip_char CHR '':'' s of None \<Rightarrow> None | Some s \<Rightarrow>
     (case in_bounds 0 59 (getnum True s) of None \<Rightarrow> None | Some (se, s) \<Rightarrow>
     (case parse_zone (skip_fraction s) of None \<Rightarrow> None
      | Some zone \<Rightarrow> Some (((days_since_epoch y mo d * 24 + h) * 60 + mi) * 60 + se - zone)))))))))))))"

text \<open>Instants computed by other means.\<close>

lemma parse_rfc3339_examples:
  "parse_rfc3339 ''1970-01-01T00:00:00Z'' = Some 0"
  "parse_rfc3339 ''2024-02-29T12:34:56.5+02:00'' = Some 1709202896"
  "parse_rfc3339 ''2026-01-02T03:04:05Z'' = Some 1767323045"
  "parse_rfc3339 ''1969-12-31T23:59:59Z'' = Some (-1)"
  "parse_rfc3339 ''2023-02-29T00:00:00Z'' = None"
  by code_simp+

end
