(* ===== verification/Laya_Bundle.thy ===== *)
theory Laya_Bundle
  imports Laya_Manifest Laya_Strings Laya_Errors Laya_Time
begin

text \<open>
  \<open>internal/bundle/parse.go\<close>, the validation of a decoded manifest. A validator returns the
  error of the first check that fails, in the order of the code. The case folding of
  \<open>strings.ToLower\<close> is the argument \<open>lower\<close>, and the order in which a Go map is traversed is
  an argument \<open>order\<close>, a list of the entries' positions.
\<close>

subsection \<open>The error of the first check that fails\<close>

fun first_error :: "go_error option list \<Rightarrow> go_error option" where
  "first_error [] = None"
| "first_error (None # cs) = first_error cs"
| "first_error (Some e # cs) = Some e"

abbreviation fails_if :: "bool \<Rightarrow> go_error \<Rightarrow> go_error option" where
  "fails_if c e \<equiv> (if c then Some e else None)"

lemma first_error_None_iff: "first_error cs = None \<longleftrightarrow> (\<forall>c\<in>set cs. c = None)"
  by (induction cs rule: first_error.induct) auto

lemma first_error_Some: "first_error cs = Some e \<Longrightarrow> Some e \<in> set cs"
  by (induction cs rule: first_error.induct) auto

lemma first_error_simps [simp]:
  "first_error (c # cs) = None \<longleftrightarrow> c = None \<and> first_error cs = None"
  by (cases c) auto

text \<open>\<open>for k, v := range map\<close>, in a given order.\<close>

definition traverse :: "nat list \<Rightarrow> 'a list \<Rightarrow> 'a list" where
  "traverse order xs = map ((!) xs) order"

definition traversal :: "nat list \<Rightarrow> nat \<Rightarrow> bool" where
  "traversal order n \<longleftrightarrow> set order = {..<n} \<and> distinct order"

lemma set_traverse: "traversal order (length xs) \<Longrightarrow> set (traverse order xs) = set xs"
  by (auto simp: traverse_def traversal_def set_conv_nth [of xs])

subsection \<open>Errors and scalars\<close>

definition scalar :: "string \<Rightarrow> string" where
  "scalar v = (if v = '''' then ''empty'' else if length v > 128 then show_nat (length v) @ ''-byte string'' else v)"

definition invalid :: "string \<Rightarrow> string \<Rightarrow> string \<Rightarrow> string \<Rightarrow> go_error option \<Rightarrow> go_error" where
  "invalid path field expected observed cause =
     BundleError path field expected observed (Some (Sentinel ErrInvalidBundle)) cause"

lemma invalid_is [simp]: "errors_is (invalid p f x ob cause) t \<longleftrightarrow> t = ErrInvalidBundle \<or> opt_is (\<lambda>e. errors_is e t) cause"
  by (auto simp: invalid_def)

abbreviation bad :: "string \<Rightarrow> string \<Rightarrow> string \<Rightarrow> go_error" where
  "bad field expected observed \<equiv> invalid ''manifest.json'' field expected observed None"

definition entries :: "'a list \<Rightarrow> string" where
  "entries xs = show_nat (length xs) @ '' entries''"

definition at_index :: "string \<Rightarrow> nat \<Rightarrow> string" where
  "at_index name i = name @ ''['' @ show_nat i @ '']''"

subsection \<open>Patterns\<close>

definition is_lower_hex :: "char \<Rightarrow> bool" where
  "is_lower_hex c \<longleftrightarrow> is_digit c \<or> CHR ''a'' \<le> c \<and> c \<le> CHR ''f''"

definition is_alnum :: "char \<Rightarrow> bool" where
  "is_alnum c \<longleftrightarrow> CHR ''A'' \<le> c \<and> c \<le> CHR ''Z'' \<or> CHR ''a'' \<le> c \<and> c \<le> CHR ''z'' \<or> is_digit c"

definition sha256Pattern :: "string \<Rightarrow> bool" where
  "sha256Pattern s \<longleftrightarrow> length s = 64 \<and> list_all is_lower_hex s"

definition gitRevisionPattern :: "string \<Rightarrow> bool" where
  "gitRevisionPattern s \<longleftrightarrow> length s = 40 \<and> list_all is_lower_hex s"

definition identifierPattern :: "string \<Rightarrow> bool" where
  "identifierPattern s \<longleftrightarrow>
     (case s of [] \<Rightarrow> False | c # cs \<Rightarrow> is_alnum c \<and> list_all (\<lambda>d. is_alnum d \<or> d \<in> set ''._/-'') cs)"

definition versionPattern :: "string \<Rightarrow> bool" where
  "versionPattern s \<longleftrightarrow>
     (case s of [] \<Rightarrow> False | c # cs \<Rightarrow> is_alnum c \<and> list_all (\<lambda>d. is_alnum d \<or> d \<in> set ''._+-'') cs)"

subsection \<open>Scalar validators\<close>

definition maxStringBytes :: nat where "maxStringBytes = 512"
definition maxFiles :: nat where "maxFiles = 256"
definition maxLicenses :: nat where "maxLicenses = 16"
definition maxActions :: nat where "maxActions = 32"
definition maxExternalData :: nat where "maxExternalData = 64"

definition validateString :: "string \<Rightarrow> string \<Rightarrow> nat \<Rightarrow> go_error option" where
  "validateString field v limit =
     (if v = '''' then Some (bad field ''non-empty string'' ''empty'')
      else if length v > limit \<or> length v > maxStringBytes
      then Some (bad field (''at most '' @ show_nat (min limit maxStringBytes) @ '' bytes'') (show_nat (length v) @ '' bytes''))
      else if \<not> utf8_valid v then Some (bad field ''valid UTF-8'' ''invalid UTF-8'')
      else None)"

definition validateIdentifier :: "string \<Rightarrow> string \<Rightarrow> go_error option" where
  "validateIdentifier field v =
     first_error [validateString field v 128, fails_if (\<not> identifierPattern v) (bad field ''identifier'' (scalar v))]"

definition validateVersion :: "string \<Rightarrow> string \<Rightarrow> go_error option" where
  "validateVersion field v =
     first_error [validateString field v 64, fails_if (\<not> versionPattern v) (bad field ''version identifier'' (scalar v))]"

definition validatePositive :: "string \<Rightarrow> int \<Rightarrow> go_error option" where
  "validatePositive field v = fails_if (v \<le> 0) (bad field ''positive integer'' (show_int v))"

definition validateSHA256 :: "string \<Rightarrow> string \<Rightarrow> go_error option" where
  "validateSHA256 field v = fails_if (\<not> sha256Pattern v) (bad field ''64 lowercase hexadecimal characters'' (scalar v))"

definition validateRevision :: "string \<Rightarrow> string \<Rightarrow> go_error option" where
  "validateRevision field v =
     fails_if (\<not> gitRevisionPattern v) (bad field ''40 lowercase hexadecimal characters'' (scalar v))"

definition validatePath :: "string \<Rightarrow> string \<Rightarrow> go_error option" where
  "validatePath field path =
     (if length path > 255 then Some (bad field ''path at most 255 bytes'' (show_nat (length path) @ '' bytes''))
      else if path = ''.'' \<or> \<not> fs_ValidPath path \<or> has_backslash path
      then Some (bad field ''normalized contained slash-relative path'' (scalar path))
      else None)"

definition validRole :: "string \<Rightarrow> bool" where
  "validRole role \<longleftrightarrow>
     role \<in> {''model'', ''model-external-data'', ''tokenizer'', ''tokenizer-config'', ''agent-config'', ''license'', ''notice''}"

subsection \<open>validateManifest\<close>

definition validate_identity :: "Manifest \<Rightarrow> go_error option" where
  "validate_identity m =
     (let pv = mf_Provenance m in
      first_error
       [fails_if (mf_SchemaVersion m < 0) (bad ''schema_version'' ''non-negative integer'' (show_int (mf_SchemaVersion m))),
        validateIdentifier ''bundle.id'' (bi_ID (mf_Bundle m)),
        validateVersion ''bundle.version'' (bi_Version (mf_Bundle m)),
        validateIdentifier ''provenance.source_model.id'' (sm_ID (pv_SourceModel pv)),
        validateRevision ''provenance.source_model.revision'' (sm_Revision (pv_SourceModel pv)),
        validateIdentifier ''provenance.sdk.repository'' (sdk_Repository (pv_SDK pv)),
        validateRevision ''provenance.sdk.revision'' (sdk_Revision (pv_SDK pv)),
        validateVersion ''provenance.sdk.version'' (sdk_Version (pv_SDK pv)),
        validateIdentifier ''provenance.profile.id'' (pf_ID (pv_Profile pv)),
        validateSHA256 ''provenance.profile.sha256'' (pf_SHA256 (pv_Profile pv)),
        validateIdentifier ''provenance.exporter.name'' (ex_Name (pv_Exporter pv)),
        validateVersion ''provenance.exporter.version'' (ex_Version (pv_Exporter pv)),
        validateSHA256 ''provenance.exporter.source_sha256'' (ex_SourceSHA256 (pv_Exporter pv)),
        validateRevision ''provenance.exporter.git_revision'' (ex_GitRevision (pv_Exporter pv)),
        validatePath ''provenance.lock.path'' (lk_Path (pv_Lock pv)),
        validateSHA256 ''provenance.lock.sha256'' (lk_SHA256 (pv_Lock pv))])"

definition validate_created :: "Provenance \<Rightarrow> go_error option" where
  "validate_created pv =
     (case parse_rfc3339 (pv_CreatedAt pv) of
        None \<Rightarrow> Some (invalid ''manifest.json'' ''provenance.created_at'' ''RFC3339 timestamp'' ''invalid''
                  (Some (Opaque ''parsing time'')))
      | Some createdAt \<Rightarrow>
          first_error
           [fails_if (pv_SourceDateEpoch pv < 0)
              (bad ''provenance.source_date_epoch'' ''non-negative integer'' (show_int (pv_SourceDateEpoch pv))),
            fails_if (createdAt \<noteq> pv_SourceDateEpoch pv)
              (bad ''provenance.source_date_epoch'' (show_int createdAt) (show_int (pv_SourceDateEpoch pv))),
            fails_if (pv_Redistribution pv \<noteq> ''review-required'' \<and> pv_Redistribution pv \<noteq> ''approved'')
              (bad ''provenance.redistribution'' ''review-required or approved'' (scalar (pv_Redistribution pv)))])"

fun licenses_loop :: "(string \<Rightarrow> string) \<Rightarrow> nat \<Rightarrow> string list \<Rightarrow> License list \<Rightarrow> go_error option" where
  "licenses_loop lower i seen [] = None"
| "licenses_loop lower i seen (l # ls) =
     (let prefix = at_index ''provenance.licenses'' i; folded = lower (li_Component l) in
      first_error
       [validateIdentifier (prefix @ ''.component'') (li_Component l),
        fails_if (folded \<in> set seen) (bad (prefix @ ''.component'') ''unique component'' (scalar (li_Component l))),
        validateString (prefix @ ''.spdx'') (li_SPDX l) 64,
        validatePath (prefix @ ''.path'') (li_Path l),
        licenses_loop lower (Suc i) (folded # seen) ls])"

definition validate_licenses :: "(string \<Rightarrow> string) \<Rightarrow> License list \<Rightarrow> go_error option" where
  "validate_licenses lower ls =
     first_error
      [fails_if (length ls < 2 \<or> length ls > maxLicenses) (bad ''provenance.licenses'' ''2..16 entries'' (entries ls)),
       licenses_loop lower 0 [] ls]"

definition validate_preprocessing :: "Preprocessing \<Rightarrow> go_error option" where
  "validate_preprocessing p =
     first_error
      [validatePositive ''preprocessing.max_len'' (pp_MaxLen p),
       validatePositive ''preprocessing.head_max_len'' (pp_HeadMaxLen p),
       validatePositive ''preprocessing.option_max_len'' (pp_OptionMaxLen p),
       validatePositive ''preprocessing.head_reserve'' (pp_HeadReserve p),
       fails_if (pp_HeadMaxLen p > pp_MaxLen p)
         (bad ''preprocessing.head_max_len'' ''at most max_len'' (show_int (pp_HeadMaxLen p)))]"

fun external_loop :: "(string \<Rightarrow> string) \<Rightarrow> nat \<Rightarrow> string list \<Rightarrow> string list \<Rightarrow> go_error option" where
  "external_loop lower i seen [] = None"
| "external_loop lower i seen (path # ps) =
     (let field = at_index ''model.external_data'' i; folded = lower path in
      first_error
       [validatePath field path,
        fails_if (folded \<in> set seen) (bad field ''unique case-insensitive path'' (scalar path)),
        external_loop lower (Suc i) (folded # seen) ps])"

definition validate_model :: "(string \<Rightarrow> string) \<Rightarrow> ModelDecl \<Rightarrow> go_error option" where
  "validate_model lower md =
     first_error
      [validatePath ''model.path'' (md_Path md),
       fails_if (length (md_ExternalData md) > maxExternalData)
         (bad ''model.external_data'' ''at most 64 entries'' (entries (md_ExternalData md))),
       external_loop lower 0 [] (md_ExternalData md),
       fails_if (\<not> sorted (md_ExternalData md)) (bad ''model.external_data'' ''sorted paths'' ''unsorted'')]"

definition validate_tokenizer :: "nat list \<Rightarrow> Tokenizer \<Rightarrow> go_error option" where
  "validate_tokenizer order tk =
     (let t = tk_SpecialTokens tk in
      first_error
       [validatePath ''tokenizer.json_path'' (tk_JSONPath tk),
        validatePath ''tokenizer.config_path'' (tk_ConfigPath tk),
        first_error (map (\<lambda>(field, tokenID).
            fails_if (tokenID < 0) (bad field ''non-negative token ID'' (show_int tokenID)))
          (traverse order
            [(''tokenizer.special_tokens.cls'', tok_CLS t), (''tokenizer.special_tokens.sep'', tok_SEP t),
             (''tokenizer.special_tokens.mask'', tok_Mask t), (''tokenizer.special_tokens.pad'', tok_Pad t)]))])"

fun actions_loop :: "nat \<Rightarrow> string list \<Rightarrow> Action list \<Rightarrow> go_error option" where
  "actions_loop i seen [] = None"
| "actions_loop i seen (a # as) =
     (let prefix = at_index ''calibration.actions'' i in
      first_error
       [fails_if (ac_Index a \<noteq> int i) (bad (prefix @ ''.index'') (show_nat i) (show_int (ac_Index a))),
        validateIdentifier (prefix @ ''.id'') (ac_ID a),
        fails_if (ac_ID a \<in> set seen) (bad (prefix @ ''.id'') ''unique action ID'' (scalar (ac_ID a))),
        actions_loop (Suc i) (ac_ID a # seen) as])"

definition validate_calibration :: "nat list \<Rightarrow> CalibrationDecl \<Rightarrow> go_error option" where
  "validate_calibration order cal =
     first_error
      [validatePath ''calibration.config_path'' (cal_ConfigPath cal),
       first_error (map (\<lambda>(field, v). fails_if (isNaN v \<or> isInf v) (bad field ''finite number'' ''non-finite''))
         (traverse order
           [(''calibration.temperature_min'', cal_TemperatureMin cal),
            (''calibration.temperature_max'', cal_TemperatureMax cal),
            (''calibration.invalid_temperature'', cal_InvalidTemperature cal)])),
       fails_if (f_le (cal_TemperatureMin cal) (Fin 0) \<or> f_lt (cal_TemperatureMax cal) (cal_TemperatureMin cal))
         (bad ''calibration'' ''positive ordered temperature bounds'' ''invalid bounds''),
       fails_if (length (cal_Actions cal) = 0 \<or> length (cal_Actions cal) > maxActions)
         (bad ''calibration.actions'' ''1..32 entries'' (entries (cal_Actions cal))),
       actions_loop 0 [] (cal_Actions cal)]"

definition validate_runtime :: "RuntimeDecl \<Rightarrow> go_error option" where
  "validate_runtime rt =
     first_error
      [validateString ''runtime.engine'' (rt_Engine rt) 64,
       validateString ''runtime.minimum_version'' (rt_MinimumVersion rt) 64,
       validateString ''runtime.maximum_exclusive'' (rt_MaximumExclusive rt) 64,
       fails_if (length (rt_ExecutionProviders rt) = 0 \<or> length (rt_ExecutionProviders rt) > 16)
         (bad ''runtime.execution_providers'' ''1..16 entries'' (entries (rt_ExecutionProviders rt)))]"

fun files_loop :: "(string \<Rightarrow> string) \<Rightarrow> nat \<Rightarrow> string list \<Rightarrow> File list \<Rightarrow> go_error option" where
  "files_loop lower i seen [] = None"
| "files_loop lower i seen (f # fs) =
     (let prefix = at_index ''files'' i; folded = lower (fl_Path f) in
      first_error
       [fails_if (\<not> validRole (fl_Role f)) (bad (prefix @ ''.role'') ''known artifact role'' (scalar (fl_Role f))),
        validatePath (prefix @ ''.path'') (fl_Path f),
        fails_if (folded \<in> set seen) (bad (prefix @ ''.path'') ''unique case-insensitive path'' (scalar (fl_Path f))),
        fails_if (fl_Size f < 0) (bad (prefix @ ''.size'') ''non-negative integer'' (show_int (fl_Size f))),
        validateSHA256 (prefix @ ''.sha256'') (fl_SHA256 f),
        files_loop lower (Suc i) (folded # seen) fs])"

definition validate_files :: "(string \<Rightarrow> string) \<Rightarrow> File list \<Rightarrow> go_error option" where
  "validate_files lower fs =
     first_error
      [fails_if (length fs < 6 \<or> length fs > maxFiles) (bad ''files'' ''6..256 entries'' (entries fs)),
       files_loop lower 0 [] fs,
       fails_if (\<not> sorted (map fl_Path fs)) (bad ''files'' ''entries sorted by path'' ''unsorted'')]"

definition validateManifest :: "(string \<Rightarrow> string) \<Rightarrow> nat list \<Rightarrow> nat list \<Rightarrow> Manifest \<Rightarrow> go_error option" where
  "validateManifest lower tokenOrder temperatureOrder m =
     first_error
      [validate_identity m,
       validate_created (mf_Provenance m),
       validate_licenses lower (pv_Licenses (mf_Provenance m)),
       validate_preprocessing (mf_Preprocessing m),
       validate_model lower (mf_Model m),
       validate_tokenizer tokenOrder (mf_Tokenizer m),
       validate_calibration temperatureOrder (mf_Calibration m),
       validate_runtime (mf_Runtime m),
       validate_files lower (mf_Files m)]"

subsection \<open>What a validated manifest is\<close>

definition string_ok :: "nat \<Rightarrow> string \<Rightarrow> bool" where
  "string_ok limit s \<longleftrightarrow> s \<noteq> '''' \<and> length s \<le> limit \<and> utf8_valid s"

definition identifier_ok :: "string \<Rightarrow> bool" where
  "identifier_ok s \<longleftrightarrow> string_ok 128 s \<and> identifierPattern s"

definition version_ok :: "string \<Rightarrow> bool" where
  "version_ok s \<longleftrightarrow> string_ok 64 s \<and> versionPattern s"

definition path_ok :: "string \<Rightarrow> bool" where
  "path_ok p \<longleftrightarrow> length p \<le> 255 \<and> p \<noteq> ''.'' \<and> fs_ValidPath p \<and> \<not> has_backslash p"

definition license_ok :: "License \<Rightarrow> bool" where
  "license_ok l \<longleftrightarrow> identifier_ok (li_Component l) \<and> string_ok 64 (li_SPDX l) \<and> path_ok (li_Path l)"

definition file_ok :: "File \<Rightarrow> bool" where
  "file_ok f \<longleftrightarrow> validRole (fl_Role f) \<and> path_ok (fl_Path f) \<and> 0 \<le> fl_Size f \<and> sha256Pattern (fl_SHA256 f)"

text \<open>No two entries of a list agree up to case folding.\<close>

definition folded_distinct :: "(string \<Rightarrow> string) \<Rightarrow> string list \<Rightarrow> bool" where
  "folded_distinct lower xs \<longleftrightarrow> distinct (map lower xs)"

lemma folded_distinct_distinct: "folded_distinct lower xs \<Longrightarrow> distinct xs"
  by (simp add: folded_distinct_def distinct_map)

definition identity_wf :: "Manifest \<Rightarrow> bool" where
  "identity_wf m \<longleftrightarrow>
     (let pv = mf_Provenance m in
      0 \<le> mf_SchemaVersion m \<and>
      list_all identifier_ok [bi_ID (mf_Bundle m), sm_ID (pv_SourceModel pv), sdk_Repository (pv_SDK pv),
        pf_ID (pv_Profile pv), ex_Name (pv_Exporter pv)] \<and>
      list_all version_ok [bi_Version (mf_Bundle m), sdk_Version (pv_SDK pv), ex_Version (pv_Exporter pv)] \<and>
      list_all gitRevisionPattern [sm_Revision (pv_SourceModel pv), sdk_Revision (pv_SDK pv),
        ex_GitRevision (pv_Exporter pv)] \<and>
      list_all sha256Pattern [pf_SHA256 (pv_Profile pv), ex_SourceSHA256 (pv_Exporter pv), lk_SHA256 (pv_Lock pv)] \<and>
      path_ok (lk_Path (pv_Lock pv)))"

definition provenance_wf :: "(string \<Rightarrow> string) \<Rightarrow> Provenance \<Rightarrow> bool" where
  "provenance_wf lower pv \<longleftrightarrow>
     0 \<le> pv_SourceDateEpoch pv \<and> parse_rfc3339 (pv_CreatedAt pv) = Some (pv_SourceDateEpoch pv) \<and>
     pv_Redistribution pv \<in> {''review-required'', ''approved''} \<and>
     2 \<le> length (pv_Licenses pv) \<and> length (pv_Licenses pv) \<le> 16 \<and> list_all license_ok (pv_Licenses pv) \<and>
     folded_distinct lower (map li_Component (pv_Licenses pv))"

definition model_wf :: "(string \<Rightarrow> string) \<Rightarrow> ModelDecl \<Rightarrow> bool" where
  "model_wf lower md \<longleftrightarrow>
     path_ok (md_Path md) \<and> length (md_ExternalData md) \<le> 64 \<and> list_all path_ok (md_ExternalData md) \<and>
     folded_distinct lower (md_ExternalData md) \<and> sorted (md_ExternalData md)"

definition tokenizer_wf :: "Tokenizer \<Rightarrow> bool" where
  "tokenizer_wf tk \<longleftrightarrow>
     (let t = tk_SpecialTokens tk in
      path_ok (tk_JSONPath tk) \<and> path_ok (tk_ConfigPath tk) \<and>
      0 \<le> tok_CLS t \<and> 0 \<le> tok_SEP t \<and> 0 \<le> tok_Mask t \<and> 0 \<le> tok_Pad t)"

definition calibration_wf :: "CalibrationDecl \<Rightarrow> bool" where
  "calibration_wf cal \<longleftrightarrow>
     path_ok (cal_ConfigPath cal) \<and>
     (\<exists>lo hi iv. cal_TemperatureMin cal = Fin lo \<and> cal_TemperatureMax cal = Fin hi \<and>
        cal_InvalidTemperature cal = Fin iv \<and> 0 < lo \<and> lo \<le> hi) \<and>
     0 < length (cal_Actions cal) \<and> length (cal_Actions cal) \<le> 32 \<and>
     map ac_Index (cal_Actions cal) = map int [0..<length (cal_Actions cal)] \<and>
     list_all (\<lambda>a. identifier_ok (ac_ID a)) (cal_Actions cal) \<and> distinct (map ac_ID (cal_Actions cal))"

definition runtime_wf :: "RuntimeDecl \<Rightarrow> bool" where
  "runtime_wf rt \<longleftrightarrow>
     list_all (string_ok 64) [rt_Engine rt, rt_MinimumVersion rt, rt_MaximumExclusive rt] \<and>
     0 < length (rt_ExecutionProviders rt) \<and> length (rt_ExecutionProviders rt) \<le> 16"

definition files_wf :: "(string \<Rightarrow> string) \<Rightarrow> File list \<Rightarrow> bool" where
  "files_wf lower fs \<longleftrightarrow>
     6 \<le> length fs \<and> length fs \<le> 256 \<and> list_all file_ok fs \<and> folded_distinct lower (map fl_Path fs) \<and>
     sorted (map fl_Path fs)"

definition manifest_wf :: "(string \<Rightarrow> string) \<Rightarrow> Manifest \<Rightarrow> bool" where
  "manifest_wf lower m \<longleftrightarrow>
     identity_wf m \<and> provenance_wf lower (mf_Provenance m) \<and> preprocessing_ok (mf_Preprocessing m) \<and>
     model_wf lower (mf_Model m) \<and> tokenizer_wf (mf_Tokenizer m) \<and> calibration_wf (mf_Calibration m) \<and>
     runtime_wf (mf_Runtime m) \<and> files_wf lower (mf_Files m)"

subsection \<open>The validators accept exactly that\<close>

lemma fails_if_None [simp]: "fails_if c e = None \<longleftrightarrow> \<not> c"
  by simp

lemma validateString_None: "limit \<le> 512 \<Longrightarrow> validateString field v limit = None \<longleftrightarrow> string_ok limit v"
  by (auto simp: validateString_def string_ok_def maxStringBytes_def)

lemma scalar_validators [ok_simps]:
  "validateIdentifier field v = None \<longleftrightarrow> identifier_ok v"
  "validateVersion field v = None \<longleftrightarrow> version_ok v"
  "validatePositive field i = None \<longleftrightarrow> 0 < i"
  "validateSHA256 field v = None \<longleftrightarrow> sha256Pattern v"
  "validateRevision field v = None \<longleftrightarrow> gitRevisionPattern v"
  "validatePath field p = None \<longleftrightarrow> path_ok p"
  by (auto simp: validateIdentifier_def validateVersion_def validatePositive_def validateSHA256_def
      validateRevision_def validatePath_def identifier_ok_def version_ok_def path_ok_def validateString_None
      split: if_splits)

lemma licenses_loop_None:
  "licenses_loop lower i seen ls = None \<longleftrightarrow>
     list_all license_ok ls \<and> folded_distinct lower (map li_Component ls) \<and>
     set (map (lower \<circ> li_Component) ls) \<inter> set seen = {}"
  by (induction lower i seen ls rule: licenses_loop.induct)
    (auto simp: Let_def ok_simps license_ok_def validateString_None folded_distinct_def)

lemma external_loop_None:
  "external_loop lower i seen ps = None \<longleftrightarrow>
     list_all path_ok ps \<and> folded_distinct lower ps \<and> set (map lower ps) \<inter> set seen = {}"
  by (induction lower i seen ps rule: external_loop.induct)
    (auto simp: Let_def ok_simps folded_distinct_def)

lemma actions_loop_None:
  "actions_loop i seen as = None \<longleftrightarrow>
     map ac_Index as = map int [i..<i + length as] \<and> list_all (\<lambda>a. identifier_ok (ac_ID a)) as \<and>
     distinct (map ac_ID as) \<and> set (map ac_ID as) \<inter> set seen = {}"
  by (induction i seen as rule: actions_loop.induct)
    (auto simp: Let_def ok_simps upt_conv_Cons simp del: upt_Suc)

lemma files_loop_None:
  "files_loop lower i seen fs = None \<longleftrightarrow>
     list_all file_ok fs \<and> folded_distinct lower (map fl_Path fs) \<and>
     set (map (lower \<circ> fl_Path) fs) \<inter> set seen = {}"
  by (induction lower i seen fs rule: files_loop.induct)
    (auto simp: Let_def ok_simps file_ok_def folded_distinct_def)

lemma traversed_checks:
  assumes "traversal order n" and "length xs = n"
  shows "first_error (map f (traverse order xs)) = None \<longleftrightarrow> (\<forall>x\<in>set xs. f x = None)"
  using set_traverse [of order xs] assms by (auto simp: first_error_None_iff)

lemma validate_identity_None: "validate_identity m = None \<longleftrightarrow> identity_wf m"
  by (auto simp: validate_identity_def identity_wf_def Let_def ok_simps)

lemma validate_provenance_None:
  "validate_created pv = None \<and> validate_licenses lower (pv_Licenses pv) = None \<longleftrightarrow> provenance_wf lower pv"
  by (cases "parse_rfc3339 (pv_CreatedAt pv)")
    (auto simp: validate_created_def validate_licenses_def provenance_wf_def licenses_loop_None maxLicenses_def)

lemma validate_preprocessing_None: "validate_preprocessing p = None \<longleftrightarrow> preprocessing_ok p"
  by (auto simp: validate_preprocessing_def preprocessing_ok_def ok_simps)

lemma validate_model_None: "validate_model lower md = None \<longleftrightarrow> model_wf lower md"
  by (auto simp: validate_model_def model_wf_def ok_simps external_loop_None maxExternalData_def)

lemma validate_tokenizer_None:
  assumes "traversal order 4"
  shows "validate_tokenizer order tk = None \<longleftrightarrow> tokenizer_wf tk"
  by (auto simp: validate_tokenizer_def tokenizer_wf_def ok_simps traversed_checks [OF assms] Let_def)

lemma finite_bounds:
  "\<not> (isNaN x \<or> isInf x) \<longleftrightarrow> (\<exists>r. x = Fin r)"
  by (cases x) (auto simp: isNaN_def isInf_def)

lemma validate_calibration_None:
  assumes "traversal order 3"
  shows "validate_calibration order cal = None \<longleftrightarrow> calibration_wf cal"
proof -
  have *: "validate_calibration order cal = None \<longleftrightarrow>
      path_ok (cal_ConfigPath cal) \<and>
      (\<forall>v\<in>{cal_TemperatureMin cal, cal_TemperatureMax cal, cal_InvalidTemperature cal}. \<not> (isNaN v \<or> isInf v)) \<and>
      \<not> (f_le (cal_TemperatureMin cal) (Fin 0) \<or> f_lt (cal_TemperatureMax cal) (cal_TemperatureMin cal)) \<and>
      0 < length (cal_Actions cal) \<and> length (cal_Actions cal) \<le> 32 \<and> actions_loop 0 [] (cal_Actions cal) = None"
    by (auto simp: validate_calibration_def ok_simps traversed_checks [OF assms] maxActions_def)
  show ?thesis
    unfolding * finite_bounds calibration_wf_def actions_loop_None by (auto simp: not_le not_less)
qed

lemma validate_runtime_None: "validate_runtime rt = None \<longleftrightarrow> runtime_wf rt"
  by (auto simp: validate_runtime_def runtime_wf_def validateString_None)

lemma validate_files_None: "validate_files lower fs = None \<longleftrightarrow> files_wf lower fs"
  by (auto simp: validate_files_def files_wf_def files_loop_None maxFiles_def)

lemma validateManifest_None:
  assumes "traversal tokenOrder 4" and "traversal temperatureOrder 3"
  shows "validateManifest lower tokenOrder temperatureOrder m = None \<longleftrightarrow> manifest_wf lower m"
  unfolding validateManifest_def manifest_wf_def first_error_simps first_error.simps(1)
    validate_provenance_None [symmetric] validate_identity_None validate_preprocessing_None validate_model_None
    validate_tokenizer_None [OF assms(1)] validate_calibration_None [OF assms(2)] validate_runtime_None
    validate_files_None
  by blast

text \<open>
  C25: \<open>validateManifest\<close> accepts exactly the well-formed manifests, whatever order the two map
  literals it ranges over are traversed in: identities match their patterns, the creation time
  is the source date, the bounds and counts hold, the temperatures are finite, positive and
  ordered, the actions are numbered from zero, and the paths of the files are contained, sorted
  and distinct up to case folding.
\<close>

theorem validateManifest_accepts:
  assumes "traversal tokenOrder 4" and "traversal temperatureOrder 3"
  shows "validateManifest lower tokenOrder temperatureOrder m = None \<longleftrightarrow> manifest_wf lower m"
  by (rule validateManifest_None [OF assms])

text \<open>The manifest of a supported bundle.\<close>

definition some_digest :: string where "some_digest = replicate 64 CHR ''a''"

definition supported_file :: "string \<times> string \<Rightarrow> File" where
  "supported_file rp = \<lparr>fl_Role = fst rp, fl_Path = snd rp, fl_Size = 3, fl_SHA256 = some_digest\<rparr>"

definition supported_manifest :: Manifest where
  "supported_manifest =
     \<lparr>mf_SchemaVersion = 1,
      mf_Bundle = \<lparr>bi_ID = ''laya-multilingual'', bi_Version = ''1.0.0''\<rparr>,
      mf_Provenance =
        \<lparr>pv_SourceModel = \<lparr>sm_ID = ''convaiinnovations/laya-multilingual'',
                           sm_Revision = ''052592a15d198d9ad47da779604259b10b47b7aa''\<rparr>,
         pv_SDK = \<lparr>sdk_Repository = ''NandhaKishorM/laya'',
                   sdk_Revision = ''573e5b62696ba441230cd6be71d593331b5d23af'', sdk_Version = ''0.3.5''\<rparr>,
         pv_Profile = \<lparr>pf_ID = ''laya-multilingual-v1'',
                       pf_SHA256 = ''2dc717bbbf2bacb9c00d57f2ba7279c6a4332900bca84d12c000ebd6401a0235''\<rparr>,
         pv_Exporter = \<lparr>ex_Name = ''laya-go-export'', ex_Version = ''1'', ex_SourceSHA256 = some_digest,
                        ex_GitRevision = ''573e5b62696ba441230cd6be71d593331b5d23af''\<rparr>,
         pv_Lock = \<lparr>lk_Path = ''tools/export/uv.lock'', lk_SHA256 = some_digest\<rparr>,
         pv_CreatedAt = ''1970-01-01T00:00:00Z'', pv_SourceDateEpoch = 0,
         pv_Redistribution = ''approved'',
         pv_Licenses = [\<lparr>li_Component = ''source-model'', li_SPDX = ''Apache-2.0'', li_Path = ''LICENSE.model''\<rparr>,
           \<lparr>li_Component = ''sdk-derived-exporter-code'', li_SPDX = ''Apache-2.0'', li_Path = ''LICENSE.sdk''\<rparr>]\<rparr>,
      mf_Preprocessing =
        \<lparr>pp_Version = 1, pp_MaxLen = 1024, pp_HeadMaxLen = 256, pp_OptionMaxLen = 48, pp_HeadReserve = 16,
         pp_TruncationSide = ''right'', pp_QTypes = \<lparr>qt_Choice = 0, qt_Score = 1, qt_Noul = 2\<rparr>\<rparr>,
      mf_Model = \<lparr>md_Path = ''model.onnx'', md_Format = ''onnx'', md_Opset = 18, md_Precision = ''fp32'',
        md_ExternalData = [],
        md_Inputs =
          [\<lparr>td_Name = ''input_ids'', td_DType = ''int64'', td_Dimensions = [''batch'', ''sequence'']\<rparr>,
           \<lparr>td_Name = ''attention_mask'', td_DType = ''int64'', td_Dimensions = [''batch'', ''sequence'']\<rparr>,
           \<lparr>td_Name = ''marker_pos'', td_DType = ''int64'', td_Dimensions = [''batch'', ''markers'']\<rparr>,
           \<lparr>td_Name = ''marker_mask'', td_DType = ''bool'', td_Dimensions = [''batch'', ''markers'']\<rparr>,
           \<lparr>td_Name = ''qtype'', td_DType = ''int64'', td_Dimensions = [''batch'']\<rparr>],
        md_Outputs =
          [\<lparr>td_Name = ''logits'', td_DType = ''float32'', td_Dimensions = [''batch'', ''markers'']\<rparr>,
           \<lparr>td_Name = ''act_logits'', td_DType = ''float32'', td_Dimensions = [''batch'', ''actions'']\<rparr>]\<rparr>,
      mf_Tokenizer = \<lparr>tk_JSONPath = ''tokenizer/tokenizer.json'', tk_ConfigPath = ''tokenizer/tokenizer_config.json'',
        tk_SpecialTokens = \<lparr>tok_CLS = 1, tok_SEP = 2, tok_Mask = 3, tok_Pad = 0\<rparr>\<rparr>,
      mf_Calibration = \<lparr>cal_ConfigPath = ''rl_agent_config.json'', cal_TemperatureMin = Fin (1/2),
        cal_TemperatureMax = Fin 5, cal_InvalidTemperature = Fin 1,
        cal_SelectionOrder = [''option_bucket'', ''qtype'', ''default''],
        cal_Actions = [\<lparr>ac_Index = 0, ac_ID = ''escalate''\<rparr>]\<rparr>,
      mf_Runtime = \<lparr>rt_Engine = ''onnxruntime'', rt_MinimumVersion = ''1.20.0'', rt_MaximumExclusive = ''2.0.0'',
        rt_ExecutionProviders = [''CPUExecutionProvider'']\<rparr>,
      mf_Files = map supported_file
        [(''license'', ''LICENSE.model''), (''license'', ''LICENSE.sdk''), (''notice'', ''NOTICE.model''),
         (''notice'', ''NOTICE.sdk''), (''model'', ''model.onnx''), (''agent-config'', ''rl_agent_config.json''),
         (''tokenizer'', ''tokenizer/tokenizer.json''), (''tokenizer-config'', ''tokenizer/tokenizer_config.json'')],
      mf_id = ''''\<rparr>"

lemma in_order_traversal: "traversal [0, 1, 2, 3] 4" "traversal [0, 1, 2] 3"
  by (auto simp: traversal_def)

lemma supported_manifest_valid: "validateManifest ascii_lower [0, 1, 2, 3] [0, 1, 2] supported_manifest = None"
  by code_simp

theorem validateManifest_accepts_witness: "manifest_wf ascii_lower supported_manifest"
  using validateManifest_accepts [OF in_order_traversal] supported_manifest_valid by simp

text \<open>A fact for the components that follow: what is validated has distinct paths.\<close>

lemma files_wf_distinct: "files_wf lower fs \<Longrightarrow> distinct (map fl_Path fs)"
  by (auto simp: files_wf_def intro: folded_distinct_distinct)

subsection \<open>Unwrapping\<close>

text \<open>\<open>Error.Unwrap\<close> of \<open>internal/bundle/errors.go\<close>, which is all that \<open>errors.Is\<close> follows.\<close>

definition bundle_Unwrap :: "go_error \<Rightarrow> go_error list" where
  "bundle_Unwrap e = (case e of BundleError path field expected observed kind cause \<Rightarrow> somes [kind, cause] | _ \<Rightarrow> [])"

lemma errors_is_bundle:
  "errors_is (BundleError p f x ob kind cause) t \<longleftrightarrow>
     list_ex (\<lambda>e. errors_is e t) (bundle_Unwrap (BundleError p f x ob kind cause))"
  by (cases kind; cases cause) (simp_all add: bundle_Unwrap_def)

end
