(* ===== verification/Laya_Compatibility.thy ===== *)
theory Laya_Compatibility
  imports Laya_Bundle Laya_Pipeline
begin

text \<open>
  \<open>internal/bundle/compatibility.go\<close>: the one profile this build supports. The code compares
  what \<open>fmt.Sprint\<close> prints for the observed and the expected value; the printing of a
  \<open>float64\<close> is the argument \<open>sprint\<close>, and the property below needs that it prints different
  numbers differently.
\<close>

subsection \<open>Printing\<close>

datatype printed = PInt int | PStr string | PFloat f64

fun fmt_Sprint :: "(f64 \<Rightarrow> string) \<Rightarrow> printed \<Rightarrow> string" where
  "fmt_Sprint sprint (PInt i) = show_int i"
| "fmt_Sprint sprint (PStr s) = s"
| "fmt_Sprint sprint (PFloat v) = sprint v"

fun join_words :: "string list \<Rightarrow> string" where
  "join_words [] = ''''"
| "join_words [w] = w"
| "join_words (w # ws) = w @ '' '' @ join_words ws"

definition print_slice :: "string list \<Rightarrow> string" where
  "print_slice ws = ''['' @ join_words ws @ '']''"

definition print_action :: "Action \<Rightarrow> string" where
  "print_action a = ''{'' @ show_int (ac_Index a) @ '' '' @ ac_ID a @ ''}''"

definition print_license :: "License \<Rightarrow> string" where
  "print_license l = ''{'' @ li_Component l @ '' '' @ li_SPDX l @ '' '' @ li_Path l @ ''}''"

definition unsupported :: "string \<Rightarrow> string \<Rightarrow> string \<Rightarrow> go_error" where
  "unsupported field expected observed =
     BundleError ''manifest.json'' field expected observed (Some (Sentinel ErrUnsupportedBundle)) None"

fun tensor_summary_from :: "nat \<Rightarrow> TensorDescriptor list \<Rightarrow> string" where
  "tensor_summary_from i [] = ''''"
| "tensor_summary_from i (d # ds) =
     (if i > 0 then '','' else '''') @ td_Name d @ '':'' @ td_DType d @ print_slice (td_Dimensions d) @
     tensor_summary_from (Suc i) ds"

definition tensorSummary :: "TensorDescriptor list \<Rightarrow> string" where
  "tensorSummary ds = tensor_summary_from 0 ds"

subsection \<open>The supported profile\<close>

definition supportedInputs :: "TensorDescriptor list" where
  "supportedInputs =
     [\<lparr>td_Name = ''input_ids'', td_DType = ''int64'', td_Dimensions = [''batch'', ''sequence'']\<rparr>,
      \<lparr>td_Name = ''attention_mask'', td_DType = ''int64'', td_Dimensions = [''batch'', ''sequence'']\<rparr>,
      \<lparr>td_Name = ''marker_pos'', td_DType = ''int64'', td_Dimensions = [''batch'', ''markers'']\<rparr>,
      \<lparr>td_Name = ''marker_mask'', td_DType = ''bool'', td_Dimensions = [''batch'', ''markers'']\<rparr>,
      \<lparr>td_Name = ''qtype'', td_DType = ''int64'', td_Dimensions = [''batch'']\<rparr>]"

definition supportedOutputs :: "TensorDescriptor list" where
  "supportedOutputs =
     [\<lparr>td_Name = ''logits'', td_DType = ''float32'', td_Dimensions = [''batch'', ''markers'']\<rparr>,
      \<lparr>td_Name = ''act_logits'', td_DType = ''float32'', td_Dimensions = [''batch'', ''actions'']\<rparr>]"

definition wantLicenses :: "License list" where
  "wantLicenses =
     [\<lparr>li_Component = ''source-model'', li_SPDX = ''Apache-2.0'', li_Path = ''LICENSE.model''\<rparr>,
      \<lparr>li_Component = ''sdk-derived-exporter-code'', li_SPDX = ''Apache-2.0'', li_Path = ''LICENSE.sdk''\<rparr>]"

definition compatibility_checks :: "Manifest \<Rightarrow> (string \<times> printed \<times> printed) list" where
  "compatibility_checks m =
     (let pv = mf_Provenance m; pp = mf_Preprocessing m; md = mf_Model m; tk = mf_Tokenizer m;
          cal = mf_Calibration m; rt = mf_Runtime m in
      [(''schema_version'', PInt (mf_SchemaVersion m), PInt 1),
       (''provenance.source_model.id'', PStr (sm_ID (pv_SourceModel pv)), PStr ''convaiinnovations/laya-multilingual''),
       (''provenance.source_model.revision'', PStr (sm_Revision (pv_SourceModel pv)),
          PStr ''052592a15d198d9ad47da779604259b10b47b7aa''),
       (''provenance.sdk.repository'', PStr (sdk_Repository (pv_SDK pv)), PStr ''NandhaKishorM/laya''),
       (''provenance.sdk.revision'', PStr (sdk_Revision (pv_SDK pv)), PStr ''573e5b62696ba441230cd6be71d593331b5d23af''),
       (''provenance.sdk.version'', PStr (sdk_Version (pv_SDK pv)), PStr ''0.3.5''),
       (''provenance.profile.id'', PStr (pf_ID (pv_Profile pv)), PStr ''laya-multilingual-v1''),
       (''provenance.profile.sha256'', PStr (pf_SHA256 (pv_Profile pv)),
          PStr ''2dc717bbbf2bacb9c00d57f2ba7279c6a4332900bca84d12c000ebd6401a0235''),
       (''provenance.exporter.name'', PStr (ex_Name (pv_Exporter pv)), PStr ''laya-go-export''),
       (''provenance.lock.path'', PStr (lk_Path (pv_Lock pv)), PStr ''tools/export/uv.lock''),
       (''preprocessing.version'', PInt (pp_Version pp), PInt 1),
       (''preprocessing.max_len'', PInt (pp_MaxLen pp), PInt 1024),
       (''preprocessing.head_max_len'', PInt (pp_HeadMaxLen pp), PInt 256),
       (''preprocessing.option_max_len'', PInt (pp_OptionMaxLen pp), PInt 48),
       (''preprocessing.head_reserve'', PInt (pp_HeadReserve pp), PInt 16),
       (''preprocessing.truncation_side'', PStr (pp_TruncationSide pp), PStr ''right''),
       (''preprocessing.qtypes.choice'', PInt (qt_Choice (pp_QTypes pp)), PInt 0),
       (''preprocessing.qtypes.score'', PInt (qt_Score (pp_QTypes pp)), PInt 1),
       (''preprocessing.qtypes.noul'', PInt (qt_Noul (pp_QTypes pp)), PInt 2),
       (''model.path'', PStr (md_Path md), PStr ''model.onnx''),
       (''model.format'', PStr (md_Format md), PStr ''onnx''),
       (''model.opset'', PInt (md_Opset md), PInt 18),
       (''model.precision'', PStr (md_Precision md), PStr ''fp32''),
       (''tokenizer.json_path'', PStr (tk_JSONPath tk), PStr ''tokenizer/tokenizer.json''),
       (''tokenizer.config_path'', PStr (tk_ConfigPath tk), PStr ''tokenizer/tokenizer_config.json''),
       (''calibration.config_path'', PStr (cal_ConfigPath cal), PStr ''rl_agent_config.json''),
       (''calibration.temperature_min'', PFloat (cal_TemperatureMin cal), PFloat (Fin (1 / 2))),
       (''calibration.temperature_max'', PFloat (cal_TemperatureMax cal), PFloat (Fin 5)),
       (''calibration.invalid_temperature'', PFloat (cal_InvalidTemperature cal), PFloat (Fin 1)),
       (''runtime.engine'', PStr (rt_Engine rt), PStr ''onnxruntime''),
       (''runtime.minimum_version'', PStr (rt_MinimumVersion rt), PStr ''1.20.0''),
       (''runtime.maximum_exclusive'', PStr (rt_MaximumExclusive rt), PStr ''2.0.0'')])"

fun descriptors_loop :: "TensorDescriptor list \<Rightarrow> TensorDescriptor list \<Rightarrow> bool" where
  "descriptors_loop (g # got) (w # want) =
     (if td_Name g \<noteq> td_Name w \<or> td_DType g \<noteq> td_DType w \<or> td_Dimensions g \<noteq> td_Dimensions w then False
      else descriptors_loop got want)"
| "descriptors_loop got want = True"

definition equalTensorDescriptors :: "TensorDescriptor list \<Rightarrow> TensorDescriptor list \<Rightarrow> bool" where
  "equalTensorDescriptors got want = (if length got \<noteq> length want then False else descriptors_loop got want)"

definition validateCompatibility :: "(f64 \<Rightarrow> string) \<Rightarrow> Manifest \<Rightarrow> go_error option" where
  "validateCompatibility sprint m =
     first_error
      [first_error (map (\<lambda>(field, observed, expected).
          fails_if (fmt_Sprint sprint observed \<noteq> fmt_Sprint sprint expected)
            (unsupported field (fmt_Sprint sprint expected) (fmt_Sprint sprint observed)))
        (compatibility_checks m)),
       fails_if (\<not> equalTensorDescriptors (md_Inputs (mf_Model m)) supportedInputs)
         (unsupported ''model.inputs'' (tensorSummary supportedInputs) (tensorSummary (md_Inputs (mf_Model m)))),
       fails_if (\<not> equalTensorDescriptors (md_Outputs (mf_Model m)) supportedOutputs)
         (unsupported ''model.outputs'' (tensorSummary supportedOutputs) (tensorSummary (md_Outputs (mf_Model m)))),
       fails_if (cal_SelectionOrder (mf_Calibration m) \<noteq> [''option_bucket'', ''qtype'', ''default''])
         (unsupported ''calibration.selection_order'' ''option_bucket,qtype,default''
           (print_slice (cal_SelectionOrder (mf_Calibration m)))),
       fails_if (length (cal_Actions (mf_Calibration m)) \<noteq> 1 \<or>
           cal_Actions (mf_Calibration m) ! 0 \<noteq> \<lparr>ac_Index = 0, ac_ID = ''escalate''\<rparr>)
         (unsupported ''calibration.actions'' ''0:escalate'' (print_slice (map print_action (cal_Actions (mf_Calibration m))))),
       fails_if (rt_ExecutionProviders (mf_Runtime m) \<noteq> [''CPUExecutionProvider''])
         (unsupported ''runtime.execution_providers'' ''CPUExecutionProvider''
           (print_slice (rt_ExecutionProviders (mf_Runtime m)))),
       fails_if (pv_Licenses (mf_Provenance m) \<noteq> wantLicenses)
         (unsupported ''provenance.licenses'' (print_slice (map print_license wantLicenses))
           (print_slice (map print_license (pv_Licenses (mf_Provenance m))))),
       fails_if (pv_Redistribution (mf_Provenance m) \<noteq> ''approved'')
         (unsupported ''provenance.redistribution'' ''approved'' (pv_Redistribution (mf_Provenance m)))]"

subsection \<open>A float printer\<close>

text \<open>One that prints different numbers differently: the reduced fraction.\<close>

definition sprint_fraction :: "f64 \<Rightarrow> string" where
  "sprint_fraction v =
     (case v of
        NaN \<Rightarrow> ''NaN'' | PInf \<Rightarrow> ''+Inf'' | NInf \<Rightarrow> ''-Inf''
      | Fin r \<Rightarrow> (case quotient_of r of (a, b) \<Rightarrow> show_int a @ ''/'' @ show_int b))"

lemma show_nat_digits: "c \<in> set (show_nat n) \<Longrightarrow> c \<in> set ''0123456789''"
proof (induction n rule: less_induct)
  case (less n)
  have all: "list_all (\<lambda>d :: nat. (char_of (48 + d) :: char) \<in> set ''0123456789'') [0..<10]" by code_simp
  have digit: "char_of (48 + d) \<in> set ''0123456789''" if "d < 10" for d :: nat
  proof -
    have "d \<in> set [0..<10]" by (simp only: set_upt atLeastLessThan_iff zero_le that simp_thms)
    then show ?thesis using all unfolding list_all_iff by blast
  qed
  show ?case
  proof (cases "n < 10")
    case True
    with less.prems show ?thesis by (simp only: show_nat_single [OF True]) (use digit [OF True] in simp)
  next
    case False
    then have "n div 10 < n" by simp
    moreover have "c \<in> set (show_nat (n div 10)) \<or> c = char_of (48 + n mod 10)"
      using less.prems by (simp only: show_nat_snoc [OF False]) auto
    moreover have "n mod 10 < 10" by simp
    ultimately show ?thesis using less.IH [of "n div 10"] digit [of "n mod 10"] by blast
  qed
qed

lemma show_int_slash: "CHR ''/'' \<notin> set (show_int i)"
  using show_nat_digits [of "CHR ''/''"] by (auto simp: show_int_def)

lemma show_int_inject: "show_int i = show_int j \<longleftrightarrow> i = j"
proof -
  have "hd (show_nat n) \<noteq> CHR ''-''" for n
    using show_nat_digits [of "hd (show_nat n)" n] by auto
  then have "CHR ''-'' # s \<noteq> show_nat n" for s n by (metis list.sel(1))
  then show ?thesis by (auto simp: show_int_def) (metis list.sel(1))+
qed

lemma split_at_slash:
  assumes "xs @ CHR ''/'' # ys = xs' @ CHR ''/'' # ys'" and "CHR ''/'' \<notin> set xs" and "CHR ''/'' \<notin> set xs'"
  shows "xs = xs' \<and> ys = ys'"
proof -
  have "takeWhile (\<lambda>c. c \<noteq> CHR ''/'') (zs @ CHR ''/'' # ws) = zs" if "CHR ''/'' \<notin> set zs" for zs ws
    using that by (auto simp: takeWhile_append)
  with assms show ?thesis by (metis append_same_eq same_append_eq list.inject)
qed

lemma inj_sprint_fraction: "inj sprint_fraction"
proof (rule injI)
  fix x y
  assume eq: "sprint_fraction x = sprint_fraction y"
  have slash: "CHR ''/'' \<in> set (sprint_fraction v) \<longleftrightarrow> (\<exists>r. v = Fin r)" for v
  proof (cases v)
    case (Fin r)
    then show ?thesis by (cases "quotient_of r") (simp add: sprint_fraction_def)
  qed (simp_all add: sprint_fraction_def)
  show "x = y"
  proof (cases "\<exists>r s. x = Fin r \<and> y = Fin s")
    case True
    then obtain r s where xy: "x = Fin r" "y = Fin s" by blast
    obtain a b c d where q: "quotient_of r = (a, b)" "quotient_of s = (c, d)"
      by (cases "quotient_of r"; cases "quotient_of s")
    then have "show_int a @ CHR ''/'' # show_int b = show_int c @ CHR ''/'' # show_int d"
      using eq xy by (simp add: sprint_fraction_def)
    then have "show_int a = show_int c \<and> show_int b = show_int d"
      by (rule split_at_slash) (rule show_int_slash)+
    then have "quotient_of r = quotient_of s" using q by (simp add: show_int_inject)
    then show ?thesis using xy quotient_of_inject by blast
  next
    case False
    then have "(\<forall>r. x \<noteq> Fin r) \<and> (\<forall>r. y \<noteq> Fin r)" using eq slash by metis
    then show ?thesis using eq by (cases x; cases y) (simp_all add: sprint_fraction_def)
  qed
qed

subsection \<open>What the supported profile fixes\<close>

lemma fmt_Sprint_inject:
  assumes "inj sprint"
  shows "fmt_Sprint sprint (PInt i) = fmt_Sprint sprint (PInt j) \<longleftrightarrow> i = j"
    "fmt_Sprint sprint (PStr s) = fmt_Sprint sprint (PStr t) \<longleftrightarrow> s = t"
    "fmt_Sprint sprint (PFloat v) = fmt_Sprint sprint (PFloat w) \<longleftrightarrow> v = w"
  using assms by (simp_all add: show_int_inject inj_eq)

lemma descriptors_loop_iff:
  "length got = length want \<Longrightarrow> descriptors_loop got want \<longleftrightarrow> got = want"
  by (induction got want rule: descriptors_loop.induct) auto

lemma equalTensorDescriptors_iff: "equalTensorDescriptors got want \<longleftrightarrow> got = want"
  by (auto simp: equalTensorDescriptors_def descriptors_loop_iff)

definition supported_preprocessing :: Preprocessing where
  "supported_preprocessing =
     \<lparr>pp_Version = 1, pp_MaxLen = 1024, pp_HeadMaxLen = 256, pp_OptionMaxLen = 48, pp_HeadReserve = 16,
      pp_TruncationSide = ''right'', pp_QTypes = \<lparr>qt_Choice = 0, qt_Score = 1, qt_Noul = 2\<rparr>\<rparr>"

lemma checks_None:
  "first_error (map (\<lambda>(field, observed, expected).
      fails_if (fmt_Sprint sprint observed \<noteq> fmt_Sprint sprint expected)
        (unsupported field (fmt_Sprint sprint expected) (fmt_Sprint sprint observed))) cs) = None \<longleftrightarrow>
   list_all (\<lambda>(field, ob, ex). fmt_Sprint sprint ob = fmt_Sprint sprint ex) cs"
  by (induction cs) auto

text \<open>The whole comparison: what every entry of the table says of the manifest.\<close>

lemma validateCompatibility_None:
  assumes "inj sprint" and "validateCompatibility sprint m = None"
  shows "mf_SchemaVersion m = 1" "mf_Preprocessing m = supported_preprocessing"
    "md_Path (mf_Model m) = ''model.onnx''" "md_Opset (mf_Model m) = 18"
    "md_Inputs (mf_Model m) = supportedInputs" "md_Outputs (mf_Model m) = supportedOutputs"
    "tk_JSONPath (mf_Tokenizer m) = ''tokenizer/tokenizer.json''"
    "cal_ConfigPath (mf_Calibration m) = ''rl_agent_config.json''"
    "cal_TemperatureMin (mf_Calibration m) = Fin (1 / 2)" "cal_TemperatureMax (mf_Calibration m) = Fin 5"
    "cal_InvalidTemperature (mf_Calibration m) = Fin 1"
    "cal_Actions (mf_Calibration m) = [\<lparr>ac_Index = 0, ac_ID = ''escalate''\<rparr>]"
    "pv_Licenses (mf_Provenance m) = wantLicenses" "pv_Redistribution (mf_Provenance m) = ''approved''"
proof -
  have checks: "list_all (\<lambda>(field, ob, ex). fmt_Sprint sprint ob = fmt_Sprint sprint ex) (compatibility_checks m)"
    using assms(2) unfolding validateCompatibility_def first_error_simps checks_None by blast
  note each = checks [unfolded compatibility_checks_def Let_def list.pred_inject prod.case
      fmt_Sprint_inject [OF assms(1)]]
  show "mf_SchemaVersion m = 1" "md_Path (mf_Model m) = ''model.onnx''" "md_Opset (mf_Model m) = 18"
    "tk_JSONPath (mf_Tokenizer m) = ''tokenizer/tokenizer.json''"
    "cal_ConfigPath (mf_Calibration m) = ''rl_agent_config.json''"
    "cal_TemperatureMin (mf_Calibration m) = Fin (1 / 2)" "cal_TemperatureMax (mf_Calibration m) = Fin 5"
    "cal_InvalidTemperature (mf_Calibration m) = Fin 1"
    using each by blast+
  show "mf_Preprocessing m = supported_preprocessing"
    using each unfolding supported_preprocessing_def by (intro Preprocessing.equality QTypes.equality) simp_all
  have rest: "equalTensorDescriptors (md_Inputs (mf_Model m)) supportedInputs"
    "equalTensorDescriptors (md_Outputs (mf_Model m)) supportedOutputs"
    "length (cal_Actions (mf_Calibration m)) = 1 \<and> cal_Actions (mf_Calibration m) ! 0 = \<lparr>ac_Index = 0, ac_ID = ''escalate''\<rparr>"
    "pv_Licenses (mf_Provenance m) = wantLicenses" "pv_Redistribution (mf_Provenance m) = ''approved''"
    using assms(2) unfolding validateCompatibility_def by simp_all
  then show "md_Inputs (mf_Model m) = supportedInputs" "md_Outputs (mf_Model m) = supportedOutputs"
    "pv_Licenses (mf_Provenance m) = wantLicenses" "pv_Redistribution (mf_Provenance m) = ''approved''"
    by (simp_all add: equalTensorDescriptors_iff)
  show "cal_Actions (mf_Calibration m) = [\<lparr>ac_Index = 0, ac_ID = ''escalate''\<rparr>]"
    using rest(3) by (cases "cal_Actions (mf_Calibration m)") auto
qed

lemma validateCompatibility_profile:
  assumes "inj sprint" and "validateCompatibility sprint m = None"
  shows "mf_Preprocessing m = supported_preprocessing \<and> inference_profile m \<and>
    preprocessing_ok (mf_Preprocessing m) \<and>
    calibration_bounds (1 / 2) 5 (mf_Calibration m) \<and> length (cal_Actions (mf_Calibration m)) = 1 \<and>
    md_Inputs (mf_Model m) = supportedInputs \<and> md_Outputs (mf_Model m) = supportedOutputs"
  using validateCompatibility_None [OF assms]
  by (simp add: inference_profile_def preprocessing_ok_def calibration_bounds_def supported_preprocessing_def Let_def)

text \<open>
  A manifest that \<open>validateCompatibility\<close> accepts is one the inference code is right for:
  its preprocessing limits, question types, tensor descriptors, temperature bounds and single
  action are the constants of the supported profile, which are the conditions under which the
  preparation, calibration and formatting of a prediction are proved total.
\<close>

theorem validateCompatibility_fixes_profile:
  assumes "inj sprint" and "validateCompatibility sprint m = None"
  shows "mf_Preprocessing m = supported_preprocessing \<and> inference_profile m \<and>
    preprocessing_ok (mf_Preprocessing m) \<and>
    calibration_bounds (1 / 2) 5 (mf_Calibration m) \<and> length (cal_Actions (mf_Calibration m)) = 1 \<and>
    md_Inputs (mf_Model m) = supportedInputs \<and> md_Outputs (mf_Model m) = supportedOutputs"
  by (rule validateCompatibility_profile [OF assms])

lemma supported_manifest_compatible: "validateCompatibility sprint_fraction supported_manifest = None"
  by code_simp

theorem validateCompatibility_fixes_profile_witness: "inference_profile supported_manifest"
  using validateCompatibility_fixes_profile [OF inj_sprint_fraction supported_manifest_compatible] by blast

end
