(* ===== verification/Laya_Parse.thy ===== *)
theory Laya_Parse
  imports Laya_Compatibility
begin

text \<open>
  \<open>internal/bundle/parse.go\<close>, \<open>Parse\<close>: from the bytes of a manifest to the manifest. The
  decoding of JSON is \<open>encoding/json\<close>'s: the tree of a valid document and its decoding into the
  struct are arguments. \<open>consumeJSONValue\<close> and \<open>validateExactFields\<close> are modelled on the tree;
  the error returns for tokens that \<open>json.Valid\<close> has already excluded are left out, and so is
  \<open>requireEOF\<close>, which finds the end of the input after the one value of a valid document.
\<close>

subsection \<open>Documents\<close>

datatype jvalue = JNull | JScalar string | JArray "jvalue list" | JObject "(string \<times> jvalue) list"

text \<open>\<open>consumeJSONValue\<close>: no object may repeat a key, at most 64 levels.\<close>

function consumeJSONValue :: "string \<Rightarrow> nat \<Rightarrow> jvalue \<Rightarrow> go_error option"
  and consume_members :: "string \<Rightarrow> nat \<Rightarrow> string list \<Rightarrow> (string \<times> jvalue) list \<Rightarrow> go_error option"
  and consume_elements :: "string \<Rightarrow> nat \<Rightarrow> nat \<Rightarrow> jvalue list \<Rightarrow> go_error option"
where
  "consumeJSONValue path depth v =
     (if depth > 64 then Some (invalid ''manifest.json'' path ''nesting depth at most 64'' ''too deep'' None)
      else case v of
             JNull \<Rightarrow> None
           | JScalar s \<Rightarrow> None
           | JObject ms \<Rightarrow> consume_members path depth [] ms
           | JArray vs \<Rightarrow> consume_elements path depth 0 vs)"
| "consume_members path depth seen [] = None"
| "consume_members path depth seen ((key, v) # ms) =
     (let fieldPath = path @ ''.'' @ key in
      if length key > maxStringBytes
      then Some (invalid ''manifest.json'' path ''object key at most 512 bytes'' (show_nat (length key) @ '' bytes'') None)
      else if key \<in> set seen then Some (invalid ''manifest.json'' fieldPath ''unique field'' ''duplicate'' None)
      else case consumeJSONValue fieldPath (depth + 1) v of
             Some e \<Rightarrow> Some e
           | None \<Rightarrow> consume_members path depth (key # seen) ms)"
| "consume_elements path depth index [] = None"
| "consume_elements path depth index (v # vs) =
     (case consumeJSONValue (at_index path index) (depth + 1) v of
        Some e \<Rightarrow> Some e
      | None \<Rightarrow> consume_elements path depth (Suc index) vs)"
  by pat_completeness auto
termination
  by (relation "measure (\<lambda>x. case x of
        Inl (p, d, v) \<Rightarrow> 2 * size v
      | Inr (Inl (p, d, s, ms)) \<Rightarrow> 2 * size_list (size_prod (\<lambda>k. 0) size) ms + 1
      | Inr (Inr (p, d, i, vs)) \<Rightarrow> 2 * size_list size vs + 1)") auto

definition rejectDuplicateFields :: "jvalue \<Rightarrow> go_error option" where
  "rejectDuplicateFields v = consumeJSONValue ''$'' 0 v"

subsection \<open>The exact fields of the Go structs\<close>

datatype gotype = GStruct "(string \<times> gotype) list" | GSlice gotype | GBasic

definition missing_field :: "string \<Rightarrow> (string \<times> jvalue) list \<Rightarrow> (string \<times> gotype) list \<Rightarrow> go_error option" where
  "missing_field path ms decls =
     first_error (map (\<lambda>(name, ty).
       fails_if (name \<notin> fst ` set ms) (invalid ''manifest.json'' (path @ ''.'' @ name) ''required field'' ''missing'' None)) decls)"

function validateExactFields :: "jvalue \<Rightarrow> gotype \<Rightarrow> string \<Rightarrow> go_error option"
  and exact_members :: "(string \<times> jvalue) list \<Rightarrow> (string \<times> gotype) list \<Rightarrow> string \<Rightarrow> go_error option"
  and exact_elements :: "jvalue list \<Rightarrow> gotype \<Rightarrow> nat \<Rightarrow> string \<Rightarrow> go_error option"
where
  "validateExactFields v ty path =
     (if v = JNull then None
      else case ty of
             GStruct decls \<Rightarrow>
               (case v of
                  JObject ms \<Rightarrow>
                    (case exact_members ms decls path of
                       Some e \<Rightarrow> Some e
                     | None \<Rightarrow> missing_field path ms decls)
                | _ \<Rightarrow> Some (invalid ''manifest.json'' path ''object'' ''other'' None))
           | GSlice t \<Rightarrow>
               (case v of
                  JArray vs \<Rightarrow> exact_elements vs t 0 path
                | _ \<Rightarrow> Some (invalid ''manifest.json'' path ''array'' ''other'' None))
           | GBasic \<Rightarrow> None)"
| "exact_members [] decls path = None"
| "exact_members ((name, child) # ms) decls path =
     (case map_of decls name of
        None \<Rightarrow> Some (invalid ''manifest.json'' (path @ ''.'' @ name) ''known exact-case field'' ''unknown'' None)
      | Some ty \<Rightarrow>
          (case validateExactFields child ty (path @ ''.'' @ name) of
             Some e \<Rightarrow> Some e
           | None \<Rightarrow> exact_members ms decls path))"
| "exact_elements [] ty index path = None"
| "exact_elements (v # vs) ty index path =
     (case validateExactFields v ty (at_index path index) of
        Some e \<Rightarrow> Some e
      | None \<Rightarrow> exact_elements vs ty (Suc index) path)"
  by pat_completeness auto
termination
  by (relation "measure (\<lambda>x. case x of
        Inl (v, t, p) \<Rightarrow> 2 * size v
      | Inr (Inl (ms, fs, p)) \<Rightarrow> 2 * size_list (size_prod (\<lambda>k. 0) size) ms + 1
      | Inr (Inr (vs, t, i, p)) \<Rightarrow> 2 * size_list size vs + 1)") auto

declare consumeJSONValue.simps(1) [simp del] validateExactFields.simps(1) [simp del]

text \<open>The struct types of \<open>manifest.go\<close> with the names of their JSON tags.\<close>

abbreviation basic :: "string list \<Rightarrow> (string \<times> gotype) list" where
  "basic names \<equiv> map (\<lambda>n. (n, GBasic)) names"

definition tensor_type :: gotype where
  "tensor_type = GStruct (basic [''name'', ''dtype''] @ [(''dimensions'', GSlice GBasic)])"

definition provenance_type :: gotype where
  "provenance_type = GStruct
     ([(''source_model'', GStruct (basic [''id'', ''revision''])),
       (''sdk'', GStruct (basic [''repository'', ''revision'', ''version''])),
       (''profile'', GStruct (basic [''id'', ''sha256''])),
       (''exporter'', GStruct (basic [''name'', ''version'', ''source_sha256'', ''git_revision''])),
       (''lock'', GStruct (basic [''path'', ''sha256'']))] @
      basic [''created_at'', ''source_date_epoch'', ''redistribution''] @
      [(''licenses'', GSlice (GStruct (basic [''component'', ''spdx'', ''path''])))])"

definition manifest_type :: gotype where
  "manifest_type = GStruct
     [(''schema_version'', GBasic),
      (''bundle'', GStruct (basic [''id'', ''version''])),
      (''provenance'', provenance_type),
      (''preprocessing'', GStruct
        (basic [''version'', ''max_len'', ''head_max_len'', ''option_max_len'', ''head_reserve'', ''truncation_side''] @
         [(''qtypes'', GStruct (basic [''choice'', ''score'', ''noul'']))])),
      (''model'', GStruct
        (basic [''path'', ''format'', ''opset'', ''precision''] @
         [(''external_data'', GSlice GBasic), (''inputs'', GSlice tensor_type), (''outputs'', GSlice tensor_type)])),
      (''tokenizer'', GStruct
        (basic [''json_path'', ''config_path''] @
         [(''special_tokens'', GStruct (basic [''cls'', ''sep'', ''mask'', ''pad'']))])),
      (''calibration'', GStruct
        (basic [''config_path'', ''temperature_min'', ''temperature_max'', ''invalid_temperature''] @
         [(''selection_order'', GSlice GBasic), (''actions'', GSlice (GStruct (basic [''index'', ''id''])))])),
      (''runtime'', GStruct
        (basic [''engine'', ''minimum_version'', ''maximum_exclusive''] @ [(''execution_providers'', GSlice GBasic)])),
      (''files'', GSlice (GStruct (basic [''role'', ''path'', ''size'', ''sha256''])))]"

subsection \<open>Parse\<close>

text \<open>
  What \<open>encoding/json\<close> and \<open>crypto/sha256\<close> do with the bytes: the error that
  \<open>json.Unmarshal\<close> gives for a malformed document, the tree of a valid one, the error of reading
  a valid one into an \<open>any\<close> (a number that is no \<open>float64\<close>), its decoding into a \<open>Manifest\<close> with
  \<open>DisallowUnknownFields\<close>, and the digest in hexadecimal. Its objects are checked in the order of
  the document, where the code's maps have none.
\<close>

record parse_env =
  pe_syntaxError :: "string \<Rightarrow> go_error option"
  pe_tree :: "string \<Rightarrow> jvalue"
  pe_unmarshal :: "string \<Rightarrow> go_error option"
  pe_decode :: "string \<Rightarrow> go_error + Manifest"
  pe_sha256 :: "string \<Rightarrow> string"
  pe_lower :: "string \<Rightarrow> string"
  pe_sprint :: "f64 \<Rightarrow> string"
  pe_tokenOrder :: "nat list"
  pe_temperatureOrder :: "nat list"

definition maxManifestBytes :: nat where "maxManifestBytes = 1048576"

definition Parse :: "parse_env \<Rightarrow> string \<Rightarrow> Manifest res" where
  "Parse env data =
     (if length data = 0 then Err (bad '''' ''non-empty JSON object'' ''empty'')
      else if length data > maxManifestBytes
      then Err (bad '''' (''at most '' @ show_nat maxManifestBytes @ '' bytes'') (show_nat (length data) @ '' bytes''))
      else if \<not> utf8_valid data then Err (bad '''' ''valid UTF-8'' ''invalid UTF-8'')
      else if \<not> json_valid data
      then Err (invalid ''manifest.json'' '''' ''valid JSON'' ''malformed'' (pe_syntaxError env data))
      else check_then (rejectDuplicateFields (pe_tree env data))
          (check_then (map_option (\<lambda>err. invalid ''manifest.json'' '''' ''JSON object'' ''invalid'' (Some err)) (pe_unmarshal env data))
          (check_then (validateExactFields (pe_tree env data) manifest_type ''$'')
            (case pe_decode env data of
               Inl err \<Rightarrow> Err (invalid ''manifest.json'' '''' ''bundle manifest v1 fields'' ''invalid'' (Some err))
             | Inr m \<Rightarrow>
                 check_then (validateManifest (pe_lower env) (pe_tokenOrder env) (pe_temperatureOrder env) m)
                   (check_then (validateCompatibility (pe_sprint env) m)
                     (Ok (m\<lparr>mf_id := ''sha256:'' @ pe_sha256 env data\<rparr>)))))))"

subsection \<open>Documents that are accepted\<close>

text \<open>\<open>occurs v n w\<close>: the value \<open>w\<close> occurs in \<open>v\<close>, inside \<open>n\<close> objects and arrays.\<close>

inductive occurs :: "jvalue \<Rightarrow> nat \<Rightarrow> jvalue \<Rightarrow> bool" where
  occurs_here: "occurs v 0 v"
| occurs_member: "(k, c) \<in> set ms \<Longrightarrow> occurs c n w \<Longrightarrow> occurs (JObject ms) (Suc n) w"
| occurs_element: "c \<in> set vs \<Longrightarrow> occurs c n w \<Longrightarrow> occurs (JArray vs) (Suc n) w"

inductive_simps occurs_simps: "occurs JNull n w" "occurs (JScalar s) n w" "occurs (JObject ms) n w" "occurs (JArray vs) n w"

definition keys_ok :: "jvalue \<Rightarrow> bool" where
  "keys_ok w = (case w of JObject ms \<Rightarrow> distinct (map fst ms) \<and> list_all (\<lambda>m. length (fst m) \<le> 512) ms | _ \<Rightarrow> True)"

definition all_below :: "nat \<Rightarrow> jvalue \<Rightarrow> bool" where
  "all_below d v \<longleftrightarrow> (\<forall>n w. occurs v n w \<longrightarrow> d + n \<le> 64 \<and> keys_ok w)"

lemma occurs_all:
  "(\<forall>n w. occurs JNull n w \<longrightarrow> P n w) \<longleftrightarrow> P 0 JNull"
  "(\<forall>n w. occurs (JScalar s) n w \<longrightarrow> P n w) \<longleftrightarrow> P 0 (JScalar s)"
  "(\<forall>n w. occurs (JObject ms) n w \<longrightarrow> P n w) \<longleftrightarrow>
     P 0 (JObject ms) \<and> (\<forall>(k, c)\<in>set ms. \<forall>n w. occurs c n w \<longrightarrow> P (Suc n) w)"
  "(\<forall>n w. occurs (JArray vs) n w \<longrightarrow> P n w) \<longleftrightarrow>
     P 0 (JArray vs) \<and> (\<forall>c\<in>set vs. \<forall>n w. occurs c n w \<longrightarrow> P (Suc n) w)"
  unfolding occurs_simps by blast+

lemma all_below_cases:
  "all_below d JNull \<longleftrightarrow> d \<le> 64" "all_below d (JScalar s) \<longleftrightarrow> d \<le> 64"
  "all_below d (JObject ms) \<longleftrightarrow> d \<le> 64 \<and> keys_ok (JObject ms) \<and> (\<forall>(k, c)\<in>set ms. all_below (Suc d) c)"
  "all_below d (JArray vs) \<longleftrightarrow> d \<le> 64 \<and> (\<forall>c\<in>set vs. all_below (Suc d) c)"
  unfolding all_below_def occurs_all by (simp_all add: keys_ok_def)

lemma consume_iff:
  "consumeJSONValue path d v = None \<longleftrightarrow> all_below d v"
  "consume_members path d seen ms = None \<longleftrightarrow>
     distinct (map fst ms) \<and> fst ` set ms \<inter> set seen = {} \<and> list_all (\<lambda>m. length (fst m) \<le> 512) ms \<and>
     (\<forall>(k, c)\<in>set ms. all_below (Suc d) c)"
  "consume_elements path d i vs = None \<longleftrightarrow> (\<forall>c\<in>set vs. all_below (Suc d) c)"
proof (induction path d v and path d seen ms and path d i vs
    rule: consumeJSONValue_consume_members_consume_elements.induct)
  case (1 path depth v)
  show ?case
  proof (cases "depth > 64")
    case True
    then have "\<not> all_below depth v" using occurs_here [of v] by (force simp: all_below_def)
    with True show ?thesis by (simp add: consumeJSONValue.simps(1))
  next
    case False
    with 1 show ?thesis
      by (cases v) (simp_all add: consumeJSONValue.simps(1) all_below_cases keys_ok_def)
  qed
next
  case (3 path depth seen key v ms)
  show ?case
  proof (cases "length key > maxStringBytes \<or> key \<in> set seen")
    case True
    then show ?thesis by (auto simp: Let_def maxStringBytes_def)
  next
    case False
    with 3 show ?thesis by (auto simp: Let_def maxStringBytes_def split: option.split)
  qed
next
  case (5 path depth index v vs)
  then show ?case by (auto split: option.split)
qed simp_all

text \<open>
  \<open>rejectDuplicateFields\<close> accepts a document exactly if nothing in it is inside more than 64
  objects and arrays, no object in it repeats a key, and no key is longer than 512 bytes.
\<close>

theorem rejectDuplicateFields_accepts:
  "rejectDuplicateFields v = None \<longleftrightarrow> (\<forall>n w. occurs v n w \<longrightarrow> n \<le> 64 \<and> keys_ok w)"
  by (simp add: rejectDuplicateFields_def consume_iff all_below_def)

theorem rejectDuplicateFields_accepts_witness:
  "keys_ok (JObject [(''a'', JArray [JNull]), (''b'', JObject [(''a'', JNull)])]) \<and>
   rejectDuplicateFields (JObject [(''a'', JNull), (''b'', JObject [(''c'', JNull), (''c'', JNull)])]) \<noteq> None"
proof -
  let ?good = "JObject [(''a'', JArray [JNull]), (''b'', JObject [(''a'', JNull)])]"
  have "rejectDuplicateFields ?good = None" by code_simp
  then have "keys_ok ?good" using rejectDuplicateFields_accepts [of ?good] occurs_here [of ?good] by blast
  moreover have "occurs (JObject [(''a'', JNull), (''b'', JObject [(''c'', JNull), (''c'', JNull)])]) 1
      (JObject [(''c'', JNull), (''c'', JNull)])"
    unfolding One_nat_def by (rule occurs_member [OF _ occurs_here]) simp
  then have "rejectDuplicateFields (JObject [(''a'', JNull), (''b'', JObject [(''c'', JNull), (''c'', JNull)])]) \<noteq> None"
    unfolding rejectDuplicateFields_accepts by (force simp: keys_ok_def)
  ultimately show ?thesis by blast
qed

text \<open>An object that \<open>validateExactFields\<close> accepts for a struct has exactly its fields.\<close>

lemma exact_members_known:
  "exact_members ms decls path = None \<Longrightarrow> fst ` set ms \<subseteq> fst ` set decls"
proof (induction ms)
  case (Cons m ms)
  then show ?case
    by (cases m; cases "map_of decls (fst m)") (force dest: map_of_SomeD split: option.splits)+
qed simp

lemma validateExactFields_struct:
  assumes "validateExactFields (JObject ms) (GStruct decls) path = None"
  shows "fst ` set ms = fst ` set decls"
proof -
  have known: "exact_members ms decls path = None" and "missing_field path ms decls = None"
    using assms by (auto simp: validateExactFields.simps(1) split: option.splits)
  then have "fst ` set decls \<subseteq> fst ` set ms" by (auto simp: missing_field_def first_error_None_iff)
  with exact_members_known [OF known] show ?thesis by blast
qed

subsection \<open>The category of every error\<close>

definition only :: "sentinel \<Rightarrow> go_error option \<Rightarrow> bool" where
  "only t c \<longleftrightarrow> (case c of Some e \<Rightarrow> errors_is e t | None \<Rightarrow> True)"

lemma only_simps [simp]: "only t None" "only t (Some e) \<longleftrightarrow> errors_is e t"
  by (simp_all add: only_def)

lemma only_then: "only t c \<Longrightarrow> (c = None \<Longrightarrow> only t d) \<Longrightarrow> only t (case c of Some e \<Rightarrow> Some e | None \<Rightarrow> d)"
  by (cases c) simp_all

lemma only_first_error: "list_all (only t) cs \<Longrightarrow> only t (first_error cs)"
  by (induction cs rule: first_error.induct) (simp_all add: only_def)

lemma only_fails_if: "(c \<Longrightarrow> errors_is e t) \<Longrightarrow> only t (fails_if c e)"
  by (simp add: only_def)

lemma only_traverse: "(\<And>x. only t (f x)) \<Longrightarrow> only t (first_error (map f (traverse order xs)))"
  by (rule only_first_error) (simp add: list_all_iff)

lemma scalar_validators_only [simp]:
  "only ErrInvalidBundle (validateString field v n)" "only ErrInvalidBundle (validateIdentifier field v)"
  "only ErrInvalidBundle (validateVersion field v)" "only ErrInvalidBundle (validatePositive field i)"
  "only ErrInvalidBundle (validateSHA256 field v)" "only ErrInvalidBundle (validateRevision field v)"
  "only ErrInvalidBundle (validatePath field v)"
proof -
  show s: "only ErrInvalidBundle (validateString field v n)" for field v n
    by (simp add: validateString_def only_def)
  show "only ErrInvalidBundle (validateIdentifier field v)" "only ErrInvalidBundle (validateVersion field v)"
    by (auto simp: validateIdentifier_def validateVersion_def s only_fails_if intro!: only_first_error)
qed (simp_all add: only_def validatePositive_def validateSHA256_def validateRevision_def validatePath_def)

lemma loops_only:
  "only ErrInvalidBundle (licenses_loop lower i seen ls)"
  "only ErrInvalidBundle (external_loop lower i seen ps)"
  "only ErrInvalidBundle (actions_loop i seen as)"
  "only ErrInvalidBundle (files_loop lower i seen fs)"
proof -
  show "only ErrInvalidBundle (licenses_loop lower i seen ls)"
    by (induction lower i seen ls rule: licenses_loop.induct)
      (auto simp: Let_def only_fails_if intro!: only_first_error)
  show "only ErrInvalidBundle (external_loop lower i seen ps)"
    by (induction lower i seen ps rule: external_loop.induct)
      (auto simp: Let_def only_fails_if intro!: only_first_error)
  show "only ErrInvalidBundle (actions_loop i seen as)"
    by (induction i seen as rule: actions_loop.induct)
      (auto simp: Let_def only_fails_if intro!: only_first_error)
  show "only ErrInvalidBundle (files_loop lower i seen fs)"
    by (induction lower i seen fs rule: files_loop.induct)
      (auto simp: Let_def only_fails_if intro!: only_first_error)
qed

lemma validateManifest_only: "only ErrInvalidBundle (validateManifest lower tokenOrder temperatureOrder m)"
proof -
  have identity: "only ErrInvalidBundle (validate_identity m)"
    by (auto simp: validate_identity_def Let_def only_fails_if intro!: only_first_error)
  have created: "only ErrInvalidBundle (validate_created pv)" for pv
  proof (cases "parse_rfc3339 (pv_CreatedAt pv)")
    case None
    then show ?thesis by (simp add: validate_created_def only_def)
  qed (auto simp: validate_created_def only_fails_if intro!: only_first_error)
  have licenses: "only ErrInvalidBundle (validate_licenses lower ls)" for ls
    by (auto simp: validate_licenses_def only_fails_if loops_only intro!: only_first_error)
  have preprocessing: "only ErrInvalidBundle (validate_preprocessing pp)" for pp
    by (auto simp: validate_preprocessing_def only_fails_if intro!: only_first_error)
  have model: "only ErrInvalidBundle (validate_model lower md)" for md
    by (auto simp: validate_model_def only_fails_if loops_only intro!: only_first_error)
  have tokenizer: "only ErrInvalidBundle (validate_tokenizer tokenOrder tk)" for tk
    by (auto simp: validate_tokenizer_def Let_def only_fails_if intro!: only_first_error only_traverse)
  have calibration: "only ErrInvalidBundle (validate_calibration temperatureOrder cal)" for cal
    by (auto simp: validate_calibration_def only_fails_if loops_only intro!: only_first_error only_traverse)
  have runtime: "only ErrInvalidBundle (validate_runtime rt)" for rt
    by (auto simp: validate_runtime_def only_fails_if intro!: only_first_error)
  have files: "only ErrInvalidBundle (validate_files lower fs)" for fs
    by (auto simp: validate_files_def only_fails_if loops_only intro!: only_first_error)
  show ?thesis
    unfolding validateManifest_def
    by (rule only_first_error)
      (simp add: identity created licenses preprocessing model tokenizer calibration runtime files)
qed

lemma unsupported_is [simp]: "errors_is (unsupported f x ob) t \<longleftrightarrow> t = ErrUnsupportedBundle"
  by (auto simp: unsupported_def)

lemma validateCompatibility_only: "only ErrUnsupportedBundle (validateCompatibility sprint m)"
  unfolding validateCompatibility_def
  by (rule only_first_error) (auto simp: only_fails_if list_all_iff intro!: only_first_error)

lemma consume_only:
  "only ErrInvalidBundle (consumeJSONValue path d v)"
  "only ErrInvalidBundle (consume_members path d seen ms)"
  "only ErrInvalidBundle (consume_elements path d i vs)"
proof (induction path d v and path d seen ms and path d i vs
    rule: consumeJSONValue_consume_members_consume_elements.induct)
  case (1 path depth v)
  then show ?case by (cases v) (auto simp: consumeJSONValue.simps(1))
qed (auto simp: Let_def intro!: only_then)

lemma exact_only:
  "only ErrInvalidBundle (validateExactFields v ty path)"
  "only ErrInvalidBundle (exact_members ms decls path)"
  "only ErrInvalidBundle (exact_elements vs ty i path)"
proof (induction v ty path and ms decls path and vs ty i path
    rule: validateExactFields_exact_members_exact_elements.induct)
  case (1 v ty path)
  have "only ErrInvalidBundle (missing_field path ms decls)" for ms decls
    unfolding missing_field_def by (rule only_first_error) (auto simp: only_fails_if list_all_iff)
  with 1 show ?case
    by (cases ty; cases v) (auto simp: validateExactFields.simps(1) intro!: only_then)
qed (auto intro!: only_then split: option.split)

subsection \<open>Properties\<close>

lemma Parse_total:
  assumes "inj (pe_sprint env)" and "traversal (pe_tokenOrder env) 4" and "traversal (pe_temperatureOrder env) 3"
  shows "(case Parse env data of
       Ok m \<Rightarrow> manifest_wf (pe_lower env) m \<and> inference_profile m \<and> calibration_bounds (1 / 2) 5 (mf_Calibration m) \<and>
         mf_id m = ''sha256:'' @ pe_sha256 env data \<and> 0 < length data \<and> length data \<le> 1048576
     | Err e \<Rightarrow> errors_is e ErrInvalidBundle \<or>
         (errors_is e ErrUnsupportedBundle \<and> (\<exists>m. pe_decode env data = Inr m \<and> manifest_wf (pe_lower env) m))
     | Panic \<Rightarrow> False)"
proof (cases "length data = 0 \<or> length data > maxManifestBytes \<or> \<not> utf8_valid data \<or> \<not> json_valid data")
  case True
  then show ?thesis by (auto simp: Parse_def)
next
  case False
  let ?dup = "rejectDuplicateFields (pe_tree env data)"
  let ?read = "map_option (\<lambda>err. invalid ''manifest.json'' '''' ''JSON object'' ''invalid'' (Some err)) (pe_unmarshal env data)"
  let ?exact = "validateExactFields (pe_tree env data) manifest_type ''$''"
  have eq: "Parse env data = check_then ?dup (check_then ?read (check_then ?exact
      (case pe_decode env data of
         Inl err \<Rightarrow> Err (invalid ''manifest.json'' '''' ''bundle manifest v1 fields'' ''invalid'' (Some err))
       | Inr m \<Rightarrow>
           check_then (validateManifest (pe_lower env) (pe_tokenOrder env) (pe_temperatureOrder env) m)
             (check_then (validateCompatibility (pe_sprint env) m)
               (Ok (m\<lparr>mf_id := ''sha256:'' @ pe_sha256 env data\<rparr>))))))"
    using False by (simp add: Parse_def)
  have only: "only ErrInvalidBundle ?dup" "only ErrInvalidBundle ?read" "only ErrInvalidBundle ?exact"
    by (simp_all add: rejectDuplicateFields_def consume_only exact_only) (auto simp: only_def split: option.split)
  show ?thesis
  proof (cases "?dup = None \<and> ?read = None \<and> ?exact = None \<and> (\<exists>m. pe_decode env data = Inr m)")
    case False
    with eq only show ?thesis
      by (cases ?dup; cases ?read; cases ?exact; cases "pe_decode env data") (auto simp: only_def)
  next
    case True
    then obtain m where m: "pe_decode env data = Inr m" and ok: "?dup = None" "?read = None" "?exact = None" by auto
    note v = validateManifest_None [OF assms(2,3), of "pe_lower env" m]
    let ?v = "validateManifest (pe_lower env) (pe_tokenOrder env) (pe_temperatureOrder env) m"
    let ?c = "validateCompatibility (pe_sprint env) m"
    have cat: "only ErrInvalidBundle ?v" "only ErrUnsupportedBundle ?c"
      by (simp_all add: validateManifest_only validateCompatibility_only)
    show ?thesis
    proof (cases "?v = None \<and> ?c = None")
      case False
      with eq m ok cat v show ?thesis by (cases ?v; cases ?c) (auto simp: only_def)
    next
      case True
      let ?m = "m\<lparr>mf_id := ''sha256:'' @ pe_sha256 env data\<rparr>"
      have "manifest_wf (pe_lower env) ?m = manifest_wf (pe_lower env) m" "inference_profile ?m = inference_profile m"
        by (simp_all add: manifest_wf_def identity_wf_def inference_profile_def)
      moreover have "manifest_wf (pe_lower env) m" using v True by simp
      moreover note validateCompatibility_profile [OF assms(1), of m]
      ultimately show ?thesis using eq m ok True \<open>\<not> (length data = 0 \<or> _)\<close> by (simp add: maxManifestBytes_def)
    qed
  qed
qed

lemma Parse_accepted:
  assumes "inj (pe_sprint env)" and "traversal (pe_tokenOrder env) 4" and "traversal (pe_temperatureOrder env) 3"
    and "Parse env data = Ok m"
  shows "manifest_wf (pe_lower env) m \<and> inference_profile m \<and> calibration_bounds (1 / 2) 5 (mf_Calibration m)"
  using Parse_total [OF assms(1-3), of data] assms(4) by simp

lemma Parse_rejected:
  assumes "inj (pe_sprint env)" and "traversal (pe_tokenOrder env) 4" and "traversal (pe_temperatureOrder env) 3"
  shows "Parse env data = Err e \<Longrightarrow> errors_is e ErrInvalidBundle \<or> errors_is e ErrUnsupportedBundle"
    "Parse env data \<noteq> Panic"
  using Parse_total [OF assms, of data] by (auto split: res.splits)

text \<open>
  C24: \<open>Parse\<close> never panics. A manifest it returns is well formed, is the supported profile with
  its temperature bounds, and carries the digest of the exact bytes as its identity; every
  error is an \<open>ErrInvalidBundle\<close> or an \<open>ErrUnsupportedBundle\<close>, and the latter only for a
  manifest that is well formed.
\<close>

theorem Parse_outcomes:
  assumes "inj (pe_sprint env)" and "traversal (pe_tokenOrder env) 4" and "traversal (pe_temperatureOrder env) 3"
  shows "(case Parse env data of
       Ok m \<Rightarrow> manifest_wf (pe_lower env) m \<and> inference_profile m \<and> calibration_bounds (1 / 2) 5 (mf_Calibration m) \<and>
         mf_id m = ''sha256:'' @ pe_sha256 env data \<and> 0 < length data \<and> length data \<le> 1048576
     | Err e \<Rightarrow> errors_is e ErrInvalidBundle \<or>
         (errors_is e ErrUnsupportedBundle \<and> (\<exists>m. pe_decode env data = Inr m \<and> manifest_wf (pe_lower env) m))
     | Panic \<Rightarrow> False)"
  by (rule Parse_total [OF assms])

text \<open>A decoder that reads every document as the supported manifest.\<close>

fun tree_of_type :: "gotype \<Rightarrow> jvalue" where
  "tree_of_type GBasic = JScalar ''1''"
| "tree_of_type (GSlice t) = JArray [tree_of_type t]"
| "tree_of_type (GStruct ts) = JObject (map (\<lambda>(name, t). (name, tree_of_type t)) ts)"

definition sample_env :: parse_env where
  "sample_env = \<lparr>pe_syntaxError = (\<lambda>data. None), pe_tree = (\<lambda>data. tree_of_type manifest_type), pe_unmarshal = (\<lambda>data. None),
     pe_decode = (\<lambda>data. Inr supported_manifest), pe_sha256 = (\<lambda>data. some_digest), pe_lower = ascii_lower,
     pe_sprint = sprint_fraction, pe_tokenOrder = [0, 1, 2, 3], pe_temperatureOrder = [0, 1, 2]\<rparr>"

lemma sample_env_ok:
  "inj (pe_sprint sample_env)" "traversal (pe_tokenOrder sample_env) 4" "traversal (pe_temperatureOrder sample_env) 3"
  using inj_sprint_fraction in_order_traversal by (auto simp: sample_env_def traversal_def)

lemma sample_checks:
  "rejectDuplicateFields (tree_of_type manifest_type) = None"
  "validateExactFields (tree_of_type manifest_type) manifest_type ''$'' = None"
  "utf8_valid ''{}'' \<and> json_valid ''{}''"
  by code_simp+

lemma Parse_sample: "Parse sample_env ''{}'' = Ok (supported_manifest\<lparr>mf_id := ''sha256:'' @ some_digest\<rparr>)"
  using sample_checks supported_manifest_valid supported_manifest_compatible
  by (simp add: Parse_def sample_env_def maxManifestBytes_def)

theorem Parse_outcomes_witness:
  "\<exists>m. Parse sample_env ''{}'' = Ok m \<and> manifest_wf ascii_lower m \<and> inference_profile m"
  using Parse_outcomes [OF sample_env_ok, of "''{}''"] by (simp add: Parse_sample) (simp add: sample_env_def)

end
