(* ===== verification/Laya_CalibrationConfig.thy ===== *)
theory Laya_CalibrationConfig
  imports Laya_Calibration Laya_Parse
begin

text \<open>
  \<open>calibration.go\<close>, \<open>parseCalibrationConfig\<close>: the check of the token stream for repeated fields
  and deep nesting, the decoding, and the configuration. The tokens that \<open>json.Decoder\<close> answers
  and the decoded document are arguments.
\<close>

subsection \<open>The token stream\<close>

datatype json_token = Delim char | StringToken string | ScalarToken

text \<open>
  One answer of \<open>Decoder.Token\<close>; \<open>tk_closing\<close> says that the next byte before it is a closing
  bracket, which is what \<open>More\<close> looks at. After the last answer the input ends.
\<close>

record token_reply =
  tk_closing :: bool
  tk_result :: "go_error + json_token"

definition decoder_More :: "token_reply list \<Rightarrow> bool" where
  "decoder_More ts = (case ts of [] \<Rightarrow> False | t # _ \<Rightarrow> \<not> tk_closing t)"

definition decoder_Token :: "token_reply list \<Rightarrow> go_error + json_token \<times> token_reply list" where
  "decoder_Token ts =
     (case ts of
        [] \<Rightarrow> Inl (Opaque ''EOF'')
      | t # ts' \<Rightarrow> (case tk_result t of Inl e \<Rightarrow> Inl e | Inr tok \<Rightarrow> Inr (tok, ts')))"

lemma decoder_Token_shorter: "decoder_Token ts = Inr (tok, ts') \<Longrightarrow> length ts' < length ts"
  by (auto simp: decoder_Token_def split: list.splits sum.splits)

text \<open>
  The walk; it returns the tokens that are left. The loops stop if a value consumed nothing,
  which never happens (\<open>consume_shorter\<close>).
\<close>

function consumeCalibrationJSONValue :: "nat \<Rightarrow> token_reply list \<Rightarrow> go_error + token_reply list"
  and consume_fields :: "nat \<Rightarrow> string list \<Rightarrow> token_reply list \<Rightarrow> go_error + token_reply list"
  and consume_items :: "nat \<Rightarrow> token_reply list \<Rightarrow> go_error + token_reply list"
where
  "consumeCalibrationJSONValue depth ts =
     (if depth > 64 then Inl (Opaque ''JSON nesting exceeds 64 levels'')
      else case decoder_Token ts of
             Inl e \<Rightarrow> Inl e
           | Inr (tok, ts') \<Rightarrow>
               (case tok of
                  Delim c \<Rightarrow>
                    if c = CHR ''{'' then consume_fields depth [] ts'
                    else if c = CHR ''['' then consume_items depth ts'
                    else Inl (Opaque ''invalid JSON delimiter'')
                | _ \<Rightarrow> Inr ts'))"
| "consume_fields depth seen ts =
     (if \<not> decoder_More ts then map_sum id snd (decoder_Token ts)
      else case decoder_Token ts of
             Inl e \<Rightarrow> Inl e
           | Inr (StringToken key, ts') \<Rightarrow>
               if key \<in> set seen then Inl (Opaque ''duplicate JSON object field'')
               else (case consumeCalibrationJSONValue (depth + 1) ts' of
                       Inl e \<Rightarrow> Inl e
                     | Inr rest \<Rightarrow> if length rest < length ts then consume_fields depth (key # seen) rest else Inr rest)
           | Inr (_, ts') \<Rightarrow> Inl (Opaque ''JSON object key is not a string''))"
| "consume_items depth ts =
     (if \<not> decoder_More ts then map_sum id snd (decoder_Token ts)
      else case consumeCalibrationJSONValue (depth + 1) ts of
             Inl e \<Rightarrow> Inl e
           | Inr rest \<Rightarrow> if length rest < length ts then consume_items depth rest else Inr rest)"
  by pat_completeness auto
termination
  by (relation "measure (\<lambda>x. case x of
        Inl (d, ts) \<Rightarrow> 2 * length ts
      | Inr (Inl (d, s, ts)) \<Rightarrow> 2 * length ts + 1
      | Inr (Inr (d, ts)) \<Rightarrow> 2 * length ts + 1)") (auto dest: decoder_Token_shorter)

declare consumeCalibrationJSONValue.simps [simp del] consume_fields.simps [simp del] consume_items.simps [simp del]

lemma decoder_Token_last: "map_sum id snd (decoder_Token ts) = Inr rest \<Longrightarrow> length rest < length ts"
  by (cases "decoder_Token ts") (auto dest: decoder_Token_shorter)

lemma consume_shorter:
  "consumeCalibrationJSONValue depth ts = Inr rest \<Longrightarrow> length rest < length ts"
  "consume_fields depth seen ts = Inr rest \<Longrightarrow> length rest < length ts"
  "consume_items depth ts = Inr rest \<Longrightarrow> length rest < length ts"
proof (induction depth ts and depth seen ts and depth ts arbitrary: rest and rest and rest
    rule: consumeCalibrationJSONValue_consume_fields_consume_items.induct)
  case (1 depth ts)
  show ?case
  proof (cases "decoder_Token ts")
    case (Inr p)
    obtain tok ts' where p: "p = (tok, ts')" by (cases p)
    have "length ts' < length ts" using Inr p by (simp add: decoder_Token_shorter)
    moreover have "length rest \<le> length ts'"
    proof (cases tok)
      case (Delim c)
      have shallow: "\<not> 64 < depth" using 1(3) by (simp add: consumeCalibrationJSONValue.simps split: if_splits)
      have "consume_fields depth [] ts' = Inr rest \<or> consume_items depth ts' = Inr rest" and "c = CHR ''{'' \<or> c = CHR ''[''"
        using 1(3) by (simp_all add: consumeCalibrationJSONValue.simps [of depth ts] Inr p Delim split: if_splits)
      then show ?thesis
        using 1(3) 1(1) [OF shallow Inr p [symmetric] Delim] 1(2) [OF shallow Inr p [symmetric] Delim]
        by (auto simp: consumeCalibrationJSONValue.simps [of depth ts] Inr p Delim split: if_splits dest: less_imp_le)
    qed (use 1(3) in \<open>simp_all add: consumeCalibrationJSONValue.simps [of depth ts] Inr p split: if_splits\<close>)
    ultimately show ?thesis by simp
  qed (use 1(3) in \<open>simp add: consumeCalibrationJSONValue.simps split: if_splits\<close>)
next
  case (2 depth seen ts)
  show ?case
  proof (cases "decoder_More ts")
    case True
    with 2(3) obtain key ts' where t: "decoder_Token ts = Inr (StringToken key, ts')" "key \<notin> set seen"
      by (auto simp: consume_fields.simps [of depth seen ts] split: sum.splits json_token.splits if_splits)
    with 2(3) True obtain mid where m: "consumeCalibrationJSONValue (depth + 1) ts' = Inr mid"
      by (auto simp: consume_fields.simps [of depth seen ts] split: sum.splits)
    have "length mid < length ts'"
      using 2(1) [OF _ t(1) refl refl t(2) m] True by simp
    moreover have "length ts' < length ts" using t(1) by (rule decoder_Token_shorter)
    ultimately have l: "length mid < length ts" by simp
    then have "consume_fields depth (key # seen) mid = Inr rest"
      using 2(3) True t m by (simp add: consume_fields.simps [of depth seen ts])
    then have "length rest < length mid"
      using 2(2) [OF _ t(1) refl refl t(2) m l] True by simp
    with l show ?thesis by simp
  qed (use 2(3) in \<open>simp add: consume_fields.simps decoder_Token_last\<close>)
next
  case (3 depth ts)
  show ?case
  proof (cases "decoder_More ts")
    case True
    with 3(3) obtain mid where m: "consumeCalibrationJSONValue (depth + 1) ts = Inr mid"
      by (auto simp: consume_items.simps [of depth ts] split: sum.splits)
    then have l: "length mid < length ts" using 3(1) True by simp
    then have "consume_items depth mid = Inr rest"
      using 3(3) True m by (simp add: consume_items.simps [of depth ts])
    then have "length rest < length mid" using 3(2) [OF _ m l] True by simp
    with l show ?thesis by simp
  qed (use 3(3) in \<open>simp add: consume_items.simps decoder_Token_last\<close>)
qed

text \<open>The loops as the code has them, without the guard.\<close>

lemma consume_fields_unfold:
  "consume_fields depth seen ts =
     (if \<not> decoder_More ts then map_sum id snd (decoder_Token ts)
      else case decoder_Token ts of
             Inl e \<Rightarrow> Inl e
           | Inr (StringToken key, ts') \<Rightarrow>
               if key \<in> set seen then Inl (Opaque ''duplicate JSON object field'')
               else (case consumeCalibrationJSONValue (depth + 1) ts' of
                       Inl e \<Rightarrow> Inl e
                     | Inr rest \<Rightarrow> consume_fields depth (key # seen) rest)
           | Inr (_, ts') \<Rightarrow> Inl (Opaque ''JSON object key is not a string''))"
proof -
  have "length rest < length ts"
    if "decoder_Token ts = Inr (tok, ts')" "consumeCalibrationJSONValue (depth + 1) ts' = Inr rest" for tok ts' rest
    using consume_shorter(1) [OF that(2)] decoder_Token_shorter [OF that(1)] by simp
  then show ?thesis
    by (simp add: consume_fields.simps [of depth seen ts] split: sum.split json_token.split)
qed

lemma consume_items_unfold:
  "consume_items depth ts =
     (if \<not> decoder_More ts then map_sum id snd (decoder_Token ts)
      else case consumeCalibrationJSONValue (depth + 1) ts of
             Inl e \<Rightarrow> Inl e
           | Inr rest \<Rightarrow> consume_items depth rest)"
  using consume_shorter(1) [of "depth + 1" ts]
  by (simp add: consume_items.simps [of depth ts] split: sum.split)

subsection \<open>The configuration\<close>

text \<open>What a further \<open>Decode\<close> answers after the document.\<close>

datatype decode_reply = DecodeEOF | DecodeValue | DecodeError go_error

definition rejectDuplicateCalibrationFields :: "token_reply list \<Rightarrow> (token_reply list \<Rightarrow> decode_reply) \<Rightarrow> go_error option" where
  "rejectDuplicateCalibrationFields ts trailing =
     (case consumeCalibrationJSONValue 0 ts of
        Inl e \<Rightarrow> Some e
      | Inr rest \<Rightarrow>
          (case trailing rest of
             DecodeEOF \<Rightarrow> None
           | DecodeValue \<Rightarrow> Some (Opaque ''additional JSON value'')
           | DecodeError e \<Rightarrow> Some e))"

text \<open>The two fields of \<open>agentConfigDocument\<close> that are read.\<close>

record agentConfigDocument =
  ac_Temperature :: "string list"
  ac_TemperatureByOptions :: "(string \<times> string) list"

record calibration_env =
  ce_tokens :: "string \<Rightarrow> token_reply list"
  ce_trailing :: "token_reply list \<Rightarrow> decode_reply"
  ce_decode :: "string \<Rightarrow> go_error + agentConfigDocument"
  ce_trailer :: "string \<Rightarrow> decode_reply"
  ce_value :: "string \<Rightarrow> json_any option"
  ce_parseFloat :: "string \<Rightarrow> f64 option"

definition maxCalibrationConfigBytes :: nat where "maxCalibrationConfigBytes = 1048576"

abbreviation calibration_error :: "string \<Rightarrow> go_error option \<Rightarrow> go_error" where
  "calibration_error stage cause \<equiv> newInferenceStageError (Sentinel ErrInvalidBundle) stage cause"

definition parseCalibrationConfig :: "calibration_env \<Rightarrow> Manifest \<Rightarrow> string \<Rightarrow> calibrationConfig res" where
  "parseCalibrationConfig env m data =
     (if length data = 0 \<or> length data > maxCalibrationConfigBytes
      then Err (wrap ErrInvalidBundle ''calibration config size is outside bounds'')
      else case rejectDuplicateCalibrationFields (ce_tokens env data) (ce_trailing env) of
             Some e \<Rightarrow> Err (calibration_error ''validate calibration config'' (Some e))
           | None \<Rightarrow>
     (case ce_decode env data of
        Inl e \<Rightarrow> Err (calibration_error ''decode calibration config'' (Some e))
      | Inr document \<Rightarrow>
     (case ce_trailer env data of
        DecodeValue \<Rightarrow> Err (calibration_error ''decode calibration config trailer'' None)
      | DecodeError e \<Rightarrow> Err (calibration_error ''decode calibration config trailer'' (Some e))
      | DecodeEOF \<Rightarrow>
          calibration_from (ce_value env) (ce_parseFloat env) m (ac_Temperature document) (ac_TemperatureByOptions document))))"

subsection \<open>Documents and their tokens\<close>

abbreviation opens_with :: "char \<Rightarrow> token_reply" where
  "opens_with c \<equiv> \<lparr>tk_closing = False, tk_result = Inr (Delim c)\<rparr>"

abbreviation ends_with :: "char \<Rightarrow> token_reply" where
  "ends_with c \<equiv> \<lparr>tk_closing = True, tk_result = Inr (Delim c)\<rparr>"

text \<open>The tokens of a document; a scalar is a string, a number, a boolean or null.\<close>

fun doc_tokens :: "jvalue \<Rightarrow> token_reply list" where
  "doc_tokens Laya_Parse.JNull = [\<lparr>tk_closing = False, tk_result = Inr ScalarToken\<rparr>]"
| "doc_tokens (JScalar s) = [\<lparr>tk_closing = False, tk_result = Inr (StringToken s)\<rparr>]"
| "doc_tokens (Laya_Parse.JArray vs) = opens_with CHR ''['' # concat (map doc_tokens vs) @ [ends_with CHR '']'']"
| "doc_tokens (Laya_Parse.JObject ms) =
     opens_with CHR ''{'' # concat (map (\<lambda>m. \<lparr>tk_closing = False, tk_result = Inr (StringToken (fst m))\<rparr> # doc_tokens (snd m)) ms) @ [ends_with CHR ''}'']"

text \<open>Nothing in the document is deeper than 64 levels, counted from \<open>d\<close>, and no object repeats a key.\<close>

fun plain_below :: "nat \<Rightarrow> jvalue \<Rightarrow> bool" where
  "plain_below d Laya_Parse.JNull \<longleftrightarrow> d \<le> 64"
| "plain_below d (JScalar s) \<longleftrightarrow> d \<le> 64"
| "plain_below d (Laya_Parse.JArray vs) \<longleftrightarrow> d \<le> 64 \<and> (\<forall>v\<in>set vs. plain_below (Suc d) v)"
| "plain_below d (Laya_Parse.JObject ms) \<longleftrightarrow> d \<le> 64 \<and> distinct (map fst ms) \<and> (\<forall>m\<in>set ms. plain_below (Suc d) (snd m))"

lemma decoder_simps [simp]:
  "decoder_Token (\<lparr>tk_closing = b, tk_result = Inr tok\<rparr> # ts) = Inr (tok, ts)"
  "decoder_More (\<lparr>tk_closing = b, tk_result = r\<rparr> # ts) \<longleftrightarrow> \<not> b"
  by (simp_all add: decoder_Token_def decoder_More_def)

lemma doc_tokens_More [simp]: "decoder_More (doc_tokens v @ ts)"
  by (cases v) simp_all

text \<open>What a walk over a prefix of the tokens does: it leaves exactly the rest, or fails.\<close>

definition walks :: "(go_error + token_reply list) \<Rightarrow> bool \<Rightarrow> token_reply list \<Rightarrow> bool" where
  "walks r good rest \<longleftrightarrow> (if good then r = Inr rest else \<exists>e. r = Inl e)"

lemma items_walk:
  assumes "\<And>v rest. v \<in> set vs \<Longrightarrow> walks (consumeCalibrationJSONValue (d + 1) (doc_tokens v @ rest)) (plain_below (Suc d) v) rest"
  shows "walks (consume_items d (concat (map doc_tokens vs) @ ends_with CHR '']'' # rest)) (\<forall>v\<in>set vs. plain_below (Suc d) v) rest"
  using assms
proof (induction vs)
  case Nil
  show ?case by (subst consume_items_unfold) (simp add: walks_def)
next
  case (Cons v vs)
  have v: "walks (consumeCalibrationJSONValue (d + 1) (doc_tokens v @ more)) (plain_below (Suc d) v) more" for more
    by (rule Cons.prems) simp
  have vs: "walks (consume_items d (concat (map doc_tokens vs) @ ends_with CHR '']'' # rest)) (\<forall>v\<in>set vs. plain_below (Suc d) v) rest"
    by (rule Cons.IH) (rule Cons.prems, simp)
  show ?case
    using v [of "concat (map doc_tokens vs) @ ends_with CHR '']'' # rest"] vs
    by (subst consume_items_unfold) (auto simp: walks_def split: if_splits)
qed

lemma fields_walk:
  assumes "\<And>m rest. m \<in> set ms \<Longrightarrow> walks (consumeCalibrationJSONValue (d + 1) (doc_tokens (snd m) @ rest)) (plain_below (Suc d) (snd m)) rest"
  shows "walks (consume_fields d seen (concat (map (\<lambda>m. \<lparr>tk_closing = False, tk_result = Inr (StringToken (fst m))\<rparr> # doc_tokens (snd m)) ms)
      @ ends_with CHR ''}'' # rest))
    (distinct (map fst ms) \<and> fst ` set ms \<inter> set seen = {} \<and> (\<forall>m\<in>set ms. plain_below (Suc d) (snd m))) rest"
  using assms
proof (induction ms arbitrary: seen)
  case Nil
  show ?case by (subst consume_fields_unfold) (simp add: walks_def)
next
  case (Cons m ms)
  let ?toks = "concat (map (\<lambda>m. \<lparr>tk_closing = False, tk_result = Inr (StringToken (fst m))\<rparr> # doc_tokens (snd m)) ms) @ ends_with CHR ''}'' # rest"
  have v: "walks (consumeCalibrationJSONValue (d + 1) (doc_tokens (snd m) @ ?toks)) (plain_below (Suc d) (snd m)) ?toks"
    by (rule Cons.prems) simp
  have ms: "walks (consume_fields d (fst m # seen) ?toks)
      (distinct (map fst ms) \<and> fst ` set ms \<inter> set (fst m # seen) = {} \<and> (\<forall>m\<in>set ms. plain_below (Suc d) (snd m))) rest"
    by (rule Cons.IH) (rule Cons.prems, simp)
  show ?case
  proof (cases "fst m \<in> set seen")
    case True
    then show ?thesis by (subst consume_fields_unfold) (simp add: walks_def)
  next
    case False
    with v ms show ?thesis
      by (subst consume_fields_unfold) (auto simp: walks_def split: if_splits)
  qed
qed

lemma document_walk: "walks (consumeCalibrationJSONValue d (doc_tokens v @ rest)) (plain_below d v) rest"
proof (induction v arbitrary: d rest)
  case JNull
  show ?case by (simp add: consumeCalibrationJSONValue.simps walks_def)
next
  case (JScalar s)
  show ?case by (simp add: consumeCalibrationJSONValue.simps walks_def)
next
  case (JArray vs)
  have "walks (consume_items d (concat (map doc_tokens vs) @ ends_with CHR '']'' # rest)) (\<forall>v\<in>set vs. plain_below (Suc d) v) rest"
    by (rule items_walk) (use JArray [of _ "Suc d"] in simp)
  then show ?case by (simp add: consumeCalibrationJSONValue.simps walks_def)
next
  case (JObject ms)
  have "walks (consume_fields d [] (concat (map (\<lambda>m. \<lparr>tk_closing = False, tk_result = Inr (StringToken (fst m))\<rparr> # doc_tokens (snd m)) ms)
      @ ends_with CHR ''}'' # rest))
    (distinct (map fst ms) \<and> fst ` set ms \<inter> set [] = {} \<and> (\<forall>m\<in>set ms. plain_below (Suc d) (snd m))) rest"
    by (rule fields_walk) (use JObject [of _ _ "Suc d"] in \<open>fastforce intro: snds.intros\<close>)
  then show ?case by (simp add: consumeCalibrationJSONValue.simps walks_def)
qed

lemma plain_below_iff: "plain_below d v \<longleftrightarrow>
  (\<forall>n w. occurs v n w \<longrightarrow> d + n \<le> 64 \<and> (case w of Laya_Parse.JObject ms \<Rightarrow> distinct (map fst ms) | _ \<Rightarrow> True))"
proof (induction v arbitrary: d)
  case (JArray vs)
  then show ?case unfolding occurs_all by auto
next
  case (JObject ms)
  have "plain_below (Suc d) (snd m) \<longleftrightarrow>
      (\<forall>n w. occurs (snd m) n w \<longrightarrow> Suc d + n \<le> 64 \<and> (case w of Laya_Parse.JObject ms \<Rightarrow> distinct (map fst ms) | _ \<Rightarrow> True))"
    if "m \<in> set ms" for m
    using that by (intro JObject.IH [of "m" "snd m"]) (auto intro: snds.intros)
  then show ?case unfolding occurs_all by (auto simp: split_beta)
qed (simp_all add: occurs_all)

lemma calibration_from_error:
  "calibration_from decode parseFloat m ts bs = Err e \<Longrightarrow> errors_is e ErrUnsupportedBundle"
  "calibration_from decode parseFloat m ts bs \<noteq> Panic"
  by (auto simp: calibration_from_def split: if_splits)

text \<open>
  C37: What \<open>parseCalibrationConfig\<close> does with the tokens of a document. A configuration it returns
  comes from a document within the size bound in which no object at any level repeats a key and
  nothing is more than 64 levels deep, with nothing after it, and has exactly three temperatures,
  all of them and those by bucket finite and within the bounds of the manifest. Every error is an invalid or unsupported
  bundle, and it never panics.
\<close>

theorem parseCalibrationConfig_outcomes:
  assumes "calibration_bounds lo hi (mf_Calibration m)" and "ce_tokens env data = doc_tokens document @ rest"
  shows "case parseCalibrationConfig env m data of
      Ok c \<Rightarrow> 0 < length data \<and> length data \<le> maxCalibrationConfigBytes \<and>
        (\<forall>n w. occurs document n w \<longrightarrow> n \<le> 64 \<and> (case w of Laya_Parse.JObject ms \<Rightarrow> distinct (map fst ms) | _ \<Rightarrow> True)) \<and>
        ce_trailing env rest = DecodeEOF \<and> ce_trailer env data = DecodeEOF \<and> calibration_ok lo hi c
    | Err e \<Rightarrow> errors_is e ErrInvalidBundle \<or> errors_is e ErrUnsupportedBundle
    | Panic \<Rightarrow> False"
proof (cases "parseCalibrationConfig env m data")
  case (Ok c)
  then obtain d :: agentConfigDocument where f: "0 < length data" "length data \<le> maxCalibrationConfigBytes"
    "rejectDuplicateCalibrationFields (ce_tokens env data) (ce_trailing env) = None" "ce_trailer env data = DecodeEOF"
    "calibration_from (ce_value env) (ce_parseFloat env) m (ac_Temperature d) (ac_TemperatureByOptions d) = Ok c"
    by (auto simp: parseCalibrationConfig_def split: if_splits option.splits sum.splits decode_reply.splits)
  have "plain_below 0 document \<and> ce_trailing env rest = DecodeEOF"
    using f(3) document_walk [of 0 document rest] assms(2)
    by (auto simp: rejectDuplicateCalibrationFields_def walks_def split: if_splits decode_reply.splits)
  moreover have "calibration_ok lo hi c" using calibration_from_ok [OF assms(1) f(5)] .
  ultimately show ?thesis using Ok f(1,2,4) by (simp add: plain_below_iff)
next
  case (Err e)
  then show ?thesis
    by (auto simp: parseCalibrationConfig_def split: if_splits option.splits sum.splits decode_reply.splits
        dest: calibration_from_error(1))
next
  case Panic
  then show ?thesis
    by (auto simp: parseCalibrationConfig_def calibration_from_error(2)
        split: if_splits option.splits sum.splits decode_reply.splits)
qed

definition sample_calibration_env :: calibration_env where
  "sample_calibration_env =
     \<lparr>ce_tokens = (\<lambda>s. doc_tokens (Laya_Parse.JObject [(''temperature'', Laya_Parse.JArray [JScalar ''1'', JScalar ''9'', JScalar ''x''])])),
      ce_trailing = (\<lambda>ts. DecodeEOF), ce_decode = (\<lambda>s. Inr \<lparr>ac_Temperature = [''1'', ''9'', ''x''], ac_TemperatureByOptions = []\<rparr>),
      ce_trailer = (\<lambda>s. DecodeEOF), ce_value = (\<lambda>s. Some (JNumber s)),
      ce_parseFloat = (\<lambda>s. if s = ''x'' then None else Some (Fin 1))\<rparr>"

abbreviation sample_document :: jvalue where
  "sample_document \<equiv> Laya_Parse.JObject [(''temperature'', Laya_Parse.JArray [JScalar ''1'', JScalar ''9'', JScalar ''x''])]"

lemma sample_calibration_parses: "\<exists>c. parseCalibrationConfig sample_calibration_env (sample_manifest 4) ''{}'' = Ok c"
proof -
  have "rejectDuplicateCalibrationFields (ce_tokens sample_calibration_env ''{}'') (ce_trailing sample_calibration_env) = None"
    using document_walk [of 0 sample_document "[]"]
    by (simp add: rejectDuplicateCalibrationFields_def sample_calibration_env_def walks_def)
  then show ?thesis
    by (simp add: parseCalibrationConfig_def maxCalibrationConfigBytes_def)
      (simp add: sample_calibration_env_def calibration_from_def)
qed

theorem parseCalibrationConfig_outcomes_witness:
  "case parseCalibrationConfig sample_calibration_env (sample_manifest 4) ''{}'' of Ok c \<Rightarrow> calibration_ok (1/2) 5 c | _ \<Rightarrow> False"
proof -
  have bounds: "calibration_bounds (1/2) 5 (mf_Calibration (sample_manifest 4))"
    by (simp add: calibration_bounds_def sample_manifest_def)
  have tokens: "ce_tokens sample_calibration_env ''{}'' = doc_tokens sample_document @ []"
    by (simp add: sample_calibration_env_def)
  show ?thesis using parseCalibrationConfig_outcomes [OF bounds tokens] sample_calibration_parses by auto
qed

end
