(* ===== verification/Laya_Lifecycle.thy ===== *)
theory Laya_Lifecycle
  imports Laya_Runtime Laya_Native Laya_Coordinator Laya_CalibrationConfig
begin

text \<open>
  The life of one Runtime, composed: \<open>runtime.go\<close>, \<open>model.go\<close> and \<open>native_lifecycle.go\<close>
  together. Each call of the client is modelled whole, from its checks to its return, over the
  Runtime, its native engine, the models it handed out and the coordinator that several
  Runtimes share. One client calls this Runtime, one call after another (the theories of the
  components treat concurrent callers); other Runtimes use the coordinator between its calls.
  A call that would wait for another goroutine yields \<open>None\<close>.
\<close>

subsection \<open>The process\<close>

text \<open>
  Calls of \<open>OpenModelDir\<close> and \<open>OpenModelFS\<close> that reach the engine are numbered, and their number
  names the model they return. \<open>ps_calls\<close> is what was opened and closed on behalf of each.
\<close>

record process =
  ps_rt :: runtime
  ps_engine :: runtimeEngine
  ps_coord :: coord_system
  ps_lease :: nat
  ps_models :: "nat \<Rightarrow> (model \<times> modelEngine) option"
  ps_next :: nat
  ps_calls :: "nat \<Rightarrow> res_call list"

text \<open>\<open>newNativeRuntimeEngine\<close> once the key is resolved, inside \<open>NewRuntime\<close>.\<close>

definition new_process ::
  "go_ctx \<Rightarrow> go_error option \<Rightarrow> envKey \<Rightarrow> nat \<Rightarrow> env_reply \<Rightarrow> string \<Rightarrow> coord_system \<Rightarrow> process res" where
  "new_process ctx late key env reply runtimeID s =
     (let out = coordinator_acquire ctx late key (Some env) reply (cs_co s)
      in res_bind (fst (NewRuntime ctx (res_bind (fst out) (\<lambda>_. Ok True)))) (\<lambda>r. Ok
           \<lparr>ps_rt = r,
            ps_engine = \<lparr>re_factory = True, re_lease = Some (cs_next s), re_runtimeID = runtimeID, re_closed = False\<rparr>,
            ps_coord = after_coord_acquire key out s, ps_lease = cs_next s,
            ps_models = (\<lambda>_. None), ps_next = 0, ps_calls = (\<lambda>_. [])\<rparr>))"

subsection \<open>Opening a model\<close>

definition res_error :: "'a res \<Rightarrow> go_error option" where
  "res_error r = (case r of Err e \<Rightarrow> Some e | _ \<Rightarrow> None)"

text \<open>\<open>beginOpen\<close>, the engine and \<open>finishOpen\<close>.\<close>

definition open_model ::
  "string \<Rightarrow> modelEngine res \<times> res_call list \<Rightarrow> ModelOptions \<Rightarrow> process \<Rightarrow> nat res \<times> process" where
  "open_model operation reply opts p =
     (case res_wrap operation (beginOpen (ps_rt p)) of
        Err e \<Rightarrow> (Err e, p)
      | Panic \<Rightarrow> (Panic, p)
      | Ok r \<Rightarrow>
          (let k = ps_next p;
               p' = p\<lparr>ps_next := Suc k, ps_calls := (ps_calls p)(k := snd reply), ps_rt := r\<rparr>
           in if fst reply = Panic then (Panic, p')
              else case finishOpen operation k (is_Ok (fst reply)) (res_error (fst reply)) r of
                     (Inl x, r') \<Rightarrow> (Err x, p'\<lparr>ps_rt := r'\<rparr>)
                   | (Inr n, r') \<Rightarrow>
                       (case fst reply of
                          Ok engine \<Rightarrow> (Ok n, p'\<lparr>ps_rt := r', ps_models := (ps_models p)(n := Some (newModel opts, engine))\<rparr>)
                        | _ \<Rightarrow> (Ok n, p'\<lparr>ps_rt := r'\<rparr>))))"

text \<open>What the outside answers during a call: the context as the engine reads it, and the replies.\<close>

record open_answers =
  oa_ctx :: go_ctx
  oa_late :: "go_error option"
  oa_source :: "go_error + (bool \<times> Manifest)"
  oa_replies :: open_replies
  oa_calibration :: calibration_env

definition Runtime_OpenModelDir :: "go_ctx \<Rightarrow> string \<Rightarrow> ModelOptions \<Rightarrow> open_answers \<Rightarrow> process \<Rightarrow> nat res \<times> process" where
  "Runtime_OpenModelDir ctx dir opts a p =
     (case OpenModelDir_checks ctx dir opts of
        Some e \<Rightarrow> (Err e, p)
      | None \<Rightarrow> open_model ''open model directory''
          (engine_OpenModelDir (parseCalibrationConfig (oa_calibration a)) (oa_ctx a) (oa_late a) (Some (ps_engine p))
             (oa_source a) (oa_replies a) opts) opts p)"

definition Runtime_OpenModelFS :: "go_ctx \<Rightarrow> bool \<Rightarrow> FSModelOptions \<Rightarrow> open_answers \<Rightarrow> process \<Rightarrow> nat res \<times> process" where
  "Runtime_OpenModelFS ctx fsys opts a p =
     (case OpenModelFS_checks ctx fsys opts of
        Some e \<Rightarrow> (Err e, p)
      | None \<Rightarrow> open_model ''open model filesystem''
          (engine_OpenModelFS (parseCalibrationConfig (oa_calibration a)) (oa_ctx a) (oa_late a) (Some (ps_engine p))
             (oa_source a) (oa_replies a) opts) (fso_ModelOptions opts) p)"

subsection \<open>Closing a model\<close>

text \<open>The context as \<open>engine.Close\<close> reads it at entry and between the resources.\<close>

record close_answers =
  ca_ctx :: go_ctx
  ca_late1 :: "go_error option"
  ca_late2 :: "go_error option"
  ca_replies :: close_replies

text \<open>From the engine's \<open>Close\<close> to the return, holding the slot \<open>d\<close>.\<close>

definition close_with_engine ::
  "close_answers \<Rightarrow> nat \<Rightarrow> nat \<Rightarrow> model \<Rightarrow> modelEngine \<Rightarrow> process \<Rightarrow> unit res option \<times> process" where
  "close_with_engine a d k m e p =
     (case engine_Close_model (ca_ctx a) (ca_late1 a) (ca_late2 a) (ca_replies a) (Some e) of
        (err, e', calls) \<Rightarrow>
          (let p' = p\<lparr>ps_rt := (if err = None then unregister k (ps_rt p) else ps_rt p),
                      ps_calls := (ps_calls p)(k := ps_calls p k @ calls)\<rparr>
           in case close_finish d err m of
                Ok m' \<Rightarrow>
                  (Some (case err of None \<Rightarrow> Ok () | Some x \<Rightarrow> Err (close_error x)),
                   p'\<lparr>ps_models := (ps_models p)(k := map_option (Pair m') e')\<rparr>)
              | _ \<Rightarrow> (Some Panic, p')))"

definition Model_Close :: "go_ctx \<Rightarrow> close_answers \<Rightarrow> nat \<Rightarrow> process \<Rightarrow> unit res option \<times> process" where
  "Model_Close ctx a k p =
     (case ctx of NilCtx \<Rightarrow> (Some (Err (wrap ErrInvalidRequest ''close model'')), p)
      | Ctx ctxErr \<Rightarrow>
     (case ps_models p k of None \<Rightarrow> (Some (Err (wrap ErrInvalidState ''close model'')), p)
      | Some (m, e) \<Rightarrow>
     (case close_enter ctxErr m of
        Ok (n, m') \<Rightarrow>
          (let p' = p\<lparr>ps_models := (ps_models p)(k := Some (m', e))\<rparr>
           in case n of
                CloseReturn None \<Rightarrow> (Some (Ok ()), p')
              | CloseReturn (Some x) \<Rightarrow> (Some (Err x), p')
              | AwaitIdle \<Rightarrow> (None, p')
              | AwaitDone d \<Rightarrow> (None, p')
              | RunEngine d \<Rightarrow> close_with_engine a d k m' e p')
      | Err x \<Rightarrow> (Some (Err x), p)
      | Panic \<Rightarrow> (Some Panic, p))))"

text \<open>What \<open>Predict\<close> does to the model around the engine's work: it takes the slot and gives it back.\<close>

definition Model_slot :: "nat \<Rightarrow> process \<Rightarrow> unit res option \<times> process" where
  "Model_slot k p =
     (case ps_models p k of None \<Rightarrow> (Some (Err (wrap ErrInvalidState ''model is nil'')), p)
      | Some (m, e) \<Rightarrow>
          (case acquire 0 m of
             (Admitted, m') \<Rightarrow>
               (case release m' of
                  Ok m'' \<Rightarrow> (Some (Ok ()), p\<lparr>ps_models := (ps_models p)(k := Some (m'', e))\<rparr>)
                | Err x \<Rightarrow> (Some (Err x), p)
                | Panic \<Rightarrow> (Some Panic, p))
           | (Rejected x, m') \<Rightarrow> (Some (Err x), p)
           | (Queued, m') \<Rightarrow> (None, p\<lparr>ps_models := (ps_models p)(k := Some (m', e))\<rparr>)))"

subsection \<open>Closing the Runtime\<close>

text \<open>\<open>nativeRuntimeEngine.Close\<close> and the lease, which is left alone where the code returns before.\<close>

definition close_engine ::
  "go_ctx \<Rightarrow> go_error option \<Rightarrow> go_error option \<Rightarrow> process \<Rightarrow> unit res \<times> process" where
  "close_engine ctx late destroy p =
     (let s = ps_coord p;
          reply = lease_close ctx late destroy (ps_lease p \<notin> fst ` set (cs_held s)) (cs_co s);
          unused = (validateContext ctx \<noteq> None \<or> re_closed (ps_engine p) \<or> re_lease (ps_engine p) = None)
      in case engine_Close ctx (fst reply) (Some (ps_engine p)) of
           (out, engine) \<Rightarrow>
             (out, p\<lparr>ps_engine := (case engine of None \<Rightarrow> ps_engine p | Some e \<Rightarrow> e),
                    ps_coord := (if unused then s else after_lease_close (ps_lease p) reply s)\<rparr>))"

definition Runtime_Close ::
  "go_ctx \<Rightarrow> go_ctx \<Rightarrow> go_error option \<Rightarrow> go_error option \<Rightarrow> process \<Rightarrow> unit res option \<times> process" where
  "Runtime_Close ctx engineCtx late destroy p =
     (case ctx of NilCtx \<Rightarrow> (Some (Err (wrap ErrInvalidRequest ''close runtime'')), p)
      | Ctx ctxErr \<Rightarrow>
     (case rt_close_enter ctxErr (ps_rt p) of
        (RtReturn None, r) \<Rightarrow> (Some (Ok ()), p\<lparr>ps_rt := r\<rparr>)
      | (RtReturn (Some e), r) \<Rightarrow> (Some (Err e), p\<lparr>ps_rt := r\<rparr>)
      | (RtAwait d, r) \<Rightarrow> (None, p\<lparr>ps_rt := r\<rparr>)
      | (RtRun d, r) \<Rightarrow>
          (case close_engine engineCtx late destroy p of
             (out, p') \<Rightarrow>
               if out = Panic then (Some Panic, p')
               else (case rt_close_finish d (res_error out) r of
                       Ok r' \<Rightarrow>
                         (Some (case res_error out of None \<Rightarrow> Ok () | Some x \<Rightarrow> Err (rt_error x)), p'\<lparr>ps_rt := r'\<rparr>)
                     | _ \<Rightarrow> (Some Panic, p')))))"

subsection \<open>The calls of a client\<close>

text \<open>The last two are calls of other Runtimes of the process on the coordinator.\<close>

datatype client_call =
    OpensDir go_ctx string ModelOptions open_answers
  | OpensFS go_ctx bool FSModelOptions open_answers
  | Predicts nat
  | ClosesModel go_ctx close_answers nat
  | ClosesRuntime go_ctx go_ctx "go_error option" "go_error option"
  | OtherAcquires go_ctx "go_error option" envKey "nat option" env_reply
  | OtherCloses nat go_ctx "go_error option" "go_error option"

definition opened_outcome :: "nat res \<times> process \<Rightarrow> unit res option \<times> process" where
  "opened_outcome out = (Some (res_bind (fst out) (\<lambda>k. Ok ())), snd out)"

fun client_do :: "client_call \<Rightarrow> process \<Rightarrow> unit res option \<times> process" where
  "client_do (OpensDir ctx dir opts a) p = opened_outcome (Runtime_OpenModelDir ctx dir opts a p)"
| "client_do (OpensFS ctx fsys opts a) p = opened_outcome (Runtime_OpenModelFS ctx fsys opts a p)"
| "client_do (Predicts k) p = Model_slot k p"
| "client_do (ClosesModel ctx a k) p = Model_Close ctx a k p"
| "client_do (ClosesRuntime ctx ectx late destroy) p = Runtime_Close ctx ectx late destroy p"
| "client_do (OtherAcquires ctx late key env reply) p =
     (Some (Ok ()), p\<lparr>ps_coord := after_coord_acquire key (coordinator_acquire ctx late key env reply (cs_co (ps_coord p))) (ps_coord p)\<rparr>)"
| "client_do (OtherCloses l ctx late destroy) p =
     (if l \<ge> cs_next (ps_coord p) \<or> l = ps_lease p then (Some (Ok ()), p)
      else (Some (Ok ()), p\<lparr>ps_coord := after_lease_close l
        (lease_close ctx late destroy (l \<notin> fst ` set (cs_held (ps_coord p))) (cs_co (ps_coord p))) (ps_coord p)\<rparr>))"

text \<open>A run: the outcomes of the calls in order, and the process after them.\<close>

fun client_run :: "client_call list \<Rightarrow> process \<Rightarrow> unit res option list \<times> process" where
  "client_run [] p = ([], p)"
| "client_run (c # cs) p =
     (case client_do c p of (out, p') \<Rightarrow> (case client_run cs p' of (outs, p'') \<Rightarrow> (out # outs, p'')))"

subsection \<open>Accounting\<close>

fun opens :: "res_call list \<Rightarrow> resource list" where
  "opens [] = []"
| "opens (Opened r # calls) = r # opens calls"
| "opens (Released r e # calls) = opens calls"

fun closes :: "res_call list \<Rightarrow> resource list" where
  "closes [] = []"
| "closes (Opened r # calls) = closes calls"
| "closes (Released r e # calls) = r # closes calls"

lemma opens_append [simp]: "opens (xs @ ys) = opens xs @ opens ys"
  by (induction xs rule: opens.induct) simp_all

lemma closes_append [simp]: "closes (xs @ ys) = closes xs @ closes ys"
  by (induction xs rule: closes.induct) simp_all

lemma opens_maps [simp]: "opens (map Opened rs) = rs" "opens (map (\<lambda>r. Released r (f r)) rs) = []"
  by (induction rs) simp_all

lemma closes_maps [simp]: "closes (map Opened rs) = []" "closes (map (\<lambda>r. Released r (f r)) rs) = rs"
  by (induction rs) simp_all

text \<open>Nothing is left of an open that failed: what it opened is closed, the last opened first.\<close>

definition closed_again :: "res_call list \<Rightarrow> bool" where
  "closed_again calls \<longleftrightarrow> closes calls = rev (opens calls)"

lemma undone_closed_again: "undone cl calls \<Longrightarrow> closed_again (Opened SourceRes # calls)"
  by (auto simp: undone_def closed_again_def Let_def)

text \<open>What is opened for a model is released in reverse, or still held.\<close>

definition accounted :: "res_call list \<Rightarrow> modelEngine \<Rightarrow> bool" where
  "accounted calls e \<longleftrightarrow>
     opens calls = [SourceRes, TokenizerRes, SessionRes] \<and> releases calls @ held_resources e = rev (opens calls)"

lemma parseCalibrationConfig_no_panic: "parseCalibrationConfig env m data \<noteq> Panic"
  by (auto simp: parseCalibrationConfig_def calibration_from_error(2)
      split: if_splits option.splits sum.splits decode_reply.splits)

lemma engine_open_accounts:
  assumes "\<And>m b. parse m b \<noteq> Panic"
  shows "case engine_open stage parse ctx late (Some e) source r opts of (out, calls) \<Rightarrow>
    (case out of
       Ok me \<Rightarrow> accounted calls me \<and> engine_ok me \<and> \<not> me_closed me
     | Err x \<Rightarrow> closed_again calls
     | Panic \<Rightarrow> False)"
proof (cases "validateContext ctx = None \<and> re_factory e \<and> \<not> re_closed e")
  case False
  then show ?thesis
    by (auto simp: engine_open_def closed_again_def split: option.splits)
next
  case True
  show ?thesis
  proof (cases source)
    case (Inl err)
    with True show ?thesis by (simp add: engine_open_def closed_again_def)
  next
    case (Inr pm)
    obtain present m where pm: "pm = (present, m)" by (cases pm)
    show ?thesis
    proof (cases present)
      case False
      with True Inr pm show ?thesis by (simp add: engine_open_def openVerified_def closed_again_def)
    next
      case present: True
      obtain out calls where o: "openVerified parse True m r opts (re_runtimeID e) = (out, calls)"
        by (cases "openVerified parse True m r opts (re_runtimeID e)")
      have eq: "engine_open stage parse ctx late (Some e) source r opts = (out, Opened SourceRes # calls)"
        using True Inr pm present o by (simp add: engine_open_def)
      from openVerified_cases [where parse = parse and m = m and r = r and opts = opts and rid = "re_runtimeID e"] o
      have "case out of
        Ok e \<Rightarrow> calls = [Opened TokenizerRes, Opened SessionRes] \<and> me_source e \<and> me_session e \<and>
          me_tokenizer e \<noteq> None \<and> \<not> me_closed e \<and> me_manifest e = m
      | Err x \<Rightarrow> undone (or_close r) calls \<and> reports_replies x calls
      | Panic \<Rightarrow> \<exists>b. parse m b = Panic" by simp
      with assms show ?thesis unfolding eq
        by (cases out) (auto simp: accounted_def engine_ok_def held_resources_def undone_closed_again)
    qed
  qed
qed

text \<open>A close adds nothing to what was opened, and what it releases it no longer holds.\<close>

lemma opens_close_present [simp]: "opens (close_present r b reply) = []"
  by (simp add: close_present_def)

lemma close_opens_nothing:
  assumes "engine_Close_model ctx late1 late2 cl e = (r, e', calls)"
  shows "opens calls = []"
proof -
  have source: "opens (snd (snd (close_source cl e))) = []" for e
    by (auto simp: close_source_def Let_def split: option.split)
  then have tok: "opens (snd (snd (close_tokenizer late cl e))) = []" for late e
    by (auto simp: close_tokenizer_def Let_def split: option.split prod.split) (metis snd_conv)+
  then have "opens (snd (snd (close_session late1 late2 cl e))) = []" for e
    by (auto simp: close_session_def Let_def split: option.split prod.split) (metis snd_conv)+
  with assms show ?thesis
    by (auto simp: engine_Close_model_def split: option.splits if_splits prod.splits) (metis snd_conv)+
qed

lemma close_accounted:
  assumes "accounted calls e" and "engine_ok e" and "engine_Close_model ctx late1 late2 cl (Some e) = (r, x, new)"
  obtains e' where "x = Some e'" and "accounted (calls @ new) e'" and "engine_ok e'"
    and "me_closed e' \<longleftrightarrow> r = None \<or> me_closed e"
proof -
  from close_model_step [OF assms(2,3)] obtain e' where
    "x = Some e'" "engine_ok e'" "held_resources e = releases new @ held_resources e'"
    "me_closed e' \<longleftrightarrow> r = None \<or> me_closed e" by blast
  then show thesis using that assms(1) close_opens_nothing [OF assms(3)]
    by (auto simp: accounted_def releases_append)
qed

subsection \<open>Invariant\<close>

text \<open>A model and a Runtime between two calls.\<close>

definition idle_model :: "model \<Rightarrow> bool" where
  "idle_model m \<longleftrightarrow>
     m_state m \<noteq> Uninit \<and> \<not> m_active m \<and> m_waiters m = [] \<and> \<not> m_closeInProgress m \<and>
     (\<forall>d\<in>m_doneClosed m. d < m_nextDone m) \<and> m_idle m = m_idleSet m \<and> (m_closing m \<longleftrightarrow> m_state m \<noteq> Open)"

definition idle_runtime :: "runtime \<Rightarrow> bool" where
  "idle_runtime r \<longleftrightarrow>
     rt_state r \<noteq> Uninit \<and> rt_opening r = 0 \<and> \<not> rt_closeInProgress r \<and>
     (\<forall>d\<in>rt_doneClosed r. d < rt_nextDone r) \<and> (rt_state r = Open \<or> rt_models r = {})"

definition holds_lease :: "process \<Rightarrow> bool" where
  "holds_lease p \<longleftrightarrow> ps_lease p \<in> fst ` set (cs_held (ps_coord p))"

lemma holds_lease_rt [simp]: "holds_lease (p\<lparr>ps_rt := r\<rparr>) = holds_lease p"
  by (simp add: holds_lease_def)

definition engine_inv :: "process \<Rightarrow> bool" where
  "engine_inv p \<longleftrightarrow>
     coord_inv (ps_coord p) \<and> ps_lease p < cs_next (ps_coord p) \<and> re_factory (ps_engine p) \<and>
     (if rt_state (ps_rt p) = Closed then re_closed (ps_engine p) \<and> \<not> holds_lease p
      else \<not> re_closed (ps_engine p) \<and> re_lease (ps_engine p) = Some (ps_lease p) \<and> holds_lease p)"

definition model_inv :: "res_call list \<Rightarrow> (model \<times> modelEngine) option \<Rightarrow> bool" where
  "model_inv calls me =
     (case me of
        None \<Rightarrow> closed_again calls
      | Some (m, e) \<Rightarrow>
          idle_model m \<and> accounted calls e \<and> engine_ok e \<and> (me_closed e \<longleftrightarrow> m_state m = Closed))"

definition live :: "(model \<times> modelEngine) option \<Rightarrow> bool" where
  "live me = (case me of None \<Rightarrow> False | Some (m, e) \<Rightarrow> m_state m \<noteq> Closed)"

definition process_inv :: "process \<Rightarrow> bool" where
  "process_inv p \<longleftrightarrow>
     idle_runtime (ps_rt p) \<and> engine_inv p \<and> rt_models (ps_rt p) = {k. live (ps_models p k)} \<and>
     (\<forall>k. model_inv (ps_calls p k) (ps_models p k)) \<and> (\<forall>k\<ge>ps_next p. ps_models p k = None)"

lemma model_inv_simps [simp]:
  "model_inv calls None = closed_again calls"
  "model_inv calls (Some (m, e)) \<longleftrightarrow>
     idle_model m \<and> accounted calls e \<and> engine_ok e \<and> (me_closed e \<longleftrightarrow> m_state m = Closed)"
  "live None = False" "live (Some (m, e)) \<longleftrightarrow> m_state m \<noteq> Closed"
  by (simp_all add: model_inv_def live_def)

lemma idle_newModel [simp]: "idle_model (newModel opts)" "m_state (newModel opts) = Open"
  by (simp_all add: idle_model_def newModel_def)

text \<open>What a call returns to a client: it does not hang and it does not panic.\<close>

definition returned :: "unit res option \<Rightarrow> bool" where
  "returned out \<longleftrightarrow> out \<noteq> None \<and> out \<noteq> Some Panic"

lemma returned_simps [simp]: "returned (Some (Ok u))" "returned (Some (Err e))" "\<not> returned None" "\<not> returned (Some Panic)"
  by (simp_all add: returned_def)

subsection \<open>Opening keeps it\<close>

lemma open_model_inv:
  assumes inv: "process_inv p"
    and reply: "case reply of (out, calls) \<Rightarrow> (case out of
       Ok me \<Rightarrow> accounted calls me \<and> engine_ok me \<and> \<not> me_closed me | Err x \<Rightarrow> closed_again calls | Panic \<Rightarrow> False)"
    and run: "open_model operation reply opts p = (out, p')"
  shows "process_inv p' \<and> out \<noteq> Panic"
proof (cases "rt_state (ps_rt p) = Open")
  case False
  with run inv show ?thesis by (auto simp: open_model_def beginOpen_def)
next
  case True
  obtain res calls where r: "reply = (res, calls)" by (cases reply)
  show ?thesis
  proof (cases res)
    case (Ok me)
    with run True r have eq: "out = Ok (ps_next p)" "p' = p\<lparr>ps_next := Suc (ps_next p), ps_calls := (ps_calls p)(ps_next p := calls),
        ps_rt := (ps_rt p)\<lparr>rt_models := insert (ps_next p) (rt_models (ps_rt p))\<rparr>,
        ps_models := (ps_models p)(ps_next p := Some (newModel opts, me))\<rparr>"
      by (auto simp: open_model_def beginOpen_def finishOpen_def is_Ok_def res_error_def Let_def)
    with inv reply True r Ok show ?thesis
      by (auto simp: process_inv_def idle_runtime_def engine_inv_def holds_lease_def)
  next
    case (Err x)
    with run True r have eq: "out = Err (Errorf operation [x])"
      "p' = p\<lparr>ps_next := Suc (ps_next p), ps_calls := (ps_calls p)(ps_next p := calls)\<rparr>"
      by (auto simp: open_model_def beginOpen_def finishOpen_def is_Ok_def res_error_def Let_def)
    with inv reply True r Err show ?thesis
      by (auto simp: process_inv_def idle_runtime_def engine_inv_def holds_lease_def)
  next
    case Panic
    with reply r show ?thesis by simp
  qed
qed

text \<open>Every call of a client that opens, through the checks before and the engine within.\<close>

lemma opens_inv:
  assumes "process_inv p" and "Runtime_OpenModelDir ctx dir opts a p = (out, p')"
  shows "process_inv p' \<and> out \<noteq> Panic"
proof (cases "OpenModelDir_checks ctx dir opts")
  case None
  with assms(2) show ?thesis unfolding Runtime_OpenModelDir_def engine_OpenModelDir_def
    by simp (rule open_model_inv [OF assms(1) engine_open_accounts [OF parseCalibrationConfig_no_panic]])
qed (use assms in \<open>auto simp: Runtime_OpenModelDir_def\<close>)

lemma opens_fs_inv:
  assumes "process_inv p" and "Runtime_OpenModelFS ctx fsys opts a p = (out, p')"
  shows "process_inv p' \<and> out \<noteq> Panic"
proof (cases "OpenModelFS_checks ctx fsys opts")
  case None
  with assms(2) show ?thesis unfolding Runtime_OpenModelFS_def engine_OpenModelFS_def
    by simp (rule open_model_inv [OF assms(1) engine_open_accounts [OF parseCalibrationConfig_no_panic]])
qed (use assms in \<open>auto simp: Runtime_OpenModelFS_def\<close>)

subsection \<open>Using and closing a model keeps it\<close>

lemma process_inv_model:
  assumes "process_inv p" and "ps_models p k = Some (m, e)"
    and "model_inv calls (Some (m', e'))"
    and "models = (if m_state m' = Closed then rt_models (ps_rt p) - {k} else rt_models (ps_rt p))"
    and "m_state m \<noteq> Closed"
  shows "process_inv (p\<lparr>ps_models := (ps_models p)(k := Some (m', e')), ps_calls := (ps_calls p)(k := calls),
    ps_rt := (ps_rt p)\<lparr>rt_models := models\<rparr>\<rparr>)"
proof -
  have "k < ps_next p" using assms(1,2) by (cases "ps_next p \<le> k") (auto simp: process_inv_def)
  moreover have "models = {j. live (((ps_models p)(k := Some (m', e'))) j)}"
    using assms by (auto simp: process_inv_def)
  moreover have "rt_state (ps_rt p) = Open \<or> models = {}"
    using assms(1,4) by (auto simp: process_inv_def idle_runtime_def)
  ultimately show ?thesis using assms(1,3)
    by (simp add: process_inv_def idle_runtime_def engine_inv_def holds_lease_def split: if_splits)
qed

lemma runtime_models_same [simp]: "r\<lparr>rt_models := rt_models r\<rparr> = (r :: runtime)"
  by simp

lemma calls_same [simp]: "p\<lparr>ps_calls := (ps_calls p)(k := ps_calls p k)\<rparr> = p"
  by simp

lemma slot_inv_kept:
  assumes inv: "process_inv p" and run: "Model_slot k p = (out, p')"
  shows "process_inv p' \<and> returned out"
proof (cases "ps_models p k")
  case None
  with assms show ?thesis by (auto simp: Model_slot_def)
next
  case (Some me)
  obtain m e where me: "ps_models p k = Some (m, e)" using Some by (cases me) auto
  then have ok: "model_inv (ps_calls p k) (Some (m, e))" using inv by (metis process_inv_def)
  show ?thesis
  proof (cases "m_state m = Open")
    case True
    have "acquire 0 m = (Admitted, m\<lparr>m_active := True\<rparr>)" "release (m\<lparr>m_active := True\<rparr>) = Ok (m\<lparr>m_active := False\<rparr>)"
      using True ok by (auto simp: acquire_def release_def releaseLocked_def signalIdleLocked_def idle_model_def)
    with run me have "out = Some (Ok ())" "p' = p\<lparr>ps_models := (ps_models p)(k := Some (m\<lparr>m_active := False\<rparr>, e))\<rparr>"
      by (auto simp: Model_slot_def)
    moreover have "m\<lparr>m_active := False\<rparr> = m" using ok by (simp add: idle_model_def)
    ultimately show ?thesis using inv me by (simp add: fun_upd_idem)
  next
    case False
    then have "m_state m = Closing \<or> m_state m = Closed" using ok by (cases "m_state m") (auto simp: idle_model_def)
    with run me inv show ?thesis by (auto simp: Model_slot_def acquire_def)
  qed
qed

text \<open>\<open>Close\<close> on an idle model that is not closed, with a live context: it never waits.\<close>

lemma close_enter_idle:
  assumes "idle_model m" and "m_state m \<noteq> Closed"
  obtains m' where "close_enter None m = Ok (RunEngine (m_nextDone m), m')"
    and "m_state m' = Closing" and "m_closeInProgress m'"
    and "\<And>err. \<exists>m''. close_finish (m_nextDone m) err m' = Ok m'' \<and> idle_model m'' \<and>
      m_state m'' = (if err = None then Closed else Closing)"
proof (cases "m_state m")
  case Open
  let ?m = "m\<lparr>m_state := Closing, m_closing := True\<rparr>"
  let ?i = "if m_idleSet m then ?m else ?m\<lparr>m_idleSet := True, m_idle := True\<rparr>"
  let ?m' = "?i\<lparr>m_closeInProgress := True, m_closeDone := Some (m_nextDone m), m_nextDone := Suc (m_nextDone m)\<rparr>"
  have "close_enter None m = Ok (RunEngine (m_nextDone m), ?m')"
    using assms Open by (auto simp: close_enter_def signalIdleLocked_def close_wait_def idle_model_def)
  then show thesis using assms Open
    by (intro that [of ?m']) (auto simp: close_finish_def idle_model_def Let_def less_Suc_eq)
next
  case Closing
  let ?m' = "m\<lparr>m_closeInProgress := True, m_closeDone := Some (m_nextDone m), m_nextDone := Suc (m_nextDone m)\<rparr>"
  have "close_enter None m = Ok (RunEngine (m_nextDone m), ?m')"
    using assms Closing by (auto simp: close_enter_def close_wait_def idle_model_def)
  then show thesis using assms Closing
    by (intro that [of ?m']) (auto simp: close_finish_def idle_model_def Let_def less_Suc_eq)
qed (use assms in \<open>auto simp: idle_model_def\<close>)

lemma closes_model_inv:
  assumes inv: "process_inv p" and run: "Model_Close ctx a k p = (out, p')"
  shows "process_inv p' \<and> returned out"
proof (cases "ps_models p k")
  case None
  with assms show ?thesis by (auto simp: Model_Close_def split: go_ctx.splits)
next
  case (Some me)
  obtain m e where me: "ps_models p k = Some (m, e)" using Some by (cases me) auto
  then have ok: "idle_model m" "accounted (ps_calls p k) e" "engine_ok e" "me_closed e \<longleftrightarrow> m_state m = Closed"
    using inv by (metis model_inv_simps(2) process_inv_def)+
  have same: "p\<lparr>ps_models := (ps_models p)(k := Some (m, e))\<rparr> = p" using me by (simp add: fun_upd_idem)
  show ?thesis
  proof (cases "ctx = Ctx None \<and> m_state m \<noteq> Closed")
    case False
    then have "(out = Some (Ok ()) \<or> (\<exists>x. out = Some (Err x))) \<and> p' = p"
      using run me same ok(1)
      by (cases ctx; cases "m_state m") (auto simp: Model_Close_def close_enter_def idle_model_def split: option.splits)
    with inv show ?thesis by auto
  next
    case True
    obtain m' where m': "close_enter None m = Ok (RunEngine (m_nextDone m), m')"
      "\<And>err. \<exists>m''. close_finish (m_nextDone m) err m' = Ok m'' \<and> idle_model m'' \<and>
        m_state m'' = (if err = None then Closed else Closing)"
      using close_enter_idle [OF ok(1)] True by metis
    obtain err x new where c: "engine_Close_model (ca_ctx a) (ca_late1 a) (ca_late2 a) (ca_replies a) (Some e) = (err, x, new)"
      by (cases "engine_Close_model (ca_ctx a) (ca_late1 a) (ca_late2 a) (ca_replies a) (Some e)")
    obtain e' where e': "x = Some e'" "accounted (ps_calls p k @ new) e'" "engine_ok e'"
      "me_closed e' \<longleftrightarrow> err = None \<or> me_closed e"
      using close_accounted [OF ok(2,3) c] by blast
    obtain m'' where m'': "close_finish (m_nextDone m) err m' = Ok m''" "idle_model m''"
      "m_state m'' = (if err = None then Closed else Closing)" using m'(2) by blast
    have "p' = p\<lparr>ps_models := (ps_models p)(k := Some (m'', e')), ps_calls := (ps_calls p)(k := ps_calls p k @ new),
        ps_rt := (ps_rt p)\<lparr>rt_models := (if err = None then rt_models (ps_rt p) - {k} else rt_models (ps_rt p))\<rparr>\<rparr>"
      "returned out"
      using run True me m'(1) c e'(1) m''(1)
      by (auto simp: Model_Close_def close_with_engine_def unregister_def Let_def split: option.splits)
    moreover have "process_inv (p\<lparr>ps_models := (ps_models p)(k := Some (m'', e')), ps_calls := (ps_calls p)(k := ps_calls p k @ new),
        ps_rt := (ps_rt p)\<lparr>rt_models := (if err = None then rt_models (ps_rt p) - {k} else rt_models (ps_rt p))\<rparr>\<rparr>)"
      using e' m'' ok True by (intro process_inv_model [OF inv me]) auto
    ultimately show ?thesis by simp
  qed
qed

subsection \<open>Closing the Runtime keeps it\<close>

lemma after_close_frame [simp]:
  "cs_held (after_lease_close l out s) = (if fst (snd out) then filter (\<lambda>h. fst h \<noteq> l) (cs_held s) else cs_held s)"
  "cs_next (after_lease_close l out s) = cs_next s"
  by (cases out; simp add: after_lease_close_def Let_def)+

lemma filter_other: "j \<noteq> l \<Longrightarrow> j \<in> fst ` set (filter (\<lambda>h. fst h \<noteq> l) hs) \<longleftrightarrow> j \<in> fst ` set hs"
  by (induction hs) auto

text \<open>The lease of the Runtime is given back exactly if \<open>close\<close> succeeds.\<close>

lemma lease_close_own:
  assumes inv: "coord_inv s" and l: "l < cs_next s" "l \<in> fst ` set (cs_held s)"
    and out: "lease_close ctx late destroy (l \<notin> fst ` set (cs_held s)) (cs_co s) = out"
  defines "s' \<equiv> after_lease_close l out s"
  shows "coord_inv s' \<and> cs_next s' = cs_next s \<and> fst out \<noteq> Panic \<and>
    (l \<in> fst ` set (cs_held s') \<longleftrightarrow> fst out \<noteq> Ok ())"
proof -
  have np: "\<not> cs_panic s" using inv by (simp add: coord_inv_def Let_def)
  have inv': "coord_inv s'" unfolding s'_def out [symmetric]
    by (rule coordinator_steps.inv_step [OF inv coord_close [OF np l(1)]])
  have leases: "co_leases (cs_co s) = int (length (cs_held s))" using inv by (simp add: coord_inv_def Let_def)
  then have "co_leases (cs_co s) > 0" using l(2) by (cases "cs_held s") auto
  then obtain env where "co_environment (cs_co s) = Some env" using inv by (auto simp: coord_inv_def Let_def)
  with l(2) \<open>co_leases (cs_co s) > 0\<close>
  have "fst out = Ok () \<and> fst (snd out) \<or> (\<exists>x. fst out = Err x) \<and> \<not> fst (snd out)"
    unfolding out [symmetric]
    by (cases "validateContext ctx"; cases late; cases destroy) (simp_all add: lease_close_def)
  moreover have "cs_next s' = cs_next s" by (simp add: s'_def)
  moreover have "l \<in> fst ` set (cs_held s') \<longleftrightarrow> \<not> fst (snd out)" using l(2) by (auto simp: s'_def)
  ultimately show ?thesis using inv' by auto
qed

lemma close_engine_inv:
  assumes inv: "engine_inv p" and rt: "rt_state (ps_rt p) \<noteq> Closed" and run: "close_engine ctx late destroy p = (out, p')"
  shows "out \<noteq> Panic \<and> ps_rt p' = ps_rt p \<and> ps_models p' = ps_models p \<and> ps_calls p' = ps_calls p \<and>
    ps_next p' = ps_next p \<and> ps_lease p' = ps_lease p \<and> coord_inv (ps_coord p') \<and>
    ps_lease p' < cs_next (ps_coord p') \<and> re_factory (ps_engine p') \<and>
    (if out = Ok () then re_closed (ps_engine p') \<and> \<not> holds_lease p'
     else \<not> re_closed (ps_engine p') \<and> re_lease (ps_engine p') = Some (ps_lease p') \<and> holds_lease p')"
proof -
  have e: "coord_inv (ps_coord p)" "ps_lease p < cs_next (ps_coord p)" "re_factory (ps_engine p)"
    "\<not> re_closed (ps_engine p)" "re_lease (ps_engine p) = Some (ps_lease p)"
    "ps_lease p \<in> fst ` set (cs_held (ps_coord p))"
    using inv rt by (simp_all add: engine_inv_def holds_lease_def)
  let ?reply = "lease_close ctx late destroy (ps_lease p \<notin> fst ` set (cs_held (ps_coord p))) (cs_co (ps_coord p))"
  note l = lease_close_own [OF e(1,2,6) refl, of ctx late destroy]
  show ?thesis
  proof (cases "validateContext ctx")
    case (Some x)
    with run e show ?thesis by (auto simp: close_engine_def engine_Close_def holds_lease_def Let_def)
  next
    case None
    obtain x c where r: "?reply = (x, c)" by (cases ?reply)
    have p': "out = x \<and> p' = p\<lparr>ps_engine := (if x = Ok () then (ps_engine p)\<lparr>re_closed := True, re_lease := None\<rparr> else ps_engine p),
        ps_coord := after_lease_close (ps_lease p) (x, c) (ps_coord p)\<rparr>"
      using run unfolding close_engine_def r Let_def
      by (cases x) (auto simp: engine_Close_def None e(4,5))
    show ?thesis using l [unfolded r] e by (cases "x = Ok ()") (simp_all add: p' holds_lease_def)
  qed
qed

text \<open>\<open>Close\<close> of an idle Runtime with a live context never waits; it runs unless a model is live.\<close>

lemma rt_close_enter_idle:
  assumes "idle_runtime r" and "rt_state r \<noteq> Closed" and "rt_models r = {}"
  obtains r' where "rt_close_enter None r = (RtRun (rt_nextDone r), r')"
    and "\<And>err. \<exists>r''. rt_close_finish (rt_nextDone r) err r' = Ok r'' \<and> idle_runtime r'' \<and> rt_models r'' = {} \<and>
      rt_state r'' = (if err = None then Closed else Closing)"
proof -
  let ?r = "r\<lparr>rt_state := Closing, rt_closeInProgress := True, rt_closeDone := Some (rt_nextDone r),
    rt_nextDone := Suc (rt_nextDone r)\<rparr>"
  have "rt_close_enter None r = (RtRun (rt_nextDone r), ?r)"
    using assms by (cases "rt_state r") (simp_all add: rt_close_enter_def rt_close_slot_def idle_runtime_def)
  then show thesis using assms
    by (intro that [of ?r]) (auto simp: rt_close_finish_def idle_runtime_def Let_def less_Suc_eq)
qed

lemma rt_close_enter_refused:
  assumes "idle_runtime r" and "\<not> (c = None \<and> rt_state r \<noteq> Closed \<and> rt_models r = {})"
  obtains x where "rt_close_enter c r = (RtReturn x, r)" and "x = None \<longrightarrow> rt_state r = Closed"
  using assms by (cases "rt_state r"; cases c) (auto simp: rt_close_enter_def idle_runtime_def)

lemma closes_runtime_inv:
  assumes inv: "process_inv p" and run: "Runtime_Close ctx ectx late destroy p = (out, p')"
  shows "process_inv p' \<and> returned out \<and> (out = Some (Ok ()) \<longrightarrow> rt_state (ps_rt p') = Closed)"
proof -
  have rt: "idle_runtime (ps_rt p)" and e: "engine_inv p" using inv by (simp_all add: process_inv_def)
  show ?thesis
  proof (cases "ctx = Ctx None \<and> rt_state (ps_rt p) \<noteq> Closed \<and> rt_models (ps_rt p) = {}")
    case False
    show ?thesis
    proof (cases ctx)
      case NilCtx
      with run inv show ?thesis by (auto simp: Runtime_Close_def)
    next
      case (Ctx c)
      with False have "\<not> (c = None \<and> rt_state (ps_rt p) \<noteq> Closed \<and> rt_models (ps_rt p) = {})" by simp
      with rt obtain x where "rt_close_enter c (ps_rt p) = (RtReturn x, ps_rt p)" "x = None \<longrightarrow> rt_state (ps_rt p) = Closed"
        by (rule rt_close_enter_refused)
      with run inv Ctx show ?thesis by (cases x) (auto simp: Runtime_Close_def)
    qed
  next
    case True
    then obtain r' where r': "rt_close_enter None (ps_rt p) = (RtRun (rt_nextDone (ps_rt p)), r')"
      "\<And>err. \<exists>r''. rt_close_finish (rt_nextDone (ps_rt p)) err r' = Ok r'' \<and> idle_runtime r'' \<and> rt_models r'' = {} \<and>
        rt_state r'' = (if err = None then Closed else Closing)"
      using rt_close_enter_idle [OF rt] by metis
    obtain x p1 where c: "close_engine ectx late destroy p = (x, p1)" by (cases "close_engine ectx late destroy p")
    have stopped: "rt_state (ps_rt p) \<noteq> Closed" using True by simp
    note p1 = close_engine_inv [OF e stopped c]
    obtain r'' where r'': "rt_close_finish (rt_nextDone (ps_rt p)) (res_error x) r' = Ok r''" "idle_runtime r''"
      "rt_models r'' = {}" "rt_state r'' = (if res_error x = None then Closed else Closing)"
      using r'(2) by blast
    have x: "res_error x = None \<longleftrightarrow> x = Ok ()" using p1 by (cases x) (simp_all add: res_error_def)
    have eq: "p' = p1\<lparr>ps_rt := r''\<rparr>" "returned out" "out = Some (Ok ()) \<longrightarrow> x = Ok ()"
      using run True r'(1) c r''(1) p1 x by (auto simp: Runtime_Close_def returned_def split: option.splits)
    have "engine_inv p'" using p1 r''(4) x eq(1) by (cases "x = Ok ()") (simp_all add: engine_inv_def)
    then have "process_inv p'" using inv p1 r'' eq(1) True by (simp add: process_inv_def)
    with eq r''(4) x show ?thesis by simp
  qed
qed

subsection \<open>Every run keeps it\<close>

lemma others_inv:
  assumes inv: "process_inv p"
  shows "process_inv (snd (client_do (OtherAcquires ctx late key env reply) p))"
    and "process_inv (snd (client_do (OtherCloses l ctx late destroy) p))"
proof -
  let ?s = "ps_coord p"
  have e: "coord_inv ?s" "ps_lease p < cs_next ?s" using inv by (simp_all add: process_inv_def engine_inv_def)
  then have np: "\<not> cs_panic ?s" by (simp add: coord_inv_def Let_def)
  let ?a = "after_coord_acquire key (coordinator_acquire ctx late key env reply (cs_co ?s)) ?s"
  have a: "coord_inv ?a" by (rule coordinator_steps.inv_step [OF e(1) coord_acquire [OF np]])
  have "cs_next ?s \<le> cs_next ?a \<and> (ps_lease p \<in> fst ` set (cs_held ?a) \<longleftrightarrow> ps_lease p \<in> fst ` set (cs_held ?s))"
    using e(2) by (simp add: after_coord_acquire_def Let_def split: prod.split res.split)
  with a e(2) inv show "process_inv (snd (client_do (OtherAcquires ctx late key env reply) p))"
    by (cases "rt_state (ps_rt p) = Closed") (simp_all add: process_inv_def engine_inv_def holds_lease_def)
  show "process_inv (snd (client_do (OtherCloses l ctx late destroy) p))"
  proof (cases "l \<ge> cs_next ?s \<or> l = ps_lease p")
    case True
    with inv show ?thesis by simp
  next
    case False
    let ?c = "after_lease_close l (lease_close ctx late destroy (l \<notin> fst ` set (cs_held ?s)) (cs_co ?s)) ?s"
    have "coord_inv ?c" using False by (intro coordinator_steps.inv_step [OF e(1) coord_close [OF np]]) simp
    moreover have "ps_lease p \<in> fst ` set (cs_held ?c) \<longleftrightarrow> ps_lease p \<in> fst ` set (cs_held ?s)"
      using False by (simp add: filter_other del: set_filter)
    ultimately show ?thesis using inv False
      by (cases "rt_state (ps_rt p) = Closed") (simp_all add: process_inv_def engine_inv_def holds_lease_def)
  qed
qed

lemma client_do_inv:
  assumes "process_inv p"
  shows "process_inv (snd (client_do c p)) \<and> returned (fst (client_do c p))"
proof (cases c)
  case (OpensDir ctx dir opts a)
  with opens_inv [OF assms, of ctx dir opts a] show ?thesis
    by (cases "Runtime_OpenModelDir ctx dir opts a p"; cases "fst (Runtime_OpenModelDir ctx dir opts a p)")
      (auto simp: opened_outcome_def)
next
  case (OpensFS ctx fsys opts a)
  with opens_fs_inv [OF assms, of ctx fsys opts a] show ?thesis
    by (cases "Runtime_OpenModelFS ctx fsys opts a p"; cases "fst (Runtime_OpenModelFS ctx fsys opts a p)")
      (auto simp: opened_outcome_def)
next
  case (Predicts k)
  with slot_inv_kept [OF assms prod.collapse [symmetric]] show ?thesis by simp
next
  case (ClosesModel ctx a k)
  with closes_model_inv [OF assms prod.collapse [symmetric]] show ?thesis by simp
next
  case (ClosesRuntime ctx ectx late destroy)
  with closes_runtime_inv [OF assms prod.collapse [symmetric]] show ?thesis by simp
qed (use others_inv [OF assms] in auto)

lemma client_run_inv:
  "process_inv p \<Longrightarrow> process_inv (snd (client_run cs p)) \<and> list_all returned (fst (client_run cs p))"
proof (induction cs arbitrary: p)
  case (Cons c cs)
  obtain out p' outs p'' where "client_do c p = (out, p')" "client_run cs p' = (outs, p'')"
    by (meson surj_pair)
  with client_do_inv [OF Cons.prems, of c] Cons.IH [of p'] show ?case by simp
qed simp

lemma new_process_inv:
  assumes s: "coord_inv s" and p: "new_process ctx late key env reply runtimeID s = Ok p"
  shows "process_inv p"
proof -
  let ?out = "coordinator_acquire ctx late key (Some env) reply (cs_co s)"
  have np: "\<not> cs_panic s" using s by (simp add: coord_inv_def Let_def)
  have "coord_inv (after_coord_acquire key ?out s)"
    by (rule coordinator_steps.inv_step [OF s coord_acquire [OF np]])
  moreover obtain c calls where "?out = (Ok (), c, calls)"
    using p by (cases "fst ?out"; cases ?out)
      (auto simp: new_process_def NewRuntime_def res_bind_Ok_iff Let_def split: option.splits)
  ultimately show ?thesis using p
    by (auto simp: new_process_def NewRuntime_def newRuntime_def process_inv_def idle_runtime_def engine_inv_def
        holds_lease_def after_coord_acquire_def closed_again_def Let_def split: option.splits)
qed

subsection \<open>Nothing leaks over the life of a Runtime\<close>

lemma closed_releases:
  assumes inv: "process_inv p" and stopped: "rt_state (ps_rt p) = Closed" and some: "ps_models p k \<noteq> None"
  shows "releases (ps_calls p k) = [SessionRes, TokenizerRes, SourceRes]"
proof -
  obtain m e where me: "ps_models p k = Some (m, e)" using some by auto
  have "\<not> live (ps_models p k)" using inv stopped by (auto simp: process_inv_def idle_runtime_def)
  moreover have "model_inv (ps_calls p k) (ps_models p k)" using inv by (simp add: process_inv_def)
  ultimately show ?thesis using me by (auto simp: accounted_def engine_ok_def held_resources_def)
qed

text \<open>
  C6: Nothing leaks over the life of a Runtime. Take any sequence of calls on it and on the models it
  hands out, with whatever contexts, replies and failures, and whatever other Runtimes do to the
  coordinator in between. Every call returns without panic. What was opened for a model is
  released in reverse order or still held by it, and an open that failed has closed again all it
  opened. If \<open>Close\<close> of the Runtime then returns nil, every model has released everything, and
  the lease of the environment is given back.
\<close>

theorem lifecycle_leaks_nothing:
  assumes "coord_step\<^sup>*\<^sup>* coord_init s" and "new_process ctx late key env reply runtimeID s = Ok p0"
    and "client_run calls p0 = (outs, p)"
  shows "list_all returned outs \<and>
    (\<forall>k. case ps_models p k of
       None \<Rightarrow> closes (ps_calls p k) = rev (opens (ps_calls p k))
     | Some (m, e) \<Rightarrow> opens (ps_calls p k) = [SourceRes, TokenizerRes, SessionRes] \<and>
         releases (ps_calls p k) @ held_resources e = rev (opens (ps_calls p k))) \<and>
    (case Runtime_Close cctx ectx clate destroy p of (out, p') \<Rightarrow>
       if out = Some (Ok ())
       then (\<forall>k. ps_models p' k \<noteq> None \<longrightarrow> releases (ps_calls p' k) = [SessionRes, TokenizerRes, SourceRes]) \<and>
         \<not> holds_lease p'
       else returned out)"
proof -
  have "coord_inv s" using assms(1) by (rule coordinator_steps.reachable_inv)
  from client_run_inv [OF new_process_inv [OF this assms(2)], of calls] assms(3)
  have inv: "process_inv p" and outs: "list_all returned outs" by simp_all
  have models: "model_inv (ps_calls p k) (ps_models p k)" for k using inv by (simp add: process_inv_def)
  have "case ps_models p k of
       None \<Rightarrow> closes (ps_calls p k) = rev (opens (ps_calls p k))
     | Some (m, e) \<Rightarrow> opens (ps_calls p k) = [SourceRes, TokenizerRes, SessionRes] \<and>
         releases (ps_calls p k) @ held_resources e = rev (opens (ps_calls p k))" for k
    using models [of k] by (auto simp: closed_again_def accounted_def split: option.split)
  moreover obtain out p' where c: "Runtime_Close cctx ectx clate destroy p = (out, p')"
    by (cases "Runtime_Close cctx ectx clate destroy p")
  moreover note after = closes_runtime_inv [OF inv c]
  moreover have "releases (ps_calls p' k) = [SessionRes, TokenizerRes, SourceRes]"
    if "out = Some (Ok ())" and "ps_models p' k \<noteq> None" for k
    using closed_releases [of p' k] after that by simp
  moreover have "\<not> holds_lease p'" if "out = Some (Ok ())"
    using after that by (simp add: process_inv_def engine_inv_def)
  ultimately show ?thesis using outs by simp
qed

definition sample_start :: "process res" where
  "sample_start = new_process (Ctx None) None sample_key 7 good_reply ''r'' coord_init"

definition sample_answers :: open_answers where
  "sample_answers = \<lparr>oa_ctx = Ctx None, oa_late = None, oa_source = Inr (True, sample_manifest 4),
     oa_replies = \<lparr>or_readFile = Inr ''{}'', or_ctx1 = None, or_tokenizerPath = Inr ''t'', or_tokenizer = Inr byte_tokenizer,
       or_ctx2 = None, or_modelPath = Inr ''m'', or_session = None, or_ctx3 = None, or_close = replies None\<rparr>,
     oa_calibration = sample_calibration_env\<rparr>"

definition sample_closing :: close_answers where
  "sample_closing = \<lparr>ca_ctx = Ctx None, ca_late1 = None, ca_late2 = None, ca_replies = replies None\<rparr>"

text \<open>One model is opened, fails to close, and is closed; then the Runtime is.\<close>

definition sample_client :: "client_call list" where
  "sample_client =
     [OpensDir (Ctx None) ''d'' (sample_options RejectOverflow) sample_answers,
      ClosesRuntime (Ctx None) (Ctx None) None None,
      ClosesModel (Ctx None) (sample_closing\<lparr>ca_replies := replies (Some (Opaque ''busy''))\<rparr>) 0,
      ClosesModel (Ctx None) sample_closing 0]"

lemmas life_eval = sample_start_def new_process_def NewRuntime_def newRuntime_def coord_eval
  opened_outcome_def Runtime_OpenModelDir_def OpenModelDir_checks_def ModelOptions_validate_def sample_options_def open_model_def
  beginOpen_def finishOpen_def engine_OpenModelDir_def engine_open_def openVerified_def sample_answers_def

lemmas close_eval = Runtime_Close_def rt_close_enter_def rt_close_slot_def close_engine_def lease_close_def engine_Close_def
  after_lease_close_def rt_close_finish_def Model_Close_def close_enter_def newModel_def signalIdleLocked_def close_wait_def
  close_with_engine_def engine_Close_model_def close_session_def close_tokenizer_def close_source_def close_present_def
  close_finish_def unregister_def sample_closing_def replies_def is_Ok_def res_error_def

lemma sample_client_runs:
  "\<exists>p0 outs p. sample_start = Ok p0 \<and> client_run sample_client p0 = (outs, p) \<and>
     map (\<lambda>out. out = Some (Ok ())) outs = [True, False, False, True] \<and>
     fst (Runtime_Close (Ctx None) (Ctx None) None None p) = Some (Ok ()) \<and>
     ps_models (snd (Runtime_Close (Ctx None) (Ctx None) None None p)) 0 \<noteq> None"
proof -
  obtain c where "parseCalibrationConfig sample_calibration_env (sample_manifest 4) ''{}'' = Ok c"
    using sample_calibration_parses by blast
  then show ?thesis by (simp add: life_eval sample_client_def close_eval)
qed

theorem lifecycle_leaks_nothing_witness:
  "\<exists>p0 outs p p'. sample_start = Ok p0 \<and> client_run sample_client p0 = (outs, p) \<and>
     Runtime_Close (Ctx None) (Ctx None) None None p = (Some (Ok ()), p') \<and>
     releases (ps_calls p' 0) = [SessionRes, TokenizerRes, SourceRes] \<and> \<not> holds_lease p'"
proof -
  obtain p0 outs p where run: "sample_start = Ok p0" "client_run sample_client p0 = (outs, p)"
    and ended: "fst (Runtime_Close (Ctx None) (Ctx None) None None p) = Some (Ok ())"
      "ps_models (snd (Runtime_Close (Ctx None) (Ctx None) None None p)) 0 \<noteq> None"
    using sample_client_runs by blast
  then obtain p' where p': "Runtime_Close (Ctx None) (Ctx None) None None p = (Some (Ok ()), p')" "ps_models p' 0 \<noteq> None"
    by (metis prod.collapse)
  have "releases (ps_calls p' 0) = [SessionRes, TokenizerRes, SourceRes] \<and> \<not> holds_lease p'"
    using lifecycle_leaks_nothing [OF rtranclp.rtrancl_refl run(1) [unfolded sample_start_def] run(2),
        of "Ctx None" "Ctx None" None None] p' by simp
  with run p'(1) show ?thesis by blast
qed

end
