(* ===== verification/Laya_Verify.thy ===== *)
theory Laya_Verify
  imports Laya_Parse Laya_Context
begin

text \<open>
  \<open>internal/bundle/verify.go\<close>: the verification of a bundle. The file system behind \<open>fs.FS\<close> is a
  finite tree that \<open>fs.WalkDir\<close> walks, with the entry types and the errors its directories report,
  and a reply of \<open>Open\<close> for every path, with the replies of \<open>Stat\<close> and of the reads in order;
  nothing says that the tree and the opened files agree. A file ends: its list of replies is
  finite, and what follows it is the end of the file. The context is asked again and again; its
  \<open>n\<close>-th answer is \<open>ctx n\<close>, and the operations count the questions.
\<close>

subsection \<open>Files\<close>

datatype file_type = Regular | Irregular string

datatype read_reply = Read string | ReadEOF string | ReadFail string go_error

record open_file =
  of_stat :: "go_error + (file_type \<times> int)"
  of_reads :: "read_reply list"

datatype node = Leaf file_type | Dir entries "go_error option"
  and entries = NoEntries | Entry string node entries

record fsys =
  fs_tree :: "go_error + node"
  fs_open :: "string \<Rightarrow> go_error + open_file"
  fs_stat :: "string \<Rightarrow> go_error + file_type"

fun type_string :: "file_type \<Rightarrow> string" where
  "type_string Regular = ''----------''"
| "type_string (Irregular s) = s"

subsection \<open>Errors\<close>

definition integrity :: "string \<Rightarrow> string \<Rightarrow> string \<Rightarrow> string \<Rightarrow> go_error option \<Rightarrow> go_error" where
  "integrity path field expected observed cause =
     BundleError path field expected observed (Some (Sentinel ErrIntegrity)) cause"

lemma integrity_is [simp]: "errors_is (integrity p f x ob cause) t \<longleftrightarrow> t = ErrIntegrity \<or> opt_is (\<lambda>e. errors_is e t) cause"
  by (auto simp: integrity_def)

definition verify_canceled :: "string \<Rightarrow> go_error \<Rightarrow> go_error" where
  "verify_canceled path cause = invalid path '''' ''verification to complete'' ''canceled'' (Some cause)"

subsection \<open>The manifest\<close>

text \<open>\<open>io.ReadAll(io.LimitReader(file, n))\<close>.\<close>

fun read_all :: "nat \<Rightarrow> read_reply list \<Rightarrow> go_error + string" where
  "read_all n [] = Inr []"
| "read_all n (r # rs) =
     (if n = 0 then Inr []
      else case r of
             ReadFail c e \<Rightarrow> Inl e
           | ReadEOF c \<Rightarrow> Inr (take n c)
           | Read c \<Rightarrow> (case read_all (n - length c) rs of Inl e \<Rightarrow> Inl e | Inr d \<Rightarrow> Inr (take n c @ d)))"

definition manifest_path :: string where "manifest_path = ''manifest.json''"

definition readManifest :: "fsys \<Rightarrow> string res" where
  "readManifest fs =
     (case fs_open fs manifest_path of
        Inl err \<Rightarrow>
          if errors_is err FsErrNotExist
          then Err (BundleError ''manifest.json'' '''' ''regular manifest file'' ''missing'' (Some (Sentinel ErrInvalidBundle)) (Some err))
          else Err (invalid ''manifest.json'' '''' ''readable regular manifest file'' ''open failed'' (Some err))
      | Inr file \<Rightarrow>
          (case of_stat file of
             Inl err \<Rightarrow> Err (invalid ''manifest.json'' '''' ''statable regular manifest file'' ''stat failed'' (Some err))
           | Inr (ty, bytes) \<Rightarrow>
               if ty \<noteq> Regular then Err (bad '''' ''regular manifest file'' (type_string ty))
               else if bytes < 0 \<or> bytes > int maxManifestBytes
               then Err (bad '''' (''at most '' @ show_nat maxManifestBytes @ '' bytes'') (show_int bytes @ '' bytes''))
               else (case read_all (maxManifestBytes + 1) (of_reads file) of
                       Inl err \<Rightarrow> Err (invalid ''manifest.json'' '''' ''readable manifest file'' ''read failed'' (Some err))
                     | Inr data \<Rightarrow>
                         if length data > maxManifestBytes
                         then Err (bad '''' (''at most '' @ show_nat maxManifestBytes @ '' bytes'')
                                (''more than '' @ show_nat maxManifestBytes @ '' bytes''))
                         else Ok data)))"

subsection \<open>The layout\<close>

text \<open>
  \<open>strings.EqualFold\<close> against a lower-case ASCII name: besides the two cases of a letter, only the
  long s, whose encoding is the two bytes \<open>C5 BF\<close>, folds to a letter of \<open>manifest.json\<close>.
\<close>

fun folds_to :: "string \<Rightarrow> string \<Rightarrow> bool" where
  "folds_to [] ts = (ts = [])"
| "folds_to (c # cs) ts =
     (case ts of
        [] \<Rightarrow> False
      | t # ts' \<Rightarrow>
          if ascii_lower_char c = t then folds_to cs ts'
          else if t = CHR ''s'' \<and> c = CHR 0xC5
          then (case cs of d # cs' \<Rightarrow> d = CHR 0xBF \<and> folds_to cs' ts' | [] \<Rightarrow> False)
          else False)"

definition declared_files :: "File list \<Rightarrow> string \<Rightarrow> File option" where
  "declared_files fs = fold (\<lambda>f d. d(fl_Path f \<mapsto> f)) fs Map.empty"

definition role_counts :: "File list \<Rightarrow> string \<Rightarrow> nat" where
  "role_counts fs = fold (\<lambda>f c. c(fl_Role f := c (fl_Role f) + 1)) fs (\<lambda>r. 0)"

definition wantRoleCounts :: "Manifest \<Rightarrow> (string \<times> nat) list" where
  "wantRoleCounts m =
     [(''model'', 1), (''model-external-data'', length (md_ExternalData (mf_Model m))), (''tokenizer'', 1),
      (''tokenizer-config'', 1), (''agent-config'', 1), (''license'', length (pv_Licenses (mf_Provenance m))),
      (''notice'', length (pv_Licenses (mf_Provenance m)))]"

definition required_artifacts :: "Manifest \<Rightarrow> (string \<times> string) list" where
  "required_artifacts m =
     [(md_Path (mf_Model m), ''model''), (tk_JSONPath (mf_Tokenizer m), ''tokenizer''),
      (tk_ConfigPath (mf_Tokenizer m), ''tokenizer-config''), (cal_ConfigPath (mf_Calibration m), ''agent-config'')] @
     map (\<lambda>p. (p, ''model-external-data'')) (md_ExternalData (mf_Model m)) @
     map (\<lambda>l. (li_Path l, ''license'')) (pv_Licenses (mf_Provenance m))"

definition required_error :: "(string \<Rightarrow> File option) \<Rightarrow> string \<times> string \<Rightarrow> go_error option" where
  "required_error declared a =
     (case declared (fst a) of
        None \<Rightarrow> Some (bad ''files'' (''declared '' @ snd a @ '' path'') (fst a @ '' missing''))
      | Some file \<Rightarrow> fails_if (fl_Role file \<noteq> snd a) (bad ''files'' (snd a @ '' role for '' @ fst a) (fl_Role file)))"

definition validateLayout :: "Manifest \<Rightarrow> go_error option" where
  "validateLayout m =
     first_error
      [first_error (map (\<lambda>f. fails_if (folds_to (fl_Path f) manifest_path)
          (bad ''files'' ''manifest is never self-declared'' (fl_Path f))) (mf_Files m)),
       (let counts = role_counts (mf_Files m)
        in first_error (map (\<lambda>(role, n). fails_if (counts role \<noteq> n)
             (bad ''files'' (show_nat n @ '' '' @ role @ '' artifact(s)'') (show_nat (counts role)))) (wantRoleCounts m))),
       first_error (map (required_error (declared_files (mf_Files m))) (required_artifacts m))]"

subsection \<open>One file\<close>

text \<open>The read loop: the content if it ends well, or the error; and the number of questions asked.\<close>

fun read_loop :: "(nat \<Rightarrow> go_error option) \<Rightarrow> File \<Rightarrow> read_reply list \<Rightarrow> nat \<Rightarrow> string \<Rightarrow> (go_error + string) \<times> nat" where
  "read_loop ctx f [] n content =
     (case ctx n of
        Some e \<Rightarrow> (Inl (verify_canceled (fl_Path f) e), Suc n)
      | None \<Rightarrow> (Inr content, Suc n))"
| "read_loop ctx f (r # rs) n content =
     (case ctx n of
        Some e \<Rightarrow> (Inl (verify_canceled (fl_Path f) e), Suc n)
      | None \<Rightarrow>
          (case r of
             ReadEOF c \<Rightarrow> (Inr (content @ c), Suc n)
           | ReadFail c e \<Rightarrow> (Inl (integrity (fl_Path f) ''sha256'' (fl_SHA256 f) ''read failed'' (Some e)), Suc n)
           | Read c \<Rightarrow>
               if c = [] then
                 (Inl (integrity (fl_Path f) ''size'' (show_int (fl_Size f)) (show_nat (length content))
                    (Some (Sentinel IoErrNoProgress))), Suc n)
               else read_loop ctx f rs (Suc n) (content @ c)))"

definition verifyFile ::
  "(string \<Rightarrow> string) \<Rightarrow> (nat \<Rightarrow> go_error option) \<Rightarrow> fsys \<Rightarrow> File \<Rightarrow> nat \<Rightarrow> go_error option \<times> nat" where
  "verifyFile sha256 ctx fs f n =
     (case fs_open fs (fl_Path f) of
        Inl err \<Rightarrow> (Some (invalid (fl_Path f) ''files'' ''readable regular artifact'' ''open failed'' (Some err)), n)
      | Inr file \<Rightarrow>
          (case of_stat file of
             Inl err \<Rightarrow> (Some (invalid (fl_Path f) ''files'' ''statable regular artifact'' ''stat failed'' (Some err)), n)
           | Inr (ty, bytes) \<Rightarrow>
               if ty \<noteq> Regular then (Some (invalid (fl_Path f) ''files'' ''regular artifact'' (type_string ty) None), n)
               else if bytes \<noteq> fl_Size f
               then (Some (integrity (fl_Path f) ''size'' (show_int (fl_Size f)) (show_int bytes) None), n)
               else (case read_loop ctx f (of_reads file) n [] of
                       (Inl e, n') \<Rightarrow> (Some e, n')
                     | (Inr content, n') \<Rightarrow>
                         if int (length content) \<noteq> fl_Size f
                         then (Some (integrity (fl_Path f) ''size'' (show_int (fl_Size f)) (show_nat (length content)) None), n')
                         else if sha256 content \<noteq> fl_SHA256 f
                         then (Some (integrity (fl_Path f) ''sha256'' (fl_SHA256 f) (sha256 content) None), n')
                         else (None, n'))))"

subsection \<open>The walk\<close>

definition join_path :: "string \<Rightarrow> string \<Rightarrow> string" where
  "join_path dir name = (if dir = ''.'' then name else dir @ ''/'' @ name)"

text \<open>
  The callback on an entry that is not a directory, or on the root; the state is the number of
  questions and the files seen.
\<close>

definition visit_file ::
  "(string \<Rightarrow> string) \<Rightarrow> (nat \<Rightarrow> go_error option) \<Rightarrow> fsys \<Rightarrow> (string \<Rightarrow> File option) \<Rightarrow> string \<Rightarrow> file_type
   \<Rightarrow> nat \<times> string list \<Rightarrow> go_error option \<times> nat \<times> string list" where
  "visit_file sha256 ctx fs declared path ty st =
     (case st of (n, seen) \<Rightarrow>
        (if path = manifest_path then
           (if ty = Regular then (None, st) else (Some (invalid path '''' ''regular manifest file'' (type_string ty) None), st))
         else case declared path of
                None \<Rightarrow> (Some (invalid path ''files'' ''declared regular artifact'' ''undeclared entry'' None), st)
              | Some f \<Rightarrow>
                  if ty \<noteq> Regular then (Some (invalid path ''files'' ''regular artifact'' (type_string ty) None), st)
                  else (case verifyFile sha256 ctx fs f n of
                          (Some e, n') \<Rightarrow> (Some e, n', seen)
                        | (None, n') \<Rightarrow> (None, n', path # seen))))"

primrec walk ::
  "(string \<Rightarrow> string) \<Rightarrow> (nat \<Rightarrow> go_error option) \<Rightarrow> fsys \<Rightarrow> (string \<Rightarrow> File option) \<Rightarrow> string \<Rightarrow> node
   \<Rightarrow> nat \<times> string list \<Rightarrow> go_error option \<times> nat \<times> string list"
  and walk_entries ::
  "(string \<Rightarrow> string) \<Rightarrow> (nat \<Rightarrow> go_error option) \<Rightarrow> fsys \<Rightarrow> (string \<Rightarrow> File option) \<Rightarrow> string \<Rightarrow> entries
   \<Rightarrow> nat \<times> string list \<Rightarrow> go_error option \<times> nat \<times> string list"
where
  "walk sha256 ctx fs declared path (Leaf ty) st =
     (case ctx (fst st) of
        Some e \<Rightarrow> (Some (verify_canceled path e), Suc (fst st), snd st)
      | None \<Rightarrow>
          if path = ''.'' then (None, Suc (fst st), snd st)
          else visit_file sha256 ctx fs declared path ty (Suc (fst st), snd st))"
| "walk sha256 ctx fs declared path (Dir es err) st =
     (case ctx (fst st) of
        Some e \<Rightarrow> (Some (verify_canceled path e), Suc (fst st), snd st)
      | None \<Rightarrow>
          (case err of
             Some e \<Rightarrow> (Some (invalid path '''' ''readable bundle entry'' ''walk failed'' (Some e)), Suc (fst st), snd st)
           | None \<Rightarrow> walk_entries sha256 ctx fs declared path es (Suc (fst st), snd st)))"
| "walk_entries sha256 ctx fs declared path NoEntries st = (None, st)"
| "walk_entries sha256 ctx fs declared path (Entry name d es) st =
     (case walk sha256 ctx fs declared (join_path path name) d st of
        (Some e, st') \<Rightarrow> (Some e, st')
      | (None, st') \<Rightarrow> walk_entries sha256 ctx fs declared path es st')"

definition verifyFiles :: "(string \<Rightarrow> string) \<Rightarrow> (nat \<Rightarrow> go_error option) \<Rightarrow> fsys \<Rightarrow> File list \<Rightarrow> nat \<Rightarrow> go_error option" where
  "verifyFiles sha256 ctx fs files n =
     (case (case fs_tree fs of
              Inl err \<Rightarrow> (Some (invalid ''.'' '''' ''readable bundle entry'' ''walk failed'' (Some err)), n, [])
            | Inr tree \<Rightarrow> walk sha256 ctx fs (declared_files files) ''.'' tree (n, [])) of
        (Some e, st) \<Rightarrow> Some e
      | (None, n', seen) \<Rightarrow>
          first_error (map (\<lambda>f. fails_if (fl_Path f \<notin> set seen)
            (invalid (fl_Path f) ''files'' ''declared regular artifact'' ''missing'' (Some (Sentinel FsErrNotExist)))) files))"

subsection \<open>Verify\<close>

definition isRegular :: "fsys \<Rightarrow> string \<Rightarrow> bool" where
  "isRegular fs name \<longleftrightarrow> fs_stat fs name = Inr Regular"

text \<open>\<open>sub\<close> is \<open>fs.Sub\<close> on the file system; \<open>None\<close> is a nil context or file system.\<close>

definition Verify ::
  "parse_env \<Rightarrow> (nat \<Rightarrow> go_error option) option \<Rightarrow> (string \<Rightarrow> go_error + fsys) option \<Rightarrow> string \<Rightarrow> Manifest res" where
  "Verify env ctx fileSystem dir =
     (case ctx of None \<Rightarrow> Err (invalid '''' ''context'' ''non-nil context'' ''nil'' None)
      | Some ctx \<Rightarrow>
     (case fileSystem of None \<Rightarrow> Err (invalid '''' ''filesystem'' ''non-nil fs.FS'' ''nil'' None)
      | Some sub \<Rightarrow>
          if dir = '''' \<or> (dir \<noteq> ''.'' \<and> (\<not> fs_ValidPath dir \<or> has_backslash dir))
          then Err (invalid dir ''root'' ''normalized slash-relative fs.FS path'' (scalar dir) None)
          else case ctx 0 of Some e \<Rightarrow> Err (verify_canceled ''manifest.json'' e)
          | None \<Rightarrow>
          (case sub dir of Inl err \<Rightarrow> Err (invalid dir ''root'' ''readable bundle directory'' ''invalid'' (Some err))
           | Inr fs \<Rightarrow>
          (case readManifest fs of
             Panic \<Rightarrow> Panic
           | Err err \<Rightarrow>
               if errors_is err FsErrNotExist \<and> isRegular fs ''model.safetensors''
               then Err (invalid ''manifest.json'' ''bundle'' ''complete runtime bundle; run the offline bundle exporter''
                      ''raw Safetensors checkpoint is exporter input only'' (Some err))
               else Err err
           | Ok data \<Rightarrow>
               res_bind (Parse env data) (\<lambda>m.
                 check_then (validateLayout m)
                   (check_then (verifyFiles (pe_sha256 env) ctx fs (mf_Files m) 1)
                     (Ok m)))))))"

subsection \<open>Files that match their declaration\<close>

fun content_of :: "read_reply list \<Rightarrow> string option" where
  "content_of [] = Some []"
| "content_of (ReadEOF c # rs) = Some c"
| "content_of (ReadFail c e # rs) = None"
| "content_of (Read c # rs) = (if c = [] then None else map_option (\<lambda>d. c @ d) (content_of rs))"

definition file_matches :: "(string \<Rightarrow> string) \<Rightarrow> fsys \<Rightarrow> File \<Rightarrow> bool" where
  "file_matches sha256 fs f \<longleftrightarrow>
     (\<exists>file data. fs_open fs (fl_Path f) = Inr file \<and> of_stat file = Inr (Regular, fl_Size f) \<and>
        content_of (of_reads file) = Some data \<and> int (length data) = fl_Size f \<and> sha256 data = fl_SHA256 f)"

definition quiet :: "(nat \<Rightarrow> go_error option) \<Rightarrow> bool" where
  "quiet ctx \<longleftrightarrow> (\<forall>n. ctx n = None)"

lemma read_loop_content:
  "read_loop ctx f rs n c = (Inr d, n') \<Longrightarrow> \<exists>d'. content_of rs = Some d' \<and> d = c @ d'"
proof (induction ctx f rs n c rule: read_loop.induct)
  case (2 ctx f r rs n c)
  then show ?case by (cases r) (auto split: option.splits if_splits)
qed (auto split: option.splits)

lemma read_loop_quiet:
  "quiet ctx \<Longrightarrow> content_of rs = Some d \<Longrightarrow> \<exists>n'. read_loop ctx f rs n c = (Inr (c @ d), n')"
proof (induction ctx f rs n c arbitrary: d rule: read_loop.induct)
  case (2 ctx f r rs n c)
  then show ?case by (cases r) (auto simp: quiet_def split: if_splits)
qed (simp add: quiet_def)

lemma verifyFile_sound: "verifyFile sha256 ctx fs f n = (None, n') \<Longrightarrow> file_matches sha256 fs f"
  unfolding verifyFile_def file_matches_def
  by (auto dest: read_loop_content split: sum.splits prod.splits if_splits)

lemma verifyFile_complete:
  assumes "quiet ctx" and "file_matches sha256 fs f"
  shows "\<exists>n'. verifyFile sha256 ctx fs f n = (None, n')"
proof -
  obtain h d where d: "fs_open fs (fl_Path f) = Inr h" "of_stat h = Inr (Regular, fl_Size f)"
    "content_of (of_reads h) = Some d" "int (length d) = fl_Size f" "sha256 d = fl_SHA256 f"
    using assms(2) by (auto simp: file_matches_def)
  obtain n' where "read_loop ctx f (of_reads h) n [] = (Inr d, n')"
    using read_loop_quiet [OF assms(1) d(3), of f n "[]"] by auto
  with d show ?thesis by (simp add: verifyFile_def)
qed

subsection \<open>The files of the tree\<close>

primrec leaves :: "string \<Rightarrow> node \<Rightarrow> (string \<times> file_type) list"
  and leaves_entries :: "string \<Rightarrow> entries \<Rightarrow> (string \<times> file_type) list" where
  "leaves path (Leaf ty) = (if path = ''.'' then [] else [(path, ty)])"
| "leaves path (Dir es err) = leaves_entries path es"
| "leaves_entries path NoEntries = []"
| "leaves_entries path (Entry name d es) = leaves (join_path path name) d @ leaves_entries path es"

primrec readable :: "node \<Rightarrow> bool" and readable_entries :: "entries \<Rightarrow> bool" where
  "readable (Leaf ty) = True"
| "readable (Dir es err) = (err = None \<and> readable_entries es)"
| "readable_entries NoEntries = True"
| "readable_entries (Entry name d es) = (readable d \<and> readable_entries es)"

definition leaf_ok :: "(string \<Rightarrow> string) \<Rightarrow> fsys \<Rightarrow> (string \<Rightarrow> File option) \<Rightarrow> string \<times> file_type \<Rightarrow> bool" where
  "leaf_ok sha256 fs declared l \<longleftrightarrow>
     snd l = Regular \<and> (fst l = manifest_path \<or> (\<exists>f. declared (fst l) = Some f \<and> file_matches sha256 fs f))"

lemma visit_file_sound:
  assumes "visit_file sha256 ctx fs declared path ty st = (None, st')"
  shows "leaf_ok sha256 fs declared (path, ty) \<and> set (snd st') = set (snd st) \<union> ({path} - {manifest_path})"
  using assms
  by (cases st) (auto simp: visit_file_def leaf_ok_def dest: verifyFile_sound split: if_splits option.splits prod.splits)

lemma visit_file_complete:
  assumes "quiet ctx" and "leaf_ok sha256 fs declared (path, ty)"
  shows "\<exists>st'. visit_file sha256 ctx fs declared path ty st = (None, st')"
proof (cases "path = manifest_path")
  case False
  then obtain f where f: "declared path = Some f" "file_matches sha256 fs f" "ty = Regular"
    using assms(2) by (auto simp: leaf_ok_def)
  obtain n seen where st: "st = (n, seen)" by (cases st)
  obtain n' where "verifyFile sha256 ctx fs f n = (None, n')" using verifyFile_complete [OF assms(1) f(2)] by blast
  with f False show ?thesis by (simp add: visit_file_def st)
qed (use assms(2) in \<open>cases st, simp add: visit_file_def leaf_ok_def\<close>)

lemma walk_sound:
  "walk sha256 ctx fs declared path d st = (None, st') \<Longrightarrow>
     readable d \<and> list_all (leaf_ok sha256 fs declared) (leaves path d) \<and>
     set (snd st') = set (snd st) \<union> (fst ` set (leaves path d) - {manifest_path})"
  "walk_entries sha256 ctx fs declared path es st = (None, st') \<Longrightarrow>
     readable_entries es \<and> list_all (leaf_ok sha256 fs declared) (leaves_entries path es) \<and>
     set (snd st') = set (snd st) \<union> (fst ` set (leaves_entries path es) - {manifest_path})"
proof (induction d and es arbitrary: path st st' and path st st')
  case (Leaf ty)
  then show ?case by (auto dest: visit_file_sound split: option.splits if_splits)
next
  case (Dir es err)
  then have "err = None" and "walk_entries sha256 ctx fs declared path es (Suc (fst st), snd st) = (None, st')"
    by (auto split: option.splits)
  with Dir.IH show ?case by fastforce
next
  case (Entry name d es)
  obtain r st1 where w: "walk sha256 ctx fs declared (join_path path name) d st = (r, st1)"
    by (cases "walk sha256 ctx fs declared (join_path path name) d st")
  with Entry.prems have "r = None" "walk_entries sha256 ctx fs declared path es st1 = (None, st')"
    by (auto split: option.splits)
  with Entry.IH(1) [of "join_path path name" st st1] Entry.IH(2) [of path st1 st'] w show ?case by auto
qed simp

lemma walk_complete:
  assumes "quiet ctx"
  shows "readable d \<Longrightarrow> list_all (leaf_ok sha256 fs declared) (leaves path d) \<Longrightarrow>
      \<exists>st'. walk sha256 ctx fs declared path d st = (None, st')"
    "readable_entries es \<Longrightarrow> list_all (leaf_ok sha256 fs declared) (leaves_entries path es) \<Longrightarrow>
      \<exists>st'. walk_entries sha256 ctx fs declared path es st = (None, st')"
proof (induction d and es arbitrary: path st and path st)
  case (Leaf ty)
  then have "path \<noteq> ''.'' \<Longrightarrow> \<exists>st'. visit_file sha256 ctx fs declared path ty (Suc (fst st), snd st) = (None, st')"
    by (intro visit_file_complete [OF assms]) simp
  moreover have "ctx (fst st) = None" using assms by (simp add: quiet_def)
  ultimately show ?case by auto
next
  case (Dir es err)
  have "\<exists>st'. walk_entries sha256 ctx fs declared path es (Suc (fst st), snd st) = (None, st')"
    using Dir.prems by (intro Dir.IH) simp_all
  then obtain st' where "walk_entries sha256 ctx fs declared path es (Suc (fst st), snd st) = (None, st')" by blast
  moreover have "ctx (fst st) = None" using assms by (simp add: quiet_def)
  ultimately show ?case using Dir.prems by simp
next
  case (Entry name d es)
  have "\<exists>st1. walk sha256 ctx fs declared (join_path path name) d st = (None, st1)"
    using Entry.prems by (intro Entry.IH(1)) simp_all
  then obtain st1 where "walk sha256 ctx fs declared (join_path path name) d st = (None, st1)" by blast
  moreover have "\<exists>st'. walk_entries sha256 ctx fs declared path es st1 = (None, st')"
    using Entry.prems by (intro Entry.IH(2)) simp_all
  ultimately show ?case by simp
qed simp

subsection \<open>Exactly the declared files\<close>

definition bundle_exact :: "(string \<Rightarrow> string) \<Rightarrow> fsys \<Rightarrow> File list \<Rightarrow> bool" where
  "bundle_exact sha256 fs files \<longleftrightarrow>
     (\<exists>tree. fs_tree fs = Inr tree \<and> readable tree \<and> snd ` set (leaves ''.'' tree) \<subseteq> {Regular} \<and>
        fst ` set (leaves ''.'' tree) - {manifest_path} = fl_Path ` set files) \<and>
     list_all (file_matches sha256 fs) files"

lemma declared_files_iff:
  assumes "distinct (map fl_Path fs)"
  shows "declared_files fs p = Some f \<longleftrightarrow> f \<in> set fs \<and> fl_Path f = p"
proof -
  have "fold (\<lambda>f d. d(fl_Path f \<mapsto> f)) fs d p = Some f \<longleftrightarrow>
      (if p \<in> fl_Path ` set fs then f \<in> set fs \<and> fl_Path f = p else d p = Some f)" for d
    using assms
  proof (induction fs arbitrary: d)
    case (Cons a fs)
    then show ?case by (cases "p \<in> fl_Path ` set fs") (auto intro: rev_image_eqI)
  qed simp
  then show ?thesis by (auto simp: declared_files_def)
qed

lemma verifyFiles_cases:
  "verifyFiles sha256 ctx fs files n = None \<longleftrightarrow>
     (\<exists>tree st. fs_tree fs = Inr tree \<and> walk sha256 ctx fs (declared_files files) ''.'' tree (n, []) = (None, st) \<and>
        fl_Path ` set files \<subseteq> set (snd st))"
proof (cases "fs_tree fs")
  case (Inr tree)
  show ?thesis
  proof (cases "walk sha256 ctx fs (declared_files files) ''.'' tree (n, [])")
    case (fields r n' seen)
    then show ?thesis
      by (cases r) (auto simp: verifyFiles_def Inr first_error_None_iff)
  qed
qed (simp add: verifyFiles_def)

lemma leaves_accepted:
  assumes "distinct (map fl_Path files)"
    and "list_all (leaf_ok sha256 fs (declared_files files)) ls"
    and "fl_Path ` set files \<subseteq> fst ` set ls - {manifest_path}"
  shows "snd ` set ls \<subseteq> {Regular}" "fst ` set ls - {manifest_path} = fl_Path ` set files"
    "list_all (file_matches sha256 fs) files"
proof -
  have ok: "snd l = Regular \<and> (fst l = manifest_path \<or> (\<exists>f\<in>set files. fl_Path f = fst l \<and> file_matches sha256 fs f))"
    if "l \<in> set ls" for l
    using assms(2) that by (auto simp: list_all_iff leaf_ok_def declared_files_iff [OF assms(1)])
  then show "snd ` set ls \<subseteq> {Regular}" by blast
  have "fst ` set ls - {manifest_path} \<subseteq> fl_Path ` set files"
  proof
    fix p
    assume "p \<in> fst ` set ls - {manifest_path}"
    then obtain l where "l \<in> set ls" "fst l = p" "p \<noteq> manifest_path" by blast
    with ok [of l] show "p \<in> fl_Path ` set files" by (metis imageI)
  qed
  with assms(3) show "fst ` set ls - {manifest_path} = fl_Path ` set files" by blast
  have "file_matches sha256 fs f" if "f \<in> set files" for f
  proof -
    have "fl_Path f \<in> fst ` set ls - {manifest_path}" using assms(3) that by blast
    then obtain l where l: "l \<in> set ls" "fl_Path f = fst l" "fst l \<noteq> manifest_path" by (metis DiffE imageE singletonI)
    from ok [OF l(1)] l(2,3) obtain g where "g \<in> set files" "fl_Path g = fl_Path f" "file_matches sha256 fs g" by metis
    moreover from this that assms(1) have "g = f" by (meson distinct_map inj_onD)
    ultimately show ?thesis by simp
  qed
  then show "list_all (file_matches sha256 fs) files" by (simp add: list_all_iff)
qed

lemma verifyFiles_sound:
  assumes "distinct (map fl_Path files)" and "verifyFiles sha256 ctx fs files n = None"
  shows "bundle_exact sha256 fs files"
proof -
  obtain tree st where t: "fs_tree fs = Inr tree"
    and w: "walk sha256 ctx fs (declared_files files) ''.'' tree (n, []) = (None, st)"
    and seen: "fl_Path ` set files \<subseteq> set (snd st)"
    using assms(2) unfolding verifyFiles_cases by blast
  note s = walk_sound(1) [OF w]
  have ls: "list_all (leaf_ok sha256 fs (declared_files files)) (leaves ''.'' tree)"
    "fl_Path ` set files \<subseteq> fst ` set (leaves ''.'' tree) - {manifest_path}" and "readable tree"
    using s seen by auto
  with leaves_accepted [OF assms(1) ls] t show ?thesis unfolding bundle_exact_def by blast
qed

lemma verifyFiles_complete:
  assumes d: "distinct (map fl_Path files)" and "quiet ctx" and "bundle_exact sha256 fs files"
  shows "verifyFiles sha256 ctx fs files n = None"
proof -
  obtain tree where t: "fs_tree fs = Inr tree" "readable tree" "snd ` set (leaves ''.'' tree) \<subseteq> {Regular}"
    "fst ` set (leaves ''.'' tree) - {manifest_path} = fl_Path ` set files" and m: "list_all (file_matches sha256 fs) files"
    using assms(3) by (auto simp: bundle_exact_def)
  have "leaf_ok sha256 fs (declared_files files) l" if l: "l \<in> set (leaves ''.'' tree)" for l
  proof (cases "fst l = manifest_path")
    case False
    with l t(4) have "fst l \<in> fl_Path ` set files" by blast
    then obtain f where "f \<in> set files" "fst l = fl_Path f" by blast
    with l t(3) m show ?thesis by (auto simp: leaf_ok_def declared_files_iff [OF d] list_all_iff)
  qed (use l t(3) in \<open>auto simp: leaf_ok_def\<close>)
  then obtain st where "walk sha256 ctx fs (declared_files files) ''.'' tree (n, []) = (None, st)"
    using walk_complete(1) [OF assms(2) t(2)] by (metis list_all_iff)
  with walk_sound(1) [OF this] t show ?thesis
    unfolding verifyFiles_cases by (intro exI [of _ tree] exI [of _ st]) simp
qed

text \<open>
  C23: What \<open>verifyFiles\<close> accepts is exactly the declared content, and unless the context ends it
  accepts all such bundles. If it returns no error, whatever the context does, then every
  directory was readable, every file of the tree is regular, their paths are the declared ones
  and possibly the manifest's, and every declared file opens as a regular file whose content
  has the declared size and digest; and if the context does not end, every such bundle is
  accepted.
\<close>

theorem verifyFiles_exact:
  assumes "distinct (map fl_Path files)"
  shows "(verifyFiles sha256 ctx fs files n = None \<longrightarrow> bundle_exact sha256 fs files) \<and>
    (quiet ctx \<longrightarrow> bundle_exact sha256 fs files \<longrightarrow> verifyFiles sha256 ctx fs files n = None)"
  using verifyFiles_sound [OF assms] verifyFiles_complete [OF assms] by blast

text \<open>A bundle of the supported manifest, in a file system that reads every file in two pieces.\<close>

definition sample_file :: open_file where
  "sample_file = \<lparr>of_stat = Inr (Regular, 3), of_reads = [Read ''ab'', ReadEOF ''c'']\<rparr>"

definition leaf_entries :: "string list \<Rightarrow> entries \<Rightarrow> entries" where
  "leaf_entries names es = foldr (\<lambda>name. Entry name (Leaf Regular)) names es"

definition sample_tree :: node where
  "sample_tree = Dir (leaf_entries
     [''LICENSE.model'', ''LICENSE.sdk'', ''NOTICE.model'', ''NOTICE.sdk'', ''manifest.json'', ''model.onnx'', ''rl_agent_config.json'']
     (Entry ''tokenizer'' (Dir (leaf_entries [''tokenizer.json'', ''tokenizer_config.json''] NoEntries) None) NoEntries)) None"

definition sample_fs :: fsys where
  "sample_fs = \<lparr>fs_tree = Inr sample_tree,
     fs_open = (\<lambda>p. if p = manifest_path then Inr \<lparr>of_stat = Inr (Regular, 2), of_reads = [ReadEOF ''{}'']\<rparr>
                   else Inr sample_file),
     fs_stat = (\<lambda>p. if p = manifest_path then Inr Regular else Inl (Sentinel FsErrNotExist))\<rparr>"

lemma supported_files: "distinct (map fl_Path (mf_Files supported_manifest))"
  by code_simp

lemma sample_verified: "verifyFiles (\<lambda>d. some_digest) (\<lambda>n. None) sample_fs (mf_Files supported_manifest) n = None"
  by code_simp

theorem verifyFiles_exact_witness: "bundle_exact (\<lambda>d. some_digest) sample_fs (mf_Files supported_manifest)"
  using verifyFiles_exact [OF supported_files] sample_verified by blast

subsection \<open>The layout\<close>

definition layout_ok :: "Manifest \<Rightarrow> bool" where
  "layout_ok m \<longleftrightarrow>
     list_all (\<lambda>f. \<not> folds_to (fl_Path f) manifest_path) (mf_Files m) \<and>
     list_all (\<lambda>(role, n). length (filter (\<lambda>f. fl_Role f = role) (mf_Files m)) = n) (wantRoleCounts m) \<and>
     list_all (\<lambda>(p, role). \<exists>f\<in>set (mf_Files m). fl_Path f = p \<and> fl_Role f = role) (required_artifacts m)"

lemma role_counts_eq: "role_counts fs r = length (filter (\<lambda>f. fl_Role f = r) fs)"
proof -
  have "fold (\<lambda>f c. c(fl_Role f := c (fl_Role f) + 1)) fs c r = c r + length (filter (\<lambda>f. fl_Role f = r) fs)" for c
    by (induction fs arbitrary: c) auto
  then show ?thesis by (simp add: role_counts_def)
qed

lemma required_error_None:
  assumes "distinct (map fl_Path fs)"
  shows "required_error (declared_files fs) a = None \<longleftrightarrow> (\<exists>f\<in>set fs. fl_Path f = fst a \<and> fl_Role f = snd a)"
proof (cases "declared_files fs (fst a)")
  case None
  then have "fl_Path f \<noteq> fst a" if "f \<in> set fs" for f
    using declared_files_iff [OF assms, of "fst a" f] that by auto
  with None show ?thesis by (auto simp: required_error_def)
next
  case (Some g)
  then have "g \<in> set fs" "fl_Path g = fst a" by (simp_all add: declared_files_iff [OF assms])
  moreover have "f = g" if "f \<in> set fs" "fl_Path f = fst a" for f
    using declared_files_iff [OF assms, of "fst a" f] that Some by simp
  ultimately have "(\<exists>f\<in>set fs. fl_Path f = fst a \<and> fl_Role f = snd a) \<longleftrightarrow> fl_Role g = snd a" by blast
  with Some show ?thesis by (simp add: required_error_def)
qed

lemma validateLayout_None:
  assumes "distinct (map fl_Path (mf_Files m))"
  shows "validateLayout m = None \<longleftrightarrow> layout_ok m"
proof -
  have "first_error (map (\<lambda>f. fails_if (P f) (e f)) xs) = None \<longleftrightarrow> list_all (\<lambda>f. \<not> P f) xs"
    for P and e :: "File \<Rightarrow> go_error" and xs
    by (induction xs) auto
  moreover have "first_error (map (\<lambda>(role, n). fails_if (role_counts fs role \<noteq> n) (e role n)) xs) = None \<longleftrightarrow>
      list_all (\<lambda>(role, n). length (filter (\<lambda>f. fl_Role f = role) fs) = n) xs" for e fs xs
    by (induction xs) (auto simp: role_counts_eq)
  moreover have "first_error (map (required_error (declared_files (mf_Files m))) xs) = None \<longleftrightarrow>
      list_all (\<lambda>(p, role). \<exists>f\<in>set (mf_Files m). fl_Path f = p \<and> fl_Role f = role) xs" for xs
    by (induction xs) (auto simp: required_error_None [OF assms])
  ultimately show ?thesis by (simp add: validateLayout_def layout_ok_def Let_def)
qed

subsection \<open>Verify\<close>

definition bundle_category :: "go_error \<Rightarrow> bool" where
  "bundle_category e \<longleftrightarrow> errors_is e ErrInvalidBundle \<or> errors_is e ErrIntegrity \<or> errors_is e ErrUnsupportedBundle"

lemma bundle_category_simps [simp]:
  "bundle_category (invalid p f x ob c)" "bundle_category (integrity p f x ob c)" "bundle_category (verify_canceled p e)"
  by (simp_all add: bundle_category_def verify_canceled_def)

lemma read_loop_category: "read_loop ctx f rs n c = (Inl e, n') \<Longrightarrow> bundle_category e"
proof (induction ctx f rs n c rule: read_loop.induct)
  case (2 ctx f r rs n c)
  then show ?case by (cases r) (auto split: option.splits if_splits)
qed (auto split: option.splits)

lemma verifyFile_category: "verifyFile sha256 ctx fs f n = (Some e, n') \<Longrightarrow> bundle_category e"
  by (auto simp: verifyFile_def dest: read_loop_category split: sum.splits prod.splits if_splits)

lemma walk_category:
  "walk sha256 ctx fs declared path d st = (Some e, st') \<Longrightarrow> bundle_category e"
  "walk_entries sha256 ctx fs declared path es st = (Some e, st') \<Longrightarrow> bundle_category e"
proof (induction d and es arbitrary: path st and path st)
  case (Leaf ty)
  then show ?case
    by (auto simp: visit_file_def dest: verifyFile_category split: option.splits if_splits prod.splits)
next
  case (Dir es err)
  then show ?case by (cases "ctx (fst st)"; cases err) auto
next
  case (Entry name d es)
  obtain r st1 where w: "walk sha256 ctx fs declared (join_path path name) d st = (r, st1)"
    by (cases "walk sha256 ctx fs declared (join_path path name) d st")
  then show ?case using Entry by (cases r) auto
qed simp

lemma verifyFiles_category: "verifyFiles sha256 ctx fs files n = Some e \<Longrightarrow> bundle_category e"
  by (auto simp: verifyFiles_def dest!: first_error_Some dest: walk_category split: sum.splits option.splits prod.splits)

lemma readManifest_outcomes: "readManifest fs = Err e \<Longrightarrow> bundle_category e" "readManifest fs \<noteq> Panic"
  by (auto simp: readManifest_def bundle_category_def split: sum.splits prod.splits if_splits)

lemma required_error_only: "only ErrInvalidBundle (required_error declared a)"
  by (simp add: required_error_def split: option.split)

lemma validateLayout_only: "only ErrInvalidBundle (validateLayout m)"
  by (auto simp: validateLayout_def Let_def required_error_only only_fails_if list_all_iff intro!: only_first_error)

lemma Verify_total:
  assumes "inj (pe_sprint env)" and "traversal (pe_tokenOrder env) 4" and "traversal (pe_temperatureOrder env) 3"
  shows "(case Verify env (Some ctx) (Some sub) dir of
       Ok m \<Rightarrow> \<exists>fs data. sub dir = Inr fs \<and> readManifest fs = Ok data \<and> Parse env data = Ok m \<and>
         manifest_wf (pe_lower env) m \<and> layout_ok m \<and> bundle_exact (pe_sha256 env) fs (mf_Files m)
     | Err e \<Rightarrow> bundle_category e
     | Panic \<Rightarrow> False)"
proof (cases "\<exists>fs data m. sub dir = Inr fs \<and> readManifest fs = Ok data \<and> Parse env data = Ok m \<and> ctx 0 = None \<and>
    \<not> (dir = '''' \<or> (dir \<noteq> ''.'' \<and> (\<not> fs_ValidPath dir \<or> has_backslash dir)))")
  case True
  then obtain fs data m where m: "sub dir = Inr fs" "readManifest fs = Ok data" "Parse env data = Ok m" "ctx 0 = None"
    and dir: "\<not> (dir = '''' \<or> (dir \<noteq> ''.'' \<and> (\<not> fs_ValidPath dir \<or> has_backslash dir)))" by blast
  have wf: "manifest_wf (pe_lower env) m" using Parse_accepted [OF assms m(3)] by blast
  then have d: "distinct (map fl_Path (mf_Files m))" by (auto simp: manifest_wf_def intro: files_wf_distinct)
  have eq: "Verify env (Some ctx) (Some sub) dir =
      check_then (validateLayout m) (check_then (verifyFiles (pe_sha256 env) ctx fs (mf_Files m) 1) (Ok m))"
    using m dir by (auto simp: Verify_def)
  have cat: "only ErrInvalidBundle (validateLayout m)" by (rule validateLayout_only)
  show ?thesis
  proof (cases "validateLayout m")
    case None
    then have layout: "layout_ok m" by (simp add: validateLayout_None [OF d])
    show ?thesis
    proof (cases "verifyFiles (pe_sha256 env) ctx fs (mf_Files m) 1")
      case ok: None
      then have "bundle_exact (pe_sha256 env) fs (mf_Files m)" by (rule verifyFiles_sound [OF d])
      with m wf layout None ok show ?thesis by (simp add: eq)
    next
      case (Some e)
      with None show ?thesis by (simp add: eq verifyFiles_category)
    qed
  next
    case (Some e)
    with cat show ?thesis by (simp add: eq bundle_category_def)
  qed
next
  case False
  note parse = Parse_rejected [OF assms]
  show ?thesis
  proof (cases "sub dir")
    case (Inr fs)
    show ?thesis
    proof (cases "readManifest fs")
      case (Ok data)
      with False Inr parse [of data] show ?thesis
        by (cases "Parse env data"; cases "ctx 0") (auto simp: Verify_def bundle_category_def verify_canceled_def)
    qed (use Inr readManifest_outcomes [of fs] in \<open>auto simp: Verify_def split: option.split\<close>)
  qed (simp add: Verify_def split: option.split)
qed

lemma Verify_Ok:
  assumes "inj (pe_sprint env)" and "traversal (pe_tokenOrder env) 4" and "traversal (pe_temperatureOrder env) 3"
    and "Verify env (Some ctx) (Some sub) dir = Ok m"
  shows "\<exists>fs data. sub dir = Inr fs \<and> readManifest fs = Ok data \<and> Parse env data = Ok m"
  using Verify_total [OF assms(1-3), where ctx = ctx and sub = sub and dir = dir] assms(4) by auto

text \<open>
  C22: What \<open>Verify\<close> returns. It never panics. A manifest it returns is what \<open>Parse\<close> makes of the
  bytes of the bundle's manifest file, is well formed, has a consistent layout (it does not
  declare itself, has the right number of files in every role, and declares every path it
  refers to in that role), and its file list is exactly the bundle's content, byte for byte up
  to the digest. Every error is of one of the three documented categories.
\<close>

theorem Verify_outcomes:
  assumes "inj (pe_sprint env)" and "traversal (pe_tokenOrder env) 4" and "traversal (pe_temperatureOrder env) 3"
  shows "(case Verify env (Some ctx) (Some sub) dir of
       Ok m \<Rightarrow> \<exists>fs data. sub dir = Inr fs \<and> readManifest fs = Ok data \<and> Parse env data = Ok m \<and>
         manifest_wf (pe_lower env) m \<and> layout_ok m \<and> bundle_exact (pe_sha256 env) fs (mf_Files m)
     | Err e \<Rightarrow> bundle_category e
     | Panic \<Rightarrow> False)"
  by (rule Verify_total [OF assms])

lemma sample_manifest_read: "readManifest sample_fs = Ok ''{}''"
  by (simp add: readManifest_def sample_fs_def maxManifestBytes_def)

lemma sample_layout: "validateLayout (supported_manifest\<lparr>mf_id := i\<rparr>) = None"
  by code_simp

lemma sample_bundle_verified:
  "Verify sample_env (Some (\<lambda>n. None)) (Some (\<lambda>d. Inr sample_fs)) ''.'' =
     Ok (supported_manifest\<lparr>mf_id := ''sha256:'' @ some_digest\<rparr>)"
proof -
  have "verifyFiles (pe_sha256 sample_env) (\<lambda>n. None) sample_fs (mf_Files supported_manifest) 1 = None"
    using sample_verified by (simp add: sample_env_def)
  then show ?thesis by (simp add: Verify_def sample_manifest_read Parse_sample sample_layout)
qed

theorem Verify_outcomes_witness:
  "\<exists>m. Verify sample_env (Some (\<lambda>n. None)) (Some (\<lambda>d. Inr sample_fs)) ''.'' = Ok m \<and> layout_ok m \<and>
     bundle_exact (\<lambda>d. some_digest) sample_fs (mf_Files m)"
proof -
  have "pe_sha256 sample_env = (\<lambda>d. some_digest)" by (simp add: sample_env_def)
  with Verify_outcomes [OF sample_env_ok, where ctx = "\<lambda>n. None" and sub = "\<lambda>d. Inr sample_fs" and dir = "''.''"]
    sample_bundle_verified
  show ?thesis by auto
qed

end
