(* ===== verification/Laya_Examples.thy ===== *)
theory Laya_Examples
  imports Laya_Lifecycle Laya_Predict Laya_Verify
begin

text \<open>
  The programs of the repository that use the library: \<open>examples/internal/exampleapp\<close>,
  \<open>examples/directory\<close>, \<open>examples/embedded\<close> and the command \<open>internal/cmd/bundlecheck\<close>, each
  as a composition of the modelled operations. What the outside answers (the engine, the
  writer behind the JSON encoder, the closes) is an argument.
\<close>

subsection \<open>exampleapp.go\<close>

record Report =
  rp_Choice :: string
  rp_Score :: f64
  rp_Noul :: f64
  rp_BundleID :: string
  rp_RuntimeID :: string

definition Questions :: "Question list res" where
  "Questions =
     res_bind (NewChoiceQuestion ''route'' ''Choose a route''
         [\<lparr>crit_ID = ''accept'', crit_Description = ''continue automatically''\<rparr>,
          \<lparr>crit_ID = ''review'', crit_Description = ''request human review''\<rparr>]) (\<lambda>choice.
     res_bind (NewScoreQuestion ''urgency'' ''Score urgency''
         [\<lparr>lvl_Label = ''low'', lvl_Description = ''not urgent''\<rparr>,
          \<lparr>lvl_Label = ''high'', lvl_Description = ''urgent''\<rparr>]) (\<lambda>score.
     res_bind (NewNoulQuestion ''safe'' ''Is the request safe?'' ''unsafe'' ''safe'') (\<lambda>noul.
       Ok [ChoiceQ choice, ScoreQ score, NoulQ noul])))"

text \<open>\<open>results[i].(T)\<close> in its two-valued form, for the value types; an index out of range panics.\<close>

definition assert_result :: "string \<Rightarrow> (Result \<Rightarrow> 'a option) \<Rightarrow> nat \<Rightarrow> Result list \<Rightarrow> 'a res" where
  "assert_result m f i rs =
     (if i \<ge> length rs then Panic
      else case f (rs ! i) of None \<Rightarrow> Err (wrap ErrInvalidOutput m) | Some r \<Rightarrow> Ok r)"

definition report_of :: "Prediction \<Rightarrow> Report res" where
  "report_of p =
     (let rs = pr_results p in
      res_bind (assert_result ''example choice'' (\<lambda>r. case r of ChoiceR c \<Rightarrow> Some c | _ \<Rightarrow> None) 0 rs) (\<lambda>choice.
      res_bind (assert_result ''example score'' (\<lambda>r. case r of ScoreR s \<Rightarrow> Some s | _ \<Rightarrow> None) 1 rs) (\<lambda>score.
      res_bind (assert_result ''example noul'' (\<lambda>r. case r of NoulR n \<Rightarrow> Some n | _ \<Rightarrow> None) 2 rs) (\<lambda>noul.
        Ok \<lparr>rp_Choice = cr_selected choice, rp_Score = sr_expectedLevel score, rp_Noul = nr_trueProbability noul,
            rp_BundleID = pm_BundleID (pr_metadata p), rp_RuntimeID = pm_RuntimeID (pr_metadata p)\<rparr>))))"

text \<open>
  \<open>Evaluate\<close> on a model that is nil or not, with the outcome of its admission and its engine;
  the second component is the report handed to the encoder, and the third what the call did
  to the model.
\<close>

definition Evaluate ::
  "go_ctx \<Rightarrow> (go_error option \<times> engine) option \<Rightarrow> State \<Rightarrow> (Report \<Rightarrow> go_error option) option
   \<Rightarrow> unit res \<times> Report option \<times> call_event list" where
  "Evaluate ctx model state output =
     (case model of None \<Rightarrow> (Err (wrap ErrInvalidConfig ''evaluate example: model is nil''), None, [])
      | Some (acquired, engine) \<Rightarrow>
     (case output of None \<Rightarrow> (Err (wrap ErrInvalidConfig ''evaluate example: output is nil''), None, [])
      | Some encode \<Rightarrow>
     (case res_wrap ''create example questions'' Questions of
        Err e \<Rightarrow> (Err e, None, []) | Panic \<Rightarrow> (Panic, None, [])
      | Ok questions \<Rightarrow>
     (case Model_Predict ctx state questions acquired engine of
        (prediction, events) \<Rightarrow>
          (case res_bind (res_wrap ''predict example batch'' prediction) report_of of
             Err e \<Rightarrow> (Err e, None, events)
           | Panic \<Rightarrow> (Panic, None, events)
           | Ok report \<Rightarrow>
               (case encode report of
                  Some e \<Rightarrow> (Err (Errorf ''encode content-safe example report'' [e]), Some report, events)
                | None \<Rightarrow> (Ok (), Some report, events)))))))"

subsection \<open>directory.go and embedded.go\<close>

text \<open>What is outside the program during a run of an example; \<open>ex_output\<close> is \<open>None\<close> for a nil writer.\<close>

record example_world =
  ex_ctx :: go_ctx
  ex_lateAcquire :: "go_error option"
  ex_key :: envKey
  ex_environment :: nat
  ex_reply :: env_reply
  ex_runtimeID :: string
  ex_open :: open_answers
  ex_state :: State
  ex_engine :: engine
  ex_output :: "(Report \<Rightarrow> go_error option) option"
  ex_closes :: close_replies
  ex_destroy :: "go_error option"

definition exampleOptions :: ModelOptions where
  "exampleOptions = \<lparr>QueueCapacity = 4, MaxQueueWait = 0, InputTokenLimit = 0, Truncation = TruncateOverflow\<rparr>"

text \<open>\<open>Close(context.Background())\<close>: that context never ends.\<close>

definition background_close :: "example_world \<Rightarrow> close_answers" where
  "background_close w = \<lparr>ca_ctx = Ctx None, ca_late1 = None, ca_late2 = None, ca_replies = ex_closes w\<rparr>"

definition close_runtime :: "example_world \<Rightarrow> process \<Rightarrow> unit res option \<times> process" where
  "close_runtime w p = Runtime_Close (Ctx None) (Ctx None) None (ex_destroy w) p"

text \<open>A call in the middle of \<open>Run\<close> that hangs or panics ends it there.\<close>

definition and_then ::
  "unit res option \<times> process \<Rightarrow> (go_error option \<Rightarrow> process \<Rightarrow> unit res option \<times> process) \<Rightarrow> unit res option \<times> process" where
  "and_then call next =
     (case fst call of
        None \<Rightarrow> (None, snd call)
      | Some Panic \<Rightarrow> (Some Panic, snd call)
      | Some (Ok u) \<Rightarrow> next None (snd call)
      | Some (Err e) \<Rightarrow> next (Some e) (snd call))"

definition run_error :: "go_error option \<Rightarrow> go_error option \<Rightarrow> go_error option \<Rightarrow> unit res" where
  "run_error runErr modelErr runtimeErr =
     (case runErr of Some e \<Rightarrow> Err e
      | None \<Rightarrow> (case modelErr of Some e \<Rightarrow> Err (Errorf ''close model'' [e])
      | None \<Rightarrow> (case runtimeErr of Some e \<Rightarrow> Err (Errorf ''close runtime'' [e])
      | None \<Rightarrow> Ok ())))"

text \<open>From the opened model on; the call of \<open>Predict\<close> takes the slot of the model if it gets that far.\<close>

definition evaluate_and_close ::
  "example_world \<Rightarrow> nat \<Rightarrow> process \<Rightarrow> (unit res option \<times> process) \<times> Report option" where
  "evaluate_and_close w k p =
     (let slot = Model_slot k p;
          acquired = (case fst slot of Some r \<Rightarrow> res_error r | None \<Rightarrow> None)
      in case Evaluate (ex_ctx w) (Some (acquired, ex_engine w)) (ex_state w) (ex_output w) of
           (out, report, events) \<Rightarrow>
             (and_then (Some out, if events = [] then p else snd slot) (\<lambda>runErr p.
              and_then (Model_Close (Ctx None) (background_close w) k p) (\<lambda>modelErr p.
              and_then (close_runtime w p) (\<lambda>runtimeErr p.
                (Some (run_error runErr modelErr runtimeErr), p)))), report))"

definition run_example ::
  "string \<Rightarrow> (process \<Rightarrow> nat res \<times> process) \<Rightarrow> example_world \<Rightarrow> process res
   \<Rightarrow> (unit res option \<times> process option) \<times> Report option" where
  "run_example opening open_call w start =
     (case res_wrap ''create runtime'' start of
        Err e \<Rightarrow> ((Some (Err e), None), None)
      | Panic \<Rightarrow> ((Some Panic, None), None)
      | Ok p0 \<Rightarrow>
          (case open_call p0 of
             (Err e, p) \<Rightarrow> (apsnd Some (and_then (close_runtime w p) (\<lambda>_ p. (Some (Err (Errorf opening [e])), p))), None)
           | (Panic, p) \<Rightarrow> ((Some Panic, Some p), None)
           | (Ok k, p) \<Rightarrow> apfst (apsnd Some) (evaluate_and_close w k p)))"

definition start_example :: "example_world \<Rightarrow> coord_system \<Rightarrow> process res" where
  "start_example w s = new_process (ex_ctx w) (ex_lateAcquire w) (ex_key w) (ex_environment w) (ex_reply w) (ex_runtimeID w) s"

definition directory_Run ::
  "string \<Rightarrow> example_world \<Rightarrow> coord_system \<Rightarrow> (unit res option \<times> process option) \<times> Report option" where
  "directory_Run bundleDir w s =
     run_example ''open local bundle'' (Runtime_OpenModelDir (ex_ctx w) bundleDir exampleOptions (ex_open w)) w (start_example w s)"

definition embedded_Run ::
  "bool \<Rightarrow> string \<Rightarrow> example_world \<Rightarrow> coord_system \<Rightarrow> (unit res option \<times> process option) \<times> Report option" where
  "embedded_Run bundle workDir w s =
     run_example ''open filesystem bundle''
       (Runtime_OpenModelFS (ex_ctx w) bundle \<lparr>fso_Root = '''', fso_WorkDir = workDir, fso_ModelOptions = exampleOptions\<rparr> (ex_open w))
       w (start_example w s)"

subsection \<open>bundlecheck\<close>

text \<open>The exit code, and the identifier and number of files it prints.\<close>

definition bundlecheck_main ::
  "parse_env \<Rightarrow> (string \<Rightarrow> string \<Rightarrow> go_error + fsys) \<Rightarrow> (string \<times> nat \<Rightarrow> go_error option) \<Rightarrow> string list
   \<Rightarrow> (int \<times> (string \<times> nat) option) res" where
  "bundlecheck_main env dirFS encode args =
     (if length args \<noteq> 2 then Ok (2, None)
      else case Verify env (Some (\<lambda>n. None)) (Some (dirFS (args ! 1))) ''.'' of
             Panic \<Rightarrow> Panic
           | Err e \<Rightarrow> Ok (1, None)
           | Ok m \<Rightarrow>
               (let result = (mf_id m, length (mf_Files m))
                in if encode result = None then Ok (0, Some result) else Ok (1, Some result)))"

text \<open>
  \<open>bundlecheck\<close> never panics, exits with 2 exactly on a wrong number of arguments, and with 0
  only if the directory holds exactly the files of its manifest, whose identifier and number
  of files it printed.
\<close>

theorem bundlecheck_exit:
  assumes "inj (pe_sprint env)" and "traversal (pe_tokenOrder env) 4" and "traversal (pe_temperatureOrder env) 3"
  shows "case bundlecheck_main env dirFS encode args of
      Ok (code, printed) \<Rightarrow> code \<in> {0, 1, 2} \<and> (code = 2 \<longleftrightarrow> length args \<noteq> 2) \<and>
        (code = 0 \<longrightarrow> (\<exists>m fs. dirFS (args ! 1) ''.'' = Inr fs \<and> printed = Some (mf_id m, length (mf_Files m)) \<and>
           manifest_wf (pe_lower env) m \<and> bundle_exact (pe_sha256 env) fs (mf_Files m)))
    | _ \<Rightarrow> False"
proof (cases "length args = 2")
  case True
  note v = Verify_total [OF assms, where ctx = "\<lambda>n. None" and sub = "dirFS (args ! 1)" and dir = "''.''"]
  show ?thesis
  proof (cases "Verify env (Some (\<lambda>n. None)) (Some (dirFS (args ! 1))) ''.''")
    case (Ok m)
    with v True show ?thesis by (auto simp: bundlecheck_main_def Let_def)
  qed (use v True in \<open>simp_all add: bundlecheck_main_def\<close>)
qed (simp add: bundlecheck_main_def)

subsection \<open>What is evaluated\<close>

definition example_choice :: ChoiceQuestion where
  "example_choice = \<lparr>cq_id = ''route'', cq_instructions = ''Choose a route'',
     cq_criteria = [\<lparr>crit_ID = ''accept'', crit_Description = ''continue automatically''\<rparr>,
       \<lparr>crit_ID = ''review'', crit_Description = ''request human review''\<rparr>]\<rparr>"

definition example_score :: ScoreQuestion where
  "example_score = \<lparr>sq_id = ''urgency'', sq_instructions = ''Score urgency'',
     sq_rubric = [\<lparr>lvl_Label = ''low'', lvl_Description = ''not urgent''\<rparr>,
       \<lparr>lvl_Label = ''high'', lvl_Description = ''urgent''\<rparr>]\<rparr>"

definition example_noul :: NoulQuestion where
  "example_noul = \<lparr>nq_id = ''safe'', nq_instructions = ''Is the request safe?'', nq_falseDescription = ''unsafe'',
     nq_trueDescription = ''safe''\<rparr>"

abbreviation example_questions :: "Question list" where
  "example_questions \<equiv> [ChoiceQ example_choice, ScoreQ example_score, NoulQ example_noul]"

lemma Questions_eq: "Questions = Ok example_questions"
  by code_simp

lemma report_of_answers:
  assumes "list_all2 answers example_questions (pr_results p)"
  shows "case report_of p of
      Ok r \<Rightarrow> rp_Choice r \<in> {''accept'', ''review''} \<and> is_probability (rp_Noul r) \<and>
        rp_BundleID r = pm_BundleID (pr_metadata p) \<and> rp_RuntimeID r = pm_RuntimeID (pr_metadata p)
    | Err e \<Rightarrow> errors_is e ErrInvalidOutput
    | Panic \<Rightarrow> False"
proof -
  obtain a b c where rs: "pr_results p = [a, b, c]" and a: "answers (ChoiceQ example_choice) a"
    and c: "answers (NoulQ example_noul) c"
    using assms by (auto simp: list_all2_Cons1)
  have choice: "cr_selected x \<in> {''accept'', ''review''}" if "a = ChoiceR x" for x
    using a that by (auto simp: answers_def deref_def choiceResult_def answers_choice_def example_choice_def)
  have noul: "is_probability (nr_trueProbability x)" if "c = NoulR x" for x
    using c that by (auto simp: answers_def deref_def noulResult_def answers_noul_def NoulResult_validate_Ok_iff)
  show ?thesis using rs choice noul
    by (cases a; cases b; cases c) (auto simp: report_of_def assert_result_def Let_def)
qed

text \<open>
  What \<open>Evaluate\<close> of the examples reports: the results of the engine's own prediction, with a
  route among the two offered and a probability; without a result it writes nothing. Its
  unchecked indices are in range whatever the engine returns: it panics only if the engine does.
\<close>

theorem Evaluate_outcomes:
  "case Evaluate ctx (Some (acquired, engine)) state writer of (out, report, events) \<Rightarrow>
     (case report of
        None \<Rightarrow> \<not> is_Ok out
      | Some r \<Rightarrow> \<exists>p. engine state example_questions = Ok p \<and> report_of p = Ok r \<and>
          rp_Choice r \<in> {''accept'', ''review''} \<and> is_probability (rp_Noul r) \<and>
          rp_BundleID r = pm_BundleID (pr_metadata p)) \<and>
     (out = Panic \<longrightarrow> engine state example_questions = Panic)"
proof (cases writer)
  case None
  then show ?thesis by (simp add: Evaluate_def is_Ok_def)
next
  case (Some encode)
  obtain prediction events where m: "Model_Predict ctx state example_questions acquired engine = (prediction, events)"
    by (cases "Model_Predict ctx state example_questions acquired engine")
  show ?thesis
  proof (cases prediction)
    case (Ok p)
    then have p: "engine state example_questions = Ok p" "list_all2 answers example_questions (pr_results p)"
      using Model_Predict_Ok [of ctx state example_questions acquired engine p] m by simp_all
    with report_of_answers [OF p(2)] Some m Ok show ?thesis
      by (cases "report_of p"; cases "encode (case report_of p of Ok r \<Rightarrow> r)")
        (auto simp: Evaluate_def Questions_eq is_Ok_def split: option.split)
  next
    case (Err e)
    with Some m show ?thesis by (simp add: Evaluate_def Questions_eq is_Ok_def)
  next
    case Panic
    with Some m predict_Panic [of ctx state example_questions acquired engine] show ?thesis
      by (simp add: Evaluate_def Questions_eq is_Ok_def)
  qed
qed

subsection \<open>Cleaning up\<close>

lemma close_engine_succeeds:
  assumes "engine_inv p" and "rt_state (ps_rt p) \<noteq> Closed"
  shows "fst (close_engine (Ctx None) None None p) = Ok ()"
proof -
  have e: "coord_inv (ps_coord p)" "\<not> re_closed (ps_engine p)" "re_lease (ps_engine p) = Some (ps_lease p)"
    "ps_lease p \<in> fst ` set (cs_held (ps_coord p))"
    using assms by (simp_all add: engine_inv_def holds_lease_def)
  have "co_leases (cs_co (ps_coord p)) = int (length (cs_held (ps_coord p)))" "cs_held (ps_coord p) \<noteq> []"
    using e(1,4) by (auto simp: coord_inv_def Let_def)
  then have leases: "co_leases (cs_co (ps_coord p)) > 0" by simp
  then obtain env where "co_environment (cs_co (ps_coord p)) = Some env"
    using e(1) by (auto simp: coord_inv_def Let_def)
  with leases e(2-4) show ?thesis by (simp add: close_engine_def engine_Close_def lease_close_def Let_def)
qed

lemma runtime_close_succeeds:
  assumes inv: "process_inv p" and "rt_models (ps_rt p) = {}"
  obtains p' where "Runtime_Close (Ctx None) (Ctx None) None None p = (Some (Ok ()), p')"
    and "process_inv p'" and "rt_state (ps_rt p') = Closed"
proof -
  have "fst (Runtime_Close (Ctx None) (Ctx None) None None p) = Some (Ok ())"
  proof (cases "rt_state (ps_rt p) = Closed")
    case True
    then show ?thesis by (simp add: Runtime_Close_def rt_close_enter_def)
  next
    case False
    have rt: "idle_runtime (ps_rt p)" and e: "engine_inv p" using inv by (simp_all add: process_inv_def)
    obtain r' where r': "rt_close_enter None (ps_rt p) = (RtRun (rt_nextDone (ps_rt p)), r')"
      "\<And>err. \<exists>r''. rt_close_finish (rt_nextDone (ps_rt p)) err r' = Ok r''"
      using rt_close_enter_idle [OF rt False assms(2)] by metis
    obtain r'' where "rt_close_finish (rt_nextDone (ps_rt p)) None r' = Ok r''" using r'(2) by blast
    moreover obtain p1 where "close_engine (Ctx None) None None p = (Ok (), p1)"
      using close_engine_succeeds [OF e False] by (metis prod.collapse)
    ultimately show ?thesis using r'(1) by (simp add: Runtime_Close_def res_error_def)
  qed
  then obtain p' where c: "Runtime_Close (Ctx None) (Ctx None) None None p = (Some (Ok ()), p')"
    by (metis prod.collapse)
  from that [OF c] closes_runtime_inv [OF inv c] show thesis by simp
qed

definition no_failures :: close_replies where
  "no_failures = \<lparr>cl_session = None, cl_tokenizer = None, cl_source = None\<rparr>"

lemma runtime_close_models:
  assumes "Runtime_Close ctx ectx late destroy p = (out, p')"
  shows "ps_models p' = ps_models p"
proof -
  have "ps_models (snd (close_engine ectx late destroy p)) = ps_models p"
    by (simp add: close_engine_def Let_def split: prod.split)
  with assms show ?thesis
    by (auto simp: Runtime_Close_def split: go_ctx.splits prod.splits rt_next.splits option.splits if_splits res.splits)
qed

text \<open>
  A model whose close failed: it holds a resource whose close fails, and all that is released
  after that one.
\<close>

definition stuck :: "close_replies \<Rightarrow> (model \<times> modelEngine) option \<Rightarrow> bool" where
  "stuck cl me = (case me of None \<Rightarrow> False
     | Some (m, e) \<Rightarrow> (case held_resources e of [] \<Rightarrow> False | r # rs \<Rightarrow> close_reply cl r \<noteq> None))"

lemma no_failures_unstuck [simp]: "\<not> stuck no_failures me"
  by (auto simp: stuck_def no_failures_def close_reply_def split: option.splits list.splits resource.splits)

lemma engine_close_stuck:
  assumes "engine_Close_model (Ctx None) None None cl (Some e) = (Some x, Some e', calls)" and "engine_ok e"
  shows "stuck cl (Some (m, e'))"
  using assms
  by (auto simp: engine_Close_model_def close_session_def close_tokenizer_def close_source_def stuck_def held_resources_def
      close_reply_def engine_ok_def Let_def split: if_splits option.splits)

lemma model_close_outcome:
  assumes inv: "process_inv p" and "k \<in> rt_models (ps_rt p)"
    and a: "a = \<lparr>ca_ctx = Ctx None, ca_late1 = None, ca_late2 = None, ca_replies = cl\<rparr>"
  obtains out p' where "Model_Close (Ctx None) a k p = (Some out, p')" and "process_inv p'" and "out \<noteq> Panic"
    and "if out = Ok () then rt_models (ps_rt p') = rt_models (ps_rt p) - {k}
      else rt_models (ps_rt p') = rt_models (ps_rt p) \<and> stuck cl (ps_models p' k)"
proof -
  obtain m e where me: "ps_models p k = Some (m, e)" "m_state m \<noteq> Closed"
    using assms(1,2) by (auto simp: process_inv_def live_def split: option.splits)
  then have m: "idle_model m" "accounted (ps_calls p k) e" "engine_ok e"
    using inv by (metis model_inv_simps(2) process_inv_def)+
  obtain m' where m': "close_enter None m = Ok (RunEngine (m_nextDone m), m')"
    "\<And>err. \<exists>m''. close_finish (m_nextDone m) err m' = Ok m''"
    using close_enter_idle [OF m(1) me(2)] by metis
  obtain err x new where c: "engine_Close_model (Ctx None) None None cl (Some e) = (err, x, new)"
    by (cases "engine_Close_model (Ctx None) None None cl (Some e)")
  obtain e' where e': "x = Some e'" using close_accounted [OF m(2,3) c] by blast
  obtain m'' where m'': "close_finish (m_nextDone m) err m' = Ok m''" using m'(2) by blast
  have "err \<noteq> None \<Longrightarrow> stuck cl (Some (m'', e'))"
    using c e' engine_close_stuck [OF _ m(3)] by auto
  then have "\<exists>out p'. Model_Close (Ctx None) a k p = (Some out, p') \<and> out \<noteq> Panic \<and>
    (if out = Ok () then rt_models (ps_rt p') = rt_models (ps_rt p) - {k}
     else rt_models (ps_rt p') = rt_models (ps_rt p) \<and> stuck cl (ps_models p' k))"
    using me m'(1) c e' m'' by (cases err) (simp_all add: a Model_Close_def close_with_engine_def unregister_def Let_def)
  then obtain out p' where run: "Model_Close (Ctx None) a k p = (Some out, p')" "out \<noteq> Panic"
    "if out = Ok () then rt_models (ps_rt p') = rt_models (ps_rt p) - {k}
     else rt_models (ps_rt p') = rt_models (ps_rt p) \<and> stuck cl (ps_models p' k)" by blast
  from that [OF run(1) _ run(2,3)] closes_model_inv [OF inv run(1)] show thesis by simp
qed

lemma slot_kept:
  assumes "process_inv p" and "ps_models p k \<noteq> None"
  shows "process_inv (snd (Model_slot k p)) \<and> ps_rt (snd (Model_slot k p)) = ps_rt p \<and>
    ps_models (snd (Model_slot k p)) k \<noteq> None"
  using slot_inv_kept [OF assms(1), of k "fst (Model_slot k p)" "snd (Model_slot k p)"] assms(2)
  by (auto simp: Model_slot_def split: prod.splits admission.splits res.splits)

definition opened_model :: "process \<Rightarrow> nat res \<times> process \<Rightarrow> bool" where
  "opened_model p0 out \<longleftrightarrow>
     (case out of
        (Ok k, p) \<Rightarrow> process_inv p \<and> ps_models p k \<noteq> None \<and> rt_models (ps_rt p) = insert k (rt_models (ps_rt p0))
      | (Err e, p) \<Rightarrow> process_inv p \<and> rt_models (ps_rt p) = rt_models (ps_rt p0)
      | (Panic, p) \<Rightarrow> False)"

lemma open_model_registers:
  "case open_model operation reply opts p0 of
     (Ok k, p) \<Rightarrow> ps_models p k \<noteq> None \<and> rt_models (ps_rt p) = insert k (rt_models (ps_rt p0))
   | (Err e, p) \<Rightarrow> rt_models (ps_rt p) = rt_models (ps_rt p0)
   | (Panic, p) \<Rightarrow> True"
proof (cases "rt_state (ps_rt p0) = Open \<and> fst reply \<noteq> Panic")
  case True
  then show ?thesis
    by (cases "fst reply") (simp_all add: open_model_def beginOpen_def finishOpen_def is_Ok_def res_error_def Let_def)
qed (auto simp: open_model_def beginOpen_def Let_def)

lemma opens_register:
  assumes "process_inv p"
  shows "opened_model p (Runtime_OpenModelDir ctx dir opts a p)" and "opened_model p (Runtime_OpenModelFS ctx fsys fopts a p)"
proof -
  have "case Runtime_OpenModelDir ctx dir opts a p of
     (Ok k, p') \<Rightarrow> ps_models p' k \<noteq> None \<and> rt_models (ps_rt p') = insert k (rt_models (ps_rt p))
   | (Err e, p') \<Rightarrow> rt_models (ps_rt p') = rt_models (ps_rt p)
   | (Panic, p') \<Rightarrow> True"
    by (simp add: Runtime_OpenModelDir_def open_model_registers split: option.split)
  with opens_inv [OF assms, of ctx dir opts a] show "opened_model p (Runtime_OpenModelDir ctx dir opts a p)"
    by (cases "Runtime_OpenModelDir ctx dir opts a p"; cases "fst (Runtime_OpenModelDir ctx dir opts a p)")
      (auto simp: opened_model_def)
  have "case Runtime_OpenModelFS ctx fsys fopts a p of
     (Ok k, p') \<Rightarrow> ps_models p' k \<noteq> None \<and> rt_models (ps_rt p') = insert k (rt_models (ps_rt p))
   | (Err e, p') \<Rightarrow> rt_models (ps_rt p') = rt_models (ps_rt p)
   | (Panic, p') \<Rightarrow> True"
    by (simp add: Runtime_OpenModelFS_def open_model_registers split: option.split)
  with opens_fs_inv [OF assms, of ctx fsys fopts a] show "opened_model p (Runtime_OpenModelFS ctx fsys fopts a p)"
    by (cases "Runtime_OpenModelFS ctx fsys fopts a p"; cases "fst (Runtime_OpenModelFS ctx fsys fopts a p)")
      (auto simp: opened_model_def)
qed

text \<open>Nothing is left behind: the lease is given back and whatever was opened is closed, last opened first.\<close>

definition nothing_left :: "process \<Rightarrow> bool" where
  "nothing_left p \<longleftrightarrow>
     rt_state (ps_rt p) = Closed \<and> \<not> holds_lease p \<and>
     (\<forall>k. (if ps_models p k = None then closes (ps_calls p k) else releases (ps_calls p k)) = rev (opens (ps_calls p k)))"

lemma closed_nothing_left:
  assumes "process_inv p" and "rt_state (ps_rt p) = Closed"
  shows "nothing_left p"
proof -
  have "(if ps_models p k = None then closes (ps_calls p k) else releases (ps_calls p k)) = rev (opens (ps_calls p k))" for k
  proof (cases "ps_models p k")
    case None
    with assms(1) have "model_inv (ps_calls p k) None" by (metis process_inv_def)
    with None show ?thesis by (simp add: closed_again_def)
  next
    case (Some me)
    with assms(1) have "model_inv (ps_calls p k) (Some me)" by (metis process_inv_def)
    with Some closed_releases [OF assms, of k] show ?thesis by (cases me) (simp add: accounted_def)
  qed
  with assms show ?thesis by (simp add: nothing_left_def process_inv_def engine_inv_def)
qed

text \<open>
  At the end of a run: the Runtime is closed and nothing is left, unless a close failed. If
  destroying the environment failed, its lease is still held. If closing the model failed,
  the Runtime refuses to close, and the model is stuck at the resource that failed.
\<close>

definition settled :: "example_world \<Rightarrow> process \<Rightarrow> bool" where
  "settled w p \<longleftrightarrow>
     (if rt_models (ps_rt p) = {} then nothing_left p \<or> ex_destroy w \<noteq> None \<and> holds_lease p
      else rt_state (ps_rt p) = Open \<and> holds_lease p \<and> (\<exists>k. rt_models (ps_rt p) = {k} \<and> stuck (ex_closes w) (ps_models p k)))"

definition models_accounted :: "process \<Rightarrow> bool" where
  "models_accounted p \<longleftrightarrow>
     (\<forall>k. case ps_models p k of
        None \<Rightarrow> closes (ps_calls p k) = rev (opens (ps_calls p k))
      | Some (m, e) \<Rightarrow> releases (ps_calls p k) @ held_resources e = rev (opens (ps_calls p k)))"

definition accounted_for :: "example_world \<Rightarrow> (unit res option \<times> process option) \<times> Report option \<Rightarrow> bool" where
  "accounted_for w run \<longleftrightarrow>
     (case run of ((out, left), report) \<Rightarrow>
        out \<noteq> None \<and>
        (if out = Some Panic then (\<exists>st qs. ex_engine w st qs = Panic) else True) \<and>
        (if out = Some (Ok ())
         then (\<exists>p r. left = Some p \<and> nothing_left p \<and> report = Some r \<and>
                 rp_Choice r \<in> {''accept'', ''review''} \<and> is_probability (rp_Noul r))
         else True) \<and>
        (case left of
           None \<Rightarrow> \<exists>e. out = Some (Err e)
         | Some p \<Rightarrow> models_accounted p \<and> (out = Some Panic \<or> settled w p)))"

lemma and_then_simps [simp]:
  "and_then (Some (Ok u), p) next = next None p" "and_then (Some (Err e), p) next = next (Some e) p"
  by (simp_all add: and_then_def)

lemma inv_accounted: "process_inv p \<Longrightarrow> models_accounted p"
  by (auto simp: models_accounted_def process_inv_def closed_again_def accounted_def split: option.split
      dest: spec [where P = "\<lambda>k. model_inv (ps_calls p k) (ps_models p k)"]) (metis model_inv_simps closed_again_def accounted_def)+

text \<open>The close of the Runtime after that of the model.\<close>

lemma close_runtime_settles:
  assumes inv: "process_inv p"
    and models: "rt_models (ps_rt p) = {} \<or> (\<exists>k. rt_models (ps_rt p) = {k} \<and> stuck (ex_closes w) (ps_models p k))"
  obtains out p' where "close_runtime w p = (Some out, p')" and "process_inv p'" and "out \<noteq> Panic" and "settled w p'"
    and "out = Ok () \<Longrightarrow> nothing_left p'"
    and "ex_destroy w = None \<Longrightarrow> rt_models (ps_rt p) = {} \<Longrightarrow> out = Ok ()"
proof -
  obtain x p' where x: "Runtime_Close (Ctx None) (Ctx None) None (ex_destroy w) p = (x, p')"
    by (cases "Runtime_Close (Ctx None) (Ctx None) None (ex_destroy w) p")
  note after = closes_runtime_inv [OF inv x]
  then obtain out where out: "x = Some out" "out \<noteq> Panic" by (auto simp: returned_def)
  have inv': "process_inv p'" using after by simp
  have same: "rt_models (ps_rt p') = rt_models (ps_rt p)" "ps_models p' = ps_models p"
    using inv inv' runtime_close_models [OF x] by (simp_all add: process_inv_def)
  have fine: "out = Ok ()" if "ex_destroy w = None" "rt_models (ps_rt p) = {}"
    using runtime_close_succeeds [OF inv that(2)] x that(1) out(1) by auto
  have ok: "nothing_left p'" if "out = Ok ()"
    using closed_nothing_left [OF inv'] after out(1) that by simp
  have held: "rt_state (ps_rt p') = Closed \<or> holds_lease p'"
    using inv' by (auto simp: process_inv_def engine_inv_def split: if_splits)
  have "settled w p'"
  proof (cases "rt_models (ps_rt p) = {}")
    case True
    with fine ok held closed_nothing_left [OF inv'] same show ?thesis by (auto simp: settled_def)
  next
    case False
    then have "rt_state (ps_rt p') = Open" using inv' same by (auto simp: process_inv_def idle_runtime_def)
    with False models held same show ?thesis by (auto simp: settled_def)
  qed
  with x out inv' fine ok show thesis by (intro that [of out p']) (simp_all add: close_runtime_def)
qed

abbreviation slot_outcome :: "nat \<Rightarrow> process \<Rightarrow> go_error option" where
  "slot_outcome k p \<equiv> (case fst (Model_slot k p) of Some r \<Rightarrow> res_error r | None \<Rightarrow> None)"

lemma run_error_simps [simp]:
  "run_error e m r \<noteq> Panic" "run_error e m r = Ok () \<longleftrightarrow> e = None \<and> m = None \<and> r = None"
  "run_error (Some x) m r = Err x" "run_error None None None = Ok ()"
  by (auto simp: run_error_def split: option.split)

lemma and_then_returned [simp]: "out \<noteq> Panic \<Longrightarrow> and_then (Some out, p) next = next (res_error out) p"
  by (cases out) (simp_all add: res_error_def)

lemma res_error_None [simp]: "out \<noteq> Panic \<Longrightarrow> res_error out = None \<longleftrightarrow> out = Ok ()" for out :: "unit res"
  by (cases out) (simp_all add: res_error_def)

lemma evaluate_result:
  assumes inv: "process_inv p" and some: "ps_models p k \<noteq> None" and only: "rt_models (ps_rt p) = {k}"
    and e: "Evaluate (ex_ctx w) (Some (slot_outcome k p, ex_engine w)) (ex_state w) (ex_output w) = (out, report, events)"
    and ran: "out \<noteq> Panic"
  obtains p' out' where "evaluate_and_close w k p = ((Some out', p'), report)" and "process_inv p'" and "settled w p'"
    and "out' \<noteq> Panic" and "out' = Ok () \<Longrightarrow> out = Ok () \<and> nothing_left p'"
    and "ex_closes w = no_failures \<Longrightarrow> ex_destroy w = None \<Longrightarrow> out = Ok () \<Longrightarrow> out' = Ok ()"
proof -
  let ?p = "if events = [] then p else snd (Model_slot k p)"
  have p: "process_inv ?p" "rt_models (ps_rt ?p) = {k}"
    using slot_kept [OF inv some] inv only by simp_all
  then have "k \<in> rt_models (ps_rt ?p)" by simp
  from model_close_outcome [OF p(1) this background_close_def]
  obtain o1 p1 where p1: "Model_Close (Ctx None) (background_close w) k ?p = (Some o1, p1)" "process_inv p1" "o1 \<noteq> Panic"
    and models: "if o1 = Ok () then rt_models (ps_rt p1) = rt_models (ps_rt ?p) - {k}
      else rt_models (ps_rt p1) = rt_models (ps_rt ?p) \<and> stuck (ex_closes w) (ps_models p1 k)"
    by blast
  have left: "if o1 = Ok () then rt_models (ps_rt p1) = {} else rt_models (ps_rt p1) = {k} \<and> stuck (ex_closes w) (ps_models p1 k)"
    using models p(2) by (simp split: if_splits)
  then have "rt_models (ps_rt p1) = {} \<or> (\<exists>k. rt_models (ps_rt p1) = {k} \<and> stuck (ex_closes w) (ps_models p1 k))"
    by (auto split: if_splits)
  from close_runtime_settles [OF p1(2) this] obtain o2 p2 where p2: "close_runtime w p1 = (Some o2, p2)" "process_inv p2"
    "o2 \<noteq> Panic" "settled w p2" "o2 = Ok () \<Longrightarrow> nothing_left p2"
    "ex_destroy w = None \<Longrightarrow> rt_models (ps_rt p1) = {} \<Longrightarrow> o2 = Ok ()" by blast
  have run: "evaluate_and_close w k p = ((Some (run_error (res_error out) (res_error o1) (res_error o2)), p2), report)"
    using ran e p1(1,3) p2(1,3) by (simp add: evaluate_and_close_def Let_def)
  have "o1 = Ok ()" if "ex_closes w = no_failures" using left that by (auto split: if_splits)
  then show thesis using p1(3) left p2 ran by (intro that [OF run]) auto
qed

text \<open>A panic of the engine unwinds the run where it is: what it held it still holds.\<close>

lemma evaluate_panics:
  assumes "process_inv p" and "ps_models p k \<noteq> None"
    and "Evaluate (ex_ctx w) (Some (slot_outcome k p, ex_engine w)) (ex_state w) (ex_output w) = (Panic, report, events)"
  obtains p' where "evaluate_and_close w k p = ((Some Panic, p'), report)" and "process_inv p'"
  using assms slot_kept [OF assms(1,2)] that
  by (cases "events = []") (simp_all add: evaluate_and_close_def and_then_def Let_def)

lemma evaluate_accounted:
  assumes "process_inv p" and "ps_models p k \<noteq> None" and "rt_models (ps_rt p) = {k}"
  shows "accounted_for w (apfst (apsnd Some) (evaluate_and_close w k p))"
proof -
  obtain out report events
    where e: "Evaluate (ex_ctx w) (Some (slot_outcome k p, ex_engine w)) (ex_state w) (ex_output w) = (out, report, events)"
    by (metis surj_pair)
  note outcomes = Evaluate_outcomes [where ctx = "ex_ctx w" and acquired = "slot_outcome k p" and engine = "ex_engine w"
      and state = "ex_state w" and writer = "ex_output w", unfolded e]
  show ?thesis
  proof (cases "out = Panic")
    case True
    then obtain p' where "evaluate_and_close w k p = ((Some Panic, p'), report)" "process_inv p'"
      using evaluate_panics [OF assms(1,2)] e by blast
    with True outcomes show ?thesis by (auto simp: accounted_for_def inv_accounted)
  next
    case False
    have wrote: "out = Ok () \<Longrightarrow> \<exists>r. report = Some r \<and> rp_Choice r \<in> {''accept'', ''review''} \<and> is_probability (rp_Noul r)"
      using outcomes by (auto simp: is_Ok_def split: option.splits)
    obtain p' out' where "evaluate_and_close w k p = ((Some out', p'), report)" "process_inv p'" "settled w p'"
      "out' \<noteq> Panic" "out' = Ok () \<Longrightarrow> out = Ok () \<and> nothing_left p'"
      using evaluate_result [OF assms e False] by blast
    with wrote show ?thesis by (auto simp: accounted_for_def inv_accounted)
  qed
qed

lemma run_accounted:
  assumes "start \<noteq> Panic" and start: "\<And>p. start = Ok p \<Longrightarrow> process_inv p \<and> rt_models (ps_rt p) = {}"
    and "\<And>p. process_inv p \<Longrightarrow> opened_model p (open_call p)"
  shows "accounted_for w (run_example opening open_call w start)"
proof (cases start)
  case (Ok p0)
  with start assms(3) have "opened_model p0 (open_call p0)" and none: "rt_models (ps_rt p0) = {}" by blast+
  then consider k p where "open_call p0 = (Ok k, p)" "process_inv p" "ps_models p k \<noteq> None" "rt_models (ps_rt p) = {k}"
    | e p where "open_call p0 = (Err e, p)" "process_inv p" "rt_models (ps_rt p) = {}"
    by (cases "open_call p0"; cases "fst (open_call p0)") (auto simp: opened_model_def)
  then show ?thesis
  proof cases
    case 1
    with Ok evaluate_accounted show ?thesis by (simp add: run_example_def)
  next
    case 2
    obtain out p' where "close_runtime w p = (Some out, p')" "process_inv p'" "out \<noteq> Panic" "settled w p'"
      using close_runtime_settles [OF 2(2)] 2(3) by metis
    with Ok 2(1) show ?thesis by (simp add: run_example_def accounted_for_def inv_accounted)
  qed
qed (use assms(1) in \<open>simp_all add: run_example_def accounted_for_def\<close>)

lemma start_example_inv:
  assumes "coord_step\<^sup>*\<^sup>* coord_init s"
  shows "start_example w s \<noteq> Panic" and "start_example w s = Ok p \<Longrightarrow> process_inv p \<and> rt_models (ps_rt p) = {}"
proof -
  have s: "coord_inv s" using assms by (rule coordinator_steps.reachable_inv)
  then have np: "\<not> cs_panic s" by (simp add: coord_inv_def Let_def)
  let ?out = "coordinator_acquire (ex_ctx w) (ex_lateAcquire w) (ex_key w) (Some (ex_environment w)) (ex_reply w) (cs_co s)"
  have "coord_inv (after_coord_acquire (ex_key w) ?out s)"
    by (rule coordinator_steps.inv_step [OF s coord_acquire [OF np]])
  then have "fst ?out \<noteq> Panic"
    by (cases ?out) (auto simp: coord_inv_def after_coord_acquire_def Let_def)
  then show "start_example w s \<noteq> Panic"
    by (auto simp: start_example_def new_process_def NewRuntime_def newRuntime_def Let_def res_panic_iffs
        split: option.splits res.splits)
  show "process_inv p \<and> rt_models (ps_rt p) = {}" if p: "start_example w s = Ok p"
  proof -
    have "process_inv p" using new_process_inv [OF s] p by (simp add: start_example_def)
    moreover have "ps_models p = (\<lambda>_. None)"
      using p by (auto simp: start_example_def new_process_def res_bind_Ok_iff Let_def)
    ultimately show ?thesis by (simp add: process_inv_def)
  qed
qed

text \<open>
  C7: The examples account for what they open on every path. Run from any state of the
  coordinator, against any engine and whatever any open, close or writer answers, the
  directory and the embedded example never wait, and panic only if the engine does. What was
  opened for a model is closed in reverse order or still held by it; a failed open has closed
  all it opened. Unless the engine panics, at the end nothing is left open and the lease of the
  environment is given back, with two exceptions that need a failing close: if destroying the
  environment fails, its lease is still held; if a resource of the model fails to close, the
  model is stuck there, the Runtime stays open with that one model and its lease is held. If
  the example returns nil, nothing is left, and a report was written whose route is one of the
  two offered.
\<close>

theorem examples_clean_up:
  assumes "coord_step\<^sup>*\<^sup>* coord_init s"
  shows "accounted_for w (directory_Run dir w s) \<and> accounted_for w (embedded_Run bundle workDir w s)"
proof -
  note start = start_example_inv [OF assms(1), of w]
  show ?thesis unfolding directory_Run_def embedded_Run_def
    by (intro conjI run_accounted start opens_register)
qed

text \<open>The sample Runtime opens the sample bundle; its engine answers the three questions.\<close>

definition example_prediction :: Prediction where
  "example_prediction =
     \<lparr>pr_results =
        [ChoiceR \<lparr>cr_questionID = ''route'', cr_selected = ''review'',
           cr_probabilities = [\<lparr>cp_CriterionID = ''accept'', cp_Probability = Fin (1/4)\<rparr>,
             \<lparr>cp_CriterionID = ''review'', cp_Probability = Fin (3/4)\<rparr>],
           cr_confidence = Fin (1/2), cr_actionProbability = Fin 0\<rparr>,
         ScoreR \<lparr>sr_questionID = ''urgency'', sr_expectedLevel = Fin 0,
           sr_distribution = [\<lparr>sp_Level = 0, sp_Label = ''low'', sp_Probability = Fin 1\<rparr>,
             \<lparr>sp_Level = 1, sp_Label = ''high'', sp_Probability = Fin 0\<rparr>],
           sr_confidence = Fin 0, sr_actionProbability = Fin 0\<rparr>,
         NoulR \<lparr>nr_questionID = ''safe'', nr_trueProbability = Fin (3/4), nr_actionProbability = Fin 0\<rparr>],
      pr_usage = \<lparr>InputTokens = 5, OutputTokens = 0\<rparr>,
      pr_metadata = \<lparr>pm_ModelID = ''m'', pm_BundleID = ''b'', pm_RuntimeID = ''r'',
        pm_Truncation = \<lparr>Truncated = False, OriginalInputTokens = 5, EffectiveInputTokens = 5\<rparr>\<rparr>\<rparr>"

definition example_engine :: engine where
  "example_engine st qs = Ok example_prediction"

definition sample_world :: example_world where
  "sample_world = \<lparr>ex_ctx = Ctx None, ex_lateAcquire = None, ex_key = sample_key, ex_environment = 7,
     ex_reply = good_reply, ex_runtimeID = ''r'', ex_open = sample_answers, ex_state = TextState ''ok'', ex_engine = example_engine,
     ex_output = Some (\<lambda>r. None), ex_closes = no_failures, ex_destroy = None\<rparr>"

lemma example_prediction_valid: "Prediction_validate example_prediction = Ok ()"
proof -
  have "f_of_int 1 = Fin 1" using f_of_int_exact [of 1] by simp
  then show ?thesis
    by (simp add: Prediction_validate_Ok_iff example_prediction_def validateResult_def ChoiceResult_validate_Ok_iff
        ScoreResult_validate_Ok_iff NoulResult_validate_Ok_iff result_key_def Result_QuestionID_def validateTruncation_def less_Suc_eq)
qed

lemma example_prediction_matches:
  "length (pr_results example_prediction) = 3 \<and> results_match (pr_results example_prediction) example_questions = Ok ()"
  by (simp add: example_prediction_def example_choice_def example_score_def example_noul_def Result_QuestionID_def
      Question_ID_def validateResultForQuestion_def validateChoiceResultForQuestion_def
      validateScoreResultForQuestion_def choiceResult_def scoreResult_def noulResult_def)

lemma example_predicts:
  "Model_Predict (Ctx None) (TextState ''ok'') example_questions None example_engine =
     (Ok example_prediction, [SlotAcquired, EngineCalled, SlotReleased])"
proof -
  have "validateQuestions example_questions = Ok ()" "State_validate (TextState ''ok'') = None" by code_simp+
  then show ?thesis using example_prediction_valid example_prediction_matches
    by (simp add: Model_Predict_def validatePredictionForQuestions_def example_engine_def)
qed

lemma example_reported:
  "report_of example_prediction =
     Ok \<lparr>rp_Choice = ''review'', rp_Score = Fin 0, rp_Noul = Fin (3/4), rp_BundleID = ''b'', rp_RuntimeID = ''r''\<rparr>"
  by (simp add: report_of_def assert_result_def example_prediction_def numeral_2_eq_2)

lemma sample_opened:
  "\<exists>p p'. start_example sample_world coord_init = Ok p \<and> slot_outcome 0 p' = None \<and>
     Runtime_OpenModelDir (Ctx None) ''d'' exampleOptions sample_answers p = (Ok 0, p')"
proof -
  obtain c where "parseCalibrationConfig sample_calibration_env (sample_manifest 4) ''{}'' = Ok c"
    using sample_calibration_parses by blast
  then show ?thesis
    by (simp add: start_example_def sample_world_def life_eval exampleOptions_def RejectOverflow_def TruncateOverflow_def
        Model_slot_def acquire_def newModel_def release_def releaseLocked_def signalIdleLocked_def is_Ok_def res_error_def)
qed

theorem examples_clean_up_witness:
  "\<exists>p r. directory_Run ''d'' sample_world coord_init = ((Some (Ok ()), Some p), Some r) \<and> nothing_left p \<and>
     rp_Choice r = ''review''"
proof -
  obtain p p' where start: "start_example sample_world coord_init = Ok p" and slot: "slot_outcome 0 p' = None"
    and opened: "Runtime_OpenModelDir (Ctx None) ''d'' exampleOptions sample_answers p = (Ok 0, p')"
    using sample_opened by blast
  have "process_inv p" "rt_models (ps_rt p) = {}" using start_example_inv(2) [OF rtranclp.rtrancl_refl start] by simp_all
  then have p': "process_inv p'" "ps_models p' 0 \<noteq> None" "rt_models (ps_rt p') = {0}"
    using opens_register(1) [of p "Ctx None" "''d''" exampleOptions sample_answers] opened by (simp_all add: opened_model_def)
  obtain r where r: "Evaluate (ex_ctx sample_world) (Some (slot_outcome 0 p', ex_engine sample_world)) (ex_state sample_world)
      (ex_output sample_world) = (Ok (), Some r, [SlotAcquired, EngineCalled, SlotReleased])" "rp_Choice r = ''review''"
    using example_predicts by (simp add: slot Evaluate_def Questions_eq sample_world_def example_reported)
  obtain p2 where "evaluate_and_close sample_world 0 p' = ((Some (Ok ()), p2), Some r)"
    using evaluate_result [OF p' r(1)] by (auto simp: sample_world_def)
  with start opened have "directory_Run ''d'' sample_world coord_init = ((Some (Ok ()), Some p2), Some r)"
    by (simp add: directory_Run_def run_example_def sample_world_def)
  with examples_clean_up [OF rtranclp.rtrancl_refl, of sample_world "''d''"] r(2) show ?thesis
    by (auto simp: accounted_for_def)
qed

end
