(* ===== verification/Laya_AdkRouting.thy ===== *)
theory Laya_AdkRouting
  imports Laya_AdkData
begin

text \<open>
  \<open>adklaya/routing.go\<close>: routing a workflow by one choice question. The nodes of the workflow
  are values of an interface that Go compares by identity; here they are numbers, with their
  names as an argument \<open>nm\<close>. An edge goes from the routing node to a target, under one route
  or several.
\<close>

subsection \<open>Configuration\<close>

definition fallbackRoute :: string where "fallbackRoute = ''laya.fallback''"

definition branch_route :: "nat \<Rightarrow> string" where
  "branch_route i = ''laya.branch.'' @ show_nat i"

record AcceptancePolicy =
  ap_MinSelectedProbability :: f64
  ap_MinConfidence :: f64
  ap_MaxActionProbability :: f64

record ChoiceBranch =
  br_Criteria :: "ChoiceCriterion list"
  br_Target :: "nat option"

record 'i ChoiceRoutingConfig =
  rc_Options :: NodeOptions
  rc_QuestionID :: string
  rc_Instructions :: string
  rc_ProjectState :: "'i projector option"
  rc_Branches :: "ChoiceBranch list"
  rc_Fallback :: "nat option"
  rc_Policy :: "AcceptancePolicy option"

text \<open>The routes of an edge are a slice, whose array the callers of \<open>Edges\<close> must not share.\<close>

datatype route = StringRoute string | MultiRoute "string list"

record edge =
  ed_To :: nat
  ed_Route :: route

text \<open>What a routing node emits: the input, unchanged, and the routes.\<close>

record 'i event =
  ev_Output :: 'i
  ev_Routes :: "string list"

record 'i ChoiceRouting =
  cr_node :: "('i, 'i event) FunctionNode"
  cr_edges :: "edge list"

definition out_of_unit :: "f64 \<Rightarrow> bool" where
  "out_of_unit v \<longleftrightarrow> isNaN v \<or> isInf v \<or> f_lt v (Fin 0) \<or> f_lt (Fin 1) v"

definition validatePolicy :: "AcceptancePolicy \<Rightarrow> go_error option" where
  "validatePolicy p =
     (if out_of_unit (ap_MinSelectedProbability p) then Some (Opaque ''minimum selected probability is outside [0,1]'')
      else if out_of_unit (ap_MinConfidence p) then Some (Opaque ''minimum confidence is outside [0,1]'')
      else if out_of_unit (ap_MaxActionProbability p) then Some (Opaque ''maximum action probability is outside [0,1]'')
      else None)"

subsection \<open>Targets\<close>

text \<open>The state of the loop over the branches; \<open>criterionRoute\<close>, \<open>targetRoutes\<close> and \<open>targetNames\<close> are maps.\<close>

record routes_state =
  rs_criteria :: "ChoiceCriterion list"
  rs_criterionRoute :: "string \<rightharpoonup> string"
  rs_targetRoutes :: "nat \<rightharpoonup> string list"
  rs_targetNames :: "string \<rightharpoonup> nat"
  rs_targetOrder :: "nat list"

definition validateTarget :: "(nat \<Rightarrow> string) \<Rightarrow> nat \<Rightarrow> (string \<rightharpoonup> nat) \<Rightarrow> go_error + (string \<rightharpoonup> nat)" where
  "validateTarget nm target names =
     (if trim_space (nm target) = '''' then Inl (invalidConfig ''new choice routing: target name is empty'')
      else if nm target = ''user'' then Inl (invalidConfig ''new choice routing: target name is reserved by ADK'')
      else case names (nm target) of
             Some existing \<Rightarrow>
               if existing \<noteq> target then Inl (invalidConfig ''new choice routing: distinct targets repeat name'')
               else Inr (names(nm target \<mapsto> target))
           | None \<Rightarrow> Inr (names(nm target \<mapsto> target)))"

fun criteria_routes :: "string \<Rightarrow> ChoiceCriterion list \<Rightarrow> routes_state \<Rightarrow> go_error + routes_state" where
  "criteria_routes r [] st = Inr st"
| "criteria_routes r (c # cs) st =
     (if rs_criterionRoute st (crit_ID c) \<noteq> None
      then Inl (invalidConfig ''new choice routing: criterion appears in multiple branches'')
      else criteria_routes r cs (st\<lparr>rs_criterionRoute := (rs_criterionRoute st)(crit_ID c \<mapsto> r),
             rs_criteria := rs_criteria st @ [c]\<rparr>))"

definition add_target :: "nat \<Rightarrow> string \<Rightarrow> (string \<rightharpoonup> nat) \<Rightarrow> routes_state \<Rightarrow> routes_state" where
  "add_target t r names st =
     st\<lparr>rs_targetNames := names,
        rs_targetOrder := (if rs_targetRoutes st t = None then rs_targetOrder st @ [t] else rs_targetOrder st),
        rs_targetRoutes := (rs_targetRoutes st)(t \<mapsto> (case rs_targetRoutes st t of None \<Rightarrow> [] | Some rs \<Rightarrow> rs) @ [r])\<rparr>"

fun branches_loop :: "(nat \<Rightarrow> string) \<Rightarrow> nat \<Rightarrow> ChoiceBranch list \<Rightarrow> routes_state \<Rightarrow> go_error + routes_state" where
  "branches_loop nm i [] st = Inr st"
| "branches_loop nm i (b # bs) st =
     (case br_Target b of
        None \<Rightarrow> Inl (invalidConfig ''new choice routing: branch target is nil'')
      | Some t \<Rightarrow>
          if length (br_Criteria b) = 0 then Inl (invalidConfig ''new choice routing: branch criteria are empty'')
          else (case validateTarget nm t (rs_targetNames st) of
                  Inl e \<Rightarrow> Inl e
                | Inr names \<Rightarrow>
                    (case criteria_routes (branch_route i) (br_Criteria b) (add_target t (branch_route i) names st) of
                       Inl e \<Rightarrow> Inl e
                     | Inr st' \<Rightarrow> branches_loop nm (Suc i) bs st')))"

definition no_routes :: routes_state where
  "no_routes = \<lparr>rs_criteria = [], rs_criterionRoute = Map.empty, rs_targetRoutes = Map.empty,
     rs_targetNames = Map.empty, rs_targetOrder = []\<rparr>"

subsection \<open>Routing\<close>

fun probabilities_loop :: "string \<Rightarrow> CriterionProbability list \<Rightarrow> f64 \<times> nat \<times> f64 \<Rightarrow> f64 \<times> nat \<times> f64" where
  "probabilities_loop sel [] st = st"
| "probabilities_loop sel (p # ps) (maximum, maxCount, selected) =
     (let (maximum', maxCount') =
            (if f_lt maximum (cp_Probability p) then (cp_Probability p, 1)
             else if f_eq (cp_Probability p) maximum then (maximum, Suc maxCount) else (maximum, maxCount));
          selected' = (if cp_CriterionID p = sel then cp_Probability p else selected)
      in probabilities_loop sel ps (maximum', maxCount', selected'))"

definition acceptedRoute :: "ChoiceResult \<Rightarrow> (string \<rightharpoonup> string) \<Rightarrow> AcceptancePolicy \<Rightarrow> string" where
  "acceptedRoute result routes policy =
     (case probabilities_loop (cr_selected result) (cr_probabilities result) (Fin (- 1), 0, Fin (- 1)) of
        (maximum, maxCount, selected) \<Rightarrow>
          if maxCount \<noteq> 1 \<or> \<not> f_eq selected maximum \<or> f_lt selected (ap_MinSelectedProbability policy) \<or>
             f_lt (cr_confidence result) (ap_MinConfidence policy) \<or>
             f_lt (ap_MaxActionProbability policy) (cr_actionProbability result)
          then fallbackRoute
          else (case routes (cr_selected result) of Some route \<Rightarrow> route | None \<Rightarrow> fallbackRoute))"

definition routing_fn ::
  "'i projector \<Rightarrow> engine \<Rightarrow> ChoiceQuestion \<Rightarrow> (string \<rightharpoonup> string) \<Rightarrow> AcceptancePolicy
   \<Rightarrow> (nat \<Rightarrow> go_error option) \<Rightarrow> 'i \<Rightarrow> 'i event res" where
  "routing_fn projector predict question routes policy ctx input =
     check_then (ctx 0)
      (res_bind (res_wrap ''project state'' (projector input)) (\<lambda>state.
        check_then (ctx 1)
         (res_bind (predict state [ChoiceQ question]) (\<lambda>prediction.
           check_then (ctx 2)
            (res_bind (first_result prediction) (\<lambda>r.
              case r of
                ChoiceR result \<Rightarrow> Ok \<lparr>ev_Output = input, ev_Routes = [acceptedRoute result routes policy]\<rparr>
              | _ \<Rightarrow> Err (Opaque ''choice routing: result has another type'')))))))"

definition routing_edges :: "routes_state \<Rightarrow> nat \<Rightarrow> edge list" where
  "routing_edges st fallback =
     map (\<lambda>t. \<lparr>ed_To = t, ed_Route = MultiRoute (case rs_targetRoutes st t of None \<Rightarrow> [] | Some rs \<Rightarrow> rs)\<rparr>) (rs_targetOrder st) @
     [\<lparr>ed_To = fallback, ed_Route = StringRoute fallbackRoute\<rparr>]"

text \<open>The end of the constructor, once the configuration is known to be complete.\<close>

definition build_routing ::
  "(nat \<Rightarrow> string) \<Rightarrow> 'i ChoiceRoutingConfig \<Rightarrow> 'i projector \<Rightarrow> AcceptancePolicy \<Rightarrow> nat \<Rightarrow> engine \<Rightarrow> 'r store
   \<Rightarrow> 'i ChoiceRouting res \<times> 'r store" where
  "build_routing nm cfg project policy fallback predict s =
     (case branches_loop nm 0 (rc_Branches cfg) no_routes of
        Inl e \<Rightarrow> (Err e, s)
      | Inr st \<Rightarrow>
          if rs_targetRoutes st fallback \<noteq> None
          then (Err (invalidConfig ''new choice routing: fallback target is also a branch target''), s)
          else
     (case validateTarget nm fallback (rs_targetNames st) of
        Inl e \<Rightarrow> (Err e, s)
      | Inr names \<Rightarrow>
     (case res_wrap ''new choice routing'' (NewChoiceQuestion (rc_QuestionID cfg) (rc_Instructions cfg) (rs_criteria st)) of
        Err e \<Rightarrow> (Err e, s)
      | Panic \<Rightarrow> (Panic, s)
      | Ok question \<Rightarrow>
          (case cloneNodeConfig (no_Config (rc_Options cfg)) s of
             (config, s') \<Rightarrow>
               (Ok \<lparr>cr_node = \<lparr>fn_name = no_Name (rc_Options cfg),
                              fn_run = routing_fn project predict question (rs_criterionRoute st) policy,
                              fn_config = config\<rparr>,
                    cr_edges = routing_edges st fallback\<rparr>, s')))))"

definition newChoiceRouting ::
  "(nat \<Rightarrow> string) \<Rightarrow> 'i ChoiceRoutingConfig \<Rightarrow> engine \<Rightarrow> 'r store \<Rightarrow> 'i ChoiceRouting res \<times> 'r store" where
  "newChoiceRouting nm cfg predict s =
     (case validateNodeOptions (rc_Options cfg) of Some e \<Rightarrow> (Err (Errorf ''new choice routing'' [e]), s)
      | None \<Rightarrow>
     (case rc_ProjectState cfg of None \<Rightarrow> (Err (invalidConfig ''new choice routing: state projector is nil''), s)
      | Some project \<Rightarrow>
     (case rc_Policy cfg of None \<Rightarrow> (Err (invalidConfig ''new choice routing: acceptance policy is nil''), s)
      | Some policy \<Rightarrow>
     (case validatePolicy policy of Some e \<Rightarrow> (Err (invalidConfig ''new choice routing: policy''), s)
      | None \<Rightarrow>
     (case rc_Fallback cfg of None \<Rightarrow> (Err (invalidConfig ''new choice routing: fallback target is nil''), s)
      | Some fallback \<Rightarrow>
          if length (rc_Branches cfg) = 0 then (Err (invalidConfig ''new choice routing: branches are empty''), s)
          else build_routing nm cfg project policy fallback predict s)))))"

definition NewChoiceRouting ::
  "(nat \<Rightarrow> string) \<Rightarrow> engine option \<Rightarrow> 'i ChoiceRoutingConfig \<Rightarrow> 'r store \<Rightarrow> 'i ChoiceRouting res \<times> 'r store" where
  "NewChoiceRouting nm model cfg s =
     (case model of None \<Rightarrow> (Err (invalidConfig ''new choice routing: model is nil''), s)
      | Some predict \<Rightarrow> newChoiceRouting nm cfg predict s)"

text \<open>The accessors; a nil routing has neither node nor edges.\<close>

definition Routing_Node :: "'i ChoiceRouting option \<Rightarrow> ('i, 'i event) FunctionNode option" where
  "Routing_Node r = map_option cr_node r"

definition Routing_Edges :: "'i ChoiceRouting option \<Rightarrow> edge list" where
  "Routing_Edges r = (case r of None \<Rightarrow> [] | Some x \<Rightarrow> cr_edges x)"

subsection \<open>What the constructor builds\<close>

lemma criteria_routes_Inr:
  "criteria_routes r cs st = Inr st' \<Longrightarrow>
     rs_criteria st' = rs_criteria st @ cs \<and> distinct (map crit_ID cs) \<and>
     crit_ID ` set cs \<inter> dom (rs_criterionRoute st) = {} \<and>
     rs_criterionRoute st' = (\<lambda>c. if c \<in> crit_ID ` set cs then Some r else rs_criterionRoute st c) \<and>
     rs_targetRoutes st' = rs_targetRoutes st \<and> rs_targetNames st' = rs_targetNames st \<and>
     rs_targetOrder st' = rs_targetOrder st"
proof (induction cs arbitrary: st)
  case (Cons c cs)
  let ?st = "st\<lparr>rs_criterionRoute := (rs_criterionRoute st)(crit_ID c \<mapsto> r), rs_criteria := rs_criteria st @ [c]\<rparr>"
  have new: "rs_criterionRoute st (crit_ID c) = None" and rest: "criteria_routes r cs ?st = Inr st'"
    using Cons.prems by (auto split: if_splits)
  from Cons.IH [OF rest] new show ?case by (auto simp: domIff)
qed simp

text \<open>The branches of a target, by their numbers.\<close>

definition branches_of :: "ChoiceBranch list \<Rightarrow> nat \<Rightarrow> nat list" where
  "branches_of bs t = filter (\<lambda>i. br_Target (bs ! i) = Some t) [0..<length bs]"

definition branch_criteria :: "ChoiceBranch \<Rightarrow> string set" where
  "branch_criteria b = crit_ID ` set (br_Criteria b)"

definition name_ok :: "string \<Rightarrow> bool" where
  "name_ok name \<longleftrightarrow> trim_space name \<noteq> '''' \<and> name \<noteq> ''user''"

definition names_ok :: "(nat \<Rightarrow> string) \<Rightarrow> routes_state \<Rightarrow> bool" where
  "names_ok nm st \<longleftrightarrow> (\<forall>t\<in>dom (rs_targetRoutes st). rs_targetNames st (nm t) = Some t \<and> name_ok (nm t))"

definition routes_ok :: "(nat \<Rightarrow> string) \<Rightarrow> ChoiceBranch list \<Rightarrow> routes_state \<Rightarrow> bool" where
  "routes_ok nm bs st \<longleftrightarrow>
     rs_criteria st = concat (map br_Criteria bs) \<and> distinct (map crit_ID (rs_criteria st)) \<and>
     (\<forall>c r. rs_criterionRoute st c = Some r \<longleftrightarrow> (\<exists>i<length bs. r = branch_route i \<and> c \<in> branch_criteria (bs ! i))) \<and>
     (\<forall>t. rs_targetRoutes st t = (if branches_of bs t = [] then None else Some (map branch_route (branches_of bs t)))) \<and>
     set (rs_targetOrder st) = dom (rs_targetRoutes st) \<and> distinct (rs_targetOrder st) \<and> names_ok nm st \<and>
     list_all (\<lambda>b. br_Target b \<noteq> None \<and> br_Criteria b \<noteq> []) bs"

lemma branches_of_snoc:
  "branches_of (bs @ [b]) t = branches_of bs t @ (if br_Target b = Some t then [length bs] else [])"
  by (auto simp: branches_of_def nth_append intro: filter_cong)

lemma validateTarget_Inr:
  "validateTarget nm t names = Inr names' \<Longrightarrow>
     name_ok (nm t) \<and> (names (nm t) = None \<or> names (nm t) = Some t) \<and> names' = names(nm t \<mapsto> t)"
  by (auto simp: validateTarget_def name_ok_def split: if_splits option.splits)

lemma criterion_dom: "routes_ok nm bs st \<Longrightarrow> dom (rs_criterionRoute st) = crit_ID ` set (rs_criteria st)"
  by (fastforce simp: routes_ok_def dom_def branch_criteria_def in_set_conv_nth)

lemma add_branch:
  assumes ok: "routes_ok nm bs st" and b: "br_Target b = Some t" "br_Criteria b \<noteq> []"
    and names: "validateTarget nm t (rs_targetNames st) = Inr names"
    and criteria: "criteria_routes (branch_route (length bs)) (br_Criteria b)
      (add_target t (branch_route (length bs)) names st) = Inr st'"
  shows "routes_ok nm (bs @ [b]) st'"
proof -
  note n = validateTarget_Inr [OF names]
  note c = criteria_routes_Inr [OF criteria]
  have new: "crit_ID ` set (br_Criteria b) \<inter> crit_ID ` set (rs_criteria st) = {}"
    using c criterion_dom [OF ok] by (auto simp: add_target_def)
  have "rs_criteria st' = concat (map br_Criteria (bs @ [b]))" "distinct (map crit_ID (rs_criteria st'))"
    using c ok new by (auto simp: routes_ok_def add_target_def)
  moreover have "\<forall>c r. rs_criterionRoute st' c = Some r \<longleftrightarrow>
      (\<exists>i<length (bs @ [b]). r = branch_route i \<and> c \<in> branch_criteria ((bs @ [b]) ! i))"
  proof (intro allI)
    fix x r
    show "rs_criterionRoute st' x = Some r \<longleftrightarrow>
      (\<exists>i<length (bs @ [b]). r = branch_route i \<and> x \<in> branch_criteria ((bs @ [b]) ! i))"
    proof (cases "x \<in> branch_criteria b")
      case True
      then have "x \<notin> branch_criteria (bs ! i)" if "i < length bs" for i
        using new ok that by (fastforce simp: branch_criteria_def routes_ok_def)
      with True c show ?thesis by (auto simp: branch_criteria_def add_target_def nth_append less_Suc_eq)
    next
      case False
      with c ok show ?thesis by (auto simp: branch_criteria_def routes_ok_def add_target_def nth_append less_Suc_eq)
    qed
  qed
  moreover have "\<forall>u. rs_targetRoutes st' u =
      (if branches_of (bs @ [b]) u = [] then None else Some (map branch_route (branches_of (bs @ [b]) u)))"
    using c ok b(1) by (auto simp: routes_ok_def add_target_def branches_of_snoc)
  moreover have "set (rs_targetOrder st') = dom (rs_targetRoutes st')" "distinct (rs_targetOrder st')"
    using c ok by (auto simp: routes_ok_def add_target_def)
  moreover have "names_ok nm st'"
    unfolding names_ok_def
  proof
    fix u assume u: "u \<in> dom (rs_targetRoutes st')"
    have old: "rs_targetNames st (nm u) = Some u \<and> name_ok (nm u)" if "u \<noteq> t"
    proof -
      have "u \<in> dom (rs_targetRoutes st)" using u that c by (auto simp: add_target_def)
      moreover have "names_ok nm st" using ok by (simp add: routes_ok_def)
      ultimately show ?thesis by (simp add: names_ok_def)
    qed
    have "rs_targetNames st' = (rs_targetNames st)(nm t \<mapsto> t)" using c n by (simp add: add_target_def)
    then show "rs_targetNames st' (nm u) = Some u \<and> name_ok (nm u)"
      using old n by (cases "u = t") auto
  qed
  moreover have "list_all (\<lambda>b. br_Target b \<noteq> None \<and> br_Criteria b \<noteq> []) (bs @ [b])"
    using ok b by (simp add: routes_ok_def)
  ultimately show ?thesis by (simp add: routes_ok_def)
qed

lemma branches_loop_ok:
  "branches_loop nm (length done) bs st = Inr st' \<Longrightarrow> routes_ok nm done st \<Longrightarrow> routes_ok nm (done @ bs) st'"
proof (induction bs arbitrary: "done" st)
  case (Cons b bs)
  obtain t names st1 where b: "br_Target b = Some t" "br_Criteria b \<noteq> []"
    and v: "validateTarget nm t (rs_targetNames st) = Inr names"
    and c: "criteria_routes (branch_route (length done)) (br_Criteria b)
      (add_target t (branch_route (length done)) names st) = Inr st1"
    and rest: "branches_loop nm (Suc (length done)) bs st1 = Inr st'"
    using Cons.prems(1) by (auto split: option.splits if_splits sum.splits)
  from Cons.IH [of "done @ [b]" st1] rest add_branch [OF Cons.prems(2) b v c] show ?case by simp
qed simp

lemma no_routes_ok: "routes_ok nm [] no_routes"
  by (simp add: routes_ok_def no_routes_def names_ok_def branches_of_def)

lemma branches_ok: "branches_loop nm 0 bs no_routes = Inr st \<Longrightarrow> routes_ok nm bs st"
  using branches_loop_ok [of nm "[]" bs no_routes st] no_routes_ok by simp

subsection \<open>The accepted route\<close>

text \<open>
  The acceptance policy as documented: the selected criterion is the only one with the largest
  probability, and no threshold is violated.
\<close>

definition accepts :: "AcceptancePolicy \<Rightarrow> ChoiceResult \<Rightarrow> bool" where
  "accepts policy r \<longleftrightarrow>
     (\<exists>p\<in>set (cr_probabilities r). cp_CriterionID p = cr_selected r \<and>
        (\<forall>p'\<in>set (cr_probabilities r). cp_CriterionID p' \<noteq> cr_selected r \<longrightarrow> f_lt (cp_Probability p') (cp_Probability p)) \<and>
        f_le (ap_MinSelectedProbability policy) (cp_Probability p)) \<and>
     f_le (ap_MinConfidence policy) (cr_confidence r) \<and> f_le (cr_actionProbability r) (ap_MaxActionProbability policy)"

lemma loop_maximum:
  assumes "probabilities_loop sel ps (m, n, s) = (m', n', s')"
    and "list_all (\<lambda>p. is_probability (cp_Probability p)) ps" and "m = Fin a"
  shows "\<exists>b. m' = Fin b \<and> a \<le> b \<and> (\<forall>p\<in>set ps. f_le (cp_Probability p) (Fin b)) \<and>
    (b = a \<or> (\<exists>p\<in>set ps. cp_Probability p = Fin b)) \<and>
    n' = (if b = a then n else 0) + length (filter (\<lambda>p. cp_Probability p = Fin b) ps)"
  using assms
proof (induction ps arbitrary: m n s a)
  case Nil
  then show ?case by (intro exI [of _ a]) simp
next
  case (Cons p ps)
  obtain q where q: "cp_Probability p = Fin q" "0 \<le> q" using Cons.prems(2) by (auto elim: is_probabilityE)
  let ?a = "if a < q then q else a" and ?n = "if a < q then 1 else if q = a then Suc n else n"
  have "probabilities_loop sel ps (Fin ?a, ?n, if cp_CriterionID p = sel then cp_Probability p else s) = (m', n', s')"
    using Cons.prems(1,3) q by (auto simp: Let_def split: if_splits)
  from Cons.IH [OF this _ refl] Cons.prems(2) obtain b where b: "m' = Fin b" "?a \<le> b"
    "\<forall>p\<in>set ps. f_le (cp_Probability p) (Fin b)" "b = ?a \<or> (\<exists>p\<in>set ps. cp_Probability p = Fin b)"
    "n' = (if b = ?a then ?n else 0) + length (filter (\<lambda>p. cp_Probability p = Fin b) ps)" by auto
  show ?case
    by (intro exI [of _ b]) (use b q(1) in \<open>auto split: if_splits\<close>)
qed

lemma loop_selected:
  assumes "probabilities_loop sel ps (m, n, s) = (m', n', s')" and "distinct (map cp_CriterionID ps)"
  shows "(\<forall>p\<in>set ps. cp_CriterionID p = sel \<longrightarrow> s' = cp_Probability p) \<and>
    (sel \<notin> cp_CriterionID ` set ps \<longrightarrow> s' = s)"
  using assms
proof (induction ps arbitrary: m n s)
  case (Cons p ps)
  obtain m1 n1 where "probabilities_loop sel ps (m1, n1, if cp_CriterionID p = sel then cp_Probability p else s) = (m', n', s')"
    using Cons.prems(1) by (auto simp: Let_def split: prod.splits)
  from Cons.IH [OF this] Cons.prems(2) show ?case by auto
qed simp

lemma single_filter:
  assumes "length (filter P xs) = 1" and "x \<in> set xs" and "P x" and "y \<in> set xs" and "P y"
  shows "x = y"
proof -
  obtain z where z: "filter P xs = [z]" using assms(1) by (auto simp: length_Suc_conv)
  have "x \<in> set (filter P xs)" "y \<in> set (filter P xs)" using assms(2-5) by simp_all
  with z show ?thesis by simp
qed

lemma filter_one: "distinct xs \<Longrightarrow> x \<in> set xs \<Longrightarrow> filter (\<lambda>y. y = x) xs = [x]"
  by (induction xs) (auto simp: filter_empty_conv)

text \<open>The loop finds the selected criterion as the only maximum exactly if it is.\<close>

lemma loop_unique_maximum:
  assumes l: "probabilities_loop sel ps (Fin (- 1), 0, Fin (- 1)) = (m', n', s')"
    and ps: "list_all (\<lambda>p. is_probability (cp_Probability p)) ps" "distinct (map cp_CriterionID ps)"
    and p: "p \<in> set ps" "cp_CriterionID p = sel"
  shows "s' = cp_Probability p"
    and "n' = 1 \<and> f_eq s' m' \<longleftrightarrow> (\<forall>p'\<in>set ps. cp_CriterionID p' \<noteq> sel \<longrightarrow> f_lt (cp_Probability p') (cp_Probability p))"
proof -
  show s: "s' = cp_Probability p" using loop_selected [OF l ps(2)] p by auto
  obtain q where q: "cp_Probability p = Fin q" "0 \<le> q" using ps(1) p(1) by (auto simp: list_all_iff elim: is_probabilityE)
  have only: "p' = p" if "p' \<in> set ps" "cp_CriterionID p' = sel" for p'
    using ps(2) p that by (metis inj_onD distinct_map)
  obtain b where b: "m' = Fin b" "\<forall>p\<in>set ps. f_le (cp_Probability p) (Fin b)"
    "b = - 1 \<or> (\<exists>p\<in>set ps. cp_Probability p = Fin b)" "n' = length (filter (\<lambda>p. cp_Probability p = Fin b) ps)"
    using loop_maximum [OF l ps(1) refl] by auto
  have qb: "q \<le> b" using b(2) p(1) q(1) by fastforce
  show "n' = 1 \<and> f_eq s' m' \<longleftrightarrow> (\<forall>p'\<in>set ps. cp_CriterionID p' \<noteq> sel \<longrightarrow> f_lt (cp_Probability p') (cp_Probability p))"
    (is "?unique \<longleftrightarrow> ?less")
  proof
    assume u: ?unique
    then have eq: "q = b" using s q(1) b(1) by simp
    show ?less
    proof (intro ballI impI)
      fix p' assume p': "p' \<in> set ps" "cp_CriterionID p' \<noteq> sel"
      then have "cp_Probability p' \<noteq> Fin b"
        using single_filter [of "\<lambda>p. cp_Probability p = Fin b" ps p p'] u b(4) p q eq by auto
      with b(2) p'(1) eq q(1) show "f_lt (cp_Probability p') (cp_Probability p)" by (auto simp: f_le_def f_eq_def)
    qed
  next
    assume less: ?less
    have "p' = p" if "p' \<in> set ps" "cp_Probability p' = Fin b" for p'
    proof (rule ccontr)
      assume "p' \<noteq> p"
      with only that(1) have "cp_CriterionID p' \<noteq> sel" by blast
      with less that q(1) qb show False by auto
    qed
    with b(3) qb q have eq: "b = q" by fastforce
    then have "filter (\<lambda>p. cp_Probability p = Fin b) ps = filter (\<lambda>p'. p' = p) ps"
      using \<open>\<And>p'. p' \<in> set ps \<Longrightarrow> cp_Probability p' = Fin b \<Longrightarrow> p' = p\<close> q(1) by (intro filter_cong refl) auto
    also have "\<dots> = [p]" using ps(2) p(1) by (intro filter_one) (auto simp: distinct_map)
    finally show ?unique using b(1,4) s q(1) eq by simp
  qed
qed

lemma acceptedRoute_accepts:
  assumes "ChoiceResult_validate r = Ok ()" and "validatePolicy policy = None"
  shows "acceptedRoute r routes policy =
    (if accepts policy r then (case routes (cr_selected r) of Some x \<Rightarrow> x | None \<Rightarrow> fallbackRoute) else fallbackRoute)"
proof -
  let ?ps = "cr_probabilities r"
  have ps: "list_all (\<lambda>p. is_probability (cp_Probability p)) ?ps" "distinct (map cp_CriterionID ?ps)"
    and conf: "is_probability (cr_confidence r)" "is_probability (cr_actionProbability r)"
    using assms(1) by (auto simp: ChoiceResult_validate_Ok_iff list_all_iff)
  obtain p where p: "p \<in> set ?ps" "cp_CriterionID p = cr_selected r"
    using assms(1) by (auto simp: ChoiceResult_validate_Ok_iff)
  have only: "p' = p" if "p' \<in> set ?ps" "cp_CriterionID p' = cr_selected r" for p'
    using ps(2) p that by (metis inj_onD distinct_map)
  obtain m' n' s' where l: "probabilities_loop (cr_selected r) ?ps (Fin (- 1), 0, Fin (- 1)) = (m', n', s')"
    by (metis prod_cases3)
  note u = loop_unique_maximum [OF l ps p]
  have unit: "is_probability v" if "\<not> out_of_unit v" for v
    using that by (cases v) (auto simp: out_of_unit_def isNaN_def isInf_def)
  have policy: "is_probability (ap_MinSelectedProbability policy)" "is_probability (ap_MinConfidence policy)"
    "is_probability (ap_MaxActionProbability policy)"
    using assms(2) by (auto simp: validatePolicy_def intro: unit split: if_splits)
  have not_less: "f_lt x y \<longleftrightarrow> \<not> f_le y x" if "is_probability x" "is_probability y" for x y
    using that by (auto elim!: is_probabilityE)
  have "accepts policy r \<longleftrightarrow> n' = 1 \<and> f_eq s' m' \<and> f_le (ap_MinSelectedProbability policy) s' \<and>
      f_le (ap_MinConfidence policy) (cr_confidence r) \<and> f_le (cr_actionProbability r) (ap_MaxActionProbability policy)"
    using u p only unfolding accepts_def by blast
  moreover have "is_probability s'" using u(1) ps(1) p(1) by (simp add: list_all_iff)
  ultimately show ?thesis using policy conf by (auto simp: acceptedRoute_def l not_less)
qed

subsection \<open>Edges\<close>

definition edge_routes :: "edge \<Rightarrow> string list" where
  "edge_routes e = (case ed_Route e of StringRoute r \<Rightarrow> [r] | MultiRoute rs \<Rightarrow> rs)"

text \<open>Exactly one edge has the route, and it leads to the target.\<close>

definition leads_to :: "edge list \<Rightarrow> string \<Rightarrow> nat \<Rightarrow> bool" where
  "leads_to es r t \<longleftrightarrow> (\<exists>e. filter (\<lambda>e. r \<in> set (edge_routes e)) es = [e] \<and> ed_To e = t)"

lemma branch_route_inject [simp]: "branch_route i = branch_route j \<longleftrightarrow> i = j"
  by (simp add: branch_route_def)

lemma branch_route_not_fallback [simp]: "branch_route i \<noteq> fallbackRoute" "fallbackRoute \<noteq> branch_route i"
  by (simp_all add: branch_route_def fallbackRoute_def)

lemma in_branches_of: "i \<in> set (branches_of bs t) \<longleftrightarrow> i < length bs \<and> br_Target (bs ! i) = Some t"
  by (auto simp: branches_of_def)

definition target_edge :: "routes_state \<Rightarrow> nat \<Rightarrow> edge" where
  "target_edge st t = \<lparr>ed_To = t, ed_Route = MultiRoute (case rs_targetRoutes st t of None \<Rightarrow> [] | Some rs \<Rightarrow> rs)\<rparr>"

lemma routing_edges_eq:
  "routing_edges st fallback = map (target_edge st) (rs_targetOrder st) @ [\<lparr>ed_To = fallback, ed_Route = StringRoute fallbackRoute\<rparr>]"
  by (simp add: routing_edges_def target_edge_def)

lemma target_edge_routes:
  "routes_ok nm bs st \<Longrightarrow> edge_routes (target_edge st t) = map branch_route (branches_of bs t)"
  by (simp add: routes_ok_def edge_routes_def target_edge_def)

lemma filter_map_one:
  "distinct xs \<Longrightarrow> x \<in> set xs \<Longrightarrow> (\<And>y. y \<in> set xs \<Longrightarrow> P (f y) \<longleftrightarrow> y = x) \<Longrightarrow> filter P (map f xs) = [f x]"
proof -
  assume d: "distinct xs" "x \<in> set xs" and P: "\<And>y. y \<in> set xs \<Longrightarrow> P (f y) \<longleftrightarrow> y = x"
  have "filter P (map f xs) = map f (filter (\<lambda>y. y = x) xs)"
    unfolding filter_map comp_def using P by (intro arg_cong [where f = "map f"] filter_cong) auto
  then show ?thesis by (simp add: filter_one [OF d])
qed

lemma branch_leads_to:
  assumes ok: "routes_ok nm bs st" and i: "i < length bs" "br_Target (bs ! i) = Some t"
  shows "leads_to (routing_edges st fallback) (branch_route i) t"
proof -
  have "t \<in> set (rs_targetOrder st)"
    using ok i in_branches_of [of i bs t] by (force simp: routes_ok_def dom_def)
  moreover have "branch_route i \<in> set (edge_routes (target_edge st u)) \<longleftrightarrow> u = t" for u
    using i by (auto simp: target_edge_routes [OF ok] in_branches_of)
  ultimately have "filter (\<lambda>e. branch_route i \<in> set (edge_routes e)) (map (target_edge st) (rs_targetOrder st)) = [target_edge st t]"
    using ok by (intro filter_map_one) (auto simp: routes_ok_def)
  moreover have "branch_route i \<notin> set (edge_routes \<lparr>ed_To = fallback, ed_Route = StringRoute fallbackRoute\<rparr>)"
    by (simp add: edge_routes_def)
  ultimately have "filter (\<lambda>e. branch_route i \<in> set (edge_routes e)) (routing_edges st fallback) = [target_edge st t]"
    unfolding routing_edges_eq filter_append by simp
  then show ?thesis by (simp add: leads_to_def target_edge_def)
qed

lemma fallback_leads_to:
  assumes "routes_ok nm bs st"
  shows "leads_to (routing_edges st fallback) fallbackRoute fallback"
proof -
  have "filter (\<lambda>e. fallbackRoute \<in> set (edge_routes e)) (map (target_edge st) (rs_targetOrder st)) = []"
    by (auto simp: filter_empty_conv target_edge_routes [OF assms])
  then show ?thesis unfolding routing_edges_eq leads_to_def by (simp add: edge_routes_def)
qed

definition routing_built ::
  "(nat \<Rightarrow> string) \<Rightarrow> 'i ChoiceRoutingConfig \<Rightarrow> 'r store \<Rightarrow> 'i ChoiceRouting res \<times> 'r store \<Rightarrow> bool" where
  "routing_built nm cfg s out \<longleftrightarrow>
     (case out of
        (Ok routing, s') \<Rightarrow>
          distinct (map crit_ID (concat (map br_Criteria (rc_Branches cfg)))) \<and>
          distinct (map (\<lambda>e. nm (ed_To e)) (cr_edges routing)) \<and> list_all (\<lambda>e. name_ok (nm (ed_To e))) (cr_edges routing) \<and>
          (\<forall>i<length (rc_Branches cfg). \<exists>t. br_Target (rc_Branches cfg ! i) = Some t \<and>
             leads_to (cr_edges routing) (branch_route i) t) \<and>
          (\<exists>t. rc_Fallback cfg = Some t \<and> leads_to (cr_edges routing) fallbackRoute t)
      | (Err e, s') \<Rightarrow> s' = s \<and> (errors_is e ErrInvalidConfig \<or> errors_is e ErrInvalidRequest)
      | (Panic, s') \<Rightarrow> False)"

lemma criteria_routes_error: "criteria_routes r cs st = Inl e \<Longrightarrow> errors_is e ErrInvalidConfig"
  by (induction r cs st rule: criteria_routes.induct) (auto simp: invalidConfig_def split: if_splits)

lemma validateTarget_error: "validateTarget nm t names = Inl e \<Longrightarrow> errors_is e ErrInvalidConfig"
  by (auto simp: validateTarget_def invalidConfig_def split: if_splits option.splits)

lemma branches_loop_error: "branches_loop nm i bs st = Inl e \<Longrightarrow> errors_is e ErrInvalidConfig"
  by (induction nm i bs st rule: branches_loop.induct)
    (auto simp: invalidConfig_def dest: criteria_routes_error validateTarget_error split: option.splits if_splits sum.splits)

lemma edges_distinct:
  assumes ok: "routes_ok nm bs st" and f: "rs_targetRoutes st fallback = None"
    and v: "validateTarget nm fallback (rs_targetNames st) = Inr names"
  shows "distinct (map (\<lambda>e. nm (ed_To e)) (routing_edges st fallback))"
    and "list_all (\<lambda>e. name_ok (nm (ed_To e))) (routing_edges st fallback)"
proof -
  note n = validateTarget_Inr [OF v]
  have named: "rs_targetNames st (nm t) = Some t" "name_ok (nm t)" "t \<noteq> fallback" if "t \<in> set (rs_targetOrder st)" for t
    using ok f that by (auto simp: routes_ok_def names_ok_def)
  have "inj_on nm (set (rs_targetOrder st))"
    using named(1) by (metis inj_onI option.inject)
  moreover have "nm fallback \<noteq> nm t" if "t \<in> set (rs_targetOrder st)" for t
    using named [OF that] n by auto
  moreover have "distinct (rs_targetOrder st)" using ok by (simp add: routes_ok_def)
  ultimately show "distinct (map (\<lambda>e. nm (ed_To e)) (routing_edges st fallback))"
    by (auto simp: routing_edges_def distinct_map comp_def)
  show "list_all (\<lambda>e. name_ok (nm (ed_To e))) (routing_edges st fallback)"
    using named(2) n by (auto simp: routing_edges_def list_all_iff)
qed

lemma NewChoiceQuestion_outcomes:
  "NewChoiceQuestion i t cs = Ok q \<Longrightarrow> cq_criteria q = cs"
  "NewChoiceQuestion i t cs = Err e \<Longrightarrow> errors_is e ErrInvalidRequest"
  "NewChoiceQuestion i t cs \<noteq> Panic"
  by (auto simp: NewChoiceQuestion_def Let_def check_then_def ChoiceQuestion_validate_def
      dest: header_error criteria_loop_error split: option.splits if_splits)

lemma build_routing_cases:
  assumes "build_routing nm cfg project policy fallback predict s = (out, s')"
  shows "(\<exists>st names question routing. out = Ok routing \<and> routes_ok nm (rc_Branches cfg) st \<and> rs_targetRoutes st fallback = None \<and>
        validateTarget nm fallback (rs_targetNames st) = Inr names \<and> cq_criteria question = rs_criteria st \<and>
        cr_edges routing = routing_edges st fallback \<and>
        fn_run (cr_node routing) = routing_fn project predict question (rs_criterionRoute st) policy) \<or>
    (\<exists>e. out = Err e \<and> s' = s \<and> (errors_is e ErrInvalidConfig \<or> errors_is e ErrInvalidRequest))"
proof (cases "branches_loop nm 0 (rc_Branches cfg) no_routes")
  case (Inl e)
  with assms branches_loop_error [OF Inl] show ?thesis by (auto simp: build_routing_def)
next
  case (Inr st)
  note ok = branches_ok [OF Inr]
  show ?thesis
  proof (cases "rs_targetRoutes st fallback")
    case None
    show ?thesis
    proof (cases "validateTarget nm fallback (rs_targetNames st)")
      case (Inl e)
      with assms Inr None validateTarget_error [OF Inl] show ?thesis by (auto simp: build_routing_def)
    next
      case v: (Inr names)
      show ?thesis
      proof (cases "NewChoiceQuestion (rc_QuestionID cfg) (rc_Instructions cfg) (rs_criteria st)")
        case (Ok q)
        note q = NewChoiceQuestion_outcomes(1) [OF Ok]
        show ?thesis
          by (rule disjI1, rule exI [of _ st], rule exI [of _ names], rule exI [of _ q])
            (use assms Inr None v ok q Ok in \<open>auto simp: build_routing_def split: prod.splits\<close>)
      next
        case (Err e)
        with assms Inr None v NewChoiceQuestion_outcomes(2) [OF Err] show ?thesis by (auto simp: build_routing_def)
      qed (simp add: NewChoiceQuestion_outcomes(3))
    qed
  next
    case (Some rs)
    with assms Inr show ?thesis by (auto simp: build_routing_def invalidConfig_def)
  qed
qed

lemma newChoiceRouting_cases:
  assumes "newChoiceRouting nm cfg predict s = (out, s')"
  shows "(\<exists>project policy fallback. rc_ProjectState cfg = Some project \<and> rc_Policy cfg = Some policy \<and>
        validatePolicy policy = None \<and> rc_Fallback cfg = Some fallback \<and>
        build_routing nm cfg project policy fallback predict s = (out, s')) \<or>
    (\<exists>e. out = Err e \<and> s' = s \<and> errors_is e ErrInvalidConfig)"
  using assms
  by (auto simp: newChoiceRouting_def invalidConfig_def validateNodeOptions_def split: option.splits if_splits)

text \<open>
  C31: What \<open>newChoiceRouting\<close> builds, for every configuration. It never panics, and fails only
  with the two documented categories. On success no criterion is in two branches, the targets
  of the edges have usable, pairwise different names, the route of every branch is on exactly
  one edge, which leads to the target of the branch, and the fallback route is on exactly one
  edge, which leads to the fallback.
\<close>

theorem routing_edges_deterministic: "routing_built nm cfg s (newChoiceRouting nm cfg predict s)"
proof -
  obtain out s' where n: "newChoiceRouting nm cfg predict s = (out, s')" by fastforce
  from newChoiceRouting_cases [OF n] show ?thesis
  proof (elim disjE exE conjE)
    fix project policy fallback
    assume f: "rc_Fallback cfg = Some fallback" and b: "build_routing nm cfg project policy fallback predict s = (out, s')"
    from build_routing_cases [OF b] show ?thesis
    proof (elim disjE exE conjE)
      fix st names question routing
      assume o: "out = Ok routing" and ok: "routes_ok nm (rc_Branches cfg) st" and free: "rs_targetRoutes st fallback = None"
        and v: "validateTarget nm fallback (rs_targetNames st) = Inr names" and es: "cr_edges routing = routing_edges st fallback"
      have "\<exists>t. br_Target (rc_Branches cfg ! i) = Some t \<and> leads_to (cr_edges routing) (branch_route i) t"
        if i: "i < length (rc_Branches cfg)" for i
      proof -
        obtain t where t: "br_Target (rc_Branches cfg ! i) = Some t"
          using ok i by (auto simp: routes_ok_def list_all_length)
        with branch_leads_to [OF ok i t] es show ?thesis by auto
      qed
      moreover have "distinct (map crit_ID (concat (map br_Criteria (rc_Branches cfg))))"
        using ok unfolding routes_ok_def by metis
      ultimately show ?thesis
        using edges_distinct [OF ok free v] fallback_leads_to [OF ok, of fallback] f
        by (simp add: n o routing_built_def es)
    qed (simp_all add: n routing_built_def)
  qed (simp add: n routing_built_def)
qed

text \<open>What a routing node emits for a result: the input, and one route, which leads where the policy says.\<close>

definition routed ::
  "'i ChoiceRoutingConfig \<Rightarrow> edge list \<Rightarrow> 'i \<Rightarrow> 'i event \<Rightarrow> ChoiceResult \<Rightarrow> bool" where
  "routed cfg es input ev r \<longleftrightarrow>
     ev_Output ev = input \<and>
     (\<exists>x t. ev_Routes ev = [x] \<and> leads_to es x t \<and>
        (if accepts (the (rc_Policy cfg)) r
         then (\<exists>b\<in>set (rc_Branches cfg). cr_selected r \<in> branch_criteria b \<and> br_Target b = Some t)
         else rc_Fallback cfg = Some t))"

lemma accepted_routed:
  assumes ok: "routes_ok nm (rc_Branches cfg) st" and policy: "rc_Policy cfg = Some policy" "validatePolicy policy = None"
    and f: "rc_Fallback cfg = Some fallback" and r: "answers_choice q r" "cq_criteria q = rs_criteria st"
  shows "routed cfg (routing_edges st fallback) input
    \<lparr>ev_Output = input, ev_Routes = [acceptedRoute r (rs_criterionRoute st) policy]\<rparr> r"
proof -
  let ?bs = "rc_Branches cfg"
  have v: "ChoiceResult_validate r = Ok ()" and sel: "cr_selected r \<in> crit_ID ` set (rs_criteria st)"
    using r by (auto simp: answers_choice_def)
  then obtain x where x: "rs_criterionRoute st (cr_selected r) = Some x"
    using criterion_dom [OF ok] by blast
  with ok obtain i where i: "i < length ?bs" "x = branch_route i" "cr_selected r \<in> branch_criteria (?bs ! i)"
    by (auto simp: routes_ok_def)
  obtain t where t: "br_Target (?bs ! i) = Some t" using ok i(1) by (auto simp: routes_ok_def list_all_length)
  note route = acceptedRoute_accepts [OF v policy(2), of "rs_criterionRoute st"]
  show ?thesis
  proof (cases "accepts policy r")
    case True
    then have "acceptedRoute r (rs_criterionRoute st) policy = branch_route i" using route x i(2) by simp
    then show ?thesis
      using True policy(1) i t branch_leads_to [OF ok i(1) t, of fallback] by (auto simp: routed_def intro!: bexI [of _ "?bs ! i"])
  next
    case False
    then show ?thesis using route policy(1) f fallback_leads_to [OF ok, of fallback] by (simp add: routed_def)
  qed
qed

text \<open>
  C32: A routing over a model follows its policy. Whatever the context, the input and the engine
  do, an event of the routing node carries the input unchanged and a single route, the route
  is on exactly one edge, and that edge leads to the target of the branch that lists the
  selected criterion if the model's answer to the question of the routing is accepted (the
  selected criterion is the only most probable one and no threshold is violated), and to the
  fallback otherwise. The node panics only if the projector or the engine does.
\<close>

theorem choice_routing_follows_policy:
  assumes "newChoiceRouting nm cfg (\<lambda>state qs. fst (Model_Predict c state qs acq engine)) s = (Ok routing, s')"
  shows "\<exists>q. cq_criteria q = concat (map br_Criteria (rc_Branches cfg)) \<and>
    (case fn_run (cr_node routing) ctx input of
       Ok ev \<Rightarrow> \<exists>r. answers_choice q r \<and> routed cfg (cr_edges routing) input ev r
     | Err e \<Rightarrow> True
     | Panic \<Rightarrow> (\<exists>f. rc_ProjectState cfg = Some f \<and> f input = Panic) \<or> (\<exists>state. engine state [ChoiceQ q] = Panic))"
proof -
  let ?predict = "\<lambda>state qs. fst (Model_Predict c state qs acq engine)"
  obtain project policy fallback where p: "rc_ProjectState cfg = Some project" "rc_Policy cfg = Some policy"
    "validatePolicy policy = None" "rc_Fallback cfg = Some fallback"
    and b: "build_routing nm cfg project policy fallback ?predict s = (Ok routing, s')"
    using newChoiceRouting_cases [OF assms] by auto
  obtain st q where ok: "routes_ok nm (rc_Branches cfg) st" and q: "cq_criteria q = rs_criteria st"
    and es: "cr_edges routing = routing_edges st fallback"
    and run: "fn_run (cr_node routing) = routing_fn project ?predict q (rs_criterionRoute st) policy"
    using build_routing_cases [OF b] by auto
  have "cq_criteria q = concat (map br_Criteria (rc_Branches cfg))" using ok q by (simp add: routes_ok_def)
  moreover have "case fn_run (cr_node routing) ctx input of
       Ok ev \<Rightarrow> \<exists>r. answers_choice q r \<and> routed cfg (cr_edges routing) input ev r
     | Err e \<Rightarrow> True
     | Panic \<Rightarrow> (\<exists>f. Some project = Some f \<and> f input = Panic) \<or> (\<exists>state. engine state [ChoiceQ q] = Panic)"
  proof (cases "\<exists>state p. project input = Ok state \<and> ?predict state [ChoiceQ q] = Ok p")
    case True
    then obtain state pr where s: "project input = Ok state" and m: "?predict state [ChoiceQ q] = Ok pr" by blast
    obtain x where x: "first_result pr = Ok x" "answers (ChoiceQ q) x" using m by (rule single_answer)
    show ?thesis
    proof (cases x)
      case (ChoiceR r)
      then have r: "answers_choice q r" using x(2) by (simp add: answers_def deref_def choiceResult_def)
      note accepted_routed [OF ok p(2,3,4) r q, where input = input]
      with s m x(1) ChoiceR r es show ?thesis
        by (cases "ctx 0"; cases "ctx 1"; cases "ctx 2") (auto simp: run routing_fn_def)
    qed (cases "ctx 0"; cases "ctx 1"; cases "ctx 2"; use s m x(1) in \<open>simp add: run routing_fn_def\<close>)+
  next
    case False
    have panic: "engine state [ChoiceQ q] = Panic" if "?predict state [ChoiceQ q] = Panic" for state
      using that by (rule predict_Panic)
    show ?thesis
    proof (cases "project input")
      case (Ok state)
      with False panic [of state] show ?thesis
        by (cases "ctx 0"; cases "ctx 1"; cases "?predict state [ChoiceQ q]") (auto simp: run routing_fn_def)
    qed (cases "ctx 0"; simp add: run routing_fn_def)+
  qed
  ultimately show ?thesis unfolding p(1) by (intro exI [of _ q] conjI)
qed

definition sample_criterion :: "string \<Rightarrow> ChoiceCriterion" where
  "sample_criterion i = \<lparr>crit_ID = i, crit_Description = i\<rparr>"

definition sample_routing :: "string ChoiceRoutingConfig" where
  "sample_routing =
     \<lparr>rc_Options = \<lparr>no_Name = ''route'', no_Config = \<lparr>nc_RerunOnResume = None, nc_WaitForOutput = None, nc_RetryConfig = None\<rparr>\<rparr>,
      rc_QuestionID = ''q'', rc_Instructions = ''which?'', rc_ProjectState = Some (\<lambda>input. Ok (TextState input)),
      rc_Branches = [\<lparr>br_Criteria = [sample_criterion ''a''], br_Target = Some 1\<rparr>,
                     \<lparr>br_Criteria = [sample_criterion ''b''], br_Target = Some 2\<rparr>],
      rc_Fallback = Some 3,
      rc_Policy = Some \<lparr>ap_MinSelectedProbability = Fin (1/2), ap_MinConfidence = Fin 0, ap_MaxActionProbability = Fin 1\<rparr>\<rparr>"

definition sample_choice_prediction :: Prediction where
  "sample_choice_prediction = sample_prediction\<lparr>pr_results :=
     [ChoiceR \<lparr>cr_questionID = ''q'', cr_selected = ''b'',
        cr_probabilities = [\<lparr>cp_CriterionID = ''a'', cp_Probability = Fin (1/4)\<rparr>, \<lparr>cp_CriterionID = ''b'', cp_Probability = Fin (3/4)\<rparr>],
        cr_confidence = Fin (1/2), cr_actionProbability = Fin 0\<rparr>]\<rparr>"

definition sample_names :: "nat \<Rightarrow> string" where
  "sample_names t = ''node'' @ show_nat t"

definition sample_routing_run :: "string ChoiceRouting res \<times> unit store" where
  "sample_routing_run = newChoiceRouting sample_names sample_routing
     (\<lambda>state qs. fst (Model_Predict (Ctx None) state qs None (\<lambda>s q. Ok sample_choice_prediction))) []"

lemma sample_names_ok: "trim_space (sample_names t) \<noteq> []" "trim_space ''route'' \<noteq> []"
proof -
  have digit: "visible (last (show_nat t))"
  proof -
    have "t mod 10 < 80" by (rule less_trans [of _ 10]) simp_all
    then show ?thesis by (subst show_nat.simps) (simp add: visible_def take_bit_nat_def)
  qed
  have "trim_space (sample_names t) = sample_names t"
    using digit by (intro trim_space_visible) (simp_all add: sample_names_def visible_def)
  moreover have "trim_space ''route'' = ''route''" by (intro trim_space_visible) (simp_all add: visible_def)
  ultimately show "trim_space (sample_names t) \<noteq> []" "trim_space ''route'' \<noteq> []" by (simp_all add: sample_names_def)
qed

lemma sample_choice_predicted:
  "NewChoiceQuestion ''q'' ''which?'' [sample_criterion ''a'', sample_criterion ''b''] = Ok q \<Longrightarrow>
   fst (Model_Predict (Ctx None) (TextState ''hello'') [ChoiceQ q] None (\<lambda>s q. Ok sample_choice_prediction)) =
     Ok sample_choice_prediction"
proof -
  assume "NewChoiceQuestion ''q'' ''which?'' [sample_criterion ''a'', sample_criterion ''b''] = Ok q"
  then have "q = \<lparr>cq_id = ''q'', cq_instructions = ''which?'', cq_criteria = [sample_criterion ''a'', sample_criterion ''b'']\<rparr>"
    by (auto simp: NewChoiceQuestion_def Let_def check_then_Ok_iff)
  moreover have "fst (Model_Predict (Ctx None) (TextState ''hello'')
      [ChoiceQ \<lparr>cq_id = ''q'', cq_instructions = ''which?'', cq_criteria = [sample_criterion ''a'', sample_criterion ''b'']\<rparr>]
      None (\<lambda>s q. Ok sample_choice_prediction)) = Ok sample_choice_prediction"
    by code_simp
  ultimately show ?thesis by simp
qed

lemma sample_routing_run_Ok:
  obtains routing s' where "sample_routing_run = (Ok routing, s')"
    and "fn_run (cr_node routing) (\<lambda>n. None) ''hello'' = Ok \<lparr>ev_Output = ''hello'', ev_Routes = [''laya.branch.1'']\<rparr>"
proof -
  let ?predict = "\<lambda>state qs. fst (Model_Predict (Ctx None) state qs None (\<lambda>s q. Ok sample_choice_prediction))"
  let ?p = "\<lparr>ap_MinSelectedProbability = Fin (1/2), ap_MinConfidence = Fin 0, ap_MaxActionProbability = Fin 1\<rparr>"
  let ?q = "\<lparr>cq_id = ''q'', cq_instructions = ''which?'', cq_criteria = [sample_criterion ''a'', sample_criterion ''b'']\<rparr>"
  have names: "sample_names t \<noteq> ''user''" "sample_names t = sample_names u \<longleftrightarrow> t = u" for t u
    by (simp_all add: sample_names_def)
  obtain st where st: "branches_loop sample_names 0 (rc_Branches sample_routing) no_routes = Inr st"
    and r: "rs_criterionRoute st = [''a'' \<mapsto> branch_route 0, ''b'' \<mapsto> branch_route 1]"
      "rs_targetRoutes st 3 = None" "rs_criteria st = [sample_criterion ''a'', sample_criterion ''b'']"
      "rs_targetNames st = [sample_names 1 \<mapsto> 1, sample_names 2 \<mapsto> 2]"
    by (simp add: sample_routing_def sample_criterion_def validateTarget_def sample_names_ok names add_target_def no_routes_def)
  have v: "validateTarget sample_names 3 (rs_targetNames st) = Inr [sample_names 1 \<mapsto> 1, sample_names 2 \<mapsto> 2, sample_names 3 \<mapsto> 3]"
    by (simp add: validateTarget_def sample_names_ok names r(4))
  have q: "NewChoiceQuestion ''q'' ''which?'' (rs_criteria st) = Ok ?q"
    by (simp add: r(3)) code_simp
  have build: "build_routing sample_names sample_routing (\<lambda>input. Ok (TextState input)) ?p 3 ?predict [] =
    (Ok \<lparr>cr_node = \<lparr>fn_name = ''route'', fn_run = routing_fn (\<lambda>input. Ok (TextState input)) ?predict ?q (rs_criterionRoute st) ?p,
          fn_config = \<lparr>nc_RerunOnResume = None, nc_WaitForOutput = None, nc_RetryConfig = None\<rparr>\<rparr>,
        cr_edges = routing_edges st 3\<rparr>, [])"
    using st v q r(2) by (simp add: build_routing_def sample_routing_def cloneNodeConfig_def clone_pointer_def)
  have route: "acceptedRoute r' (rs_criterionRoute st) ?p = ''laya.branch.1''"
    if "pr_results sample_choice_prediction = [ChoiceR r']" for r'
  proof -
    have "branch_route 1 = ''laya.branch.1''" by code_simp
    then show ?thesis using that by (auto simp: sample_choice_prediction_def acceptedRoute_def r(1))
  qed
  have run: "sample_routing_run = build_routing sample_names sample_routing (\<lambda>input. Ok (TextState input)) ?p 3 ?predict []"
    by (simp add: sample_routing_run_def newChoiceRouting_def sample_routing_def validateNodeOptions_def
        sample_names_ok validatePolicy_def out_of_unit_def isNaN_def isInf_def)
  have "fst (Model_Predict (Ctx None) (TextState ''hello'') [ChoiceQ ?q] None (\<lambda>s q. Ok sample_choice_prediction)) =
      Ok sample_choice_prediction"
    using q r(3) by (intro sample_choice_predicted) simp
  then have "routing_fn (\<lambda>input. Ok (TextState input)) ?predict ?q (rs_criterionRoute st) ?p (\<lambda>n. None) ''hello'' =
      Ok \<lparr>ev_Output = ''hello'', ev_Routes = [''laya.branch.1'']\<rparr>"
    using route by (simp add: routing_fn_def first_result_def) (simp add: sample_choice_prediction_def)
  then show thesis by (intro that [OF trans [OF run build]]) simp
qed

theorem choice_routing_follows_policy_witness:
  "case sample_routing_run of
     (Ok routing, s') \<Rightarrow> (case fn_run (cr_node routing) (\<lambda>n. None) ''hello'' of
        Ok ev \<Rightarrow> ev_Routes ev = [''laya.branch.1''] \<and> (\<exists>r. routed sample_routing (cr_edges routing) ''hello'' ev r) | _ \<Rightarrow> False)
   | _ \<Rightarrow> False"
proof -
  obtain routing s' where r: "sample_routing_run = (Ok routing, s')"
    and ev: "fn_run (cr_node routing) (\<lambda>n. None) ''hello'' = Ok \<lparr>ev_Output = ''hello'', ev_Routes = [''laya.branch.1'']\<rparr>"
    by (rule sample_routing_run_Ok)
  from choice_routing_follows_policy [OF r [unfolded sample_routing_run_def], where ctx = "\<lambda>n. None" and input = "''hello''"] ev
  have "\<exists>x. routed sample_routing (cr_edges routing) ''hello'' \<lparr>ev_Output = ''hello'', ev_Routes = [''laya.branch.1'']\<rparr> x" by auto
  then show ?thesis unfolding r prod.case res.case ev by simp
qed

end
