(* ===== verification/Laya_AdkExample.thy ===== *)
theory Laya_AdkExample
  imports Laya_Examples Laya_AdkRouting
begin

text \<open>
  \<open>examples/adk/adk.go\<close>: a data graph and a routing graph over one model. The workflow runner is
  not part of the repository: what it answers for a graph and an input (the errors of its
  constructors, then the events or an error, in order) is an argument.
\<close>

subsection \<open>Runs of a graph\<close>

text \<open>The dynamic type of an event's output, as far as the program asks for it.\<close>

datatype adk_output = PredictionValue PredictionOutput | TextValue string | OtherValue

record run_replies =
  rr_agent :: "go_error option"
  rr_runner :: "go_error option"
  rr_session :: "go_error option"
  rr_events :: "(go_error + adk_output) list"

fun collect_events :: "(go_error + adk_output) list \<Rightarrow> adk_output list res" where
  "collect_events [] = Ok []"
| "collect_events (Inl e # evs) = Err e"
| "collect_events (Inr v # evs) = res_bind (collect_events evs) (\<lambda>vs. Ok (v # vs))"

definition adk_run :: "run_replies \<Rightarrow> adk_output list res" where
  "adk_run r = check_then (rr_agent r) (check_then (rr_runner r) (check_then (rr_session r) (collect_events (rr_events r))))"

subsection \<open>Run\<close>

record AdkReport =
  ar_Results :: nat
  ar_Route :: string
  ar_BundleID :: string

definition zero_PredictionOutput :: PredictionOutput where
  "zero_PredictionOutput = \<lparr>po_Results = [], po_Usage = \<lparr>InputTokens = 0, OutputTokens = 0\<rparr>,
     po_Metadata = \<lparr>pm_ModelID = '''', pm_BundleID = '''', pm_RuntimeID = '''',
       pm_Truncation = \<lparr>Truncated = False, OriginalInputTokens = 0, EffectiveInputTokens = 0\<rparr>\<rparr>\<rparr>"

text \<open>The loops that keep the last value of a kind.\<close>

definition last_prediction :: "adk_output list \<Rightarrow> PredictionOutput" where
  "last_prediction vs = fold (\<lambda>v p. case v of PredictionValue q \<Rightarrow> q | _ \<Rightarrow> p) vs zero_PredictionOutput"

definition last_terminal :: "adk_output list \<Rightarrow> string" where
  "last_terminal vs =
     fold (\<lambda>v s. case v of TextValue t \<Rightarrow> (if t = ''accepted'' \<or> t = ''fallback'' then t else s) | _ \<Rightarrow> s) vs ''''"

definition zero_NodeConfig :: NodeConfig where
  "zero_NodeConfig = \<lparr>nc_RerunOnResume = None, nc_WaitForOutput = None, nc_RetryConfig = None\<rparr>"

definition project_text :: "string projector" where
  "project_text value = Ok (TextState value)"

text \<open>\<open>terminal("accepted")\<close> is node 0 and \<open>terminal("fallback")\<close> node 1; a terminal answers its name.\<close>

definition terminal_name :: "nat \<Rightarrow> string" where
  "terminal_name t = (if t = 0 then ''accepted'' else ''fallback'')"

definition data_graph :: "engine \<Rightarrow> Question list \<Rightarrow> 'r store \<Rightarrow> (string, PredictionOutput) FunctionNode res \<times> 'r store" where
  "data_graph predict questions s =
     NewPredictionNode (Some predict) (Some project_text) questions \<lparr>no_Name = ''laya_data'', no_Config = zero_NodeConfig\<rparr> s"

definition routing_config :: "ChoiceQuestion \<Rightarrow> AcceptancePolicy \<Rightarrow> string ChoiceRoutingConfig" where
  "routing_config choice policy =
     \<lparr>rc_Options = \<lparr>no_Name = ''laya_route'', no_Config = zero_NodeConfig\<rparr>,
      rc_QuestionID = cq_id choice, rc_Instructions = cq_instructions choice, rc_ProjectState = Some project_text,
      rc_Branches = [\<lparr>br_Criteria = cq_criteria choice, br_Target = Some 0\<rparr>], rc_Fallback = Some 1, rc_Policy = Some policy\<rparr>"

definition routing_graph ::
  "engine \<Rightarrow> ChoiceQuestion \<Rightarrow> AcceptancePolicy \<Rightarrow> 'r store \<Rightarrow> string ChoiceRouting res \<times> 'r store" where
  "routing_graph predict choice policy s =
     NewChoiceRouting terminal_name (Some predict) (routing_config choice policy) s"

text \<open>The second half, from the answered prediction.\<close>

definition route_and_report ::
  "engine \<Rightarrow> ChoiceQuestion \<Rightarrow> PredictionOutput \<Rightarrow> string \<Rightarrow> AcceptancePolicy \<Rightarrow> (AdkReport \<Rightarrow> go_error option)
   \<Rightarrow> (string ChoiceRouting \<Rightarrow> string \<Rightarrow> run_replies) \<Rightarrow> 'r store \<Rightarrow> unit res \<times> AdkReport option" where
  "route_and_report predict choice prediction input policy encode route_runner s =
     (case res_wrap ''create ADK routing node'' (fst (routing_graph predict choice policy s)) of
        Err e \<Rightarrow> (Err e, None) | Panic \<Rightarrow> (Panic, None)
      | Ok routing \<Rightarrow>
     (case res_wrap ''run ADK routing graph'' (adk_run (route_runner routing input)) of
        Err e \<Rightarrow> (Err e, None) | Panic \<Rightarrow> (Panic, None)
      | Ok events \<Rightarrow>
          (let selected = last_terminal events
           in if selected = '''' then (Err (wrap ErrInvalidOutput ''ADK routing graph: successor did not run''), None)
              else (let report = \<lparr>ar_Results = length (po_Results prediction), ar_Route = selected,
                                  ar_BundleID = pm_BundleID (po_Metadata prediction)\<rparr>
                    in (case encode report of
                          Some e \<Rightarrow> (Err (Errorf ''encode ADK example report'' [e]), Some report)
                        | None \<Rightarrow> (Ok (), Some report))))))"

definition adk_Run ::
  "engine option \<Rightarrow> string \<Rightarrow> AcceptancePolicy \<Rightarrow> (AdkReport \<Rightarrow> go_error option) option
   \<Rightarrow> ((string, PredictionOutput) FunctionNode \<Rightarrow> string \<Rightarrow> run_replies)
   \<Rightarrow> (string ChoiceRouting \<Rightarrow> string \<Rightarrow> run_replies) \<Rightarrow> 'r store \<Rightarrow> unit res \<times> AdkReport option" where
  "adk_Run model input policy output data_runner route_runner s =
     (case (model, output) of
        (Some predict, Some encode) \<Rightarrow>
          (case Questions of
             Err e \<Rightarrow> (Err e, None) | Panic \<Rightarrow> (Panic, None)
           | Ok questions \<Rightarrow>
          (case data_graph predict questions s of
             (node, s') \<Rightarrow>
          (case res_wrap ''create ADK data node'' node of
             Err e \<Rightarrow> (Err e, None) | Panic \<Rightarrow> (Panic, None)
           | Ok data \<Rightarrow>
          (case res_wrap ''run ADK data graph'' (adk_run (data_runner data input)) of
             Err e \<Rightarrow> (Err e, None) | Panic \<Rightarrow> (Panic, None)
           | Ok events \<Rightarrow>
               (let prediction = last_prediction events
                in if length (po_Results prediction) \<noteq> length questions
                   then (Err (wrap ErrInvalidOutput ''ADK data graph: missing prediction output''), None)
                   else (case questions of
                           ChoiceQ choice # rest \<Rightarrow> route_and_report predict choice prediction input policy encode route_runner s'
                         | _ \<Rightarrow> (Panic, None)))))))
      | _ \<Rightarrow> (Err (wrap ErrInvalidConfig ''run ADK example: model and output are required''), None))"

subsection \<open>The graphs of the example are accepted\<close>

lemma example_names_ok:
  "trim_space ''laya_data'' = ''laya_data''" "trim_space ''laya_route'' = ''laya_route''"
  "trim_space ''accepted'' = ''accepted''" "trim_space ''fallback'' = ''fallback''"
  by (intro trim_space_visible; simp add: visible_def)+

lemma clone_zero [simp]: "cloneNodeConfig zero_NodeConfig s = (zero_NodeConfig, s)"
  by (simp add: cloneNodeConfig_def clone_pointer_def zero_NodeConfig_def)

lemma data_graph_accepted:
  "data_graph predict example_questions s =
     (Ok \<lparr>fn_name = ''laya_data'', fn_run = data_fn project_text (prediction_run predict example_questions),
          fn_config = zero_NodeConfig\<rparr>, s)"
  by (simp add: data_graph_def NewPredictionNode_def newPredictionNode_def newDataNode_def validateNodeOptions_def
      example_names_ok)

lemma example_choice_made:
  "NewChoiceQuestion ''route'' ''Choose a route'' (cq_criteria example_choice) = Ok example_choice"
  by code_simp

text \<open>
  The routing graph of the example is refused only for its policy; otherwise it has two edges,
  to the accepting terminal under the one branch and to the other under the fallback route.
\<close>

theorem routing_graph_accepted:
  "case routing_graph predict example_choice policy s of
     (Ok routing, s') \<Rightarrow> validatePolicy policy = None \<and> s' = s \<and>
       cr_edges routing = [\<lparr>ed_To = 0, ed_Route = MultiRoute [branch_route 0]\<rparr>,
         \<lparr>ed_To = 1, ed_Route = StringRoute fallbackRoute\<rparr>]
   | (Err e, s') \<Rightarrow> validatePolicy policy \<noteq> None \<and> errors_is e ErrInvalidConfig
   | (Panic, s') \<Rightarrow> False"
proof (cases "validatePolicy policy")
  case (Some e)
  then show ?thesis
    by (simp add: routing_graph_def NewChoiceRouting_def newChoiceRouting_def routing_config_def validateNodeOptions_def
        example_names_ok invalidConfig_def)
next
  case None
  have question: "cq_id example_choice = ''route''" "cq_instructions example_choice = ''Choose a route''"
    by (simp_all add: example_choice_def)
  obtain a b where criteria: "cq_criteria example_choice = [a, b]" "crit_ID b \<noteq> crit_ID a"
    by (simp add: example_choice_def)
  from None show ?thesis
    by (simp add: routing_graph_def NewChoiceRouting_def newChoiceRouting_def routing_config_def validateNodeOptions_def
        example_names_ok build_routing_def no_routes_def validateTarget_def terminal_name_def add_target_def criteria
        question example_choice_made [unfolded criteria] routing_edges_def)
qed

subsection \<open>What the example reports\<close>

lemma collect_events_no_panic: "collect_events evs \<noteq> Panic"
  by (induction evs rule: collect_events.induct) (simp_all add: res_bind_Panic_iff)

lemma adk_run_no_panic: "adk_run r \<noteq> Panic"
  by (simp add: adk_run_def check_then_Panic_iff collect_events_no_panic)

lemma last_terminal_value: "last_terminal vs \<in> {'''', ''accepted'', ''fallback''}"
proof (induction vs rule: rev_induct)
  case (snoc v vs)
  then show ?case by (cases v) (auto simp: last_terminal_def)
qed (simp add: last_terminal_def)

lemma route_and_report_outcomes:
  assumes "route_and_report predict example_choice prediction input policy encode route_runner s = (out, report)"
  shows "out \<noteq> Panic \<and> (case report of None \<Rightarrow> \<not> is_Ok out
    | Some r \<Rightarrow> ar_Results r = length (po_Results prediction) \<and> ar_Route r \<in> {''accepted'', ''fallback''} \<and>
        validatePolicy policy = None)"
proof -
  obtain routing s' where g: "routing_graph predict example_choice policy s = (routing, s')" by fastforce
  note graph = routing_graph_accepted [where predict = predict and policy = policy and s = s, unfolded g]
  show ?thesis
  proof (cases routing)
    case (Ok x)
    with graph have policy: "validatePolicy policy = None" by simp
    show ?thesis
    proof (cases "adk_run (route_runner x input)")
      case events: (Ok vs)
      show ?thesis using assms g Ok events policy last_terminal_value [of vs]
        by (cases "last_terminal vs = ''''")
          (auto simp: route_and_report_def Let_def is_Ok_def split: option.splits)
    qed (use assms g Ok adk_run_no_panic in \<open>auto simp: route_and_report_def is_Ok_def\<close>)
  qed (use assms g graph in \<open>auto simp: route_and_report_def is_Ok_def\<close>)
qed

text \<open>
  What \<open>Run\<close> of the ADK example does, whatever the workflow runner answers: it never panics, its
  type assertion included; if it returns nil it has reported; and what it reports counts
  three results, names one of the two terminals, and comes from a valid policy.
\<close>

theorem adk_Run_outcomes:
  "case adk_Run (Some predict) input policy (Some encode) data_runner route_runner s of
     (out, report) \<Rightarrow> out \<noteq> Panic \<and>
       (case report of None \<Rightarrow> \<not> is_Ok out
        | Some r \<Rightarrow> ar_Results r = 3 \<and> ar_Route r \<in> {''accepted'', ''fallback''} \<and> validatePolicy policy = None)"
proof -
  let ?data = "\<lparr>fn_name = ''laya_data'', fn_run = data_fn project_text (prediction_run predict example_questions),
          fn_config = zero_NodeConfig\<rparr>"
  note eval = adk_Run_def Questions_eq data_graph_accepted
  show ?thesis
  proof (cases "adk_run (data_runner ?data input)")
    case (Ok vs)
    show ?thesis
    proof (cases "length (po_Results (last_prediction vs)) = 3")
      case True
      obtain out report where r: "route_and_report predict example_choice (last_prediction vs) input policy encode route_runner s =
          (out, report)" by fastforce
      with Ok True have "adk_Run (Some predict) input policy (Some encode) data_runner route_runner s = (out, report)"
        by (simp add: eval Let_def)
      with route_and_report_outcomes [OF r] True show ?thesis by (auto split: option.splits)
    next
      case False
      with Ok show ?thesis by (simp add: eval Let_def is_Ok_def)
    qed
  next
    case (Err e)
    then show ?thesis by (simp add: eval is_Ok_def)
  next
    case Panic
    with adk_run_no_panic show ?thesis by simp
  qed
qed

end
