(* ===== verification/Laya_Source.thy ===== *)
theory Laya_Source
  imports Laya_Verify "HOL-Library.AList" "HOL-Library.Word"
begin

text \<open>
  \<open>internal/source/source.go\<close>: opening a verified bundle directory, and the operations on the
  open bundle. What the operating system answers is an argument: the handles a call opens, the
  replies of \<open>Lstat\<close>, \<open>Stat\<close> and \<open>Close\<close>, the sequence of calls \<open>fs.WalkDir\<close> makes. The
  operations return, beside their results, the handles they opened and closed, in order.
\<close>

subsection \<open>Errors and paths\<close>

definition sourceError :: "string \<Rightarrow> string \<Rightarrow> go_error \<Rightarrow> go_error option \<Rightarrow> go_error" where
  "sourceError operation path kind cause = SourceError operation path (Some kind) cause"

lemma sourceError_is [simp]:
  "errors_is (sourceError oper p kind cause) t \<longleftrightarrow> errors_is kind t \<or> opt_is (\<lambda>e. errors_is e t) cause"
  by (simp add: sourceError_def)

text \<open>\<open>Error.Unwrap\<close>, which is all that \<open>errors.Is\<close> follows.\<close>

definition source_Unwrap :: "go_error \<Rightarrow> go_error list" where
  "source_Unwrap e = (case e of SourceError operation path kind cause \<Rightarrow> somes [kind, cause] | _ \<Rightarrow> [])"

lemma errors_is_source:
  "errors_is (SourceError oper p kind cause) t \<longleftrightarrow>
     list_ex (\<lambda>e. errors_is e t) (source_Unwrap (SourceError oper p kind cause))"
  by (cases kind; cases cause) (simp_all add: source_Unwrap_def)

definition validLogicalPath :: "string \<Rightarrow> bool" where
  "validLogicalPath p \<longleftrightarrow> p \<noteq> ''.'' \<and> fs_ValidPath p \<and> \<not> has_backslash p"

text \<open>\<open>filepath.Join\<close> of a clean absolute directory and a valid logical path.\<close>

definition native_path :: "string \<Rightarrow> string \<Rightarrow> string" where
  "native_path dir p = (if dir = ''/'' then dir @ p else dir @ ''/'' @ p)"

subsection \<open>Handles\<close>

datatype handle_event = OpenedRoot nat | ClosedRoot nat

text \<open>
  \<open>closeRoots\<close>: the roots that are not nil are closed from the last to the first, and what
  their closes report is joined to the cause.
\<close>

definition closeRoots :: "(nat \<Rightarrow> go_error option) \<Rightarrow> nat option list \<Rightarrow> go_error option \<Rightarrow> go_error option \<times> handle_event list" where
  "closeRoots closing roots cause =
     (let live = rev (somes roots)
      in (errors_join (cause # map (\<lambda>h. map_option (\<lambda>e.
            sourceError ''close directory'' '''' (Sentinel ErrMaterialization) (Some e)) (closing h)) live),
          map ClosedRoot live))"

subsection \<open>Entries\<close>

text \<open>\<open>os.FileInfo\<close> as \<open>sameFileIdentity\<close> reads it; \<open>os.SameFile\<close> compares the file.\<close>

record file_info =
  fi_mode :: "32 word"
  fi_size :: int
  fi_modTime :: int
  fi_file :: nat

text \<open>\<open>FileMode.IsRegular\<close>: none of the bits of \<open>fs.ModeType\<close> is set.\<close>

definition mode_regular :: "32 word \<Rightarrow> bool" where
  "mode_regular mode \<longleftrightarrow> and mode 0x8F280000 = 0"

definition sameFileIdentity :: "file_info \<Rightarrow> file_info \<Rightarrow> bool" where
  "sameFileIdentity a b \<longleftrightarrow>
     fi_mode a = fi_mode b \<and> fi_size a = fi_size b \<and> fi_modTime a = fi_modTime b \<and> fi_file a = fi_file b"

text \<open>A call of the callback of \<open>fs.WalkDir\<close>: path, walk error, symbolic link, reply of \<open>Info\<close>.\<close>

record walk_call =
  wc_path :: string
  wc_err :: "go_error option"
  wc_symlink :: bool
  wc_info :: "go_error + file_info"

fun snapshotEntries ::
  "(nat \<Rightarrow> go_error option) \<Rightarrow> nat \<Rightarrow> walk_call list \<Rightarrow> (string \<times> file_info) list \<Rightarrow> (go_error + (string \<times> file_info) list) \<times> nat" where
  "snapshotEntries ctx n [] acc = (Inr acc, n)"
| "snapshotEntries ctx n (c # cs) acc =
     (case wc_err c of
        Some e \<Rightarrow> (Inl (sourceError ''inspect entry'' (wc_path c) (Sentinel ErrInvalidBundle) (Some e)), n)
      | None \<Rightarrow>
     (case ctx n of
        Some e \<Rightarrow> (Inl (sourceError ''inspect entry'' (wc_path c) e (Some e)), Suc n)
      | None \<Rightarrow>
     (case wc_info c of
        Inl e \<Rightarrow> (Inl (sourceError ''inspect entry'' (wc_path c) (Sentinel ErrInvalidBundle) (Some e)), Suc n)
      | Inr info \<Rightarrow> snapshotEntries ctx (Suc n) cs (AList.update (wc_path c) info acc))))"

fun findLinks :: "(nat \<Rightarrow> go_error option) \<Rightarrow> nat \<Rightarrow> walk_call list \<Rightarrow> string list \<Rightarrow> (go_error + string list) \<times> nat" where
  "findLinks ctx n [] links = (Inr links, n)"
| "findLinks ctx n (c # cs) links =
     (case wc_err c of
        Some e \<Rightarrow> (Inl (sourceError ''inspect entry'' (wc_path c) (Sentinel ErrInvalidBundle) (Some e)), n)
      | None \<Rightarrow>
     (case ctx n of
        Some e \<Rightarrow> (Inl (sourceError ''inspect entry'' (wc_path c) e (Some e)), Suc n)
      | None \<Rightarrow> findLinks ctx (Suc n) cs (if wc_symlink c then links @ [wc_path c] else links)))"

fun compare_loop :: "(string \<times> file_info) list \<Rightarrow> (string \<times> file_info) list \<Rightarrow> go_error option" where
  "compare_loop [] after = None"
| "compare_loop ((path, first) # rest) after =
     (case map_of after path of
        None \<Rightarrow> Some (sourceError ''verify stable entry'' path (Sentinel ErrInvalidBundle) None)
      | Some second \<Rightarrow>
          if sameFileIdentity first second then compare_loop rest after
          else Some (sourceError ''verify stable entry'' path (Sentinel ErrInvalidBundle) None))"

definition compareEntries :: "(string \<times> file_info) list \<Rightarrow> (string \<times> file_info) list \<Rightarrow> go_error option" where
  "compareEntries before after =
     (if length before \<noteq> length after
      then Some (sourceError ''verify stable directory'' '''' (Sentinel ErrInvalidBundle) None)
      else compare_loop before after)"

subsection \<open>The open bundle\<close>

record source_bundle =
  sb_roots :: "nat option list"
  sb_sourceFS :: "fsys option"
  sb_rootPath :: string
  sb_manifest :: Manifest
  sb_allowed :: "string list"
  sb_closed :: bool

definition source_gone :: "source_bundle \<Rightarrow> bool" where
  "source_gone b \<longleftrightarrow> sb_closed b \<or> length (sb_roots b) = 0 \<or> sb_sourceFS b = None"

definition source_Path :: "source_bundle option \<Rightarrow> string \<Rightarrow> string res" where
  "source_Path bundle p =
     (case bundle of
        None \<Rightarrow> Err (sourceError ''resolve path'' p (Sentinel ErrSourceClosed) None)
      | Some b \<Rightarrow>
          if \<not> validLogicalPath p then Err (sourceError ''resolve path'' p (Sentinel ErrInvalidBundle) None)
          else if source_gone b then Err (sourceError ''resolve path'' p (Sentinel ErrSourceClosed) None)
          else if p \<notin> set (sb_allowed b)
          then Err (sourceError ''resolve path'' p (Sentinel ErrInvalidBundle) (Some (Sentinel FsErrNotExist)))
          else (case fs_stat (the (sb_sourceFS b)) p of
                  Inl e \<Rightarrow> Err (sourceError ''inspect path'' p (Sentinel ErrInvalidBundle) (Some e))
                | Inr ty \<Rightarrow>
                    if ty \<noteq> Regular then Err (sourceError ''inspect path'' p (Sentinel ErrUnsupportedSource) None)
                    else Ok (native_path (sb_rootPath b) p)))"

text \<open>The read loop asks the context before and after every read.\<close>

fun read_file_loop ::
  "(nat \<Rightarrow> go_error option) \<Rightarrow> string \<Rightarrow> int \<Rightarrow> read_reply list \<Rightarrow> nat \<Rightarrow> string \<Rightarrow> string res" where
  "read_file_loop ctx p limit [] n buffer =
     check_then (map_option (\<lambda>e. sourceError ''read bundle file'' p e (Some e)) (ctx n))
     (check_then (map_option (\<lambda>e. sourceError ''read bundle file'' p e (Some e)) (ctx (Suc n))) (Ok buffer))"
| "read_file_loop ctx p limit (r # rs) n buffer =
     check_then (map_option (\<lambda>e. sourceError ''read bundle file'' p e (Some e)) (ctx n))
     (check_then (map_option (\<lambda>e. sourceError ''read bundle file'' p e (Some e)) (ctx (Suc n)))
       (let chunk = (case r of Read c \<Rightarrow> c | ReadEOF c \<Rightarrow> c | ReadFail c e \<Rightarrow> c)
        in if chunk \<noteq> [] \<and> int (length buffer + length chunk) > limit
           then Err (sourceError ''read bundle file'' p (Sentinel ErrIntegrity) None)
           else (case r of
                   ReadEOF c \<Rightarrow> Ok (buffer @ chunk)
                 | ReadFail c e \<Rightarrow> Err (sourceError ''read bundle file'' p (Sentinel ErrIntegrity) (Some e))
                 | Read c \<Rightarrow>
                     if c = [] then Err (sourceError ''read bundle file'' p (Sentinel ErrIntegrity) (Some (Sentinel IoErrNoProgress)))
                     else read_file_loop ctx p limit rs (Suc (Suc n)) (buffer @ chunk))))"

definition source_ReadFile :: "(nat \<Rightarrow> go_error option) option \<Rightarrow> source_bundle option \<Rightarrow> string \<Rightarrow> int \<Rightarrow> string res" where
  "source_ReadFile ctx bundle p limit =
     (case ctx of None \<Rightarrow> Err (sourceError ''validate context'' p (Sentinel ErrInvalidBundle) None)
      | Some ctx \<Rightarrow>
     (case ctx 0 of Some e \<Rightarrow> Err (sourceError ''read bundle file'' p e (Some e))
      | None \<Rightarrow>
     (case bundle of None \<Rightarrow> Err (sourceError ''read bundle file'' p (Sentinel ErrSourceClosed) None)
      | Some b \<Rightarrow>
          if \<not> validLogicalPath p \<or> limit < 0
          then Err (sourceError ''read bundle file'' p (Sentinel ErrInvalidBundle) None)
          else if source_gone b then Err (sourceError ''read bundle file'' p (Sentinel ErrSourceClosed) None)
          else if p \<notin> set (sb_allowed b)
          then Err (sourceError ''read bundle file'' p (Sentinel ErrInvalidBundle) (Some (Sentinel FsErrNotExist)))
          else (case fs_open (the (sb_sourceFS b)) p of
                  Inl e \<Rightarrow> Err (sourceError ''open bundle file'' p (Sentinel ErrInvalidBundle) (Some e))
                | Inr h \<Rightarrow>
                    (case of_stat h of
                       Inl e \<Rightarrow> Err (sourceError ''inspect bundle file'' p (Sentinel ErrInvalidBundle) (Some e))
                     | Inr (ty, bytes) \<Rightarrow>
                         if ty \<noteq> Regular \<or> bytes < 0 \<or> bytes > limit
                         then Err (sourceError ''inspect bundle file'' p (Sentinel ErrInvalidBundle) None)
                         else read_file_loop ctx p limit (of_reads h) 1 [])))))"

definition source_Close ::
  "(nat \<Rightarrow> go_error option) \<Rightarrow> source_bundle \<Rightarrow> go_error option \<times> source_bundle \<times> handle_event list" where
  "source_Close closing b =
     (if sb_closed b then (None, b, [])
      else if length (sb_roots b) = 0 then (None, b\<lparr>sb_closed := True\<rparr>, [])
      else (case closeRoots closing (sb_roots b) None of
              (err, events) \<Rightarrow> (err, b\<lparr>sb_roots := [], sb_sourceFS := None, sb_closed := True\<rparr>, events)))"

subsection \<open>Reading\<close>

lemma check_then_map_Ok [simp]: "check_then (map_option f c) r = Ok x \<longleftrightarrow> c = None \<and> r = Ok x"
  by (cases c) simp_all

lemma check_then_Panic [simp]: "check_then c r = Panic \<longleftrightarrow> c = None \<and> r = Panic"
  by (cases c) simp_all

lemma read_file_loop_Ok:
  "read_file_loop ctx p limit rs n buffer = Ok d \<Longrightarrow> int (length buffer) \<le> limit \<Longrightarrow>
     \<exists>d'. content_of rs = Some d' \<and> d = buffer @ d' \<and> int (length d) \<le> limit"
proof (induction ctx p limit rs n buffer rule: read_file_loop.induct)
  case (2 ctx p limit r rs n buffer)
  show ?case
  proof (cases r)
    case (Read c)
    with 2 show ?thesis by (auto simp: Let_def split: if_splits)
  next
    case (ReadEOF c)
    with 2 show ?thesis by (cases "c = []") (auto simp: Let_def split: if_splits)
  next
    case (ReadFail c e)
    with 2 show ?thesis by (auto simp: Let_def split: if_splits)
  qed
qed simp

lemma read_file_loop_quiet:
  "quiet ctx \<Longrightarrow> content_of rs = Some d \<Longrightarrow> int (length (buffer @ d)) \<le> limit \<Longrightarrow>
     read_file_loop ctx p limit rs n buffer = Ok (buffer @ d)"
proof (induction ctx p limit rs n buffer arbitrary: d rule: read_file_loop.induct)
  case (2 ctx p limit r rs n buffer)
  show ?case
  proof (cases r)
    case (Read c)
    with 2 obtain d' where "c \<noteq> []" "content_of rs = Some d'" "d = c @ d'" by (auto split: if_splits)
    with 2 Read show ?thesis by (simp add: quiet_def Let_def)
  qed (use 2 in \<open>auto simp: quiet_def Let_def\<close>)
qed (simp add: quiet_def)

lemma read_file_loop_no_panic: "read_file_loop ctx p limit rs n buffer \<noteq> Panic"
proof (induction ctx p limit rs n buffer rule: read_file_loop.induct)
  case (2 ctx p limit r rs n buffer)
  then show ?case by (cases r) (auto simp: Let_def)
qed simp

text \<open>The file a bundle would read at a path.\<close>

definition declared_content :: "source_bundle \<Rightarrow> string \<Rightarrow> int \<Rightarrow> string \<Rightarrow> bool" where
  "declared_content b p limit d \<longleftrightarrow>
     validLogicalPath p \<and> p \<in> set (sb_allowed b) \<and> 0 \<le> limit \<and>
     (\<exists>fs h bytes. sb_sourceFS b = Some fs \<and> fs_open fs p = Inr h \<and> of_stat h = Inr (Regular, bytes) \<and>
        0 \<le> bytes \<and> bytes \<le> limit \<and> content_of (of_reads h) = Some d \<and> int (length d) \<le> limit)"

text \<open>
  \<open>ReadFile\<close> returns exactly the whole content of a declared regular file, within the limit,
  and only while the bundle is open; it never panics. With a context that does not end, it
  returns the content of every such file.
\<close>

theorem source_ReadFile_exact:
  "(case source_ReadFile (Some ctx) (Some b) p limit of
      Ok d \<Rightarrow> \<not> source_gone b \<and> declared_content b p limit d
    | Err e \<Rightarrow> \<not> (quiet ctx \<and> \<not> source_gone b \<and> (\<exists>d. declared_content b p limit d))
    | Panic \<Rightarrow> False)"
proof (cases "ctx 0 = None \<and> validLogicalPath p \<and> 0 \<le> limit \<and> \<not> source_gone b \<and> p \<in> set (sb_allowed b)")
  case False
  then have "\<exists>e. source_ReadFile (Some ctx) (Some b) p limit = Err e"
    by (auto simp: source_ReadFile_def split: option.splits)
  with False show ?thesis by (auto simp: declared_content_def quiet_def)
next
  case True
  then obtain fs where fs: "sb_sourceFS b = Some fs" by (auto simp: source_gone_def)
  show ?thesis
  proof (cases "\<exists>h bytes. fs_open fs p = Inr h \<and> of_stat h = Inr (Regular, bytes) \<and> 0 \<le> bytes \<and> bytes \<le> limit")
    case False
    have "\<exists>e. source_ReadFile (Some ctx) (Some b) p limit = Err e"
    proof (cases "fs_open fs p")
      case (Inl e)
      then show ?thesis using True fs by (simp add: source_ReadFile_def)
    next
      case h: (Inr h)
      show ?thesis
      proof (cases "of_stat h")
        case (Inl e)
        then show ?thesis using True fs h by (simp add: source_ReadFile_def)
      next
        case (Inr s)
        then show ?thesis using True fs h False
          by (cases s) (auto simp: source_ReadFile_def not_less)
      qed
    qed
    moreover have "\<not> declared_content b p limit d" for d
      using False fs unfolding declared_content_def by (metis option.inject)
    ultimately show ?thesis by auto
  next
    case h: True
    then obtain h bytes where hb: "fs_open fs p = Inr h" "of_stat h = Inr (Regular, bytes)" "0 \<le> bytes" "bytes \<le> limit"
      by blast
    have eq: "source_ReadFile (Some ctx) (Some b) p limit = read_file_loop ctx p limit (of_reads h) 1 []"
      using True fs hb by (simp add: source_ReadFile_def)
    show ?thesis
    proof (cases "read_file_loop ctx p limit (of_reads h) 1 []")
      case (Ok d)
      then have "content_of (of_reads h) = Some d \<and> int (length d) \<le> limit"
        using read_file_loop_Ok [OF Ok] True by auto
      with Ok eq True fs hb show ?thesis by (auto simp: declared_content_def)
    next
      case (Err e)
      have "\<not> declared_content b p limit d" if q: "quiet ctx" for d
      proof
        assume "declared_content b p limit d"
        then have "content_of (of_reads h) = Some d" "int (length d) \<le> limit"
          using fs hb by (auto simp: declared_content_def)
        then show False using read_file_loop_quiet [OF q, of "of_reads h" d "[]" limit p 1] Err by simp
      qed
      with Err eq show ?thesis by auto
    qed (use read_file_loop_no_panic in blast)
  qed
qed

subsection \<open>Closing\<close>

text \<open>
  \<open>Close\<close> releases every root of the bundle once, the last first, and forgets them whatever
  the closes report; after it nothing can be read or resolved, and closing again does nothing.
\<close>

theorem source_Close_releases:
  "(case source_Close closing b of (err, b', events) \<Rightarrow>
      events = (if sb_closed b then [] else map ClosedRoot (rev (somes (sb_roots b)))) \<and>
      source_Close closing' b' = (None, b', []) \<and>
      (case source_Path (Some b') p of Err e \<Rightarrow> errors_is e (if validLogicalPath p then ErrSourceClosed else ErrInvalidBundle) | _ \<Rightarrow> False) \<and>
      (case source_ReadFile ctx (Some b') p limit of Err e \<Rightarrow> True | _ \<Rightarrow> False) \<and>
      (case err of Some e \<Rightarrow> errors_is e ErrMaterialization | None \<Rightarrow> True))"
proof -
  obtain err b' events where c: "source_Close closing b = (err, b', events)" by (cases "source_Close closing b")
  have gone: "sb_closed b'" using c by (auto simp: source_Close_def split: if_splits prod.splits)
  have ev: "events = (if sb_closed b then [] else map ClosedRoot (rev (somes (sb_roots b))))"
    using c by (auto simp: source_Close_def closeRoots_def Let_def split: if_splits)
  have path: "case source_Path (Some b') p of Err e \<Rightarrow> errors_is e (if validLogicalPath p then ErrSourceClosed else ErrInvalidBundle) | _ \<Rightarrow> False"
    using gone by (simp add: source_Path_def source_gone_def)
  have read: "case source_ReadFile ctx (Some b') p limit of Err e \<Rightarrow> True | _ \<Rightarrow> False"
    using gone by (simp add: source_ReadFile_def source_gone_def split: option.split)
  have "errors_is e ErrMaterialization" if e: "err = Some e" for e
  proof -
    let ?errs = "map (\<lambda>h. map_option (\<lambda>e. sourceError ''close directory'' '''' (Sentinel ErrMaterialization) (Some e))
        (closing h)) (rev (somes (sb_roots b)))"
    have join: "err = errors_join (None # ?errs)"
      using c e by (auto simp: source_Close_def closeRoots_def Let_def split: if_splits)
    have "errors_join (None # ?errs) \<noteq> None" unfolding join [symmetric] e by simp
    then have "\<exists>c \<in> set (None # ?errs). c \<noteq> None" by (simp only: errors_join_None_iff) blast
    then obtain c where c: "c \<in> set ?errs" "c \<noteq> None" by fastforce
    then obtain y where "c = Some y" by blast
    with c(1) obtain x where x: "Some x \<in> set ?errs" by simp
    then have "errors_is x ErrMaterialization" by (auto dest: map_option_eq_Some [THEN iffD1, OF sym])
    then have "opt_is (\<lambda>e. errors_is e ErrMaterialization) (errors_join (None # ?errs))"
      unfolding errors_join_is using x by (intro exI [of _ x]) simp
    then show ?thesis by (simp only: join [symmetric] e opt_is_simps)
  qed
  then have kind: "case err of Some e \<Rightarrow> errors_is e ErrMaterialization | None \<Rightarrow> True" by (cases err) simp_all
  have again: "source_Close closing' b' = (None, b', [])" using gone by (simp add: source_Close_def)
  show ?thesis unfolding c prod.case by (intro conjI ev again path read kind)
qed

end
