(* ===== verification/Laya_Snapshot.thy ===== *)
theory Laya_Snapshot
  imports Laya_Source
begin

text \<open>
  \<open>internal/source/snapshot.go\<close>: a Hugging Face snapshot directory, whose files may be symbolic
  links into the sibling directory of blobs. \<open>path/filepath\<close> is modelled as it behaves on
  Linux; the replies of the operating system are arguments.
\<close>

subsection \<open>path/filepath\<close>

definition slash :: char where "slash = CHR ''/''"

fun join_slash :: "string list \<Rightarrow> string" where
  "join_slash [] = []"
| "join_slash [e] = e"
| "join_slash (e # es) = e @ slash # join_slash es"

text \<open>The elements of a path, the last first, with \<open>.\<close> dropped and \<open>..\<close> resolved.\<close>

fun clean_elements :: "bool \<Rightarrow> string list \<Rightarrow> string list \<Rightarrow> string list" where
  "clean_elements rooted [] st = st"
| "clean_elements rooted (e # es) st =
     (if e = '''' \<or> e = ''.'' then clean_elements rooted es st
      else if e = ''..'' then
        (case st of
           [] \<Rightarrow> clean_elements rooted es (if rooted then [] else [''..''])
         | t # ts \<Rightarrow> clean_elements rooted es (if t = ''..'' then ''..'' # st else ts))
      else clean_elements rooted es (e # st))"

definition filepath_IsAbs :: "string \<Rightarrow> bool" where
  "filepath_IsAbs p \<longleftrightarrow> p \<noteq> [] \<and> hd p = slash"

definition filepath_Clean :: "string \<Rightarrow> string" where
  "filepath_Clean p =
     (let s = join_slash (rev (clean_elements (filepath_IsAbs p) (split_at_byte slash p) []))
      in if filepath_IsAbs p then slash # s else if s = [] then ''.'' else s)"

definition filepath_Join :: "string \<Rightarrow> string \<Rightarrow> string" where
  "filepath_Join a b =
     (if a = [] then (if b = [] then [] else filepath_Clean b) else filepath_Clean (a @ slash # b))"

definition filepath_Dir :: "string \<Rightarrow> string" where
  "filepath_Dir p = filepath_Clean (rev (dropWhile (\<lambda>c. c \<noteq> slash) (rev p)))"

definition filepath_Base :: "string \<Rightarrow> string" where
  "filepath_Base p =
     (let q = rev (dropWhile (\<lambda>c. c = slash) (rev p))
      in if p = [] then ''.'' else if q = [] then [slash] else rev (takeWhile (\<lambda>c. c \<noteq> slash) (rev q)))"

subsection \<open>Names\<close>

text \<open>\<open>strings.Split\<close> at two hyphens.\<close>

function split_hyphens :: "string \<Rightarrow> string list" where
  "split_hyphens [] = [[]]"
| "split_hyphens [c] = [[c]]"
| "split_hyphens (c # d # cs) =
     (if c = CHR ''-'' \<and> d = CHR ''-'' then [] # split_hyphens cs
      else case split_hyphens (d # cs) of [] \<Rightarrow> [[c]] | w # ws \<Rightarrow> (c # w) # ws)"
  by pat_completeness auto
termination by (relation "measure length") auto

definition huggingFaceModelPrefix :: string where "huggingFaceModelPrefix = ''models--''"

definition validRepositoryName :: "string \<Rightarrow> bool" where
  "validRepositoryName name \<longleftrightarrow>
     take 8 name = huggingFaceModelPrefix \<and>
     (let parts = split_hyphens (drop 8 name)
      in 2 \<le> length parts \<and> list_all path_elem_ok parts)"

definition validLowerHex :: "string \<Rightarrow> bool" where
  "validLowerHex name \<longleftrightarrow> list_all is_lower_hex name"

definition validHexName :: "string \<Rightarrow> bool" where
  "validHexName name \<longleftrightarrow> (length name = 40 \<or> length name = 64) \<and> validLowerHex name"

definition snapshotPlatformSupported :: "string \<Rightarrow> string \<Rightarrow> bool" where
  "snapshotPlatformSupported goos goarch \<longleftrightarrow> goos = ''linux'' \<and> goarch = ''amd64''"

subsection \<open>Links\<close>

record snapshotLink =
  sl_target :: string
  sl_blob :: string
  sl_blobInfo :: file_info

record snapshotFS =
  sn_snapshotPath :: string
  sn_blobsPath :: string
  sn_links :: "(string \<times> snapshotLink) list"

text \<open>What \<open>Readlink\<close> answers below the snapshot and \<open>Lstat\<close> below the blobs.\<close>

record link_replies =
  lr_readlink :: "string \<Rightarrow> go_error + string"
  lr_blob :: "string \<Rightarrow> go_error + file_info"

abbreviation unsupported_source :: "string \<Rightarrow> string \<Rightarrow> go_error option \<Rightarrow> go_error" where
  "unsupported_source operation path cause \<equiv> sourceError operation path (Sentinel ErrUnsupportedSource) cause"

definition resolved_link :: "string \<Rightarrow> string \<Rightarrow> string \<Rightarrow> string" where
  "resolved_link snapshotPath p target =
     filepath_Clean (filepath_Join (filepath_Join snapshotPath (filepath_Dir p)) target)"

definition classifyLink :: "link_replies \<Rightarrow> snapshotFS \<Rightarrow> string \<Rightarrow> go_error + snapshotLink" where
  "classifyLink r f p =
     (if \<not> validLogicalPath p then Inl (unsupported_source ''classify link'' p None)
      else case lr_readlink r p of
             Inl e \<Rightarrow> Inl (unsupported_source ''read link'' p (Some e))
           | Inr target \<Rightarrow>
               if filepath_IsAbs target \<or> has_backslash target \<or> filepath_Clean target \<noteq> target
               then Inl (unsupported_source ''classify link'' p None)
               else (let resolved = resolved_link (sn_snapshotPath f) p target
                     in if filepath_Dir resolved \<noteq> sn_blobsPath f then Inl (unsupported_source ''classify link'' p None)
                        else (let blob = filepath_Base resolved
                              in if \<not> validHexName blob then Inl (unsupported_source ''classify link'' p None)
                                 else case lr_blob r blob of
                                        Inl e \<Rightarrow> Inl (unsupported_source ''inspect blob'' p (Some e))
                                      | Inr info \<Rightarrow>
                                          if \<not> mode_regular (fi_mode info) then Inl (unsupported_source ''inspect blob'' p None)
                                          else Inr \<lparr>sl_target = target, sl_blob = blob, sl_blobInfo = info\<rparr>)))"

definition currentLink :: "link_replies \<Rightarrow> snapshotFS \<Rightarrow> string \<Rightarrow> go_error + snapshotLink" where
  "currentLink r f p =
     (case map_of (sn_links f) p of
        None \<Rightarrow> Inl (unsupported_source ''classify link'' p None)
      | Some want \<Rightarrow>
          (case lr_readlink r p of
             Inl e \<Rightarrow> Inl (unsupported_source ''read link'' p (Some e))
           | Inr target \<Rightarrow>
               if target \<noteq> sl_target want then Inl (unsupported_source ''verify stable link'' p None)
               else (case lr_blob r (sl_blob want) of
                       Inl e \<Rightarrow> Inl (unsupported_source ''inspect blob'' p (Some e))
                     | Inr info \<Rightarrow>
                         if \<not> sameFileIdentity (sl_blobInfo want) info
                         then Inl (unsupported_source ''verify stable blob'' p None)
                         else Inr want)))"

text \<open>\<open>verifyStable\<close>; the links are visited in the order \<open>order\<close> of the map.\<close>

fun stable_loop :: "(nat \<Rightarrow> go_error option) \<Rightarrow> link_replies \<Rightarrow> snapshotFS \<Rightarrow> nat \<Rightarrow> string list \<Rightarrow> go_error option" where
  "stable_loop ctx r f n [] = None"
| "stable_loop ctx r f n (p # ps) =
     (case ctx n of
        Some e \<Rightarrow> Some (sourceError ''verify snapshot'' p e (Some e))
      | None \<Rightarrow> (case currentLink r f p of Inl e \<Rightarrow> Some e | Inr l \<Rightarrow> stable_loop ctx r f (Suc n) ps))"

definition verifyStable :: "(nat \<Rightarrow> go_error option) \<Rightarrow> nat list \<Rightarrow> link_replies \<Rightarrow> snapshotFS \<Rightarrow> nat \<Rightarrow> go_error option" where
  "verifyStable ctx order r f n = stable_loop ctx r f n (traverse order (map fst (sn_links f)))"

subsection \<open>The file system of a snapshot\<close>

text \<open>What \<open>Open\<close> opens: an entry of the snapshot itself, or a blob.\<close>

datatype opened = FromSnapshot string | FromBlobs string

text \<open>The reply of \<open>Lstat\<close> is whether the entry is a symbolic link.\<close>

definition snapshot_Open :: "link_replies \<Rightarrow> (string \<Rightarrow> go_error + bool) \<Rightarrow> snapshotFS \<Rightarrow> string \<Rightarrow> go_error + opened" where
  "snapshot_Open r lstat f name =
     (if \<not> fs_ValidPath name \<or> has_backslash name
      then Inl (sourceError ''open snapshot entry'' name (Sentinel ErrInvalidBundle) (Some (Sentinel FsErrInvalid)))
      else case lstat name of
             Inl e \<Rightarrow> Inl (sourceError ''open snapshot entry'' name (Sentinel ErrInvalidBundle) (Some e))
           | Inr symlink \<Rightarrow>
               if \<not> symlink then Inr (FromSnapshot name)
               else (case currentLink r f name of Inl e \<Rightarrow> Inl e | Inr l \<Rightarrow> Inr (FromBlobs (sl_blob l))))"

record dir_entry =
  de_name :: string
  de_symlink :: bool
  de_info :: file_info

fun dir_entries_loop :: "link_replies \<Rightarrow> snapshotFS \<Rightarrow> string \<Rightarrow> dir_entry list \<Rightarrow> go_error + dir_entry list" where
  "dir_entries_loop r f name [] = Inr []"
| "dir_entries_loop r f name (d # ds) =
     (let logicalPath = (if name \<noteq> ''.'' then name @ slash # de_name d else de_name d)
      in if \<not> de_symlink d
         then (case dir_entries_loop r f name ds of Inl e \<Rightarrow> Inl e | Inr rest \<Rightarrow> Inr (d # rest))
         else case currentLink r f logicalPath of
                Inl e \<Rightarrow> Inl e
              | Inr l \<Rightarrow>
                  (case dir_entries_loop r f name ds of
                     Inl e \<Rightarrow> Inl e
                   | Inr rest \<Rightarrow> Inr (\<lparr>de_name = de_name d, de_symlink = False, de_info = sl_blobInfo l\<rparr> # rest)))"

definition snapshot_ReadDir ::
  "link_replies \<Rightarrow> snapshotFS \<Rightarrow> string \<Rightarrow> go_error + dir_entry list \<Rightarrow> go_error + dir_entry list" where
  "snapshot_ReadDir r f name listing =
     (case listing of
        Inl e \<Rightarrow> Inl (sourceError ''read snapshot directory'' name (Sentinel ErrInvalidBundle) (Some e))
      | Inr ds \<Rightarrow> dir_entries_loop r f name ds)"

subsection \<open>Opening a snapshot\<close>

definition requireDirectory :: "go_error + bool \<Rightarrow> go_error option" where
  "requireDirectory lstat =
     (case lstat of
        Inl e \<Rightarrow> Some (unsupported_source ''classify snapshot'' '''' (Some e))
      | Inr dir \<Rightarrow> if \<not> dir then Some (unsupported_source ''classify snapshot'' '''' None) else None)"

text \<open>
  \<open>openDirectoryRoot\<close> of the blobs, whose root is the given handle: the replies of \<open>Lstat\<close>,
  \<open>OpenRoot\<close> and \<open>Stat\<close>. The error of the close is discarded, as in the code.
\<close>

record root_replies =
  rr_lstat :: "go_error + bool"
  rr_open :: "go_error option"
  rr_stat :: "go_error + bool"

definition openDirectoryRoot :: "nat \<Rightarrow> root_replies \<Rightarrow> go_error option \<times> handle_event list" where
  "openDirectoryRoot h r =
     (case rr_lstat r of
        Inl e \<Rightarrow> (Some (unsupported_source ''open blob root'' '''' (Some e)), [])
      | Inr dir \<Rightarrow>
          if \<not> dir then (Some (unsupported_source ''open blob root'' '''' None), [])
          else (case rr_open r of
                  Some e \<Rightarrow> (Some (unsupported_source ''open blob root'' '''' (Some e)), [])
                | None \<Rightarrow>
                    (case rr_stat r of
                       Inl e \<Rightarrow> (Some (unsupported_source ''inspect blob root'' '''' (Some e)), [OpenedRoot h, ClosedRoot h])
                     | Inr same \<Rightarrow>
                         if \<not> same then (Some (unsupported_source ''inspect blob root'' '''' None), [OpenedRoot h, ClosedRoot h])
                         else (None, [OpenedRoot h]))))"

fun classify_loop ::
  "(nat \<Rightarrow> go_error option) \<Rightarrow> link_replies \<Rightarrow> snapshotFS \<Rightarrow> nat \<Rightarrow> string list \<Rightarrow> (go_error + snapshotFS) \<times> nat" where
  "classify_loop ctx r f n [] = (Inr f, n)"
| "classify_loop ctx r f n (p # ps) =
     (case ctx n of
        Some e \<Rightarrow> (Inl (sourceError ''classify snapshot'' p e (Some e)), Suc n)
      | None \<Rightarrow>
          (case classifyLink r f p of
             Inl e \<Rightarrow> (Inl e, Suc n)
           | Inr l \<Rightarrow> classify_loop ctx r (f\<lparr>sn_links := AList.update p l (sn_links f)\<rparr>) (Suc n) ps))"

record snapshot_replies =
  sr_goos :: string
  sr_goarch :: string
  sr_repository :: "go_error + bool"
  sr_snapshots :: "go_error + bool"
  sr_blobs :: root_replies
  sr_links :: link_replies
  sr_closing :: "nat \<Rightarrow> go_error option"

text \<open>The end of \<open>openSnapshot\<close>: open the blobs and classify the links.\<close>

definition open_blobs ::
  "(nat \<Rightarrow> go_error option) \<Rightarrow> nat \<Rightarrow> snapshot_replies \<Rightarrow> string \<Rightarrow> string list
   \<Rightarrow> (go_error + snapshotFS) \<times> nat \<times> handle_event list" where
  "open_blobs ctx n r path links =
     (case openDirectoryRoot 1 (sr_blobs r) of
        (Some e, events) \<Rightarrow> (Inl e, n, events)
      | (None, events) \<Rightarrow>
          (case classify_loop ctx (sr_links r)
                  \<lparr>sn_snapshotPath = path, sn_blobsPath = filepath_Join (filepath_Dir (filepath_Dir path)) ''blobs'',
                   sn_links = []\<rparr> n links of
             (Inr f, n') \<Rightarrow> (Inr f, n', events)
           | (Inl cause, n') \<Rightarrow>
               (case closeRoots (sr_closing r) [Some 1] (Some cause) of
                  (err, shut) \<Rightarrow> (Inl (case err of Some e \<Rightarrow> e | None \<Rightarrow> cause), n', events @ shut))))"

definition openSnapshot ::
  "(nat \<Rightarrow> go_error option) \<Rightarrow> nat \<Rightarrow> snapshot_replies \<Rightarrow> string \<Rightarrow> string list
   \<Rightarrow> (go_error + snapshotFS) \<times> nat \<times> handle_event list" where
  "openSnapshot ctx n r path links =
     (if \<not> snapshotPlatformSupported (sr_goos r) (sr_goarch r)
      then (Inl (unsupported_source ''classify snapshot'' '''' None), n, [])
      else
        (let revision = filepath_Base path; snapshotsPath = filepath_Dir path; repositoryPath = filepath_Dir snapshotsPath
         in if filepath_Base snapshotsPath \<noteq> ''snapshots'' \<or> \<not> validRepositoryName (filepath_Base repositoryPath) \<or>
               \<not> validHexName revision
            then (Inl (unsupported_source ''classify snapshot'' '''' None), n, [])
            else case requireDirectory (sr_repository r) of Some e \<Rightarrow> (Inl e, n, [])
            | None \<Rightarrow>
            (case requireDirectory (sr_snapshots r) of Some e \<Rightarrow> (Inl e, n, [])
             | None \<Rightarrow> open_blobs ctx n r path links)))"

subsection \<open>Clean absolute paths\<close>

definition rooted :: "string list \<Rightarrow> string" where
  "rooted es = slash # join_slash es"

definition clean_elem :: "string \<Rightarrow> bool" where
  "clean_elem e \<longleftrightarrow> path_elem_ok e \<and> slash \<notin> set e"

lemma clean_elements_clean:
  "list_all clean_elem st \<Longrightarrow> list_all (\<lambda>e. slash \<notin> set e) es \<Longrightarrow> list_all clean_elem (clean_elements True es st)"
  by (induction "True" es st rule: clean_elements.induct)
    (auto simp: clean_elem_def path_elem_ok_def split: list.split)

lemma clean_elements_skip:
  "list_all clean_elem es \<Longrightarrow> clean_elements True (es @ rest) st = clean_elements True rest (rev es @ st)"
  by (induction es arbitrary: st) (auto simp: clean_elem_def path_elem_ok_def)

lemma split_at_slash_append: "slash \<notin> set e \<Longrightarrow> split_at_byte slash (e @ slash # s) = e # split_at_byte slash s"
  by (induction e) auto

lemma split_at_slash_nil: "split_at_byte slash (concat (map (\<lambda>e. e @ [slash]) es)) = es @ [[]]"
  if "list_all clean_elem es"
  using that by (induction es) (auto simp: clean_elem_def split_at_slash_append)

lemma join_slash_snoc: "join_slash (es @ [b]) = concat (map (\<lambda>e. e @ [slash]) es) @ b"
proof (induction es)
  case (Cons e es)
  then show ?case by (cases es) simp_all
qed simp

lemma Clean_abs:
  assumes "filepath_IsAbs x"
  obtains es where "filepath_Clean x = rooted es" and "list_all clean_elem es"
proof -
  let ?es = "rev (clean_elements True (split_at_byte slash x) [])"
  have "list_all clean_elem ?es"
    using clean_elements_clean [of "[]" "split_at_byte slash x"] split_at_byte_no_sep [of _ slash x]
    by (auto simp: list_all_iff)
  moreover have "filepath_Clean x = rooted ?es" using assms by (simp add: filepath_Clean_def rooted_def Let_def)
  ultimately show thesis by (rule that [rotated])
qed

lemma Dir_rooted:
  assumes "list_all clean_elem es" and "clean_elem b"
  shows "filepath_Dir (rooted (es @ [b])) = rooted es"
proof -
  let ?pre = "slash # concat (map (\<lambda>e. e @ [slash]) es)"
  obtain q where q: "?pre = q @ [slash]" by (cases es rule: rev_cases) auto
  have r: "rooted (es @ [b]) = q @ [slash] @ b" using q by (simp add: rooted_def join_slash_snoc)
  have "dropWhile (\<lambda>c. c \<noteq> slash) (rev b @ slash # rev q) = slash # rev q"
    using assms(2) by (subst dropWhile_append2) (auto simp: clean_elem_def)
  then have "rev (dropWhile (\<lambda>c. c \<noteq> slash) (rev (rooted (es @ [b])))) = ?pre"
    by (simp add: r q)
  moreover have "filepath_Clean ?pre = rooted es"
    using clean_elements_skip [OF assms(1), of "[[]]" "[]"]
    by (simp add: filepath_Clean_def filepath_IsAbs_def rooted_def split_at_slash_nil [OF assms(1)])
  ultimately show ?thesis by (simp add: filepath_Dir_def)
qed

lemma Base_rooted: "clean_elem b \<Longrightarrow> filepath_Base (rooted (es @ [b])) = b"
proof -
  assume b: "clean_elem b"
  then obtain b' c where c: "b = b' @ [c]" "c \<noteq> slash" by (cases b rule: rev_cases) (auto simp: clean_elem_def path_elem_ok_def)
  obtain q where q: "slash # concat (map (\<lambda>e. e @ [slash]) es) = q @ [slash]" by (cases es rule: rev_cases) auto
  then have r: "rooted (es @ [b]) = q @ [slash] @ b" by (simp add: rooted_def join_slash_snoc)
  have "takeWhile (\<lambda>c. c \<noteq> slash) (rev b @ slash # rev q) = rev b"
    using b by (subst takeWhile_append2) (auto simp: clean_elem_def)
  moreover have "dropWhile (\<lambda>c. c = slash) (rev (q @ [slash] @ b)) = rev b @ slash # rev q" by (simp add: c)
  ultimately have "filepath_Base (q @ [slash] @ b) = b" by (simp add: filepath_Base_def Let_def)
  then show ?thesis by (simp only: r)
qed

lemma join_slash_append: "es \<noteq> [] \<Longrightarrow> join_slash (es @ [b]) = join_slash es @ slash # b"
proof (induction es)
  case (Cons e es)
  then show ?case by (cases es) simp_all
qed simp

lemma native_path_rooted: "list_all clean_elem es \<Longrightarrow> native_path (rooted es) b = rooted (es @ [b])"
proof (cases es)
  case (Cons e es')
  assume "list_all clean_elem es"
  with Cons have "join_slash es \<noteq> []" by (cases es') (auto simp: clean_elem_def path_elem_ok_def)
  moreover have "join_slash (es @ [b]) = join_slash es @ slash # b" using Cons by (intro join_slash_append) simp
  ultimately show ?thesis by (simp add: native_path_def rooted_def slash_def)
qed (simp add: native_path_def rooted_def slash_def)

text \<open>A clean absolute path is the path of its base in its directory.\<close>

lemma Clean_abs_split:
  assumes "filepath_IsAbs x" and "filepath_Base (filepath_Clean x) \<noteq> [slash]"
  shows "filepath_Clean x = native_path (filepath_Dir (filepath_Clean x)) (filepath_Base (filepath_Clean x))"
proof -
  obtain es where es: "filepath_Clean x = rooted es" "list_all clean_elem es" using assms(1) by (rule Clean_abs)
  show ?thesis
  proof (cases es rule: rev_cases)
    case Nil
    with es assms(2) show ?thesis by (simp add: rooted_def filepath_Base_def Let_def)
  next
    case (snoc es' b)
    with es(2) have c: "list_all clean_elem es'" "clean_elem b" by simp_all
    show ?thesis
      unfolding es(1) snoc Dir_rooted [OF c] Base_rooted [OF c(2)] by (rule native_path_rooted [OF c(1), symmetric])
  qed
qed

lemma Join_abs: "filepath_IsAbs a \<Longrightarrow> filepath_IsAbs (filepath_Join a b)"
  by (cases a) (simp_all add: filepath_IsAbs_def filepath_Join_def filepath_Clean_def Let_def)

subsection \<open>Confinement\<close>

text \<open>A link that was accepted: its target resolves to a blob of the blobs directory.\<close>

definition confined :: "link_replies \<Rightarrow> snapshotFS \<Rightarrow> string \<Rightarrow> snapshotLink \<Rightarrow> bool" where
  "confined r f p l \<longleftrightarrow>
     validLogicalPath p \<and> lr_readlink r p = Inr (sl_target l) \<and> \<not> filepath_IsAbs (sl_target l) \<and>
     resolved_link (sn_snapshotPath f) p (sl_target l) = native_path (sn_blobsPath f) (sl_blob l) \<and>
     validHexName (sl_blob l) \<and> lr_blob r (sl_blob l) = Inr (sl_blobInfo l) \<and> mode_regular (fi_mode (sl_blobInfo l))"

lemma classifyLink_confined:
  assumes "filepath_IsAbs (sn_snapshotPath f)" and "classifyLink r f p = Inr l"
  shows "confined r f p l"
proof -
  have l: "validLogicalPath p" "lr_readlink r p = Inr (sl_target l)" "\<not> filepath_IsAbs (sl_target l)"
    "filepath_Dir (resolved_link (sn_snapshotPath f) p (sl_target l)) = sn_blobsPath f"
    "sl_blob l = filepath_Base (resolved_link (sn_snapshotPath f) p (sl_target l))"
    "validHexName (sl_blob l)" "lr_blob r (sl_blob l) = Inr (sl_blobInfo l)" "mode_regular (fi_mode (sl_blobInfo l))"
    using assms(2) by (auto simp: classifyLink_def Let_def split: if_splits sum.splits)
  let ?x = "filepath_Join (filepath_Join (sn_snapshotPath f) (filepath_Dir p)) (sl_target l)"
  let ?q = "resolved_link (sn_snapshotPath f) p (sl_target l)"
  have q: "filepath_Clean ?x = ?q" by (simp only: resolved_link_def)
  have x: "filepath_IsAbs ?x" by (intro Join_abs assms(1))
  have "filepath_Base ?q \<noteq> [slash]" using l(6) unfolding l(5) validHexName_def by auto
  note eq = Clean_abs_split [OF x, unfolded q, OF this, unfolded l(4) l(5) [symmetric]]
  show ?thesis unfolding confined_def by (intro conjI l(1-3) eq l(6-8))
qed

definition links_ok :: "link_replies \<Rightarrow> snapshotFS \<Rightarrow> string set \<Rightarrow> bool" where
  "links_ok r f ps \<longleftrightarrow>
     filepath_IsAbs (sn_snapshotPath f) \<and> fst ` set (sn_links f) = ps \<and>
     (\<forall>p l. map_of (sn_links f) p = Some l \<longrightarrow> confined r f p l)"

lemma classify_loop_links:
  "classify_loop ctx r f n ps = (Inr f', n') \<Longrightarrow> links_ok r f qs \<Longrightarrow>
     links_ok r f' (qs \<union> set ps) \<and> sn_snapshotPath f' = sn_snapshotPath f \<and> sn_blobsPath f' = sn_blobsPath f"
proof (induction ctx r f n ps arbitrary: qs rule: classify_loop.induct)
  case (2 ctx r f n p ps)
  obtain l where l: "ctx n = None" "classifyLink r f p = Inr l" using 2(2) by (auto split: option.splits sum.splits)
  let ?f = "f\<lparr>sn_links := AList.update p l (sn_links f)\<rparr>"
  have "confined r f p l" using 2(3) l(2) by (auto simp: links_ok_def intro: classifyLink_confined)
  then have "links_ok r ?f (insert p qs)"
    using 2(3) by (auto simp: links_ok_def confined_def update_conv' dom_update split: if_splits)
  with 2(1) [OF l, of "insert p qs"] 2(2) l show ?case by simp
qed simp

lemma openSnapshot_links:
  assumes "filepath_IsAbs path" and "openSnapshot ctx n r path links = (Inr f, n', events)"
  shows "links_ok (sr_links r) f (set links) \<and> sn_blobsPath f = filepath_Join (filepath_Dir (filepath_Dir path)) ''blobs''"
proof -
  let ?f = "\<lparr>sn_snapshotPath = path, sn_blobsPath = filepath_Join (filepath_Dir (filepath_Dir path)) ''blobs'', sn_links = []\<rparr>"
  have "open_blobs ctx n r path links = (Inr f, n', events)"
    using assms(2) by (auto simp: openSnapshot_def Let_def split: if_splits option.splits)
  then have c: "classify_loop ctx (sr_links r) ?f n links = (Inr f, n')"
    by (auto simp: open_blobs_def split: prod.splits option.splits sum.splits)
  have "links_ok (sr_links r) ?f {}" using assms(1) by (simp add: links_ok_def)
  from classify_loop_links [OF c this] show ?thesis by simp
qed

lemma currentLink_same:
  "currentLink now f p = Inr l \<Longrightarrow> map_of (sn_links f) p = Some l \<and> lr_readlink now p = Inr (sl_target l) \<and>
     lr_blob now (sl_blob l) = Inr (sl_blobInfo l)"
  by (auto simp: currentLink_def sameFileIdentity_def split: option.splits sum.splits if_splits)

text \<open>What the file system of a snapshot may open, if the snapshot answers \<open>now\<close>.\<close>

definition may_open :: "link_replies \<Rightarrow> link_replies \<Rightarrow> (string \<Rightarrow> go_error + bool) \<Rightarrow> snapshotFS \<Rightarrow> string \<Rightarrow> opened \<Rightarrow> bool" where
  "may_open r now lstat f name o' \<longleftrightarrow>
     fs_ValidPath name \<and> \<not> has_backslash name \<and>
     (case o' of
        FromSnapshot p \<Rightarrow> p = name \<and> lstat name = Inr False
      | FromBlobs blob \<Rightarrow> lstat name = Inr True \<and>
          (\<exists>l. sl_blob l = blob \<and> confined r f name l \<and> confined now f name l))"

text \<open>
  C28: The file system of a snapshot never leaves the snapshot. Once the links of a snapshot
  have been classified, exactly they are known; whatever the directory answers later, an entry
  that is not a link is opened in the snapshot itself, and a link is opened only if it was
  classified, still has the same target, and its target still names the same regular file: the
  blob that its target resolves to, a file of hexadecimal name directly in the blobs directory
  of the repository. Everything else is refused.
\<close>

theorem snapshot_Open_confined:
  assumes "filepath_IsAbs path" and "openSnapshot ctx n r path links = (Inr f, n', events)"
  shows "fst ` set (sn_links f) = set links \<and>
    sn_blobsPath f = filepath_Join (filepath_Dir (filepath_Dir path)) ''blobs'' \<and>
    (case snapshot_Open now lstat f name of
       Inl e \<Rightarrow> True
     | Inr o' \<Rightarrow> may_open (sr_links r) now lstat f name o')"
proof -
  note links = openSnapshot_links [OF assms]
  have "may_open (sr_links r) now lstat f name o'" if o: "snapshot_Open now lstat f name = Inr o'" for o'
  proof (cases "lstat name = Inr True")
    case True
    then obtain l where "currentLink now f name = Inr l" "o' = FromBlobs (sl_blob l)"
      "fs_ValidPath name" "\<not> has_backslash name"
      using o by (auto simp: snapshot_Open_def split: if_splits sum.splits)
    with currentLink_same [of now f name l] links True show ?thesis
      by (auto simp: may_open_def links_ok_def confined_def)
  next
    case False
    with o show ?thesis by (auto simp: snapshot_Open_def may_open_def split: if_splits sum.splits)
  qed
  with links show ?thesis by (auto simp: links_ok_def split: sum.split)
qed

text \<open>A snapshot with one link.\<close>

definition sample_hex :: string where "sample_hex = replicate 40 CHR ''0''"

definition sample_snapshot_path :: string where "sample_snapshot_path = ''/hub/models--a--b/snapshots/'' @ sample_hex"

definition snapshot_sample :: snapshot_replies where
  "snapshot_sample =
     \<lparr>sr_goos = ''linux'', sr_goarch = ''amd64'', sr_repository = Inr True, sr_snapshots = Inr True,
      sr_blobs = \<lparr>rr_lstat = Inr True, rr_open = None, rr_stat = Inr True\<rparr>,
      sr_links = \<lparr>lr_readlink = (\<lambda>p. Inr (''../../blobs/'' @ sample_hex)),
                  lr_blob = (\<lambda>b. Inr \<lparr>fi_mode = 420, fi_size = 3, fi_modTime = 0, fi_file = 7\<rparr>)\<rparr>,
      sr_closing = (\<lambda>h. None)\<rparr>"

definition sample_snapshot :: snapshotFS where
  "sample_snapshot =
     \<lparr>sn_snapshotPath = sample_snapshot_path, sn_blobsPath = ''/hub/models--a--b/blobs'',
      sn_links = [(''model.onnx'', \<lparr>sl_target = ''../../blobs/'' @ sample_hex, sl_blob = sample_hex,
        sl_blobInfo = \<lparr>fi_mode = 420, fi_size = 3, fi_modTime = 0, fi_file = 7\<rparr>\<rparr>)]\<rparr>"

lemma sample_snapshot_opens:
  "filepath_IsAbs sample_snapshot_path"
  "openSnapshot (\<lambda>n. None) 0 snapshot_sample sample_snapshot_path [''model.onnx''] = (Inr sample_snapshot, 1, [OpenedRoot 1])"
  "snapshot_Open (sr_links snapshot_sample) (\<lambda>p. Inr True) sample_snapshot ''model.onnx'' = Inr (FromBlobs sample_hex)"
  by code_simp+
theorem snapshot_Open_confined_witness:
  "may_open (sr_links snapshot_sample) (sr_links snapshot_sample) (\<lambda>p. Inr True) sample_snapshot ''model.onnx''
     (FromBlobs sample_hex)"
  using snapshot_Open_confined [OF sample_snapshot_opens(1,2), where now = "sr_links snapshot_sample" and
      lstat = "\<lambda>p. Inr True" and name = "''model.onnx''"] sample_snapshot_opens(3) by simp

end
