(* ===== verification/Laya_Backend.thy ===== *)
theory Laya_Backend
  imports Laya_Native Laya_Coordinator Laya_Snapshot Laya_Tensor
begin

text \<open>
  \<open>native_backend_enabled.go\<close> without its tensors (\<open>Laya_Tensor\<close>): the verification of the ONNX
  Runtime library that may be loaded, the creation of an engine for it, and a session's run up
  to and around the cancelable call of \<open>Laya_NativeRun\<close>. ONNX Runtime is third-party code: what
  it answers is an argument.
\<close>

subsection \<open>The library\<close>

definition nativeLibraryEnvironment :: string where "nativeLibraryEnvironment = ''LAYA_ONNXRUNTIME_LIBRARY''"
definition nativeTelemetryEnvironment :: string where "nativeTelemetryEnvironment = ''ORT_DISABLE_TELEMETRY''"
definition nativeLibrarySize :: int where "nativeLibrarySize = 28497752"
definition nativeLibrarySHA256 :: string where
  "nativeLibrarySHA256 = ''5715f06d8992ca8eeeddcce43df3a7d38f97d537052126f558e912cb312460ca''"

text \<open>What opening a path answers, whether it is a regular file, its size, and the reads of it.\<close>

record artifact =
  af_stat :: "go_error + (bool \<times> int)"
  af_reads :: "read_reply list"

abbreviation artifact_error :: "string \<Rightarrow> go_error \<Rightarrow> go_error" where
  "artifact_error stage e \<equiv> newInferenceStageError (Sentinel ErrNativeUnavailable) stage (Some e)"

text \<open>The reads are finite; after them the file ends. The \<open>n\<close>-th question to the context is \<open>ctx n\<close>.\<close>

fun artifact_loop :: "(nat \<Rightarrow> go_error option) \<Rightarrow> nat \<Rightarrow> read_reply list \<Rightarrow> string \<Rightarrow> go_error + string" where
  "artifact_loop ctx n [] content = (case ctx n of Some e \<Rightarrow> Inl e | None \<Rightarrow> Inr content)"
| "artifact_loop ctx n (r # rs) content =
     (case ctx n of Some e \<Rightarrow> Inl e
      | None \<Rightarrow>
          (case r of
             ReadEOF c \<Rightarrow> Inr (content @ c)
           | ReadFail c e \<Rightarrow> Inl (artifact_error ''read ONNX Runtime artifact'' e)
           | Read c \<Rightarrow>
               if c = [] then Inl (artifact_error ''read ONNX Runtime artifact'' (Sentinel IoErrNoProgress))
               else artifact_loop ctx (Suc n) rs (content @ c)))"

definition resolveNativeEnvironmentKey ::
  "(string \<Rightarrow> string) \<Rightarrow> string \<Rightarrow> string \<Rightarrow> (string \<Rightarrow> string) \<Rightarrow> (nat \<Rightarrow> go_error option) \<Rightarrow> (string \<Rightarrow> go_error + artifact)
   \<Rightarrow> envKey res" where
  "resolveNativeEnvironmentKey sha256 goos goarch getenv ctx osOpen =
     (if goos \<noteq> ''linux'' \<or> goarch \<noteq> ''amd64'' then Err (wrap ErrNativeUnavailable ''native candidate requires linux/amd64'')
      else if \<not> nativeTelemetryDisabled (getenv nativeTelemetryEnvironment)
      then Err (wrap ErrNativeUnavailable ''telemetry must be set before native initialization'')
      else let path = getenv nativeLibraryEnvironment in
      if path = '''' then Err (wrap ErrNativeUnavailable ''library is not set'')
      else if \<not> filepath_IsAbs path then Err (wrap ErrNativeUnavailable ''library must be an absolute local path'')
      else let path = filepath_Clean path in
      case osOpen path of
        Inl e \<Rightarrow> Err (artifact_error ''open ONNX Runtime artifact'' e)
      | Inr file \<Rightarrow>
     (case af_stat file of
        Inl e \<Rightarrow> Err (artifact_error ''inspect ONNX Runtime artifact'' e)
      | Inr (regular, bytes) \<Rightarrow>
          if \<not> regular \<or> bytes \<noteq> nativeLibrarySize
          then Err (wrap ErrNativeUnavailable ''ONNX Runtime artifact identity does not match'')
          else (case artifact_loop ctx 0 (af_reads file) [] of
                  Inl e \<Rightarrow> Err e
                | Inr content \<Rightarrow>
                    if sha256 content \<noteq> nativeLibrarySHA256
                    then Err (wrap ErrNativeUnavailable ''ONNX Runtime artifact identity does not match'')
                    else Ok \<lparr>ek_libraryPath = path, ek_librarySHA256 = sha256 content\<rparr>)))"

subsection \<open>The environment and the engine\<close>

text \<open>\<open>onnxRuntimeEnvironment\<close>, over what initialisation, telemetry and destruction answer.\<close>

definition environment_Initialize :: "go_error option \<Rightarrow> go_error option \<Rightarrow> go_error option \<Rightarrow> go_error option" where
  "environment_Initialize initialize telemetry destroy =
     (case initialize of Some e \<Rightarrow> Some e
      | None \<Rightarrow> (case telemetry of Some e \<Rightarrow> errors_join [Some e, destroy] | None \<Rightarrow> None))"

datatype destroy_reply = Destroyed | NotInitialized | DestroyFailed go_error

definition environment_Destroy :: "destroy_reply \<Rightarrow> go_error option" where
  "environment_Destroy r = (case r of DestroyFailed e \<Rightarrow> Some e | _ \<Rightarrow> None)"

text \<open>
  \<open>newNativeRuntimeEngine\<close>: the key is resolved (its outcome is an argument) and a lease taken.
  \<open>lease\<close> names the new lease, \<open>sequence\<close> is the process-wide counter.
\<close>

definition newNativeRuntimeEngine ::
  "go_ctx \<Rightarrow> go_error option \<Rightarrow> envKey res \<Rightarrow> nat \<Rightarrow> env_reply \<Rightarrow> nat \<Rightarrow> 64 word \<Rightarrow> coordinator
   \<Rightarrow> runtimeEngine res \<times> coordinator \<times> env_call list \<times> 64 word" where
  "newNativeRuntimeEngine ctx late resolved env reply lease sequence c =
     (case resolved of
        Err e \<Rightarrow> (Err e, c, [], sequence)
      | Panic \<Rightarrow> (Panic, c, [], sequence)
      | Ok key \<Rightarrow>
          (case coordinator_acquire ctx late key (Some env) reply c of
             (Ok _, c', calls) \<Rightarrow>
               (Ok \<lparr>re_factory = True, re_lease = Some lease,
                    re_runtimeID = ''laya-native-'' @ show_nat (unat (sequence + 1)), re_closed = False\<rparr>,
                c', calls, sequence + 1)
           | (Err e, c', calls) \<Rightarrow> (Err e, c', calls, sequence)
           | (Panic, c', calls) \<Rightarrow> (Panic, c', calls, sequence)))"

text \<open>The factory of production: the context is checked before a source is opened.\<close>

definition open_source :: "go_ctx \<Rightarrow> 'a res \<Rightarrow> 'a res" where
  "open_source ctx opened = check_then (validateContext ctx) opened"

subsection \<open>A run of a session\<close>

record local_call =
  lc_inputs :: "ort_value option list"
  lc_outputs :: "ort_value option list"
  lc_rows :: nat
  lc_markerWidth :: nat

text \<open>
  \<open>localSessionResource.Run\<close> up to the call it hands to \<open>executeCancelableNativeCall\<close>; the second
  component are the values it destroyed.
\<close>

definition session_begin ::
  "(ort_value \<Rightarrow> go_error option) \<Rightarrow> (ort_value \<Rightarrow> go_error option) \<Rightarrow> go_error option \<Rightarrow> go_error option \<Rightarrow> preparedBatch
   \<Rightarrow> local_call res \<times> ort_value list" where
  "session_begin newTensor destroy ctxErr newRunOptions b =
     (case preparedTensorDimensions b of
        Err e \<Rightarrow> (Err e, [])
      | Panic \<Rightarrow> (Panic, [])
      | Ok (rows, sequenceWidth, markerWidth) \<Rightarrow>
     (case ctxErr of Some e \<Rightarrow> (Err e, [])
      | None \<Rightarrow>
     (case newORTInputs newTensor destroy b rows sequenceWidth markerWidth of
        (Err e, gone) \<Rightarrow> (Err e, gone)
      | (Panic, gone) \<Rightarrow> (Panic, gone)
      | (Ok inputs, gone) \<Rightarrow>
          (case newRunOptions of
             Some e \<Rightarrow>
               (case destroyORTValues destroy (map Some inputs) of
                  (err, gone') \<Rightarrow>
                    (Err (newInferenceStageError (Sentinel ErrNativeFailure) ''allocate ONNX run options'' (errors_join [Some e, err])),
                     gone @ gone'))
           | None \<Rightarrow> (Ok \<lparr>lc_inputs = map Some inputs, lc_outputs = [None, None], lc_rows = rows, lc_markerWidth = markerWidth\<rparr>, gone)))))"

text \<open>\<open>localNativeCall.Execute\<close>: the runtime answers an error or not, and fills the outputs.\<close>

definition call_Execute :: "go_error option \<Rightarrow> ort_value option list \<Rightarrow> local_call \<Rightarrow> rawModelOutputs res \<times> local_call" where
  "call_Execute run filled c =
     (let c' = c\<lparr>lc_outputs := filled\<rparr>
      in (case run of Some e \<Rightarrow> Err e | None \<Rightarrow> copyORTOutputs filled (lc_rows c) (lc_markerWidth c), c'))"

text \<open>
  \<open>localNativeCall.Close\<close>, once: the values destroyed, in order, and the call without them.
\<close>

definition call_Close ::
  "(ort_value \<Rightarrow> go_error option) \<Rightarrow> go_error option \<Rightarrow> local_call \<Rightarrow> go_error option \<times> ort_value list \<times> local_call" where
  "call_Close destroy destroyOptions c =
     (case destroyORTValues destroy (lc_outputs c) of
        (outputErr, gone) \<Rightarrow>
          (case destroyORTValues destroy (lc_inputs c) of
             (inputErr, gone') \<Rightarrow>
               (errors_join [outputErr, destroyOptions, inputErr], gone @ gone',
                c\<lparr>lc_outputs := map (\<lambda>_. None) (lc_outputs c), lc_inputs := map (\<lambda>_. None) (lc_inputs c)\<rparr>)))"

subsection \<open>Properties\<close>

lemma artifact_loop_Inr: "artifact_loop ctx n rs c = Inr d \<Longrightarrow> \<exists>d'. content_of rs = Some d' \<and> d = c @ d'"
  by (induction ctx n rs c rule: artifact_loop.induct) (auto split: option.splits read_reply.splits if_splits)

lemma artifact_loop_Inl:
  "artifact_loop ctx n rs c = Inl e \<Longrightarrow> errors_is e ErrNativeUnavailable \<or> (\<exists>n. ctx n = Some e)"
  by (induction ctx n rs c rule: artifact_loop.induct) (auto split: option.splits read_reply.splits if_splits)

text \<open>
  C35: The native library that may be loaded is the reviewed one. A key names the cleaned absolute
  path of the environment, which answered as a regular file of the reviewed size whose whole
  content has the reviewed digest, on the supported platform and with telemetry off; it is
  never incomplete, so that the coordinator accepts it. Everything else is refused as
  unavailable, or with the error of a context that ended.
\<close>

theorem resolveNativeEnvironmentKey_verified:
  "case resolveNativeEnvironmentKey sha256 goos goarch getenv ctx osOpen of
     Ok key \<Rightarrow> goos = ''linux'' \<and> goarch = ''amd64'' \<and> nativeTelemetryDisabled (getenv nativeTelemetryEnvironment) \<and>
       filepath_IsAbs (getenv nativeLibraryEnvironment) \<and>
       ek_libraryPath key = filepath_Clean (getenv nativeLibraryEnvironment) \<and> filepath_IsAbs (ek_libraryPath key) \<and>
       (\<exists>file content. osOpen (ek_libraryPath key) = Inr file \<and> af_stat file = Inr (True, nativeLibrarySize) \<and>
          content_of (af_reads file) = Some content \<and> sha256 content = nativeLibrarySHA256) \<and>
       ek_librarySHA256 key = nativeLibrarySHA256 \<and> ek_librarySHA256 key \<noteq> ''''
   | Err e \<Rightarrow> errors_is e ErrNativeUnavailable \<or> (\<exists>n. ctx n = Some e)
   | Panic \<Rightarrow> False"
proof -
  have abs: "filepath_IsAbs (filepath_Clean p)" if "filepath_IsAbs p" for p
    using that by (simp add: filepath_Clean_def filepath_IsAbs_def Let_def)
  have digest: "nativeLibrarySHA256 \<noteq> ''''" by (simp add: nativeLibrarySHA256_def)
  show ?thesis
    unfolding resolveNativeEnvironmentKey_def Let_def
    by (auto simp: abs digest split: sum.split prod.split dest: artifact_loop_Inr artifact_loop_Inl)
qed

text \<open>What a session allocated before its call.\<close>

definition session_created :: "(ort_value \<Rightarrow> go_error option) \<Rightarrow> go_error option \<Rightarrow> preparedBatch \<Rightarrow> ort_value list" where
  "session_created newTensor ctxErr b =
     (case preparedTensorDimensions b of
        Ok (rows, w, k) \<Rightarrow> if ctxErr = None then takeWhile (\<lambda>t. newTensor t = None) (input_tensors b rows w k) else []
      | _ \<Rightarrow> [])"

lemma newORTInputs_cases:
  assumes "newORTInputs newTensor destroy b rows w k = (r, gone)"
  shows "(r = Ok (input_tensors b rows w k) \<and> gone = [] \<and>
      takeWhile (\<lambda>t. newTensor t = None) (input_tensors b rows w k) = input_tensors b rows w k) \<or>
    (\<exists>e. r = Err e \<and> gone = rev (takeWhile (\<lambda>t. newTensor t = None) (input_tensors b rows w k)))"
  using add_tensors_cases [OF assms [unfolded newORTInputs_def]]
  by (auto simp: takeWhile_eq_all_conv takeWhile_append2)

lemma preparedTensorDimensions_no_panic: "preparedTensorDimensions b \<noteq> Panic"
  by (simp add: preparedTensorDimensions_def Let_def)

lemma somes_all_Some: "somes (map Some xs) = xs"
  by (induction xs) simp_all

lemma somes_all_None: "somes (map (\<lambda>_. None) ys) = []"
  by (induction ys) simp_all

text \<open>
  C36: A run of a session loses no native value. If it fails before the call, everything it
  had allocated was destroyed, each value once, the last first; otherwise nothing was, the call
  holds the five input tensors, and closing it, whatever the runtime put into the outputs and
  whatever the destructions report, destroys every output and every input once and leaves
  none in the call.
\<close>

theorem session_ownership:
  "case session_begin newTensor destroy ctxErr newRunOptions b of
     (Err e, gone) \<Rightarrow> gone = rev (session_created newTensor ctxErr b)
   | (Ok call, gone) \<Rightarrow> gone = [] \<and> somes (lc_inputs call) = session_created newTensor ctxErr b \<and>
       length (lc_inputs call) = 5 \<and>
       (case call_Close destroy' destroyOptions (snd (call_Execute run filled call)) of
          (err, freed, call') \<Rightarrow> freed = rev (somes filled) @ rev (session_created newTensor ctxErr b) \<and>
            somes (lc_inputs call') = [] \<and> somes (lc_outputs call') = [])
   | (Panic, gone) \<Rightarrow> False"
proof (cases "preparedTensorDimensions b")
  case (Ok d)
  obtain rows w k where d: "d = (rows, w, k)" by (cases d)
  have five: "length (input_tensors b rows w k) = 5" by (simp add: input_tensors_def Let_def)
  show ?thesis
  proof (cases ctxErr)
    case None
    obtain r gone where n: "newORTInputs newTensor destroy b rows w k = (r, gone)" by fastforce
    from newORTInputs_cases [OF n] show ?thesis
    proof (elim disjE conjE exE)
      assume r: "r = Ok (input_tensors b rows w k)" "gone = []"
        and all: "takeWhile (\<lambda>t. newTensor t = None) (input_tensors b rows w k) = input_tensors b rows w k"
      obtain err gone' where g: "destroyORTValues destroy (map Some (input_tensors b rows w k)) = (err, gone')" by fastforce
      have "gone' = rev (input_tensors b rows w k)"
        using destroyORTValues_gone [of destroy "map Some (input_tensors b rows w k)"] by (simp add: g somes_all_Some)
      then show ?thesis
        using destroyORTValues_gone [of destroy']
        by (simp add: session_begin_def Ok d None n r g session_created_def all five somes_all_Some somes_all_None comp_def
            call_Close_def call_Execute_def Let_def split_beta split: option.split)
    qed (simp add: session_begin_def Ok d None n session_created_def)
  qed (simp add: session_begin_def Ok d session_created_def)
qed (simp_all add: session_begin_def session_created_def preparedTensorDimensions_no_panic)

end
