(* ===== verification/Laya_EmbedProbe.thy ===== *)
theory Laya_EmbedProbe
  imports Laya_Snapshot
begin

text \<open>
  The command \<open>tools/embedprobe\<close>: it verifies a local bundle, copies it with \<open>filepath.WalkDir\<close>
  into a private directory, writes a Go module around the copy and runs \<open>go test\<close> there.
  The source tree comes with the answers of the operating system at each node; the text of
  the generated test is not modelled.
\<close>

subsection \<open>The copy\<close>

text \<open>One file: its content, and where \<open>io.Copy\<close> stops short, after how many bytes and why.\<close>

record file_copy =
  fc_open :: "go_error option"
  fc_create :: "go_error option"
  fc_content :: string
  fc_stop :: "(nat \<times> go_error) option"
  fc_closeOut :: "go_error option"
  fc_closeIn :: "go_error option"

text \<open>
  What \<open>Lstat\<close> and \<open>ReadDir\<close> answer: a directory has the answer of \<open>os.Mkdir\<close> for its copy, its
  entries in the order of their names and the error of its reading.
\<close>

datatype probe_node =
    ProbeFile file_type file_copy
  | ProbeDir "go_error option" probe_entries "go_error option"
and probe_entries = NoMore | ProbeEntry string probe_node probe_entries

datatype copy_event =
    MadeDirectory string
  | InputOpened string | InputClosed string
  | OutputCreated string | OutputHolds string string | OutputClosed string

definition io_copied :: "file_copy \<Rightarrow> string" where
  "io_copied f = (case fc_stop f of None \<Rightarrow> fc_content f | Some (n, e) \<Rightarrow> take n (fc_content f))"

definition copy_file :: "string \<Rightarrow> string \<Rightarrow> file_copy \<Rightarrow> go_error option \<times> copy_event list" where
  "copy_file path target f =
     (case fc_open f of Some e \<Rightarrow> (Some e, [])
      | None \<Rightarrow>
          (case (case fc_create f of Some e \<Rightarrow> (Some e, [])
                 | None \<Rightarrow> (errors_join [map_option snd (fc_stop f), fc_closeOut f],
                            [OutputCreated target, OutputHolds target (io_copied f), OutputClosed target])) of
             (err, events) \<Rightarrow>
               (errors_join [err, fc_closeIn f], InputOpened path # events @ [InputClosed path])))"

definition hidden_name :: "string \<Rightarrow> bool" where
  "hidden_name name \<longleftrightarrow> take 1 name = ''.''"

text \<open>
  The callback and the walk below the root. The relative path is the list of names on the way;
  for names that \<open>ReadDir\<close> returns, \<open>filepath.Rel\<close> gives them joined by slashes and never fails.
  An error, of the callback or of reading a directory, ends the walk.
\<close>

fun copy_node :: "string \<Rightarrow> string \<Rightarrow> string list \<Rightarrow> string \<Rightarrow> probe_node \<Rightarrow> go_error option \<times> copy_event list"
  and copy_entries :: "string \<Rightarrow> string \<Rightarrow> string list \<Rightarrow> probe_entries \<Rightarrow> go_error option \<times> copy_event list" where
  "copy_node source destination rel name (ProbeFile ty f) =
     (let relative = join_slash (rel @ [name])
      in if ty \<noteq> Regular \<or> hidden_name name
         then (Some (Errorf ''embedded probe requires ordinary non-hidden bundle files'' []), [])
         else copy_file (filepath_Join source relative) (filepath_Join destination relative) f)"
| "copy_node source destination rel name (ProbeDir mkdir es readErr) =
     (case mkdir of Some e \<Rightarrow> (Some e, [])
      | None \<Rightarrow>
          (let made = MadeDirectory (filepath_Join destination (join_slash (rel @ [name]))) in
           case readErr of Some e \<Rightarrow> (Some e, [made])
           | None \<Rightarrow> (case copy_entries source destination (rel @ [name]) es of (err, events) \<Rightarrow> (err, made # events))))"
| "copy_entries source destination rel NoMore = (None, [])"
| "copy_entries source destination rel (ProbeEntry name n es) =
     (case copy_node source destination rel name n of
        (Some e, events) \<Rightarrow> (Some e, events)
      | (None, events) \<Rightarrow>
          (case copy_entries source destination rel es of (err, events') \<Rightarrow> (err, events @ events')))"

text \<open>The callback leaves the root alone; only a directory is then read.\<close>

definition copyBundle ::
  "string \<Rightarrow> string \<Rightarrow> go_error option \<Rightarrow> go_error + probe_node \<Rightarrow> go_error option \<times> copy_event list" where
  "copyBundle source destination mkdir found =
     (case mkdir of Some e \<Rightarrow> (Some e, [])
      | None \<Rightarrow>
          (case (case found of
                   Inl e \<Rightarrow> (Some e, [])
                 | Inr (ProbeFile ty f) \<Rightarrow> (None, [])
                 | Inr (ProbeDir m es (Some e)) \<Rightarrow> (Some e, [])
                 | Inr (ProbeDir m es None) \<Rightarrow> copy_entries source destination [] es) of
             (err, events) \<Rightarrow> (err, MadeDirectory destination # events)))"

subsection \<open>The command\<close>

record probe_replies =
  pb_bundleDir :: string
  pb_workDir :: string
  pb_dirFS :: "string \<Rightarrow> go_error + fsys"
  pb_statWork :: "go_error + bool"
  pb_mkdirTemp :: "go_error + string"
  pb_mkdirBundle :: "go_error option"
  pb_tree :: "go_error + probe_node"
  pb_getwd :: "go_error + string"
  pb_statModule :: "go_error option"
  pb_writeModule :: "string \<Rightarrow> go_error option"
  pb_writeTest :: "go_error option"
  pb_race :: string
  pb_command :: "string list \<Rightarrow> go_error option"
  pb_removeAll :: "go_error option"

datatype probe_event =
    MadeTemp string | RemovedAll string | BundleCopy "copy_event list"
  | WroteModule string | WroteTest | RanGo "string list"

definition newline :: string where "newline = [CHR 0x0A]"

definition module_text :: "string \<Rightarrow> string" where
  "module_text repository =
     ''module example.com/laya-embedprobe'' @ newline @ newline @ ''go 1.26.6'' @ newline @ newline @
     ''require github.com/metalagman/laya-go v0.0.0'' @ newline @ newline @
     ''replace github.com/metalagman/laya-go => '' @ repository @ newline"

definition test_arguments :: "string \<Rightarrow> string list" where
  "test_arguments race =
     (let arguments = [''test'', ''-mod=mod'', ''-tags=laya_native'', ''-count=1'', ''-v'', ''./...'']
      in if race = ''1'' then [''test'', ''-race''] @ tl arguments else arguments)"

text \<open>From the copy on, inside the private directory.\<close>

definition probe_inside :: "probe_replies \<Rightarrow> string \<Rightarrow> go_error option \<times> probe_event list" where
  "probe_inside w tmp =
     (case copyBundle (pb_bundleDir w) (filepath_Join tmp ''bundle'') (pb_mkdirBundle w) (pb_tree w) of
        (Some e, copy) \<Rightarrow> (Some e, [BundleCopy copy])
      | (None, copy) \<Rightarrow>
     (case pb_getwd w of Inl e \<Rightarrow> (Some e, [BundleCopy copy])
      | Inr repository \<Rightarrow>
     (case pb_statModule w of
        Some e \<Rightarrow> (Some (Errorf ''run embedprobe from the repository root'' [e]), [BundleCopy copy])
      | None \<Rightarrow>
     (let text = module_text repository in
      case pb_writeModule w text of Some e \<Rightarrow> (Some e, [BundleCopy copy])
      | None \<Rightarrow>
     (case pb_writeTest w of Some e \<Rightarrow> (Some e, [BundleCopy copy, WroteModule text])
      | None \<Rightarrow>
          (let arguments = test_arguments (pb_race w)
           in (map_option (\<lambda>e. Errorf ''run native embed.FS probe'' [e]) (pb_command w arguments),
               [BundleCopy copy, WroteModule text, WroteTest, RanGo arguments])))))))"

definition probe_run :: "parse_env \<Rightarrow> probe_replies \<Rightarrow> go_error option res \<times> probe_event list" where
  "probe_run env w =
     (if \<not> filepath_IsAbs (pb_bundleDir w) \<or> \<not> filepath_IsAbs (pb_workDir w)
      then (Ok (Some (Opaque ''LAYA_BUNDLE_DIR and LAYA_EMBED_WORKDIR must be absolute existing directories'')), [])
      else case Verify env (Some (\<lambda>n. None)) (Some (pb_dirFS w)) ''.'' of
             Panic \<Rightarrow> (Panic, [])
           | Err e \<Rightarrow> (Ok (Some (Errorf ''verify supplied bundle'' [e])), [])
           | Ok m \<Rightarrow>
     (case pb_statWork w of
        Inl e \<Rightarrow> (Ok (Some (Errorf ''inspect embedded probe work directory'' [e])), [])
      | Inr isDir \<Rightarrow>
          if \<not> isDir then (Ok (Some (Opaque ''embedded probe work path is not a directory'')), [])
          else case pb_mkdirTemp w of
                 Inl e \<Rightarrow> (Ok (Some (Errorf ''create private embedded probe directory'' [e])), [])
               | Inr tmp \<Rightarrow>
                   (case probe_inside w tmp of
                      (err, events) \<Rightarrow>
                        (Ok (errors_join [err, pb_removeAll w]), MadeTemp tmp # events @ [RemovedAll tmp]))))"

definition probe_main :: "parse_env \<Rightarrow> probe_replies \<Rightarrow> int res" where
  "probe_main env w = res_bind (fst (probe_run env w)) (\<lambda>err. Ok (if err = None then 0 else 1))"

subsection \<open>What the copy holds\<close>

text \<open>
  Specifications: the tree in the order of the walk, with the content of its files; what the
  destination holds after some events; and a monitor on which handles are closed in the
  reverse order of their opening.
\<close>

fun node_listing :: "string list \<Rightarrow> string \<Rightarrow> probe_node \<Rightarrow> (string list \<times> string option) list"
  and entries_listing :: "string list \<Rightarrow> probe_entries \<Rightarrow> (string list \<times> string option) list" where
  "node_listing rel name (ProbeFile ty f) = [(rel @ [name], Some (fc_content f))]"
| "node_listing rel name (ProbeDir m es r) = (rel @ [name], None) # entries_listing (rel @ [name]) es"
| "entries_listing rel NoMore = []"
| "entries_listing rel (ProbeEntry name n es) = node_listing rel name n @ entries_listing rel es"

fun ordinary_node :: "string \<Rightarrow> probe_node \<Rightarrow> bool" and ordinary_entries :: "probe_entries \<Rightarrow> bool" where
  "ordinary_node name (ProbeFile ty f) \<longleftrightarrow> ty = Regular \<and> \<not> hidden_name name"
| "ordinary_node name (ProbeDir m es r) \<longleftrightarrow> ordinary_entries es"
| "ordinary_entries NoMore \<longleftrightarrow> True"
| "ordinary_entries (ProbeEntry name n es) \<longleftrightarrow> ordinary_node name n \<and> ordinary_entries es"

fun destination_of :: "copy_event list \<Rightarrow> (string \<times> string option) list" where
  "destination_of [] = []"
| "destination_of (MadeDirectory p # es) = (p, None) # destination_of es"
| "destination_of (OutputHolds p c # es) = (p, Some c) # destination_of es"
| "destination_of (_ # es) = destination_of es"

fun copy_handles :: "copy_event list \<Rightarrow> (bool \<times> string) list \<Rightarrow> (bool \<times> string) list option" where
  "copy_handles [] st = Some st"
| "copy_handles (InputOpened p # es) st = copy_handles es ((False, p) # st)"
| "copy_handles (OutputCreated p # es) st = copy_handles es ((True, p) # st)"
| "copy_handles (InputClosed p # es) st = (if st \<noteq> [] \<and> hd st = (False, p) then copy_handles es (tl st) else None)"
| "copy_handles (OutputClosed p # es) st = (if st \<noteq> [] \<and> hd st = (True, p) then copy_handles es (tl st) else None)"
| "copy_handles (_ # es) st = copy_handles es st"

definition targets :: "string \<Rightarrow> (string list \<times> string option) list \<Rightarrow> (string \<times> string option) list" where
  "targets destination ls = map (\<lambda>(rel, c). (filepath_Join destination (join_slash rel), c)) ls"

lemma targets_simps [simp]:
  "targets d [] = []" "targets d ((rel, c) # ls) = (filepath_Join d (join_slash rel), c) # targets d ls"
  "targets d (ls @ ls') = targets d ls @ targets d ls'"
  by (simp_all add: targets_def)

lemma destination_of_append [simp]: "destination_of (es @ es') = destination_of es @ destination_of es'"
  by (induction es rule: destination_of.induct) simp_all

lemma copy_handles_append:
  "copy_handles (es @ es') st = (case copy_handles es st of None \<Rightarrow> None | Some st' \<Rightarrow> copy_handles es' st')"
  by (induction es st rule: copy_handles.induct) simp_all

lemma copy_file_ok: "copy_file path target f = (None, events) \<Longrightarrow> destination_of events = [(target, Some (fc_content f))]"
  by (auto simp: copy_file_def io_copied_def errors_join_None_iff split: option.splits prod.splits)

lemma copy_file_handles: "copy_handles (snd (copy_file path target f)) st = Some st"
  by (auto simp: copy_file_def split: option.splits)

lemma copy_walk_ok:
  "copy_node s d rel name n = (None, events) \<Longrightarrow>
     ordinary_node name n \<and> destination_of events = targets d (node_listing rel name n)"
  "copy_entries s d rel es = (None, events) \<Longrightarrow>
     ordinary_entries es \<and> destination_of events = targets d (entries_listing rel es)"
proof (induction s d rel name n and s d rel es arbitrary: events and events rule: copy_node_copy_entries.induct)
  case (1 s d rel name ty f)
  then show ?case using copy_file_ok by (auto simp: Let_def split: if_splits)
next
  case (2 s d rel name m es r)
  then show ?case by (fastforce simp: Let_def split: option.splits prod.splits)
next
  case (4 s d rel name n es)
  then show ?case by (fastforce split: option.splits prod.splits)
qed simp

lemma copy_walk_handles:
  "copy_handles (snd (copy_node s d rel name n)) st = Some st"
  "copy_handles (snd (copy_entries s d rel es)) st = Some st"
proof (induction s d rel name n and s d rel es arbitrary: st and st rule: copy_node_copy_entries.induct)
  case (1 s d rel name ty f)
  then show ?case by (simp add: Let_def copy_file_handles)
next
  case (2 s d rel name m es r)
  then show ?case by (auto simp: Let_def split: option.splits prod.splits)
next
  case (4 s d rel name n es)
  then show ?case by (fastforce simp: copy_handles_append split: option.splits prod.splits)
qed simp

text \<open>
  A copy that returns no error of a directory holds exactly the tree below it, in its order and
  byte for byte, and that tree has only ordinary files that are not hidden. With or without an
  error, every file that was opened or created is closed.
\<close>

theorem copyBundle_copies:
  assumes "copyBundle source destination mkdir (Inr (ProbeDir m es readErr)) = (None, events)"
  shows "ordinary_entries es" and "destination_of events = (destination, None) # targets destination (entries_listing [] es)"
  using assms copy_walk_ok(2) by (auto simp: copyBundle_def split: option.splits prod.splits)

theorem copyBundle_closes: "copy_handles (snd (copyBundle source destination mkdir found)) [] = Some []"
proof -
  have "copy_handles events st = Some st" if "copy_entries source destination [] es = (err, events)" for es err events st
    using copy_walk_handles(2) [of source destination "[]" es st] that by simp
  then show ?thesis
    by (auto simp: copyBundle_def split: option.splits sum.splits probe_node.splits prod.splits)
qed

text \<open>
  \<open>filepath.WalkDir\<close> does not follow a symbolic link at its root, and the callback accepts every
  root: the copy of a link to a bundle is an empty directory, without an error, although
  \<open>bundle.Verify\<close>, which follows the link, has accepted the same path.
\<close>

theorem copy_of_link_is_empty:
  "copyBundle source destination None (Inr (ProbeFile (Irregular ''L---------'') f)) = (None, [MadeDirectory destination])"
  by (simp add: copyBundle_def)

subsection \<open>The run\<close>

lemma probe_inside_events:
  "probe_inside w tmp = (err, events) \<Longrightarrow> MadeTemp p \<notin> set events \<and> RemovedAll p \<notin> set events"
  by (auto simp: probe_inside_def Let_def split: option.splits sum.splits prod.splits)

lemma probe_inside_ok:
  assumes "probe_inside w tmp = (None, events)"
  shows "\<exists>copy repository. events = [BundleCopy copy, WroteModule (module_text repository), WroteTest,
      RanGo (test_arguments (pb_race w))] \<and>
    copyBundle (pb_bundleDir w) (filepath_Join tmp ''bundle'') (pb_mkdirBundle w) (pb_tree w) = (None, copy) \<and>
    pb_command w (test_arguments (pb_race w)) = None"
  using assms by (auto simp: probe_inside_def Let_def split: option.splits sum.splits prod.splits)

text \<open>
  The command never panics. Once the private directory is made, \<open>os.RemoveAll\<close> of it is the last
  act, whatever happened in it. Without an error the bundle was verified, the copy and both files were
  written, and the last act before that was a \<open>go test\<close> that passed.
\<close>

theorem probe_run_outcomes:
  assumes "inj (pe_sprint env)" and "traversal (pe_tokenOrder env) 4" and "traversal (pe_temperatureOrder env) 3"
  shows "case probe_run env w of
      (Ok err, events) \<Rightarrow>
        (if events = [] then err \<noteq> None
         else \<exists>tmp inside. events = MadeTemp tmp # inside @ [RemovedAll tmp] \<and>
           (\<forall>p. MadeTemp p \<notin> set inside \<and> RemovedAll p \<notin> set inside) \<and>
           (err = None \<longrightarrow>
              (\<exists>m fs. pb_dirFS w ''.'' = Inr fs \<and> manifest_wf (pe_lower env) m \<and>
                 bundle_exact (pe_sha256 env) fs (mf_Files m)) \<and>
              (\<exists>copy repository. inside = [BundleCopy copy, WroteModule (module_text repository), WroteTest,
                   RanGo (test_arguments (pb_race w))] \<and>
                 copyBundle (pb_bundleDir w) (filepath_Join tmp ''bundle'') (pb_mkdirBundle w) (pb_tree w) = (None, copy) \<and>
                 pb_command w (test_arguments (pb_race w)) = None)))
    | _ \<Rightarrow> False"
proof -
  note v = Verify_total [OF assms, where ctx = "\<lambda>n. None" and sub = "pb_dirFS w" and dir = "''.''"]
  show ?thesis
  proof (cases "\<not> filepath_IsAbs (pb_bundleDir w) \<or> \<not> filepath_IsAbs (pb_workDir w)")
    case False
    show ?thesis
    proof (cases "Verify env (Some (\<lambda>n. None)) (Some (pb_dirFS w)) ''.''")
      case (Ok m)
      with v obtain fs where m: "pb_dirFS w ''.'' = Inr fs" "manifest_wf (pe_lower env) m"
        "bundle_exact (pe_sha256 env) fs (mf_Files m)" by auto
      show ?thesis
      proof (cases "pb_statWork w = Inr True")
        case True
        show ?thesis
        proof (cases "pb_mkdirTemp w")
          case (Inr tmp)
          obtain err inside where inside: "probe_inside w tmp = (err, inside)" by fastforce
          have run: "probe_run env w =
              (Ok (errors_join [err, pb_removeAll w]), MadeTemp tmp # inside @ [RemovedAll tmp])"
            using False Ok True Inr inside by (simp add: probe_run_def)
          have ok: "err = None" if "errors_join [err, pb_removeAll w] = None"
            using that by (simp add: errors_join_None_iff)
          show ?thesis
            using m probe_inside_events [OF inside] probe_inside_ok [of w tmp inside] inside ok
            by (auto simp: run)
        qed (use False Ok True in \<open>simp add: probe_run_def\<close>)
      next
        case stat: False
        with False Ok show ?thesis by (cases "pb_statWork w") (auto simp: probe_run_def)
      qed
    qed (use v False in \<open>auto simp: probe_run_def\<close>)
  qed (simp add: probe_run_def)
qed

end
