(* ===== verification/Laya_ErrorText.thy ===== *)
theory Laya_ErrorText
  imports Laya_Source
begin

text \<open>
  The \<open>Error\<close> methods of \<open>errors.go\<close>, \<open>internal/bundle/errors.go\<close>, \<open>internal/source/source.go\<close>
  and \<open>preprocess.go\<close>: what a failure says of itself. The verbs \<open>%q\<close> and \<open>%T\<close> and the printing
  of durations are Go's and are arguments, as is the text of an error made elsewhere.
\<close>

subsection \<open>Messages\<close>

record text_env =
  te_quote :: "string \<Rightarrow> string"
  te_type :: "go_error \<Rightarrow> string"
  te_duration :: "int \<Rightarrow> string"
  te_other :: "go_error \<Rightarrow> string"

fun sentinel_text :: "(sentinel \<Rightarrow> string) \<Rightarrow> sentinel \<Rightarrow> string" where
  "sentinel_text std ErrInvalidConfig = ''laya: invalid configuration''"
| "sentinel_text std ErrInvalidState = ''laya: invalid state''"
| "sentinel_text std ErrModelsOpen = ''laya: models are open''"
| "sentinel_text std ErrModelClosed = ''laya: model is closed''"
| "sentinel_text std ErrInvalidRequest = ''laya: invalid request''"
| "sentinel_text std ErrInputTooLong = ''laya: input is too long''"
| "sentinel_text std ErrQueueFull = ''laya: queue is full''"
| "sentinel_text std ErrQueueTimeout = ''laya: queue wait timed out''"
| "sentinel_text std ErrInvalidBundle = ''laya: invalid model bundle''"
| "sentinel_text std ErrIntegrity = ''laya: model bundle integrity failure''"
| "sentinel_text std ErrUnsupportedBundle = ''laya: unsupported model bundle''"
| "sentinel_text std ErrUnsupportedSource = ''laya: unsupported model source''"
| "sentinel_text std ErrSourceClosed = ''laya: model source is closed''"
| "sentinel_text std ErrMaterialization = ''laya: model source materialization failure''"
| "sentinel_text std ErrNativeUnavailable = ''laya: native inference is unavailable''"
| "sentinel_text std ErrNativeFailure = ''laya: native inference failure''"
| "sentinel_text std ErrInvalidOutput = ''laya: invalid model output''"
| "sentinel_text std s = std s"

definition ellipsis :: string where
  "ellipsis = [CHR 0xE2, CHR 0x80, CHR 0xA6]"

text \<open>\<open>quoted\<close> and \<open>quote\<close>: at most 128 bytes of a value, then an ellipsis.\<close>

definition quoted :: "text_env \<Rightarrow> string \<Rightarrow> string" where
  "quoted t v = te_quote t (if length v > 128 then take 128 v @ ellipsis else v)"

definition source_quote :: "text_env \<Rightarrow> string \<Rightarrow> string" where
  "source_quote t v = te_quote t (if length v > 128 then take 128 v @ ellipsis else v)"

definition labelled :: "(string \<Rightarrow> string) \<Rightarrow> string \<Rightarrow> string \<Rightarrow> string list" where
  "labelled q label v = (if v \<noteq> '''' then [label @ q v] else [])"

fun joined_by :: "string \<Rightarrow> string list \<Rightarrow> string" where
  "joined_by sep [] = ''''"
| "joined_by sep [s] = s"
| "joined_by sep (s # t # ss) = s @ sep @ joined_by sep (t # ss)"

definition bundle_parts :: "text_env \<Rightarrow> string \<Rightarrow> string \<Rightarrow> string \<Rightarrow> string \<Rightarrow> string \<Rightarrow> go_error option \<Rightarrow> string list" where
  "bundle_parts t kind path field expected observed cause =
     [kind] @ labelled (quoted t) ''path '' path @ labelled (quoted t) ''field '' field @
     labelled (quoted t) ''expected '' expected @ labelled (quoted t) ''observed '' observed @
     (case cause of None \<Rightarrow> [] | Some c \<Rightarrow> [''cause '' @ te_type t c])"

definition source_text :: "text_env \<Rightarrow> string \<Rightarrow> string \<Rightarrow> string \<Rightarrow> go_error option \<Rightarrow> string" where
  "source_text t kind operation path cause =
     kind @ (if operation \<noteq> '''' then '': operation '' @ source_quote t operation else '''') @
     (if path \<noteq> '''' then '': path '' @ source_quote t path else '''') @
     (case cause of None \<Rightarrow> '''' | Some c \<Rightarrow> '': cause '' @ te_type t c)"

definition tooLong_text :: "(sentinel \<Rightarrow> string) \<Rightarrow> int \<Rightarrow> int \<Rightarrow> string option \<Rightarrow> string" where
  "tooLong_text std n limit err =
     sentinel_text std ErrInputTooLong @ '': input tokens '' @ show_int n @ '' exceed limit '' @ show_int limit @
     (case err of None \<Rightarrow> '''' | Some e \<Rightarrow> '': '' @ e)"

definition queue_text :: "text_env \<Rightarrow> (sentinel \<Rightarrow> string) \<Rightarrow> uint8 \<Rightarrow> int \<Rightarrow> int \<Rightarrow> string option \<Rightarrow> string" where
  "queue_text t std kind capacity wait err =
     (case queue_category kind of
        None \<Rightarrow> ''laya: invalid queue failure kind '' @ show_int (uint kind)
      | Some category \<Rightarrow>
          sentinel_text std category @ '': capacity '' @ show_int capacity @ '' after '' @ te_duration t wait @
          (case err of None \<Rightarrow> '''' | Some e \<Rightarrow> '': '' @ e))"

definition stage_text :: "string \<Rightarrow> string \<Rightarrow> string" where
  "stage_text category stage = category @ '': '' @ stage"

text \<open>\<open>Kind\<close> defaults to the invalid bundle, or the unsupported source; \<open>%v\<close> of a cause is its own message.\<close>

fun error_text :: "text_env \<Rightarrow> (sentinel \<Rightarrow> string) \<Rightarrow> go_error \<Rightarrow> string" where
  "error_text t std (Sentinel s) = sentinel_text std s"
| "error_text t std (InputTooLongError n limit None) = tooLong_text std n limit None"
| "error_text t std (InputTooLongError n limit (Some e)) = tooLong_text std n limit (Some (error_text t std e))"
| "error_text t std (QueueError kind capacity wait None) = queue_text t std kind capacity wait None"
| "error_text t std (QueueError kind capacity wait (Some e)) =
     queue_text t std kind capacity wait (Some (error_text t std e))"
| "error_text t std (StageError category stage cause) = stage_text (error_text t std category) stage"
| "error_text t std (BundleError path field expected observed None cause) =
     joined_by '': '' (bundle_parts t (sentinel_text std ErrInvalidBundle) path field expected observed cause)"
| "error_text t std (BundleError path field expected observed (Some kind) cause) =
     joined_by '': '' (bundle_parts t (error_text t std kind) path field expected observed cause)"
| "error_text t std (SourceError operation path None cause) =
     source_text t (sentinel_text std ErrUnsupportedSource) operation path cause"
| "error_text t std (SourceError operation path (Some kind) cause) =
     source_text t (error_text t std kind) operation path cause"
| "error_text t std (NilPointer PtrInputTooLong) = sentinel_text std ErrInputTooLong"
| "error_text t std (NilPointer PtrQueueError) = ''laya: queue failure''"
| "error_text t std (NilPointer PtrStageError) = ''laya: inference failure''"
| "error_text t std (NilPointer PtrBundleError) = sentinel_text std ErrInvalidBundle"
| "error_text t std (NilPointer PtrSourceError) = sentinel_text std ErrUnsupportedSource"
| "error_text t std (Errorf m es) = te_other t (Errorf m es)"
| "error_text t std (Opaque m) = te_other t (Opaque m)"
| "error_text t std (Joined es) = te_other t (Joined es)"

subsection \<open>Is and Unwrap\<close>

text \<open>The methods, each on a receiver of its type; on other errors they are not called.\<close>

definition tooLong_Is :: "go_error \<Rightarrow> sentinel \<Rightarrow> bool" where
  "tooLong_Is e target = (case e of InputTooLongError n l c \<Rightarrow> target = ErrInputTooLong | _ \<Rightarrow> False)"

definition tooLong_Unwrap :: "go_error \<Rightarrow> go_error option" where
  "tooLong_Unwrap e = (case e of InputTooLongError n l c \<Rightarrow> c | _ \<Rightarrow> None)"

definition queue_Is :: "go_error \<Rightarrow> sentinel \<Rightarrow> bool" where
  "queue_Is e target = (case e of QueueError k c w x \<Rightarrow> queue_category k = Some target | _ \<Rightarrow> False)"

definition queue_Unwrap :: "go_error \<Rightarrow> go_error option" where
  "queue_Unwrap e = (case e of QueueError k c w x \<Rightarrow> x | _ \<Rightarrow> None)"

definition stage_Is :: "go_error \<Rightarrow> sentinel \<Rightarrow> bool" where
  "stage_Is e target = (case e of StageError category stage c \<Rightarrow> Sentinel target = category | _ \<Rightarrow> False)"

definition stage_Unwrap :: "go_error \<Rightarrow> go_error option" where
  "stage_Unwrap e = (case e of StageError category stage c \<Rightarrow> c | _ \<Rightarrow> None)"

text \<open>
  \<open>errors_is\<close> is the walk of \<open>errors.Is\<close> over these methods: an error matches a sentinel if it is
  that sentinel, if its own \<open>Is\<close> says so, or if something it unwraps to matches. Nil pointers
  of every type match nothing.
\<close>

theorem errors_is_follows_methods:
  "errors_is e target \<longleftrightarrow>
     e = Sentinel target \<or> tooLong_Is e target \<or> queue_Is e target \<or> stage_Is e target \<or>
     (\<exists>x. (x \<in> set (bundle_Unwrap e @ source_Unwrap e @ somes [tooLong_Unwrap e, queue_Unwrap e, stage_Unwrap e]) \<or>
           (case e of Errorf m es \<Rightarrow> x \<in> set es | Joined es \<Rightarrow> x \<in> set es | _ \<Rightarrow> False)) \<and> errors_is x target)"
proof -
  note methods = tooLong_Is_def queue_Is_def stage_Is_def bundle_Unwrap_def source_Unwrap_def tooLong_Unwrap_def
    queue_Unwrap_def stage_Unwrap_def opt_is_def
  show ?thesis
    by (cases e) (auto simp: methods list_ex_iff split: option.splits)
qed

subsection \<open>Messages are redacted and bounded\<close>

text \<open>
  A bundle or source failure says of its cause only the type: failures whose causes have the
  same type have the same message. An inference failure says nothing of its cause at all.
\<close>

theorem messages_hide_causes:
  assumes "map_option (te_type t) c = map_option (te_type t) c'"
  shows "error_text t std (BundleError path field expected observed kind c) =
      error_text t std (BundleError path field expected observed kind c')"
    and "error_text t std (SourceError operation path kind c) = error_text t std (SourceError operation path kind c')"
    and "error_text t std (StageError category stage d) = error_text t std (StageError category stage d')"
  using assms by (cases kind; cases c; cases c'; simp add: bundle_parts_def source_text_def)+

text \<open>\<open>%q\<close> writes at most four bytes for one, and the two quotes.\<close>

definition quote_law :: "text_env \<Rightarrow> bool" where
  "quote_law t \<longleftrightarrow> (\<forall>s. length (te_quote t s) \<le> 4 * length s + 2)"

lemma quoted_bounded:
  assumes "quote_law t"
  shows "length (quoted t v) \<le> 526" and "length (source_quote t v) \<le> 526"
proof -
  have "length (if length v > 128 then take 128 v @ ellipsis else v) \<le> 131" by (simp add: ellipsis_def)
  moreover have "length (te_quote t s) \<le> 4 * length s + 2" for s using assms by (simp add: quote_law_def)
  ultimately have "length (te_quote t (if length v > 128 then take 128 v @ ellipsis else v)) \<le> 4 * 131 + 2"
    by (meson add_le_mono1 le_trans mult_le_mono2)
  then show "length (quoted t v) \<le> 526" "length (source_quote t v) \<le> 526"
    by (simp_all add: quoted_def source_quote_def)
qed

lemma joined_by_Cons: "ss \<noteq> [] \<Longrightarrow> joined_by sep (s # ss) = s @ sep @ joined_by sep ss"
  by (cases ss) simp_all

lemma joined_by_append:
  "xs \<noteq> [] \<Longrightarrow> length (joined_by sep (xs @ ys)) \<le> length (joined_by sep xs) + (\<Sum>y\<leftarrow>ys. length sep + length y)"
proof (induction ys arbitrary: xs)
  case (Cons y ys)
  have "length (joined_by sep (xs @ [y])) = length (joined_by sep xs) + length sep + length y"
    using Cons.prems by (induction sep xs rule: joined_by.induct) simp_all
  with Cons.IH [of "xs @ [y]"] show ?case by simp
qed simp

text \<open>
  However long the paths, fields and values a manifest brings into it, the message of a bundle
  failure is at most the name of its kind, the type of its cause and 2,160 bytes long, and that
  of a source failure 1,083.
\<close>

theorem messages_bounded:
  assumes "quote_law t" and "\<And>c. cause = Some c \<Longrightarrow> length (te_type t c) \<le> b"
  shows "length (error_text t std (BundleError path field expected observed (Some kind) cause)) \<le>
      length (error_text t std kind) + b + 2160"
    and "length (error_text t std (SourceError operation path (Some kind) cause)) \<le>
      length (error_text t std kind) + b + 1083"
proof -
  have part: "(\<Sum>y\<leftarrow>labelled (quoted t) label v. 2 + length y) \<le> length label + 528" for label v
    using quoted_bounded(1) [OF assms(1), of v] by (simp add: labelled_def)
  have cause: "(\<Sum>y\<leftarrow>(case cause of None \<Rightarrow> [] | Some c \<Rightarrow> [''cause '' @ te_type t c]). 2 + length y) \<le> b + 8"
    using assms(2) by (cases cause) simp_all
  show "length (error_text t std (BundleError path field expected observed (Some kind) cause)) \<le>
      length (error_text t std kind) + b + 2160"
    using joined_by_append [of "[error_text t std kind]" "'': ''" "labelled (quoted t) ''path '' path @
        labelled (quoted t) ''field '' field @ labelled (quoted t) ''expected '' expected @
        labelled (quoted t) ''observed '' observed @ (case cause of None \<Rightarrow> [] | Some c \<Rightarrow> [''cause '' @ te_type t c])"]
      part [of "''path ''" path] part [of "''field ''" field] part [of "''expected ''" expected]
      part [of "''observed ''" observed] cause
    by (simp add: bundle_parts_def)
  show "length (error_text t std (SourceError operation path (Some kind) cause)) \<le>
      length (error_text t std kind) + b + 1083"
    using quoted_bounded(2) [OF assms(1), of operation] quoted_bounded(2) [OF assms(1), of path] assms(2)
    by (cases cause) (auto simp: source_text_def)
qed

end
