(* ===== verification/Laya_Stage.thy ===== *)
theory Laya_Stage
  imports Laya_Snapshot
begin

text \<open>
  \<open>internal/source/stage.go\<close>: copying a verified bundle into a new directory. The replies of the
  operating system are arguments; the operations return the handles they opened and closed and
  the files they wrote, in order. The \<open>n\<close>-th question that staging asks its context is answered
  by \<open>ctx n\<close>; the questions of the two verifications are the verifications' own. A reader that
  claims more bytes than its buffer holds, against the contract of \<open>io.Reader\<close>, is not modelled.
\<close>

subsection \<open>Writing\<close>

type_synonym writer = "nat \<Rightarrow> string \<Rightarrow> int \<times> go_error option"

text \<open>
  \<open>writeAll\<close>: the \<open>w\<close>-th call of \<open>Write\<close> answers \<open>wr w data\<close>, a count and an error; the bytes the
  writer took are appended to what was written.
\<close>

function writeAll ::
  "(nat \<Rightarrow> go_error option) \<Rightarrow> writer \<Rightarrow> string \<Rightarrow> nat \<Rightarrow> nat \<Rightarrow> string
   \<Rightarrow> go_error option \<times> nat \<times> nat \<times> string" where
  "writeAll ctx wr data n w written =
     (if data = [] then (None, n, w, written)
      else case ctx n of
             Some e \<Rightarrow> (Some e, Suc n, w, written)
           | None \<Rightarrow>
               (case wr w data of
                  (count, err) \<Rightarrow>
                    if count < 0 \<or> count > int (length data) then (Some (Opaque ''invalid writer count''), Suc n, Suc w, written)
                    else (case err of
                            Some e \<Rightarrow> (Some e, Suc n, Suc w, written @ take (nat count) data)
                          | None \<Rightarrow>
                              if count = 0 then (Some (Sentinel IoErrShortWrite), Suc n, Suc w, written)
                              else writeAll ctx wr (drop (nat count) data) (Suc n) (Suc w) (written @ take (nat count) data))))"
  by pat_completeness auto
termination
  by (relation "measure (\<lambda>(ctx, wr, data, n, w, written). length data)") auto

declare writeAll.simps [simp del]

subsection \<open>One file\<close>

record out_replies =
  or_mkdirAll :: "go_error option"
  or_create :: "go_error option"
  or_write :: writer
  or_sync :: "go_error option"
  or_shut :: "go_error option"

datatype stage_handle = ParentRoot | StageRoot | InputFile string | OutputFile string

datatype stage_event = Opened stage_handle | Closed stage_handle | Wrote string string | MadeTree | RemovedTree

definition expectedSizeDescription :: "int \<Rightarrow> int \<Rightarrow> string" where
  "expectedSizeDescription expectedSize maxSize =
     (if expectedSize \<ge> 0 then show_int expectedSize else ''at most '' @ show_int maxSize)"

text \<open>
  The copy loop: the content that was read, or the error; the questions and the writes so far,
  and what was written. A list of read replies that ends stands for the end of the file.
\<close>

definition copy_canceled :: "string \<Rightarrow> go_error \<Rightarrow> go_error" where
  "copy_canceled path e = sourceError ''copy source file'' path e (Some e)"

definition copy_chunk ::
  "(nat \<Rightarrow> go_error option) \<Rightarrow> writer \<Rightarrow> string \<Rightarrow> int \<Rightarrow> int \<Rightarrow> string \<Rightarrow> string \<Rightarrow> nat \<Rightarrow> nat \<Rightarrow> string
   \<Rightarrow> go_error option \<times> nat \<times> nat \<times> string" where
  "copy_chunk ctx wr path expectedSize maxSize content chunk n w written =
     (if chunk = [] then (None, n, w, written)
      else if int (length content + length chunk) > maxSize
      then (Some (integrity path ''size'' (expectedSizeDescription expectedSize maxSize) (''more than '' @ show_int maxSize) None),
            n, w, written)
      else (case writeAll ctx wr chunk n w written of
              (Some e, st) \<Rightarrow> (Some (sourceError ''write staged file'' path (Sentinel ErrMaterialization) (Some e)), st)
            | (None, st) \<Rightarrow> (None, st)))"

fun copy_loop ::
  "(nat \<Rightarrow> go_error option) \<Rightarrow> writer \<Rightarrow> string \<Rightarrow> int \<Rightarrow> int \<Rightarrow> read_reply list
   \<Rightarrow> nat \<Rightarrow> nat \<Rightarrow> string \<Rightarrow> string \<Rightarrow> (go_error + string) \<times> nat \<times> string" where
  "copy_loop ctx wr path expectedSize maxSize [] n w content written =
     (case ctx n of Some e \<Rightarrow> (Inl (copy_canceled path e), Suc n, written)
      | None \<Rightarrow>
     (case ctx (Suc n) of Some e \<Rightarrow> (Inl (copy_canceled path e), Suc (Suc n), written)
      | None \<Rightarrow> (Inr content, Suc (Suc n), written)))"
| "copy_loop ctx wr path expectedSize maxSize (r # rs) n w content written =
     (case ctx n of Some e \<Rightarrow> (Inl (copy_canceled path e), Suc n, written)
      | None \<Rightarrow>
     (case ctx (Suc n) of Some e \<Rightarrow> (Inl (copy_canceled path e), Suc (Suc n), written)
      | None \<Rightarrow>
          (let chunk = (case r of Read c \<Rightarrow> c | ReadEOF c \<Rightarrow> c | ReadFail c e \<Rightarrow> c) in
           case copy_chunk ctx wr path expectedSize maxSize content chunk (Suc (Suc n)) w written of
             (Some e, n', w', written') \<Rightarrow> (Inl e, n', written')
           | (None, n', w', written') \<Rightarrow>
               (case r of
                  ReadEOF c \<Rightarrow> (Inr (content @ chunk), n', written')
                | ReadFail c e \<Rightarrow> (Inl (sourceError ''read source file'' path (Sentinel ErrIntegrity) (Some e)), n', written')
                | Read c \<Rightarrow>
                    if c = [] then (Inl (sourceError ''read source file'' path (Sentinel ErrIntegrity) (Some (Sentinel IoErrNoProgress))), n', written')
                    else copy_loop ctx wr path expectedSize maxSize rs n' w' (content @ chunk) written'))))"

text \<open>The checks after the loop; the second component says whether the output was closed.\<close>

definition finish_copy ::
  "(string \<Rightarrow> string) \<Rightarrow> out_replies \<Rightarrow> string \<Rightarrow> int \<Rightarrow> string \<Rightarrow> string \<Rightarrow> go_error option \<times> bool" where
  "finish_copy sha256 out path expectedSize expectedDigest content =
     (if expectedSize \<ge> 0 \<and> int (length content) \<noteq> expectedSize
      then (Some (integrity path ''size'' (show_int expectedSize) (show_nat (length content)) None), False)
      else if sha256 content \<noteq> expectedDigest
      then (Some (integrity path ''sha256'' expectedDigest (sha256 content) None), False)
      else case or_sync out of
             Some e \<Rightarrow> (Some (sourceError ''sync staged file'' path (Sentinel ErrMaterialization) (Some e)), False)
           | None \<Rightarrow>
               (case or_shut out of
                  Some e \<Rightarrow> (Some (sourceError ''close staged file'' path (Sentinel ErrMaterialization) (Some e)), True)
                | None \<Rightarrow> (None, True)))"

text \<open>A deferred close that joins its error to the result.\<close>

definition join_close :: "go_error option \<Rightarrow> go_error option \<Rightarrow> go_error option" where
  "join_close err closeErr = (case closeErr of None \<Rightarrow> err | Some e \<Rightarrow> errors_join [err, Some e])"

text \<open>From the creation of the output to its close, deferred or not.\<close>

definition copy_output ::
  "(string \<Rightarrow> string) \<Rightarrow> (nat \<Rightarrow> go_error option) \<Rightarrow> out_replies \<Rightarrow> read_reply list \<Rightarrow> string \<Rightarrow> int \<Rightarrow> int \<Rightarrow> string \<Rightarrow> nat
   \<Rightarrow> go_error option \<times> nat \<times> stage_event list" where
  "copy_output sha256 ctx out reads path expectedSize maxSize expectedDigest n =
     (case or_create out of
        Some e \<Rightarrow> (Some (sourceError ''create staged file'' path (Sentinel ErrMaterialization) (Some e)), n, [])
      | None \<Rightarrow>
          (case copy_loop ctx (or_write out) path expectedSize maxSize reads n 0 [] [] of
             (r, n', written) \<Rightarrow>
               (case (case r of Inl e \<Rightarrow> (Some e, False) | Inr content \<Rightarrow> finish_copy sha256 out path expectedSize expectedDigest content) of
                  (err, shut) \<Rightarrow>
                    (if shut then err
                     else join_close err (map_option (\<lambda>e. sourceError ''close staged file'' path (Sentinel ErrMaterialization) (Some e)) (or_shut out)),
                     n', [Opened (OutputFile path), Wrote path written, Closed (OutputFile path)]))))"

definition copy_directory :: "string \<Rightarrow> string" where
  "copy_directory path = filepath_Dir path"

text \<open>The opened input: its inspection, the directory of the output, and the copy.\<close>

definition copy_input ::
  "(string \<Rightarrow> string) \<Rightarrow> (nat \<Rightarrow> go_error option) \<Rightarrow> out_replies \<Rightarrow> open_file \<Rightarrow> string \<Rightarrow> int \<Rightarrow> int \<Rightarrow> string \<Rightarrow> nat
   \<Rightarrow> go_error option \<times> nat \<times> stage_event list" where
  "copy_input sha256 ctx out input path expectedSize maxSize expectedDigest n =
     (case of_stat input of
        Inl e \<Rightarrow> (Some (sourceError ''inspect source file'' path (Sentinel ErrInvalidBundle) (Some e)), n, [])
      | Inr (ty, bytes) \<Rightarrow>
          if ty \<noteq> Regular then (Some (sourceError ''inspect source file'' path (Sentinel ErrInvalidBundle) None), n, [])
          else if bytes < 0 \<or> bytes > maxSize \<or> (expectedSize \<ge> 0 \<and> bytes \<noteq> expectedSize)
          then (Some (integrity path ''size'' (expectedSizeDescription expectedSize maxSize) (show_int bytes) None), n, [])
          else (case (if copy_directory path \<noteq> ''.'' then or_mkdirAll out else None) of
                  Some e \<Rightarrow> (Some (sourceError ''create staging subdirectory'' path (Sentinel ErrMaterialization) (Some e)), n, [])
                | None \<Rightarrow> copy_output sha256 ctx out (of_reads input) path expectedSize maxSize expectedDigest n))"

definition copyStagedFile ::
  "(string \<Rightarrow> string) \<Rightarrow> (nat \<Rightarrow> go_error option) \<Rightarrow> fsys \<Rightarrow> (string \<Rightarrow> go_error option) \<Rightarrow> (string \<Rightarrow> out_replies)
   \<Rightarrow> string \<Rightarrow> int \<Rightarrow> int \<Rightarrow> string \<Rightarrow> nat \<Rightarrow> go_error option \<times> nat \<times> stage_event list" where
  "copyStagedFile sha256 ctx src inClose dest path expectedSize maxSize expectedDigest n =
     (case ctx n of Some e \<Rightarrow> (Some (copy_canceled path e), Suc n, [])
      | None \<Rightarrow>
     (case fs_open src path of
        Inl e \<Rightarrow> (Some (sourceError ''open source file'' path (Sentinel ErrInvalidBundle) (Some e)), Suc n, [])
      | Inr input \<Rightarrow>
          (case copy_input sha256 ctx (dest path) input path expectedSize maxSize expectedDigest (Suc n) of
             (err, n', events) \<Rightarrow>
               (join_close err (map_option (\<lambda>e. sourceError ''close source file'' path (Sentinel ErrIntegrity) (Some e)) (inClose path)),
                n', Opened (InputFile path) # events @ [Closed (InputFile path)]))))"

subsection \<open>The bundle\<close>

record stage_replies =
  sg_sub :: "go_error + fsys"
  sg_abs :: "go_error + string"
  sg_parentLstat :: "go_error + bool"
  sg_openParent :: "go_error option"
  sg_parentStat :: "go_error + bool"
  sg_mkdir :: "go_error option"
  sg_lstat :: "go_error + bool"
  sg_openStage :: "go_error option"
  sg_stageStat :: "go_error + bool"
  sg_inClose :: "string \<Rightarrow> go_error option"
  sg_dest :: "string \<Rightarrow> out_replies"
  sg_staged :: fsys
  sg_stageClose :: "go_error option"
  sg_removeAll :: "go_error option"
  sg_parentClose :: "go_error option"

abbreviation staging_error :: "string \<Rightarrow> go_error option \<Rightarrow> go_error" where
  "staging_error operation cause \<equiv> sourceError operation '''' (Sentinel ErrMaterialization) cause"

definition stageManifestBytes :: int where "stageManifestBytes = 1048576"

text \<open>\<open>strings.TrimPrefix(id, "sha256:")\<close>.\<close>

definition trim_sha256 :: "string \<Rightarrow> string" where
  "trim_sha256 i = (if take 7 i = ''sha256:'' then drop 7 i else i)"

fun copy_files ::
  "(string \<Rightarrow> string) \<Rightarrow> (nat \<Rightarrow> go_error option) \<Rightarrow> fsys \<Rightarrow> stage_replies \<Rightarrow> File list \<Rightarrow> nat
   \<Rightarrow> go_error option \<times> nat \<times> stage_event list" where
  "copy_files sha256 ctx src r [] n = (None, n, [])"
| "copy_files sha256 ctx src r (f # fs) n =
     (case copyStagedFile sha256 ctx src (sg_inClose r) (sg_dest r) (fl_Path f) (fl_Size f) (fl_Size f) (fl_SHA256 f) n of
        (Some e, n', events) \<Rightarrow> (Some e, n', events)
      | (None, n', events) \<Rightarrow>
          (case copy_files sha256 ctx src r fs n' of (err, n2, later) \<Rightarrow> (err, n2, events @ later)))"

text \<open>
  The copy and the second verification. The last component says whether the stage was closed
  by the body: a deferred close would follow otherwise.
\<close>

definition stage_body ::
  "(string \<Rightarrow> string) \<Rightarrow> (nat \<Rightarrow> go_error option) \<Rightarrow> (fsys \<Rightarrow> Manifest res) \<Rightarrow> fsys \<Rightarrow> stage_replies \<Rightarrow> Manifest
   \<Rightarrow> Manifest res \<times> stage_event list \<times> bool" where
  "stage_body sha256 ctx verifyStaged src r m =
     (case copyStagedFile sha256 ctx src (sg_inClose r) (sg_dest r) ''manifest.json'' (- 1) stageManifestBytes
             (trim_sha256 (mf_id m)) 1 of
        (Some e, n, events) \<Rightarrow> (Err e, events, False)
      | (None, n, events) \<Rightarrow>
     (case copy_files sha256 ctx src r (mf_Files m) n of
        (Some e, n', later) \<Rightarrow> (Err e, events @ later, False)
      | (None, n', later) \<Rightarrow>
     (case verifyStaged (sg_staged r) of
        Panic \<Rightarrow> (Panic, events @ later, False)
      | Err e \<Rightarrow> (Err e, events @ later, False)
      | Ok staged \<Rightarrow>
          if mf_id staged \<noteq> mf_id m
          then (Err (integrity ''manifest.json'' ''sha256'' (mf_id m) (mf_id staged) None), events @ later, False)
          else (case sg_stageClose r of
                  Some e \<Rightarrow> (Err (staging_error ''close staging directory'' (Some e)), events @ later @ [Closed StageRoot], True)
                | None \<Rightarrow> (Ok staged, events @ later @ [Closed StageRoot], True)))))"

definition join_res :: "'a res \<Rightarrow> go_error option \<Rightarrow> 'a res" where
  "join_res res extra =
     (case extra of None \<Rightarrow> res
      | Some x \<Rightarrow> (case res of
            Ok v \<Rightarrow> (case errors_join [Some x] of Some e \<Rightarrow> Err e | None \<Rightarrow> Ok v)
          | Err e \<Rightarrow> (case errors_join [Some e, Some x] of Some j \<Rightarrow> Err j | None \<Rightarrow> Err e)
          | Panic \<Rightarrow> Panic))"

text \<open>The new directory is opened, filled and verified.\<close>

definition stage_opened ::
  "(string \<Rightarrow> string) \<Rightarrow> (nat \<Rightarrow> go_error option) \<Rightarrow> (fsys \<Rightarrow> Manifest res) \<Rightarrow> fsys \<Rightarrow> stage_replies \<Rightarrow> Manifest
   \<Rightarrow> Manifest res \<times> stage_event list" where
  "stage_opened sha256 ctx verifyStaged src r m =
     (case sg_lstat r of
        Inl e \<Rightarrow> (Err (staging_error ''inspect staging directory'' (Some e)), [])
      | Inr dir \<Rightarrow>
          if \<not> dir then (Err (staging_error ''inspect staging directory'' None), [])
          else
     (case sg_openStage r of Some e \<Rightarrow> (Err (staging_error ''open staging directory'' (Some e)), [])
      | None \<Rightarrow>
     (case sg_stageStat r of
        Inl e \<Rightarrow> (Err (staging_error ''inspect opened staging directory'' (Some e)), [Opened StageRoot])
      | Inr same \<Rightarrow>
          if \<not> same then (Err (staging_error ''inspect opened staging directory'' None), [Opened StageRoot])
          else (case stage_body sha256 ctx verifyStaged src r m of
                  (out, events, True) \<Rightarrow> (out, Opened StageRoot # events)
                | (out, events, False) \<Rightarrow>
                    (join_res out (map_option (\<lambda>e. staging_error ''close staging directory'' (Some e)) (sg_stageClose r)),
                     Opened StageRoot # events @ [Closed StageRoot])))))"

text \<open>Once the directory exists, it is removed again unless the whole succeeds.\<close>

definition stage_created ::
  "(string \<Rightarrow> string) \<Rightarrow> (nat \<Rightarrow> go_error option) \<Rightarrow> (fsys \<Rightarrow> Manifest res) \<Rightarrow> fsys \<Rightarrow> stage_replies \<Rightarrow> Manifest
   \<Rightarrow> Manifest res \<times> stage_event list" where
  "stage_created sha256 ctx verifyStaged src r m =
     (case stage_opened sha256 ctx verifyStaged src r m of
        (Ok v, events) \<Rightarrow> (Ok v, MadeTree # events)
      | (Panic, events) \<Rightarrow> (Panic, MadeTree # events)
      | (out, events) \<Rightarrow>
          (join_res out (map_option (\<lambda>e. staging_error ''remove failed staging directory'' (Some e)) (sg_removeAll r)),
           MadeTree # events @ [RemovedTree]))"

text \<open>From the opened parent to its deferred close.\<close>

definition stage_parent ::
  "(string \<Rightarrow> string) \<Rightarrow> (nat \<Rightarrow> go_error option) \<Rightarrow> (fsys \<Rightarrow> Manifest res) \<Rightarrow> fsys \<Rightarrow> stage_replies \<Rightarrow> Manifest
   \<Rightarrow> Manifest res \<times> stage_event list" where
  "stage_parent sha256 ctx verifyStaged src r m =
     (case (case sg_parentStat r of
              Inl e \<Rightarrow> (Err (staging_error ''inspect opened staging parent'' (Some e)), [])
            | Inr same \<Rightarrow>
                if \<not> same then (Err (staging_error ''inspect opened staging parent'' None), [])
                else (case sg_mkdir r of
                        Some e \<Rightarrow> (Err (staging_error ''create staging directory'' (Some e)), [])
                      | None \<Rightarrow> stage_created sha256 ctx verifyStaged src r m)) of
        (out, events) \<Rightarrow>
          (join_res out (map_option (\<lambda>e. staging_error ''close staging parent'' (Some e)) (sg_parentClose r)),
           Opened ParentRoot # events @ [Closed ParentRoot]))"

text \<open>\<open>fileSystem\<close> is \<open>None\<close> for nil; \<open>verify\<close> verifies it below a root, \<open>verifyStaged\<close> the copy.\<close>

definition Stage ::
  "(string \<Rightarrow> string) \<Rightarrow> (nat \<Rightarrow> go_error option) option \<Rightarrow> (string \<Rightarrow> Manifest res) option \<Rightarrow> (fsys \<Rightarrow> Manifest res)
   \<Rightarrow> string \<Rightarrow> string \<Rightarrow> stage_replies \<Rightarrow> Manifest res \<times> stage_event list" where
  "Stage sha256 ctx fileSystem verifyStaged root0 destination r =
     (case ctx of None \<Rightarrow> (Err (sourceError ''validate context'' '''' (Sentinel ErrInvalidBundle) None), [])
      | Some ctx \<Rightarrow>
     (case fileSystem of None \<Rightarrow> (Err (sourceError ''validate filesystem'' '''' (Sentinel ErrInvalidBundle) None), [])
      | Some verify \<Rightarrow>
          (let dir = (if root0 = '''' then ''.'' else root0)
           in if dir \<noteq> ''.'' \<and> (\<not> fs_ValidPath dir \<or> has_backslash dir)
              then (Err (sourceError ''validate filesystem root'' dir (Sentinel ErrInvalidBundle) None), [])
              else if destination = '''' then (Err (staging_error ''validate staging destination'' None), [])
              else
     (case ctx 0 of Some e \<Rightarrow> (Err (sourceError ''stage bundle'' '''' e (Some e)), [])
      | None \<Rightarrow>
     (case verify dir of Panic \<Rightarrow> (Panic, []) | Err e \<Rightarrow> (Err e, [])
      | Ok m \<Rightarrow>
     (case sg_sub r of Inl e \<Rightarrow> (Err (sourceError ''open filesystem root'' dir (Sentinel ErrInvalidBundle) (Some e)), [])
      | Inr src \<Rightarrow>
     (case sg_abs r of Inl e \<Rightarrow> (Err (staging_error ''resolve staging destination'' (Some e)), [])
      | Inr absPath \<Rightarrow>
          (let name = filepath_Base (filepath_Clean absPath)
           in if name = ''.'' \<or> name = [slash] \<or> \<not> fs_ValidPath name
              then (Err (staging_error ''validate staging destination'' None), [])
              else
     (case sg_parentLstat r of Inl e \<Rightarrow> (Err (staging_error ''inspect staging parent'' (Some e)), [])
      | Inr dir \<Rightarrow>
          if \<not> dir then (Err (staging_error ''inspect staging parent'' None), [])
          else
     (case sg_openParent r of Some e \<Rightarrow> (Err (staging_error ''open staging parent'' (Some e)), [])
      | None \<Rightarrow> stage_parent sha256 ctx verifyStaged src r m))))))))))"

subsection \<open>What is written\<close>

lemma writeAll_complete:
  "writeAll ctx wr data n w written = (None, n', w', written') \<Longrightarrow> written' = written @ data"
proof (induction ctx wr data n w written arbitrary: n' w' written' rule: writeAll.induct)
  case (1 ctx wr data n w written)
  show ?case
  proof (cases "data = []")
    case False
    obtain count err where wr: "wr w data = (count, err)" by fastforce
    have ok: "ctx n = None" "0 \<le> count" "count \<le> int (length data)" "err = None" "count \<noteq> 0"
      and rest: "writeAll ctx wr (drop (nat count) data) (Suc n) (Suc w) (written @ take (nat count) data) = (None, n', w', written')"
      using 1(2) False wr by (auto simp: writeAll.simps [of ctx wr data] split: option.splits if_splits)
    from 1(1) [OF False ok(1) wr [symmetric] _ ok(4) ok(5) rest] ok(2,3) show ?thesis by simp
  qed (use 1(2) in \<open>simp add: writeAll.simps\<close>)
qed

text \<open>A writer that honours \<open>io.Writer\<close> and has no error to report.\<close>

definition honest :: "writer \<Rightarrow> bool" where
  "honest wr \<longleftrightarrow> (\<forall>w data. data \<noteq> [] \<longrightarrow> snd (wr w data) = None \<and> 0 < fst (wr w data) \<and> fst (wr w data) \<le> int (length data))"

lemma writeAll_honest:
  "quiet ctx \<Longrightarrow> honest wr \<Longrightarrow> \<exists>n' w'. writeAll ctx wr data n w written = (None, n', w', written @ data)"
proof (induction ctx wr data n w written rule: writeAll.induct)
  case (1 ctx wr data n w written)
  show ?case
  proof (cases "data = []")
    case False
    obtain count err where wr: "wr w data = (count, err)" by fastforce
    have c: "err = None" "0 < count" "count \<le> int (length data)"
      using 1(3) [unfolded honest_def, rule_format, OF False, of w] wr by simp_all
    have q: "ctx n = None" using 1(2) by (simp add: quiet_def)
    have "\<exists>n' w'. writeAll ctx wr (drop (nat count) data) (Suc n) (Suc w) (written @ take (nat count) data) =
        (None, n', w', (written @ take (nat count) data) @ drop (nat count) data)"
      using c by (intro 1(1) [OF False q wr [symmetric]] 1(2,3)) auto
    then show ?thesis using False wr c q by (simp add: writeAll.simps [of ctx wr data])
  qed (simp add: writeAll.simps)
qed

lemma copy_chunk_None:
  "copy_chunk ctx wr path expectedSize maxSize content chunk n w written = (None, n', w', written') \<Longrightarrow>
     written' = written @ chunk \<and> (chunk = [] \<or> int (length (content @ chunk)) \<le> maxSize)"
  by (auto simp: copy_chunk_def dest: writeAll_complete split: if_splits prod.splits option.splits)

lemma copy_chunk_honest:
  assumes "quiet ctx" and "honest wr" and "int (length (content @ chunk)) \<le> maxSize"
  shows "\<exists>n' w'. copy_chunk ctx wr path expectedSize maxSize content chunk n w written = (None, n', w', written @ chunk)"
  using writeAll_honest [OF assms(1,2), of chunk n w written] assms(3) by (auto simp: copy_chunk_def)

lemma copy_loop_copies:
  "copy_loop ctx wr path expectedSize maxSize rs n w content written = (Inr d, n', written') \<Longrightarrow>
     int (length content) \<le> maxSize \<Longrightarrow>
     \<exists>d'. content_of rs = Some d' \<and> d = content @ d' \<and> written' = written @ d' \<and> int (length d) \<le> maxSize"
proof (induction rs arbitrary: n w content written)
  case (Cons r rs)
  let ?chunk = "case r of Read c \<Rightarrow> c | ReadEOF c \<Rightarrow> c | ReadFail c e \<Rightarrow> c"
  obtain err n1 w1 written1 where c: "copy_chunk ctx wr path expectedSize maxSize content ?chunk (Suc (Suc n)) w written =
      (err, n1, w1, written1)" by (metis prod_cases4)
  have q: "ctx n = None" "ctx (Suc n) = None" and err: "err = None"
    using Cons.prems(1) c by (auto simp: Let_def split: option.splits)
  have w1: "written1 = written @ ?chunk" and fits: "?chunk = [] \<or> int (length (content @ ?chunk)) \<le> maxSize"
    using copy_chunk_None [OF c [unfolded err]] by simp_all
  show ?case
  proof (cases r)
    case (Read b)
    with Cons.prems(1) c q err have ne: "b \<noteq> []"
      and rest: "copy_loop ctx wr path expectedSize maxSize rs n1 w1 (content @ b) written1 = (Inr d, n', written')"
      by (auto split: if_splits)
    from Cons.IH [OF rest] ne fits w1 Read show ?thesis by auto
  qed (use Cons.prems c q err w1 fits in auto)
qed (auto split: option.splits)

lemma copy_loop_honest:
  assumes "quiet ctx" and "honest wr"
  shows "content_of rs = Some d \<Longrightarrow> int (length (content @ d)) \<le> maxSize \<Longrightarrow>
    \<exists>n'. copy_loop ctx wr path expectedSize maxSize rs n w content written = (Inr (content @ d), n', written @ d)"
proof (induction rs arbitrary: n w content written d)
  case Nil
  then show ?case using assms(1) by (simp add: quiet_def)
next
  case (Cons r rs)
  have q: "ctx n = None" "ctx (Suc n) = None" using assms(1) by (simp_all add: quiet_def)
  show ?case
  proof (cases r)
    case (Read b)
    with Cons.prems obtain d' where d: "b \<noteq> []" "content_of rs = Some d'" "d = b @ d'" by (auto split: if_splits)
    obtain n1 w1 where c: "copy_chunk ctx wr path expectedSize maxSize content b (Suc (Suc n)) w written = (None, n1, w1, written @ b)"
      using copy_chunk_honest [OF assms, of content b maxSize path expectedSize "Suc (Suc n)" w written] Cons.prems(2) d(3) by auto
    have "int (length ((content @ b) @ d')) \<le> maxSize" using Cons.prems(2) d(3) by simp
    from Cons.IH [OF d(2) this, of n1 w1 "written @ b"] c Read d(1,3) q show ?thesis by simp
  next
    case (ReadEOF b)
    with Cons.prems have d: "d = b" by simp
    obtain n1 w1 where "copy_chunk ctx wr path expectedSize maxSize content b (Suc (Suc n)) w written = (None, n1, w1, written @ b)"
      using copy_chunk_honest [OF assms, of content b maxSize path expectedSize "Suc (Suc n)" w written] Cons.prems(2) d by auto
    with ReadEOF d q show ?thesis by simp
  qed (use Cons.prems in simp)
qed

subsection \<open>Handles\<close>

text \<open>Handles are closed in the reverse order of their opening: a stack.\<close>

fun handles :: "stage_handle list \<Rightarrow> stage_event list \<Rightarrow> stage_handle list option" where
  "handles st [] = Some st"
| "handles st (Opened h # es) = handles (h # st) es"
| "handles st (Closed h # es) = (case st of [] \<Rightarrow> None | g # st' \<Rightarrow> if g = h then handles st' es else None)"
| "handles st (e # es) = handles st es"

definition matched :: "stage_event list \<Rightarrow> bool" where
  "matched es \<longleftrightarrow> (\<forall>st. handles st es = Some st)"

lemma handles_append: "handles st (xs @ ys) = (case handles st xs of None \<Rightarrow> None | Some st' \<Rightarrow> handles st' ys)"
  by (induction st xs rule: handles.induct) (auto split: list.split)

lemma matched_simps [simp]:
  "matched []" "matched (Wrote p d # es) = matched es" "matched (MadeTree # es) = matched es" "matched (RemovedTree # es) = matched es"
  by (simp_all add: matched_def)

lemma matched_append [intro]: "matched xs \<Longrightarrow> matched ys \<Longrightarrow> matched (xs @ ys)"
  by (simp add: matched_def handles_append)

lemma matched_pair [intro]: "matched es \<Longrightarrow> matched (Opened h # es @ [Closed h])"
  by (simp add: matched_def handles_append)

lemma copy_output_matched: "matched (snd (snd (copy_output sha256 ctx out reads path expectedSize maxSize expectedDigest n)))"
  by (auto simp: copy_output_def matched_def split: option.split prod.split)

lemma copy_input_matched: "matched (snd (snd (copy_input sha256 ctx out input path expectedSize maxSize expectedDigest n)))"
  by (auto simp: copy_input_def copy_output_matched split: option.split sum.split)

lemma copyStagedFile_matched:
  "matched (snd (snd (copyStagedFile sha256 ctx src inClose dest path expectedSize maxSize expectedDigest n)))"
proof (cases "fs_open src path")
  case (Inr input)
  obtain err n' events where c: "copy_input sha256 ctx (dest path) input path expectedSize maxSize expectedDigest (Suc n) = (err, n', events)"
    by (metis prod_cases3)
  with copy_input_matched [of sha256 ctx "dest path" input path expectedSize maxSize expectedDigest "Suc n"]
  have "matched events" by simp
  with Inr c matched_pair [of events "InputFile path"] show ?thesis by (simp add: copyStagedFile_def split: option.split)
qed (simp add: copyStagedFile_def split: option.split)

subsection \<open>A staged file\<close>

text \<open>The content a source has for a file of the given size and digest.\<close>

definition source_content :: "(string \<Rightarrow> string) \<Rightarrow> fsys \<Rightarrow> string \<Rightarrow> int \<Rightarrow> int \<Rightarrow> string \<Rightarrow> string \<Rightarrow> bool" where
  "source_content sha256 src path expectedSize maxSize expectedDigest content \<longleftrightarrow>
     (\<exists>input bytes. fs_open src path = Inr input \<and> of_stat input = Inr (Regular, bytes) \<and> 0 \<le> bytes \<and> bytes \<le> maxSize \<and>
        (0 \<le> expectedSize \<longrightarrow> bytes = expectedSize) \<and> content_of (of_reads input) = Some content \<and>
        int (length content) \<le> maxSize \<and> (0 \<le> expectedSize \<longrightarrow> int (length content) = expectedSize) \<and>
        sha256 content = expectedDigest)"

definition copied :: "string \<Rightarrow> string \<Rightarrow> stage_event list" where
  "copied path content =
     [Opened (InputFile path), Opened (OutputFile path), Wrote path content, Closed (OutputFile path), Closed (InputFile path)]"

text \<open>A destination that accepts what is written.\<close>

definition accepting :: "out_replies \<Rightarrow> bool" where
  "accepting out \<longleftrightarrow> or_mkdirAll out = None \<and> or_create out = None \<and> honest (or_write out) \<and> or_sync out = None \<and> or_shut out = None"

lemma join_close_None [simp]: "join_close err c = None \<longleftrightarrow> err = None \<and> c = None"
  by (cases err; cases c) (simp_all add: join_close_def errors_join_def)

lemma finish_copy_None:
  "finish_copy sha256 out path expectedSize expectedDigest content = (None, shut) \<longleftrightarrow>
     (0 \<le> expectedSize \<longrightarrow> int (length content) = expectedSize) \<and> sha256 content = expectedDigest \<and>
     or_sync out = None \<and> or_shut out = None \<and> shut"
  by (auto simp: finish_copy_def split: option.split)

lemma copy_output_None:
  assumes "copy_output sha256 ctx out reads path expectedSize maxSize expectedDigest n = (None, n', events)" and "0 \<le> maxSize"
  shows "\<exists>content. content_of reads = Some content \<and> int (length content) \<le> maxSize \<and>
    (0 \<le> expectedSize \<longrightarrow> int (length content) = expectedSize) \<and> sha256 content = expectedDigest \<and>
    events = [Opened (OutputFile path), Wrote path content, Closed (OutputFile path)]"
proof -
  obtain r k written where l: "copy_loop ctx (or_write out) path expectedSize maxSize reads n 0 [] [] = (r, k, written)"
    by (metis prod_cases3)
  have "or_create out = None" using assms(1) by (auto simp: copy_output_def split: option.splits)
  with assms(1) l obtain content where c: "r = Inr content" "finish_copy sha256 out path expectedSize expectedDigest content = (None, True)"
    and ev: "events = [Opened (OutputFile path), Wrote path written, Closed (OutputFile path)]"
    by (auto simp: copy_output_def finish_copy_None split: sum.splits prod.splits if_splits)
  from copy_loop_copies [OF l [unfolded c(1)]] assms(2) c(2) ev show ?thesis by (auto simp: finish_copy_None)
qed

lemma copyStagedFile_None:
  assumes "copyStagedFile sha256 ctx src inClose dest path expectedSize maxSize expectedDigest n = (None, n', events)"
  shows "\<exists>content. source_content sha256 src path expectedSize maxSize expectedDigest content \<and> events = copied path content"
proof -
  obtain input where i: "fs_open src path = Inr input" and q: "ctx n = None"
    using assms by (auto simp: copyStagedFile_def split: option.splits sum.splits prod.splits)
  obtain err k ev where c: "copy_input sha256 ctx (dest path) input path expectedSize maxSize expectedDigest (Suc n) = (err, k, ev)"
    by (metis prod_cases3)
  have err: "err = None" and events: "events = Opened (InputFile path) # ev @ [Closed (InputFile path)]"
    using assms i q c by (auto simp: copyStagedFile_def)
  obtain bytes where b: "of_stat input = Inr (Regular, bytes)" "0 \<le> bytes" "bytes \<le> maxSize" "0 \<le> expectedSize \<longrightarrow> bytes = expectedSize"
    and out: "copy_output sha256 ctx (dest path) (of_reads input) path expectedSize maxSize expectedDigest (Suc n) = (None, k, ev)"
    using c err by (auto simp: copy_input_def not_less split: sum.splits if_splits option.splits)
  have "0 \<le> maxSize" using b(2,3) by simp
  from copy_output_None [OF out this] i b events show ?thesis
    unfolding source_content_def copied_def by auto
qed

lemma copyStagedFile_complete:
  assumes "quiet ctx" and "accepting (dest path)" and "inClose path = None"
    and "source_content sha256 src path expectedSize maxSize expectedDigest content"
  shows "\<exists>n'. copyStagedFile sha256 ctx src inClose dest path expectedSize maxSize expectedDigest n = (None, n', copied path content)"
proof -
  obtain input bytes where i: "fs_open src path = Inr input" "of_stat input = Inr (Regular, bytes)" "0 \<le> bytes" "bytes \<le> maxSize"
    "0 \<le> expectedSize \<longrightarrow> bytes = expectedSize" "content_of (of_reads input) = Some content" "int (length content) \<le> maxSize"
    "0 \<le> expectedSize \<longrightarrow> int (length content) = expectedSize" "sha256 content = expectedDigest"
    using assms(4) unfolding source_content_def by blast
  have d: "or_mkdirAll (dest path) = None" "or_create (dest path) = None" "honest (or_write (dest path))"
    "or_sync (dest path) = None" "or_shut (dest path) = None"
    using assms(2) by (simp_all add: accepting_def)
  obtain k where "copy_loop ctx (or_write (dest path)) path expectedSize maxSize (of_reads input) (Suc n) 0 [] [] = (Inr content, k, content)"
    using copy_loop_honest [OF assms(1) d(3) i(6), of "[]" maxSize path expectedSize "Suc n" 0 "[]"] i(7) by auto
  moreover have "finish_copy sha256 (dest path) path expectedSize expectedDigest content = (None, True)"
    using d i(8,9) by (simp add: finish_copy_None)
  ultimately have "copy_output sha256 ctx (dest path) (of_reads input) path expectedSize maxSize expectedDigest (Suc n) =
      (None, k, [Opened (OutputFile path), Wrote path content, Closed (OutputFile path)])"
    using d(2) by (simp add: copy_output_def)
  moreover have "ctx n = None" using assms(1) by (simp add: quiet_def)
  ultimately show ?thesis
    using i d(1) assms(3) by (auto simp: copyStagedFile_def copy_input_def copied_def join_close_def not_less)
qed

subsection \<open>The staged bundle\<close>

fun wrote :: "stage_event list \<Rightarrow> (string \<times> string) list" where
  "wrote [] = []"
| "wrote (Wrote p d # es) = (p, d) # wrote es"
| "wrote (e # es) = wrote es"

lemma wrote_append [simp]: "wrote (xs @ ys) = wrote xs @ wrote ys"
  by (induction xs rule: wrote.induct) simp_all

definition tree_free :: "stage_event list \<Rightarrow> bool" where
  "tree_free es \<longleftrightarrow> MadeTree \<notin> set es \<and> RemovedTree \<notin> set es \<and> Opened StageRoot \<notin> set es"

lemma tree_free_simps [simp]:
  "tree_free []" "tree_free (xs @ ys) = (tree_free xs \<and> tree_free ys)" "tree_free [Closed h]"
  "tree_free (Opened (InputFile p) # es) = tree_free es" "tree_free (Opened (OutputFile p) # es) = tree_free es"
  "tree_free (Wrote p d # es) = tree_free es" "tree_free (Closed h # es) = tree_free es"
  by (auto simp: tree_free_def)

lemma copyStagedFile_tree_free:
  "tree_free (snd (snd (copyStagedFile sha256 ctx src inClose dest path expectedSize maxSize expectedDigest n)))"
  by (simp add: copyStagedFile_def copy_input_def copy_output_def split: option.split sum.split prod.split)

text \<open>The contents of the declared files, as the source has them.\<close>

definition source_file :: "(string \<Rightarrow> string) \<Rightarrow> fsys \<Rightarrow> File \<Rightarrow> string \<Rightarrow> bool" where
  "source_file sha256 src f content \<longleftrightarrow>
     source_content sha256 src (fl_Path f) (fl_Size f) (fl_Size f) (fl_SHA256 f) content"

lemma copy_files_events:
  "copy_files sha256 ctx src r fs n = (err, n', events) \<Longrightarrow> matched events \<and> tree_free events"
proof (induction fs arbitrary: n err n' events)
  case (Cons f fs)
  let ?copy = "copyStagedFile sha256 ctx src (sg_inClose r) (sg_dest r) (fl_Path f) (fl_Size f) (fl_Size f) (fl_SHA256 f) n"
  obtain e k ev where c: "?copy = (e, k, ev)" by (metis prod_cases3)
  have ev: "matched ev" "tree_free ev"
    using copyStagedFile_matched [of sha256 ctx src "sg_inClose r" "sg_dest r" "fl_Path f" "fl_Size f" "fl_Size f" "fl_SHA256 f" n]
      copyStagedFile_tree_free [of sha256 ctx src "sg_inClose r" "sg_dest r" "fl_Path f" "fl_Size f" "fl_Size f" "fl_SHA256 f" n] c
    by simp_all
  show ?case
  proof (cases e)
    case None
    obtain e2 k2 ev2 where rest: "copy_files sha256 ctx src r fs k = (e2, k2, ev2)" by (metis prod_cases3)
    from Cons.IH [OF rest] Cons.prems None c rest ev show ?thesis by auto
  qed (use Cons.prems c ev in auto)
qed simp

lemma copy_files_None:
  "copy_files sha256 ctx src r fs n = (None, n', events) \<Longrightarrow>
     \<exists>cs. list_all2 (source_file sha256 src) fs cs \<and> wrote events = zip (map fl_Path fs) cs"
proof (induction fs arbitrary: n n' events)
  case (Cons f fs)
  let ?copy = "copyStagedFile sha256 ctx src (sg_inClose r) (sg_dest r) (fl_Path f) (fl_Size f) (fl_Size f) (fl_SHA256 f) n"
  obtain k ev ev2 where c: "?copy = (None, k, ev)" and rest: "copy_files sha256 ctx src r fs k = (None, n', ev2)"
    and events: "events = ev @ ev2"
    using Cons.prems by (auto split: prod.splits option.splits)
  obtain d where d: "source_file sha256 src f d" "ev = copied (fl_Path f) d"
    using copyStagedFile_None [OF c] unfolding source_file_def by blast
  obtain cs where "list_all2 (source_file sha256 src) fs cs" "wrote ev2 = zip (map fl_Path fs) cs"
    using Cons.IH [OF rest] by blast
  with d events show ?case by (intro exI [of _ "d # cs"]) (simp add: copied_def)
qed simp

text \<open>What a staged bundle is: a copy, file by file, of what the source had when it was verified.\<close>

definition staged_copy :: "(string \<Rightarrow> string) \<Rightarrow> fsys \<Rightarrow> Manifest \<Rightarrow> stage_event list \<Rightarrow> bool" where
  "staged_copy sha256 src m events \<longleftrightarrow>
     (\<exists>c cs. source_content sha256 src ''manifest.json'' (- 1) stageManifestBytes (trim_sha256 (mf_id m)) c \<and>
        list_all2 (source_file sha256 src) (mf_Files m) cs \<and>
        wrote events = (''manifest.json'', c) # zip (map fl_Path (mf_Files m)) cs)"

definition body_ok ::
  "(string \<Rightarrow> string) \<Rightarrow> (fsys \<Rightarrow> Manifest res) \<Rightarrow> fsys \<Rightarrow> stage_replies \<Rightarrow> Manifest \<Rightarrow> Manifest res \<times> stage_event list \<times> bool \<Rightarrow> bool" where
  "body_ok sha256 verifyStaged src r m out \<longleftrightarrow>
     (case out of (res, events, shut) \<Rightarrow>
        (\<exists>ev. matched ev \<and> tree_free ev \<and> events = ev @ (if shut then [Closed StageRoot] else [])) \<and>
        (case res of
           Ok m' \<Rightarrow> shut \<and> verifyStaged (sg_staged r) = Ok m' \<and> mf_id m' = mf_id m \<and> staged_copy sha256 src m events
         | Err e \<Rightarrow> True
         | Panic \<Rightarrow> \<not> shut \<and> verifyStaged (sg_staged r) = Panic))"

lemma stage_body_ok: "body_ok sha256 verifyStaged src r m (stage_body sha256 ctx verifyStaged src r m)"
proof -
  let ?copy = "copyStagedFile sha256 ctx src (sg_inClose r) (sg_dest r) ''manifest.json'' (- 1) stageManifestBytes (trim_sha256 (mf_id m)) 1"
  obtain e n ev where c: "?copy = (e, n, ev)" by (metis prod_cases3)
  have ev: "matched ev" "tree_free ev"
    using copyStagedFile_matched [of sha256 ctx src "sg_inClose r" "sg_dest r" "''manifest.json''" "- 1" stageManifestBytes "trim_sha256 (mf_id m)" 1]
      copyStagedFile_tree_free [of sha256 ctx src "sg_inClose r" "sg_dest r" "''manifest.json''" "- 1" stageManifestBytes "trim_sha256 (mf_id m)" 1] c
    by simp_all
  show ?thesis
  proof (cases e)
    case (Some x)
    with c ev show ?thesis by (simp add: stage_body_def body_ok_def)
  next
    case None
    obtain d where d: "source_content sha256 src ''manifest.json'' (- 1) stageManifestBytes (trim_sha256 (mf_id m)) d"
      "ev = copied ''manifest.json'' d"
      using copyStagedFile_None [OF c [unfolded None]] by blast
    obtain e2 n2 ev2 where f: "copy_files sha256 ctx src r (mf_Files m) n = (e2, n2, ev2)" by (metis prod_cases3)
    note ev2 = copy_files_events [OF f]
    have both: "matched (ev @ ev2)" "tree_free (ev @ ev2)" using ev ev2 by auto
    show ?thesis
    proof (cases e2)
      case (Some x)
      with None c f both show ?thesis by (simp add: stage_body_def body_ok_def)
    next
      case n2: None
      obtain cs where "list_all2 (source_file sha256 src) (mf_Files m) cs" "wrote ev2 = zip (map fl_Path (mf_Files m)) cs"
        using copy_files_None [OF f [unfolded n2]] by blast
      then have staged: "staged_copy sha256 src m (ev @ ev2 @ [Closed StageRoot])"
        using d unfolding staged_copy_def by (intro exI [of _ d] exI [of _ cs]) (simp add: copied_def)
      show ?thesis
        using both staged None n2 c f
        by (cases "verifyStaged (sg_staged r)"; cases "sg_stageClose r")
          (auto simp: stage_body_def body_ok_def intro!: exI [of _ "ev @ ev2"])
    qed
  qed
qed

lemma join_res_cases:
  "join_res out extra = Ok v \<longleftrightarrow> out = Ok v \<and> extra = None"
  "join_res out extra = Panic \<longleftrightarrow> out = Panic"
  by (cases out; cases extra; simp add: join_res_def errors_join_def)+

text \<open>
  The handles: each is closed, the last opened first, or the inspection of the opened stage
  failed, and then its root alone is never closed.
\<close>

definition stage_leak :: "stage_event list" where
  "stage_leak = [Opened ParentRoot, MadeTree, Opened StageRoot, RemovedTree, Closed ParentRoot]"

definition handles_ok :: "stage_replies \<Rightarrow> stage_event list \<Rightarrow> bool" where
  "handles_ok r events \<longleftrightarrow>
     (if Opened StageRoot \<in> set events \<and> sg_stageStat r \<noteq> Inr True then events = stage_leak else matched events)"

definition opened_stage_ok ::
  "(string \<Rightarrow> string) \<Rightarrow> (fsys \<Rightarrow> Manifest res) \<Rightarrow> fsys \<Rightarrow> stage_replies \<Rightarrow> Manifest \<Rightarrow> Manifest res \<times> stage_event list \<Rightarrow> bool" where
  "opened_stage_ok sha256 verifyStaged src r m out \<longleftrightarrow>
     (case out of (res, events) \<Rightarrow>
        (events = [Opened StageRoot] \<and> sg_stageStat r \<noteq> Inr True \<and> (\<exists>e. res = Err e) \<or>
         matched events \<and> (Opened StageRoot \<in> set events \<longrightarrow> sg_stageStat r = Inr True)) \<and>
        MadeTree \<notin> set events \<and> RemovedTree \<notin> set events \<and>
        (case res of
           Ok m' \<Rightarrow> verifyStaged (sg_staged r) = Ok m' \<and> mf_id m' = mf_id m \<and> staged_copy sha256 src m events
         | Err e \<Rightarrow> True
         | Panic \<Rightarrow> verifyStaged (sg_staged r) = Panic))"

lemma staged_copy_simps [simp]:
  "staged_copy sha256 src m (Opened h # events) = staged_copy sha256 src m events"
  "staged_copy sha256 src m (MadeTree # events) = staged_copy sha256 src m events"
  "staged_copy sha256 src m (events @ [Closed h]) = staged_copy sha256 src m events"
  by (simp_all add: staged_copy_def)

lemma stage_opened_ok: "opened_stage_ok sha256 verifyStaged src r m (stage_opened sha256 ctx verifyStaged src r m)"
proof -
  have early: "opened_stage_ok sha256 verifyStaged src r m (Err e, [])" for e by (simp add: opened_stage_ok_def)
  show ?thesis
  proof (cases "sg_lstat r = Inr True \<and> sg_openStage r = None \<and> sg_stageStat r = Inr True")
    case True
    obtain out events shut where b: "stage_body sha256 ctx verifyStaged src r m = (out, events, shut)" by (metis prod_cases3)
    from stage_body_ok [of sha256 verifyStaged src r m ctx] obtain ev where
      ev: "matched ev" "tree_free ev" "events = ev @ (if shut then [Closed StageRoot] else [])"
      and out: "case out of
           Ok m' \<Rightarrow> shut \<and> verifyStaged (sg_staged r) = Ok m' \<and> mf_id m' = mf_id m \<and> staged_copy sha256 src m events
         | Err e \<Rightarrow> True
         | Panic \<Rightarrow> \<not> shut \<and> verifyStaged (sg_staged r) = Panic"
      by (auto simp: b body_ok_def)
    have m: "matched (Opened StageRoot # ev @ [Closed StageRoot])" using ev(1) by blast
    show ?thesis
    proof (cases shut)
      case s: True
      with True b ev m out show ?thesis
        by (cases out) (auto simp: stage_opened_def opened_stage_ok_def tree_free_def)
    next
      case s: False
      with True b ev m out show ?thesis
        by (cases out; cases "sg_stageClose r") (auto simp: stage_opened_def opened_stage_ok_def tree_free_def join_res_def errors_join_def)
    qed
  next
    case False
    then show ?thesis
      by (auto simp: stage_opened_def opened_stage_ok_def split: sum.split option.split)
  qed
qed

text \<open>The finished copy, verified as \<open>m'\<close>, with every handle closed and the directory left in place.\<close>

definition complete_copy ::
  "(string \<Rightarrow> string) \<Rightarrow> (fsys \<Rightarrow> Manifest res) \<Rightarrow> stage_replies \<Rightarrow> Manifest res \<Rightarrow> Manifest \<Rightarrow> stage_event list \<Rightarrow> bool" where
  "complete_copy sha256 verifyStaged r verified m' events \<longleftrightarrow>
     matched events \<and> MadeTree \<in> set events \<and> RemovedTree \<notin> set events \<and>
     (\<exists>m src. verified = Ok m \<and> sg_sub r = Inr src \<and> verifyStaged (sg_staged r) = Ok m' \<and> mf_id m' = mf_id m \<and>
       staged_copy sha256 src m events)"

text \<open>
  What \<open>Stage\<close> may do. An error that leaves the new directory in place is that of closing its
  parent alone, after the copy was finished and verified.
\<close>

definition stage_result ::
  "(string \<Rightarrow> string) \<Rightarrow> (fsys \<Rightarrow> Manifest res) \<Rightarrow> stage_replies \<Rightarrow> Manifest res \<Rightarrow> Manifest res \<times> stage_event list \<Rightarrow> bool" where
  "stage_result sha256 verifyStaged r verified out \<longleftrightarrow>
     (case out of (res, events) \<Rightarrow>
        handles_ok r events \<and>
        (case res of
           Ok m' \<Rightarrow> complete_copy sha256 verifyStaged r verified m' events
         | Err e \<Rightarrow>
             (if MadeTree \<in> set events \<and> RemovedTree \<notin> set events
              then \<exists>c m'. sg_parentClose r = Some c \<and> e = Joined [staging_error ''close staging parent'' (Some c)] \<and>
                complete_copy sha256 verifyStaged r verified m' events
              else RemovedTree \<in> set events \<longrightarrow> MadeTree \<in> set events)
         | Panic \<Rightarrow> verified = Panic \<or> verifyStaged (sg_staged r) = Panic))"

lemma stage_parent_ok:
  assumes "verified = Ok m" and "sg_sub r = Inr src"
  shows "stage_result sha256 verifyStaged r verified (stage_parent sha256 ctx verifyStaged src r m)"
proof -
  have early: "stage_result sha256 verifyStaged r verified (join_res (Err e) c, [Opened ParentRoot, Closed ParentRoot])" for e c
    by (cases c) (simp_all add: stage_result_def handles_ok_def matched_def join_res_def errors_join_def)
  show ?thesis
  proof (cases "sg_parentStat r = Inr True \<and> sg_mkdir r = None")
    case True
    obtain out events where o: "stage_opened sha256 ctx verifyStaged src r m = (out, events)" by fastforce
    have ok: "opened_stage_ok sha256 verifyStaged src r m (out, events)"
      using stage_opened_ok [of sha256 verifyStaged src r m ctx] o by simp
    let ?tail = "case out of Err e \<Rightarrow> [RemovedTree] | _ \<Rightarrow> []"
    let ?events = "Opened ParentRoot # (MadeTree # events @ ?tail) @ [Closed ParentRoot]"
    have hs: "handles_ok r ?events"
    proof (cases "events = [Opened StageRoot] \<and> sg_stageStat r \<noteq> Inr True")
      case True
      with ok show ?thesis by (auto simp: handles_ok_def stage_leak_def opened_stage_ok_def)
    next
      case False
      with ok have e: "matched events" "Opened StageRoot \<in> set events \<longrightarrow> sg_stageStat r = Inr True"
        by (auto simp: opened_stage_ok_def)
      then have "matched (MadeTree # events @ ?tail)" by (auto split: res.split)
      then have "matched ?events" by (rule matched_pair)
      moreover have "\<not> (Opened StageRoot \<in> set ?events \<and> sg_stageStat r \<noteq> Inr True)"
        using e(2) by (auto split: res.split)
      ultimately show ?thesis unfolding handles_ok_def by (simp only: if_False)
    qed
    have eq: "snd (stage_parent sha256 ctx verifyStaged src r m) = ?events"
      using True o by (simp add: stage_parent_def stage_created_def split: res.split)
    show ?thesis
    proof (cases out)
      case (Ok v)
      with ok have e: "matched events" "MadeTree \<notin> set events" "RemovedTree \<notin> set events" "verifyStaged (sg_staged r) = Ok v"
        "mf_id v = mf_id m" "staged_copy sha256 src m events"
        by (auto simp: opened_stage_ok_def)
      have m: "matched (Opened ParentRoot # (MadeTree # events) @ [Closed ParentRoot])"
        using e(1) by (intro matched_pair) simp
      then have "complete_copy sha256 verifyStaged r verified v (Opened ParentRoot # MadeTree # events @ [Closed ParentRoot])"
        using e assms by (auto simp: complete_copy_def)
      with Ok True o hs eq show ?thesis
        by (cases "sg_parentClose r")
          (auto simp: stage_result_def stage_parent_def stage_created_def join_res_def errors_join_def)
    next
      case (Err e)
      with ok True o hs eq show ?thesis
        by (cases "sg_parentClose r"; cases "sg_removeAll r")
          (auto simp: stage_result_def stage_parent_def stage_created_def opened_stage_ok_def join_res_def errors_join_def)
    next
      case Panic
      with ok True o hs eq show ?thesis
        by (cases "sg_parentClose r")
          (auto simp: stage_result_def stage_parent_def stage_created_def opened_stage_ok_def join_res_def)
    qed
  next
    case False
    with early show ?thesis by (auto simp: stage_parent_def split: sum.split option.split)
  qed
qed

lemma Stage_result:
  "stage_result sha256 verifyStaged r
     (case fileSystem of None \<Rightarrow> Err (Opaque ''nil'') | Some verify \<Rightarrow> verify (if root0 = '''' then ''.'' else root0))
     (Stage sha256 ctx fileSystem verifyStaged root0 destination r)"
proof -
  have early: "stage_result sha256 verifyStaged r verified (Err e, [])" for verified e
    by (simp add: stage_result_def handles_ok_def)
  have panic: "stage_result sha256 verifyStaged r Panic (Panic, [])"
    by (simp add: stage_result_def handles_ok_def)
  show ?thesis
    unfolding Stage_def Let_def
    by (auto simp: early panic stage_parent_ok split: option.split sum.split res.split)
qed

text \<open>
  C26: What \<open>Stage\<close> does, whatever the source, the context and the operating system do. A
  manifest it returns is the one the verification of the copy returned, has the identity of the
  one the source was verified with, and the copy was written file by file: the bytes of the
  source's manifest file and, for every declared file, bytes of the declared size and digest.
  A failure after the new directory was made calls \<open>RemoveAll\<close> on it, with one exception: if
  everything succeeded but closing the parent, that error is returned and the finished, verified
  copy is left in place. It panics only if a verification does. Every handle is closed, the last
  opened first, except one: if inspecting the opened stage fails, its root alone is never closed.
\<close>

theorem Stage_outcomes:
  "stage_result sha256 verifyStaged r
     (case fileSystem of None \<Rightarrow> Err (Opaque ''nil'') | Some verify \<Rightarrow> verify (if root0 = '''' then ''.'' else root0))
     (Stage sha256 ctx fileSystem verifyStaged root0 destination r)"
  by (rule Stage_result)

end
