(* ===== verification/Laya_Namespace.thy ===== *)
theory Laya_Namespace
  imports Laya_Stage
begin

text \<open>
  \<open>internal/source/materialize.go\<close>, the operations below the publication: the work directory, the
  namespace with its ownership markers, the abandoned stages, the syncs; and the advisory lock
  of \<open>lock_linux.go\<close>. What the operating system answers is an argument. An operation returns its
  result and what it did, in order: every handle it opens and closes, and every change of the file
  system (a staged file stands for its directories as well). The handles that a single call of the standard library opens and closes within
  itself (\<open>fs.ReadDir\<close>, \<open>fs.WalkDir\<close>) do not show.
\<close>

subsection \<open>Actions\<close>

datatype mat_handle = WorkRoot | NamespaceRoot | NewNamespace | NewLock | LockFile | MarkerFile | StageEntry string
  | DirHandle string | PublicationDir | ReadyBundle | StagedBundle | StagePart stage_handle

text \<open>
  \<open>NamespaceReady\<close> is the statement \<open>owned = false\<close> of \<open>initializeNamespace\<close>. \<open>CopiedBundle\<close> says that
  \<open>Stage\<close> returned a manifest, \<open>VerifiedStage\<close> that the stage was opened, compared and closed.
\<close>

datatype mat_event = HOpen mat_handle | HClose mat_handle | Locked | Unlocked | MadeDir string | MadeFile string
  | RemovedAll string | RenamedTo string string | SyncedDir string | WroteMarker string string | CopiedFile string
  | NamespaceReady | CopiedBundle | VerifiedStage

type_synonym 'a act = "'a res \<times> mat_event list"

definition act_bind :: "'a act \<Rightarrow> ('a \<Rightarrow> 'b act) \<Rightarrow> 'b act" where
  "act_bind a f = (case a of (Ok x, es) \<Rightarrow> (case f x of (r, es') \<Rightarrow> (r, es @ es')) | (Err e, es) \<Rightarrow> (Err e, es) | (Panic, es) \<Rightarrow> (Panic, es))"

definition act_then :: "'a act \<Rightarrow> 'b act \<Rightarrow> 'b act" where
  "act_then a b = act_bind a (\<lambda>_. b)"

text \<open>A check that fails with an error, a result without effects, an effect.\<close>

definition check :: "go_error option \<Rightarrow> unit act" where
  "check c = (case c of None \<Rightarrow> (Ok (), []) | Some e \<Rightarrow> (Err e, []))"

definition give :: "'a \<Rightarrow> 'a act" where "give x = (Ok x, [])"

definition did :: "mat_event list \<Rightarrow> unit act" where "did es = (Ok (), es)"

definition refuse :: "go_error \<Rightarrow> 'a act" where "refuse e = (Err e, [])"

abbreviation mat_error :: "string \<Rightarrow> go_error option \<Rightarrow> go_error" where
  "mat_error operation cause \<equiv> sourceError operation '''' (Sentinel ErrMaterialization) cause"

text \<open>An operating system call that fails with \<open>mat_error\<close>.\<close>

definition call_or :: "string \<Rightarrow> go_error option \<Rightarrow> unit act" where
  "call_or operation reply = check (map_option (\<lambda>e. mat_error operation (Some e)) reply)"

text \<open>\<open>err != nil || !ok\<close>: the error may be nil.\<close>

definition inspect :: "string \<Rightarrow> go_error + bool \<Rightarrow> unit act" where
  "inspect operation reply =
     (case reply of Inl e \<Rightarrow> refuse (mat_error operation (Some e))
      | Inr good \<Rightarrow> if good then give () else refuse (mat_error operation None))"

text \<open>On a failure the handle is closed and the error of the close discarded.\<close>

definition closing_on_failure :: "mat_handle \<Rightarrow> 'a act \<Rightarrow> 'a act" where
  "closing_on_failure h a = (case a of (Err e, es) \<Rightarrow> (Err e, es @ [HClose h]) | _ \<Rightarrow> a)"

subsection \<open>Hooks\<close>

text \<open>\<open>materializeHooks\<close>: a checkpoint answers an operation always alike; production has none.\<close>

type_synonym hooks = "(string \<Rightarrow> go_error option) option"

definition hook_step :: "hooks \<Rightarrow> string \<Rightarrow> unit act" where
  "hook_step h operation =
     (case h of None \<Rightarrow> give ()
      | Some checkpoint \<Rightarrow> call_or operation (checkpoint operation))"

subsection \<open>The work directory\<close>

record work_replies =
  wk_abs :: "go_error + string"
  wk_lstat :: "go_error + bool"
  wk_open :: "go_error option"
  wk_stat :: "go_error + bool"

definition openWorkDirectory :: "work_replies \<Rightarrow> string act" where
  "openWorkDirectory r =
     (case wk_abs r of Inl e \<Rightarrow> refuse (mat_error ''resolve work directory'' (Some e))
      | Inr absPath \<Rightarrow>
          act_then (inspect ''inspect work directory'' (wk_lstat r))
         (act_then (call_or ''open work directory'' (wk_open r))
         (act_then (did [HOpen WorkRoot])
           (closing_on_failure WorkRoot
             (act_then (inspect ''inspect opened work directory'' (wk_stat r)) (give (filepath_Clean absPath)))))))"

subsection \<open>Markers\<close>

definition namespaceMarker :: string where "namespaceMarker = ''laya-go materialization namespace v1'' @ [CHR 0x0A]"
definition stageMarker :: string where "stageMarker = ''laya-go materialization stage v1'' @ [CHR 0x0A]"
definition ownerMarkerName :: string where "ownerMarkerName = ''owner-v1''"
definition lockFileName :: string where "lockFileName = ''materialize.lock''"
definition stagingDirectory :: string where "stagingDirectory = ''staging''"
definition bundlesDirectory :: string where "bundlesDirectory = ''bundles''"
definition namespaceName :: string where "namespaceName = ''.laya-go''"

record marker_replies =
  mk_create :: "go_error option"
  mk_write :: "go_error option"
  mk_sync :: "go_error option"
  mk_shut :: "go_error option"

text \<open>The marker counts as written once its bytes were handed over, synced or not.\<close>

definition writeMarker :: "marker_replies \<Rightarrow> string \<Rightarrow> string \<Rightarrow> unit act" where
  "writeMarker r path content =
     act_then (call_or ''create ownership marker'' (mk_create r))
    (act_then (did [MadeFile path, HOpen MarkerFile])
    (act_then (closing_on_failure MarkerFile
       (act_then (call_or ''write ownership marker'' (mk_write r))
       (act_then (did [WroteMarker path content])
         (call_or ''sync ownership marker'' (mk_sync r)))))
    (act_then (did [HClose MarkerFile]) (call_or ''close ownership marker'' (mk_shut r)))))"

record marker_file =
  mk_lstat :: "go_error + (bool \<times> int)"
  mk_open :: "go_error + read_reply list"

text \<open>
  The file is read to one byte past the expected length. \<open>verifyMarker_did\<close> is what the call does: if it
  gets to open the file, a deferred call closes it.
\<close>

definition verifyMarker :: "marker_file \<Rightarrow> string \<Rightarrow> go_error option" where
  "verifyMarker r content =
     (case mk_lstat r of Inl e \<Rightarrow> Some (mat_error ''inspect ownership marker'' (Some e))
      | Inr (regular, bytes) \<Rightarrow>
          if \<not> regular \<or> bytes \<noteq> int (length content) then Some (mat_error ''validate ownership marker'' None)
          else (case mk_open r of Inl e \<Rightarrow> Some (mat_error ''open ownership marker'' (Some e))
                | Inr reads \<Rightarrow>
                    (case read_all (length content + 1) reads of
                       Inl e \<Rightarrow> Some (mat_error ''read ownership marker'' (Some e))
                     | Inr data \<Rightarrow> fails_if (data \<noteq> content) (mat_error ''validate ownership marker'' None))))"

definition verifyMarker_did :: "marker_file \<Rightarrow> string \<Rightarrow> mat_event list" where
  "verifyMarker_did r content =
     (if mk_lstat r = Inr (True, int (length content)) \<and> \<not> isl (mk_open r)
      then [HOpen MarkerFile, HClose MarkerFile] else [])"

subsection \<open>Syncing\<close>

record dir_replies =
  dr_open :: "go_error option"
  dr_sync :: "go_error option"
  dr_shut :: "go_error option"

definition syncDirectory :: "dir_replies \<Rightarrow> string \<Rightarrow> unit act" where
  "syncDirectory r path =
     act_then (call_or ''open materialization directory'' (dr_open r))
    (act_then (did [HOpen (DirHandle path)])
    (act_then (closing_on_failure (DirHandle path)
       (act_then (call_or ''sync materialization directory'' (dr_sync r)) (did [SyncedDir path])))
    (act_then (did [HClose (DirHandle path)]) (call_or ''close materialization directory'' (dr_shut r)))))"

text \<open>A call of the callback of \<open>fs.WalkDir\<close> in \<open>syncTree\<close>.\<close>

record sync_call =
  sy_name :: string
  sy_err :: "go_error option"
  sy_dir :: bool

fun tree_directories :: "(nat \<Rightarrow> go_error option) \<Rightarrow> nat \<Rightarrow> sync_call list \<Rightarrow> string list \<Rightarrow> go_error + string list" where
  "tree_directories ctx n [] dirs = Inr dirs"
| "tree_directories ctx n (c # cs) dirs =
     (case sy_err c of Some e \<Rightarrow> Inl e
      | None \<Rightarrow>
     (case ctx n of Some e \<Rightarrow> Inl e
      | None \<Rightarrow> tree_directories ctx (Suc n) cs (if sy_dir c then dirs @ [sy_name c] else dirs)))"

fun sync_directories :: "(string \<Rightarrow> dir_replies) \<Rightarrow> string \<Rightarrow> string list \<Rightarrow> unit act" where
  "sync_directories replies path [] = give ()"
| "sync_directories replies path (d # ds) =
     (let name = (if d \<noteq> ''.'' then path @ slash # d else path)
      in act_then (syncDirectory (replies name) name) (sync_directories replies path ds))"

record tree_replies =
  tr_sub :: "go_error option"
  tr_walk :: "sync_call list"
  tr_dirs :: "string \<Rightarrow> dir_replies"

definition syncTree :: "(nat \<Rightarrow> go_error option) \<Rightarrow> tree_replies \<Rightarrow> string \<Rightarrow> unit act" where
  "syncTree ctx r path =
     act_then (call_or ''open staged tree'' (tr_sub r))
      (case tree_directories ctx 0 (tr_walk r) [] of
         Inl e \<Rightarrow> refuse (mat_error ''inspect staged tree'' (Some e))
       | Inr dirs \<Rightarrow> sync_directories (tr_dirs r) path (rev dirs))"

subsection \<open>The namespace\<close>

record ns_entry =
  ne_name :: string
  ne_symlink :: bool
  ne_dir :: bool

record validate_replies =
  va_marker :: "go_error option"
  va_entries :: "go_error + ns_entry list"
  va_file :: marker_file

text \<open>The literal map of the entries a namespace has: whether each is a directory.\<close>

definition namespace_entries :: "(string \<times> bool) list" where
  "namespace_entries = [(ownerMarkerName, False), (lockFileName, False), (stagingDirectory, True), (bundlesDirectory, True)]"

definition entry_wanted :: "ns_entry \<Rightarrow> bool" where
  "entry_wanted e \<longleftrightarrow> (case map_of namespace_entries (ne_name e) of None \<Rightarrow> False | Some dir \<Rightarrow> \<not> ne_symlink e \<and> ne_dir e = dir)"

definition validateNamespace :: "validate_replies \<Rightarrow> bool res" where
  "validateNamespace r =
     (case va_marker r of
        Some e \<Rightarrow> if errors_is e FsErrNotExist then Ok False else Err (mat_error ''inspect namespace marker'' (Some e))
      | None \<Rightarrow>
     (case va_entries r of
        Inl e \<Rightarrow> Err (mat_error ''read materialization namespace'' (Some e))
      | Inr listed \<Rightarrow>
          if length listed \<noteq> length namespace_entries then Err (mat_error ''validate materialization namespace'' None)
          else if \<not> list_all entry_wanted listed then Err (mat_error ''validate materialization namespace'' None)
          else (case verifyMarker (va_file r) namespaceMarker of
                  None \<Rightarrow> Ok True
                | Some e \<Rightarrow> if errors_is e FsErrNotExist then Ok False else Err e)))"

definition validateNamespace_did :: "validate_replies \<Rightarrow> mat_event list" where
  "validateNamespace_did r =
     (case va_entries r of
        Inl e \<Rightarrow> []
      | Inr listed \<Rightarrow>
          if va_marker r = None \<and> length listed = length namespace_entries \<and> list_all entry_wanted listed
          then verifyMarker_did (va_file r) namespaceMarker else [])"

text \<open>
  \<open>writeNamespaceMarker\<close>: the marker is written under another name and renamed into place, so
  that a namespace with a marker is complete.
\<close>

definition initializingMarker :: string where "initializingMarker = ''owner-v1.initializing''"

definition writeNamespaceMarker :: "marker_replies \<Rightarrow> go_error option \<Rightarrow> unit act" where
  "writeNamespaceMarker marker renaming =
     act_then (writeMarker marker initializingMarker namespaceMarker)
    (act_then (call_or ''publish namespace marker'' renaming) (did [RenamedTo initializingMarker ownerMarkerName]))"

record init_replies =
  in_mkdir :: "go_error option"
  in_open :: "go_error option"
  in_staging :: "go_error option"
  in_bundles :: "go_error option"
  in_lock :: "go_error option"
  in_lockSync :: "go_error option"
  in_lockShut :: "go_error option"
  in_marker :: marker_replies
  in_rename :: "go_error option"
  in_dir :: dir_replies
  in_shut :: "go_error option"
  in_removeAll :: "go_error option"

text \<open>What fills the new directory, once it is open.\<close>

definition fill_namespace :: "hooks \<Rightarrow> init_replies \<Rightarrow> unit act" where
  "fill_namespace h r =
     act_then (call_or ''create staging namespace'' (in_staging r))
    (act_then (did [MadeDir stagingDirectory])
    (act_then (call_or ''create bundles namespace'' (in_bundles r))
    (act_then (did [MadeDir bundlesDirectory])
    (act_then (call_or ''create materialization lock'' (in_lock r))
    (act_then (did [MadeFile lockFileName])
    (act_then (did [HOpen NewLock])
    (act_then (closing_on_failure NewLock (call_or ''sync materialization lock'' (in_lockSync r)))
    (act_then (did [HClose NewLock])
    (act_then (call_or ''close materialization lock'' (in_lockShut r))
    (act_then (hook_step h ''write namespace marker'')
    (act_then (writeNamespaceMarker (in_marker r) (in_rename r))
    (act_then (syncDirectory (in_dir r) ''.'')
      (did [NamespaceReady])))))))))))))"

text \<open>A deferred call joins its error to the one returned.\<close>

definition join_act :: "go_error option \<Rightarrow> mat_event list \<Rightarrow> 'a act \<Rightarrow> 'a act" where
  "join_act extra events a =
     (case a of (r, es) \<Rightarrow>
        ((case extra of None \<Rightarrow> r
          | Some x \<Rightarrow> (case r of Ok v \<Rightarrow> Err (Joined [x]) | Err e \<Rightarrow> Err (Joined [e, x]) | Panic \<Rightarrow> Panic)),
         es @ events))"

definition initializeNamespace :: "hooks \<Rightarrow> init_replies \<Rightarrow> unit act" where
  "initializeNamespace h r =
     act_then (hook_step h ''create namespace'')
    (act_then (call_or ''create materialization namespace'' (in_mkdir r))
    (act_then (did [MadeDir namespaceName])
      (let opened = (case in_open r of
             Some e \<Rightarrow> (refuse (mat_error ''open new materialization namespace'' (Some e)), False)
           | None \<Rightarrow> (fill_namespace h r, True));
           owned = (case fst (fst opened) of Ok _ \<Rightarrow> False | _ \<Rightarrow> True);
           shut = (if snd opened
             then join_act (map_option (\<lambda>e. mat_error ''close new materialization namespace'' (Some e)) (in_shut r))
                    [HClose NewNamespace] (act_then (did [HOpen NewNamespace]) (fst opened))
             else fst opened)
       in if owned \<and> fst shut \<noteq> Panic
          then join_act (map_option (\<lambda>e. mat_error ''remove incomplete namespace'' (Some e)) (in_removeAll r))
                 [RemovedAll namespaceName] shut
          else shut)))"

record ns_attempt =
  na_lstat :: "go_error + bool"
  na_init :: init_replies
  na_open :: "go_error option"
  na_stat :: "go_error + bool"
  na_validate :: validate_replies
  na_done :: "go_error option"

text \<open>One attempt: the namespace, or \<open>None\<close> to try again; \<open>na_done\<close> is the end of the context while waiting.\<close>

definition namespace_attempt :: "hooks \<Rightarrow> ns_attempt \<Rightarrow> unit option act" where
  "namespace_attempt h r =
     (case na_lstat r of
        Inl e \<Rightarrow>
          if errors_is e FsErrNotExist
          then (case initializeNamespace h (na_init r) of
                  (Err x, es) \<Rightarrow> if errors_is x FsErrExist then (Ok None, es) else (Err x, es)
                | (Ok _, es) \<Rightarrow> (Ok None, es)
                | (Panic, es) \<Rightarrow> (Panic, es))
          else refuse (mat_error ''inspect materialization namespace'' (Some e))
      | Inr dir \<Rightarrow>
          if \<not> dir then refuse (mat_error ''inspect materialization namespace'' None)
          else
            act_then (call_or ''open materialization namespace'' (na_open r))
           (act_then (did [HOpen NamespaceRoot])
             (act_bind (closing_on_failure NamespaceRoot
                 (act_then (inspect ''inspect opened materialization namespace'' (na_stat r)) (validateNamespace (na_validate r), validateNamespace_did (na_validate r))))
               (\<lambda>valid. if valid then give (Some ())
                  else act_then (did [HClose NamespaceRoot])
                         (case na_done r of
                            Some e \<Rightarrow> refuse (sourceError ''initialize materialization namespace'' '''' e (Some e))
                          | None \<Rightarrow> give None)))))"

definition namespaceRetries :: nat where "namespaceRetries = 200"

text \<open>The loop of \<open>ensureNamespace\<close> with \<open>k\<close> attempts left; the \<open>n\<close>-th attempt meets \<open>attempts n\<close>.\<close>

primrec ensure_loop :: "(nat \<Rightarrow> go_error option) \<Rightarrow> hooks \<Rightarrow> (nat \<Rightarrow> ns_attempt) \<Rightarrow> nat \<Rightarrow> nat \<Rightarrow> unit act" where
  "ensure_loop ctx h attempts 0 n = refuse (mat_error ''initialize materialization namespace'' None)"
| "ensure_loop ctx h attempts (Suc k) n =
     (case ctx n of
        Some e \<Rightarrow> refuse (sourceError ''initialize materialization namespace'' '''' e (Some e))
      | None \<Rightarrow>
          act_bind (namespace_attempt h (attempts n))
            (\<lambda>found. case found of Some _ \<Rightarrow> give () | None \<Rightarrow> ensure_loop ctx h attempts k (Suc n)))"

definition ensureNamespace :: "(nat \<Rightarrow> go_error option) \<Rightarrow> hooks \<Rightarrow> (nat \<Rightarrow> ns_attempt) \<Rightarrow> unit act" where
  "ensureNamespace ctx h attempts = ensure_loop ctx h attempts namespaceRetries 0"

subsection \<open>The lock\<close>

record lock_file_replies =
  lf_lstat :: "go_error + bool"
  lf_open :: "go_error option"
  lf_stat :: "go_error + bool"

definition openLockFile :: "lock_file_replies \<Rightarrow> unit act" where
  "openLockFile r =
     act_then (inspect ''inspect materialization lock'' (lf_lstat r))
    (act_then (call_or ''open materialization lock'' (lf_open r))
    (act_then (did [HOpen LockFile])
      (closing_on_failure LockFile (inspect ''inspect opened materialization lock'' (lf_stat r)))))"

text \<open>
  One round of \<open>acquireAdvisoryLock\<close>: the context, what \<open>Flock\<close> answers, and whether the context
  ended before the next tick.
\<close>

datatype flock_reply = LockTaken | LockBusy | LockFailed go_error

record lock_round =
  lo_ctx :: "go_error option"
  lo_flock :: flock_reply
  lo_done :: "go_error option"

text \<open>The rounds are finite; \<open>None\<close> means that the lock is still awaited when they end.\<close>

fun acquireAdvisoryLock :: "lock_round list \<Rightarrow> unit act option" where
  "acquireAdvisoryLock [] = None"
| "acquireAdvisoryLock (r # rs) =
     (case lo_ctx r of
        Some e \<Rightarrow> Some (refuse (sourceError ''wait for materialization lock'' '''' e (Some e)))
      | None \<Rightarrow>
          (case lo_flock r of
             LockTaken \<Rightarrow> Some (did [Locked])
           | LockFailed e \<Rightarrow> Some (refuse (mat_error ''lock materialization namespace'' (Some e)))
           | LockBusy \<Rightarrow>
               (case lo_done r of
                  Some e \<Rightarrow> Some (refuse (sourceError ''wait for materialization lock'' '''' e (Some e)))
                | None \<Rightarrow> acquireAdvisoryLock rs)))"

text \<open>\<open>advisoryLock.Close\<close> of a held lock: it unlocks and closes the file, whatever the first answers.\<close>

definition lock_Close :: "go_error option \<Rightarrow> go_error option \<Rightarrow> go_error option \<times> mat_event list" where
  "lock_Close unlockErr closeErr =
     ((case unlockErr of
         Some e \<Rightarrow> Some (mat_error ''unlock materialization namespace'' (Some e))
       | None \<Rightarrow> map_option (\<lambda>e. mat_error ''close materialization lock'' (Some e)) closeErr),
      [Unlocked, HClose LockFile])"

datatype rename_reply = RenameDone | RenameExists | RenameFailed go_error

record publish_replies =
  pb_open :: "go_error option"
  pb_rename :: rename_reply
  pb_shut :: "go_error option"

definition renameNoReplace :: "publish_replies \<Rightarrow> string \<Rightarrow> string \<Rightarrow> bool act" where
  "renameNoReplace r old new =
     act_then (call_or ''open publication namespace'' (pb_open r))
    (act_then (did [HOpen PublicationDir])
      (join_act (map_option (\<lambda>e. mat_error ''close publication namespace'' (Some e)) (pb_shut r)) [HClose PublicationDir]
        (case pb_rename r of
           RenameDone \<Rightarrow> act_then (did [RenamedTo old new]) (give True)
         | RenameExists \<Rightarrow> give False
         | RenameFailed e \<Rightarrow> refuse (mat_error ''publish materialized bundle'' (Some e)))))"

subsection \<open>Stages\<close>

definition rootEntryExists :: "go_error option \<Rightarrow> bool act" where
  "rootEntryExists lstat =
     (case lstat of
        None \<Rightarrow> give True
      | Some e \<Rightarrow> if errors_is e FsErrNotExist then give False else refuse (mat_error ''inspect materialization entry'' (Some e)))"

definition hex_digit :: "nat \<Rightarrow> char" where
  "hex_digit n = (if n < 10 then char_of (48 + n) else char_of (87 + n))"

definition hex_encode :: "string \<Rightarrow> string" where
  "hex_encode bytes = concat (map (\<lambda>c. [hex_digit (of_char c div 16), hex_digit (of_char c mod 16)]) bytes)"

definition stageRandomBytes :: nat where "stageRandomBytes = 16"

text \<open>\<open>random\<close> is what \<open>io.ReadFull\<close> reads from the generator: that many bytes, or an error.\<close>

definition newStageName :: "go_error + string \<Rightarrow> string \<Rightarrow> string act" where
  "newStageName random digest =
     (case random of
        Inl e \<Rightarrow> refuse (mat_error ''generate stage identity'' (Some e))
      | Inr bytes \<Rightarrow> give (digest @ CHR ''-'' # hex_encode bytes))"

definition validStageName :: "string \<Rightarrow> bool" where
  "validStageName name \<longleftrightarrow>
     length name = 64 + 1 + stageRandomBytes * 2 \<and> name ! 64 = CHR ''-'' \<and>
     validLowerHex (take 64 name) \<and> validLowerHex (drop 65 name)"

record stage_entry =
  se_entry :: ns_entry
  se_ctx :: "go_error option"
  se_open :: "go_error option"
  se_marker :: marker_file
  se_shut :: "go_error option"
  se_removeAll :: "go_error option"

definition stage_path :: "stage_entry \<Rightarrow> string" where
  "stage_path e = stagingDirectory @ slash # ne_name (se_entry e)"

text \<open>An entry of the staging directory that is an abandoned stage of this program.\<close>

definition stage_candidate :: "stage_entry \<Rightarrow> bool" where
  "stage_candidate e \<longleftrightarrow> validStageName (ne_name (se_entry e)) \<and> ne_dir (se_entry e) \<and> \<not> ne_symlink (se_entry e)"

fun recover_loop :: "hooks \<Rightarrow> stage_entry list \<Rightarrow> unit act" where
  "recover_loop h [] = give ()"
| "recover_loop h (e # es) =
     (case se_ctx e of
        Some x \<Rightarrow> refuse (sourceError ''recover stages'' '''' x (Some x))
      | None \<Rightarrow>
          if \<not> stage_candidate e \<or> se_open e \<noteq> None then recover_loop h es
          else act_then (did (HOpen (StageEntry (stage_path e)) # verifyMarker_did (se_marker e) stageMarker @
                              [HClose (StageEntry (stage_path e))]))
            (if verifyMarker (se_marker e) stageMarker \<noteq> None \<or> se_shut e \<noteq> None then recover_loop h es
             else act_then (hook_step h ''recover owned stage'')
                 (act_then (call_or ''remove abandoned stage'' (se_removeAll e))
                 (act_then (did [RemovedAll (stage_path e)]) (recover_loop h es)))))"

definition recoverStages :: "hooks \<Rightarrow> go_error + stage_entry list \<Rightarrow> unit act" where
  "recoverStages h listed =
     (case listed of
        Inl e \<Rightarrow> refuse (mat_error ''read staging namespace'' (Some e))
      | Inr es \<Rightarrow> recover_loop h es)"

end
