(* ===== verification/Laya_Materialize.thy ===== *)
theory Laya_Materialize
  imports Laya_Namespace
begin

text \<open>
  \<open>internal/source/materialize.go\<close>, \<open>Materialize\<close>: publishing a verified copy of a bundle under a
  name made of its digest. Staging is the modelled \<open>Stage\<close>, with what it did; verification and
  \<open>OpenDirectory\<close> are operations of their own (\<open>Laya_Verify\<close>, \<open>Laya_OpenDir\<close>: one that fails has
  closed what it opened), whose results are arguments here, as are the replies of the
  operating system.
\<close>

record mat_replies =
  ma_goos :: string
  ma_goarch :: string
  ma_work :: work_replies
  ma_attempts :: "nat \<Rightarrow> ns_attempt"
  ma_lockFile :: lock_file_replies
  ma_lock :: "lock_round list"
  ma_stages :: "go_error + stage_entry list"
  ma_exists :: "go_error option"
  ma_random :: "go_error + string"
  ma_mkdir :: "go_error option"
  ma_marker :: marker_replies
  ma_sha256 :: "string \<Rightarrow> string"
  ma_stageCtx :: "nat \<Rightarrow> go_error option"
  ma_stageVerify :: "string \<Rightarrow> Manifest res"
  ma_verifyStaged :: "fsys \<Rightarrow> Manifest res"
  ma_stage :: stage_replies
  ma_treeCtx :: "nat \<Rightarrow> go_error option"
  ma_tree :: tree_replies
  ma_staged :: "string \<Rightarrow> source_bundle res"
  ma_stagedClose :: "go_error option"
  ma_publish :: publish_replies
  ma_bundlesDir :: dir_replies
  ma_removeStage :: "go_error option"
  ma_stagingDir :: dir_replies
  ma_ready :: "string \<Rightarrow> source_bundle res"
  ma_readyClose :: "go_error option"
  ma_cleanup :: "go_error option"
  ma_unlock :: "go_error option"
  ma_lockShut :: "go_error option"
  ma_namespaceShut :: "go_error option"
  ma_workShut :: "go_error option"

definition materializationPlatformSupported :: "string \<Rightarrow> string \<Rightarrow> bool" where
  "materializationPlatformSupported goos goarch \<longleftrightarrow> goos = ''linux'' \<and> goarch = ''amd64''"

text \<open>
  \<open>joinMaterializeReturn\<close>, for a deferred call that did \<open>events\<close> and reported \<open>extra\<close>: a bundle
  that was about to be returned is closed.
\<close>

definition joinMaterializeReturn :: "mat_replies \<Rightarrow> go_error option \<Rightarrow> mat_event list \<Rightarrow> source_bundle act \<Rightarrow> source_bundle act" where
  "joinMaterializeReturn r extra events a =
     (case a of (res, es) \<Rightarrow>
        (case extra of None \<Rightarrow> (res, es @ events)
         | Some x \<Rightarrow>
             (case res of
                Ok b \<Rightarrow> (Err (Joined (somes [errors_join [Some x, ma_readyClose r]])), es @ events @ [HClose ReadyBundle])
              | Err e \<Rightarrow> (Err (Joined [e, x]), es @ events)
              | Panic \<Rightarrow> (Panic, es @ events))))"

text \<open>\<open>OpenDirectory\<close> of the publication, and the comparison of identities after it.\<close>

definition open_ready :: "mat_replies \<Rightarrow> Manifest \<Rightarrow> string \<Rightarrow> string \<Rightarrow> source_bundle act" where
  "open_ready r m final operation =
     (case ma_ready r final of
        Panic \<Rightarrow> (Panic, [])
      | Err e \<Rightarrow> refuse e
      | Ok b \<Rightarrow>
          if mf_id (sb_manifest b) \<noteq> mf_id m
          then (Err (sourceError operation ''manifest.json'' (Sentinel ErrIntegrity) None), [HOpen ReadyBundle, HClose ReadyBundle])
          else (Ok b, [HOpen ReadyBundle]))"

text \<open>\<open>OpenDirectory\<close> of the stage, which is compared and closed.\<close>

definition verify_stage :: "mat_replies \<Rightarrow> Manifest \<Rightarrow> string \<Rightarrow> unit act" where
  "verify_stage r m bundlePath =
     (case ma_staged r bundlePath of
        Panic \<Rightarrow> (Panic, [])
      | Err e \<Rightarrow> refuse e
      | Ok b \<Rightarrow>
          if mf_id (sb_manifest b) \<noteq> mf_id m
          then (Err (sourceError ''verify staged identity'' ''manifest.json'' (Sentinel ErrIntegrity) None), [HOpen StagedBundle, HClose StagedBundle])
          else act_then (did [HOpen StagedBundle, HClose StagedBundle])
             (act_then (check (ma_stagedClose r)) (did [VerifiedStage])))"

text \<open>
  What \<open>Stage\<close> did, seen from here: \<open>path\<close> is the path of the new directory in the namespace, the
  same directory as \<open>bundlePath\<close>. The source is verified again, in a call of its own.
\<close>

fun staged_event :: "string \<Rightarrow> stage_event \<Rightarrow> mat_event" where
  "staged_event dir (Opened h) = HOpen (StagePart h)"
| "staged_event dir (Closed h) = HClose (StagePart h)"
| "staged_event dir (Wrote p content) = CopiedFile (dir @ slash # p)"
| "staged_event dir MadeTree = MadeDir dir"
| "staged_event dir RemovedTree = RemovedAll dir"

definition copy_stage :: "mat_replies \<Rightarrow> Manifest \<Rightarrow> string \<Rightarrow> string \<Rightarrow> string \<Rightarrow> unit act" where
  "copy_stage r m dir path bundlePath =
     (case Stage (ma_sha256 r) (Some (ma_stageCtx r)) (Some (ma_stageVerify r)) (ma_verifyStaged r) dir bundlePath (ma_stage r) of
        (res, events) \<Rightarrow>
          act_then (did (map (staged_event path) events))
            (case res of
               Panic \<Rightarrow> (Panic, [])
             | Err e \<Rightarrow> refuse e
             | Ok staged \<Rightarrow>
                 act_then (did [CopiedBundle])
                   (check (fails_if (mf_id staged \<noteq> mf_id m)
                     (sourceError ''verify staged identity'' ''manifest.json'' (Sentinel ErrIntegrity) None)))))"

text \<open>
  After the rename succeeded. The second component of the result says whether the stage still
  belongs to the caller, so that the deferred cleanup removes it.
\<close>

definition finish_publication :: "hooks \<Rightarrow> mat_replies \<Rightarrow> Manifest \<Rightarrow> string \<Rightarrow> string \<Rightarrow> source_bundle act \<times> bool" where
  "finish_publication h r m stagePath final =
     (let before =
        act_then (hook_step h ''sync publication'')
       (act_then (syncDirectory (ma_bundlesDir r) bundlesDirectory)
       (act_then (hook_step h ''remove published stage'')
       (act_then (call_or ''remove published stage'' (ma_removeStage r)) (did [RemovedAll stagePath]))))
      in case before of
           (Ok _, es) \<Rightarrow>
             (act_then (did es)
               (act_then (syncDirectory (ma_stagingDir r) stagingDirectory)
               (act_then (hook_step h ''open publication'') (open_ready r m final ''verify publication identity''))), False)
         | (Err e, es) \<Rightarrow> ((Err e, es), True)
         | (Panic, es) \<Rightarrow> ((Panic, es), True))"

text \<open>The stage is filled, synced, verified and renamed into place.\<close>

definition publish_stage :: "hooks \<Rightarrow> mat_replies \<Rightarrow> Manifest \<Rightarrow> string \<Rightarrow> string \<Rightarrow> string \<Rightarrow> string \<Rightarrow> bool act" where
  "publish_stage h r m dir stagePath bundlePath finalPath =
     act_then (hook_step h ''write stage marker'')
    (act_then (writeMarker (ma_marker r) (stagePath @ slash # ownerMarkerName) stageMarker)
    (act_then (hook_step h ''copy bundle'')
    (act_then (copy_stage r m dir (stagePath @ ''/bundle'') bundlePath)
    (act_then (hook_step h ''sync stage'')
    (act_then (syncTree (ma_treeCtx r) (ma_tree r) stagePath)
    (act_then (hook_step h ''verify stage'')
    (act_then (verify_stage r m bundlePath)
    (act_then (hook_step h ''publish bundle'')
      (renameNoReplace (ma_publish r) (stagePath @ ''/bundle'') finalPath)))))))))"

definition stage_owned ::
  "hooks \<Rightarrow> mat_replies \<Rightarrow> Manifest \<Rightarrow> string \<Rightarrow> string \<Rightarrow> string \<Rightarrow> string \<Rightarrow> string \<Rightarrow> source_bundle act \<times> bool" where
  "stage_owned h r m dir stagePath bundlePath finalPath final =
     (case publish_stage h r m dir stagePath bundlePath finalPath of
        (Ok renamed, es) \<Rightarrow>
          (case (if renamed then finish_publication h r m stagePath final else (open_ready r m final ''verify publication winner'', True)) of
             ((res, es'), owned) \<Rightarrow> ((res, es @ es'), owned))
      | (Err e, es) \<Rightarrow> ((Err e, es), True)
      | (Panic, es) \<Rightarrow> ((Panic, es), True))"

text \<open>The deferred cleanup of the stage.\<close>

definition cleanup_stage :: "hooks \<Rightarrow> mat_replies \<Rightarrow> string \<Rightarrow> source_bundle act \<times> bool \<Rightarrow> source_bundle act" where
  "cleanup_stage h r stagePath a =
     (if \<not> snd a then fst a
      else case fst (hook_step h ''cleanup stage'') of
             Err e \<Rightarrow> joinMaterializeReturn r (Some e) [] (fst a)
           | _ \<Rightarrow> joinMaterializeReturn r (map_option (\<lambda>e. mat_error ''remove owned stage'' (Some e)) (ma_cleanup r))
                    [RemovedAll stagePath] (fst a))"

text \<open>The paths of the publication and of a stage below the work directory, for \<open>OpenDirectory\<close> and \<open>Stage\<close>.\<close>

definition native_final :: "string \<Rightarrow> string \<Rightarrow> string" where
  "native_final workPath digest =
     filepath_Join (filepath_Join (filepath_Join workPath namespaceName) bundlesDirectory) (''sha256-'' @ digest)"

definition native_stage :: "string \<Rightarrow> string \<Rightarrow> string" where
  "native_stage workPath stageName =
     filepath_Join (filepath_Join (filepath_Join (filepath_Join workPath namespaceName) stagingDirectory) stageName) ''bundle''"

text \<open>With the lock held.\<close>

definition materialize_locked :: "hooks \<Rightarrow> mat_replies \<Rightarrow> Manifest \<Rightarrow> string \<Rightarrow> string \<Rightarrow> string \<Rightarrow> source_bundle act" where
  "materialize_locked h r m dir workPath digest =
     (let final = native_final workPath digest in
     act_then (hook_step h ''recover stages'')
    (act_then (recoverStages h (ma_stages r))
    (act_bind (rootEntryExists (ma_exists r)) (\<lambda>exists.
       if exists then act_then (hook_step h ''verify ready'') (open_ready r m final ''verify ready identity'')
       else act_bind (newStageName (ma_random r) digest) (\<lambda>stageName.
         let stagePath = stagingDirectory @ slash # stageName; finalPath = bundlesDirectory @ slash # (''sha256-'' @ digest) in
         act_then (hook_step h ''create stage'')
        (act_then (call_or ''create materialization stage'' (ma_mkdir r))
        (act_then (did [MadeDir stagePath])
          (cleanup_stage h r stagePath (stage_owned h r m dir stagePath (native_stage workPath stageName) finalPath final)))))))))"

text \<open>With the namespace open; \<open>None\<close> means that the lock is still awaited.\<close>

definition materialize_namespace :: "hooks \<Rightarrow> mat_replies \<Rightarrow> Manifest \<Rightarrow> string \<Rightarrow> string \<Rightarrow> string \<Rightarrow> source_bundle act option" where
  "materialize_namespace h r m dir workPath digest =
     (case act_then (hook_step h ''open lock'')
             (act_then (openLockFile (ma_lockFile r)) (closing_on_failure LockFile (hook_step h ''wait lock''))) of
        (Err e, es) \<Rightarrow> Some (Err e, es)
      | (Panic, es) \<Rightarrow> Some (Panic, es)
      | (Ok _, es) \<Rightarrow>
          (case acquireAdvisoryLock (ma_lock r) of
             None \<Rightarrow> None
           | Some a \<Rightarrow>
               Some (act_then (did es)
                 (act_then (closing_on_failure LockFile a)
                   (case lock_Close (ma_unlock r) (ma_lockShut r) of
                      (err, events) \<Rightarrow> joinMaterializeReturn r err events (materialize_locked h r m dir workPath digest))))))"

definition materialize_work ::
  "(nat \<Rightarrow> go_error option) \<Rightarrow> hooks \<Rightarrow> mat_replies \<Rightarrow> Manifest \<Rightarrow> string \<Rightarrow> string \<Rightarrow> string \<Rightarrow> source_bundle act option" where
  "materialize_work ctx h r m dir workPath digest =
     (case act_then (hook_step h ''ensure namespace'') (ensureNamespace ctx h (ma_attempts r)) of
        (Err e, es) \<Rightarrow> Some (Err e, es)
      | (Panic, es) \<Rightarrow> Some (Panic, es)
      | (Ok _, es) \<Rightarrow>
          map_option (\<lambda>a. act_then (did es)
            (joinMaterializeReturn r (map_option (\<lambda>e. mat_error ''close materialization namespace'' (Some e)) (ma_namespaceShut r))
              [HClose NamespaceRoot] a)) (materialize_namespace h r m dir workPath digest))"

text \<open>The source is verified (the outcome is an argument) and the work directory opened.\<close>

definition source_work :: "hooks \<Rightarrow> mat_replies \<Rightarrow> Manifest res \<Rightarrow> (Manifest \<times> string \<times> string) act" where
  "source_work h r verified =
     act_bind (act_then (hook_step h ''verify source'') (verified, []))
       (\<lambda>m. let digest = trim_sha256 (mf_id m) in
          if length digest \<noteq> 64 \<or> \<not> validHexName digest
          then refuse (sourceError ''validate bundle identity'' ''manifest.json'' (Sentinel ErrIntegrity) None)
          else act_bind (openWorkDirectory (ma_work r)) (\<lambda>workPath. give (m, workPath, digest)))"

text \<open>\<open>fileSystem\<close> is \<open>None\<close> for nil; otherwise it verifies the bundle below a root.\<close>

definition materialize ::
  "(nat \<Rightarrow> go_error option) option \<Rightarrow> (string \<Rightarrow> Manifest res) option \<Rightarrow> string \<Rightarrow> string \<Rightarrow> hooks \<Rightarrow> mat_replies
   \<Rightarrow> source_bundle act option" where
  "materialize ctx fileSystem root0 workDir h r =
     (case ctx of None \<Rightarrow> Some (refuse (sourceError ''validate context'' '''' (Sentinel ErrInvalidBundle) None))
      | Some ctx \<Rightarrow>
          if \<not> materializationPlatformSupported (ma_goos r) (ma_goarch r)
          then Some (refuse (unsupported_source ''materialize bundle'' '''' None))
          else
     (case fileSystem of None \<Rightarrow> Some (refuse (sourceError ''validate filesystem'' '''' (Sentinel ErrInvalidBundle) None))
      | Some verify \<Rightarrow>
          (let dir = (if root0 = '''' then ''.'' else root0)
           in if dir \<noteq> ''.'' \<and> (\<not> fs_ValidPath dir \<or> has_backslash dir)
              then Some (refuse (sourceError ''validate filesystem root'' dir (Sentinel ErrInvalidBundle) None))
              else if workDir = '''' then Some (refuse (mat_error ''validate work directory'' None))
              else
     (case ctx 0 of Some e \<Rightarrow> Some (refuse (sourceError ''materialize bundle'' '''' e (Some e)))
      | None \<Rightarrow>
     (case source_work h r (verify dir) of
        (Err e, es) \<Rightarrow> Some (Err e, es)
      | (Panic, es) \<Rightarrow> Some (Panic, es)
      | (Ok (m, workPath, digest), es) \<Rightarrow>
          map_option (\<lambda>a. act_then (did es)
            (joinMaterializeReturn r (map_option (\<lambda>e. mat_error ''close work directory'' (Some e)) (ma_workShut r))
              [HClose WorkRoot] a)) (materialize_work (\<lambda>n. ctx (Suc n)) h r m dir workPath digest))))))"

text \<open>The exported operation has no checkpoints.\<close>

definition Materialize ::
  "(nat \<Rightarrow> go_error option) option \<Rightarrow> (string \<Rightarrow> Manifest res) option \<Rightarrow> string \<Rightarrow> string \<Rightarrow> mat_replies \<Rightarrow> source_bundle act option" where
  "Materialize ctx fileSystem root0 workDir r = materialize ctx fileSystem root0 workDir None r"

end
