(* ===== verification/Laya_NativeRun.thy ===== *)
theory Laya_NativeRun
  imports Laya_Context Laya_Tensor
begin

text \<open>
  \<open>native_run.go\<close>: one native call, its worker goroutine and its cancellation.

  A state of \<open>executeCancelableNativeCall\<close> is the program counter of the caller, that of
  the worker goroutine, the one-element channel between them and the context. The replies of
  the native call (\<open>Execute\<close>, \<open>Terminate\<close>, \<open>Close\<close>) are arbitrary in every
  step, and the context may end between any two steps. \<open>nc_result\<close>, \<open>nc_cleanup\<close>,
  \<open>nc_closes\<close> and \<open>nc_terminates\<close> record the calls made on the native object.
\<close>

type_synonym call_result = "rawModelOutputs \<times> go_error option"

datatype main_pc =
    MStart
  | MSelect
  | MReceived call_result
  | MClosed call_result "go_error option"
  | MTerminate
  | MAwait "go_error option"
  | MCancelClose "go_error option" call_result
  | MReturn "rawModelOutputs res"

datatype worker_pc = WIdle | WRunning | WDone

record native_call =
  nc_ctx :: go_ctx
  nc_present :: bool
  nc_main :: main_pc
  nc_worker :: worker_pc
  nc_done :: "call_result option"
  nc_result :: "call_result option"
  nc_cleanup :: "go_error option option"
  nc_closes :: nat
  nc_terminates :: nat

definition nativeRunCancellationError :: "go_error \<Rightarrow> go_error option list \<Rightarrow> go_error" where
  "nativeRunCancellationError contextErr causes =
     newInferenceStageError contextErr ''cancel native run'' (errors_join (Some contextErr # causes))"

definition call_init :: "go_ctx \<Rightarrow> bool \<Rightarrow> native_call" where
  "call_init ctx present =
     \<lparr>nc_ctx = ctx, nc_present = present, nc_main = MStart, nc_worker = WIdle, nc_done = None,
      nc_result = None, nc_cleanup = None, nc_closes = 0, nc_terminates = 0\<rparr>"

definition do_close :: "go_error option \<Rightarrow> native_call \<Rightarrow> native_call" where
  "do_close reply s = s\<lparr>nc_closes := Suc (nc_closes s), nc_cleanup := Some reply\<rparr>"

text \<open>What the caller returns once the worker's result is in and the call is closed.\<close>

definition after_close :: "go_ctx \<Rightarrow> call_result \<Rightarrow> go_error option \<Rightarrow> rawModelOutputs res" where
  "after_close ctx r cleanupErr =
     (case ctx of
        Ctx (Some contextErr) \<Rightarrow> Err (nativeRunCancellationError contextErr [snd r, None, cleanupErr])
      | NilCtx \<Rightarrow> Panic
      | Ctx None \<Rightarrow>
          (case errors_join [snd r, cleanupErr] of Some e \<Rightarrow> Err e | None \<Rightarrow> Ok (fst r)))"

inductive call_step :: "native_call \<Rightarrow> native_call \<Rightarrow> bool" where
  bad_context_no_call:
    "\<lbrakk>nc_main s = MStart; validateContext (nc_ctx s) = Some e; \<not> nc_present s\<rbrakk>
     \<Longrightarrow> call_step s (s\<lparr>nc_main := MReturn (Err e)\<rparr>)"
| bad_context:
    "\<lbrakk>nc_main s = MStart; validateContext (nc_ctx s) = Some e; nc_present s\<rbrakk>
     \<Longrightarrow> call_step s ((do_close reply s)\<lparr>nc_main :=
           MReturn (Err (nativeRunCancellationError e [None, None, reply]))\<rparr>)"
| nil_call:
    "\<lbrakk>nc_main s = MStart; validateContext (nc_ctx s) = None; \<not> nc_present s\<rbrakk>
     \<Longrightarrow> call_step s (s\<lparr>nc_main := MReturn (Err (wrap ErrInvalidState ''native call is nil''))\<rparr>)"
| spawn:
    "\<lbrakk>nc_main s = MStart; validateContext (nc_ctx s) = None; nc_present s\<rbrakk>
     \<Longrightarrow> call_step s (s\<lparr>nc_main := MSelect, nc_worker := WRunning\<rparr>)"
| execute_returns:
    "nc_worker s = WRunning
     \<Longrightarrow> call_step s (s\<lparr>nc_worker := WDone, nc_done := Some r, nc_result := Some r\<rparr>)"
| select_done:
    "\<lbrakk>nc_main s = MSelect; nc_done s = Some r\<rbrakk>
     \<Longrightarrow> call_step s (s\<lparr>nc_main := MReceived r, nc_done := None\<rparr>)"
| close_done:
    "nc_main s = MReceived r
     \<Longrightarrow> call_step s ((do_close reply s)\<lparr>nc_main := MClosed r reply\<rparr>)"
| return_done:
    "nc_main s = MClosed r cleanupErr
     \<Longrightarrow> call_step s (s\<lparr>nc_main := MReturn (after_close (nc_ctx s) r cleanupErr)\<rparr>)"
| select_cancel:
    "\<lbrakk>nc_main s = MSelect; nc_ctx s = Ctx (Some e)\<rbrakk> \<Longrightarrow> call_step s (s\<lparr>nc_main := MTerminate\<rparr>)"
| terminate:
    "nc_main s = MTerminate
     \<Longrightarrow> call_step s (s\<lparr>nc_main := MAwait terminateErr, nc_terminates := Suc (nc_terminates s)\<rparr>)"
| await_done:
    "\<lbrakk>nc_main s = MAwait terminateErr; nc_done s = Some r\<rbrakk>
     \<Longrightarrow> call_step s (s\<lparr>nc_main := MCancelClose terminateErr r, nc_done := None\<rparr>)"
| close_cancel:
    "\<lbrakk>nc_main s = MCancelClose terminateErr r; nc_ctx s = Ctx (Some e)\<rbrakk>
     \<Longrightarrow> call_step s ((do_close reply s)\<lparr>nc_main :=
           MReturn (Err (nativeRunCancellationError e [snd r, terminateErr, reply]))\<rparr>)"
| context_ends:
    "nc_ctx s = Ctx None \<Longrightarrow> call_step s (s\<lparr>nc_ctx := Ctx (Some e)\<rparr>)"

inductive_cases call_stepE: "call_step s t"

subsection \<open>Invariant\<close>

definition in_flight :: "native_call \<Rightarrow> bool" where
  "in_flight s \<longleftrightarrow>
     (nc_worker s = WRunning \<and> nc_done s = None \<and> nc_result s = None \<or>
      nc_worker s = WDone \<and> nc_done s \<noteq> None \<and> nc_result s = nc_done s)"

definition received :: "call_result \<Rightarrow> native_call \<Rightarrow> bool" where
  "received r s \<longleftrightarrow> nc_worker s = WDone \<and> nc_done s = None \<and> nc_result s = Some r"

definition cancelled :: "native_call \<Rightarrow> bool" where
  "cancelled s \<longleftrightarrow> (\<exists>e. nc_ctx s = Ctx (Some e))"

text \<open>What holds when the caller has returned \<open>res\<close>.\<close>

definition returned_ok :: "rawModelOutputs res \<Rightarrow> native_call \<Rightarrow> bool" where
  "returned_ok res s \<longleftrightarrow>
     nc_worker s \<noteq> WRunning \<and> nc_closes s = (if nc_present s then 1 else 0) \<and> nc_terminates s \<le> 1 \<and>
     res \<noteq> Panic \<and>
     (\<forall>outs. res = Ok outs \<longrightarrow> nc_terminates s = 0 \<and> nc_result s = Some (outs, None) \<and> nc_cleanup s = Some None) \<and>
     (nc_terminates s = 1 \<longrightarrow> (\<exists>e cause. nc_ctx s = Ctx (Some e) \<and>
        res = Err (StageError e ''cancel native run'' cause)))"

definition call_inv :: "native_call \<Rightarrow> bool" where
  "call_inv s \<longleftrightarrow>
     (case nc_main s of
        MStart \<Rightarrow> nc_worker s = WIdle \<and> nc_done s = None \<and> nc_result s = None \<and> nc_closes s = 0 \<and> nc_terminates s = 0
      | MSelect \<Rightarrow> nc_present s \<and> nc_ctx s \<noteq> NilCtx \<and> in_flight s \<and> nc_closes s = 0 \<and> nc_terminates s = 0
      | MReceived r \<Rightarrow> nc_present s \<and> nc_ctx s \<noteq> NilCtx \<and> received r s \<and> nc_closes s = 0 \<and> nc_terminates s = 0
      | MClosed r c \<Rightarrow> nc_present s \<and> nc_ctx s \<noteq> NilCtx \<and> received r s \<and> nc_closes s = 1 \<and>
          nc_terminates s = 0 \<and> nc_cleanup s = Some c
      | MTerminate \<Rightarrow> nc_present s \<and> cancelled s \<and> in_flight s \<and> nc_closes s = 0 \<and> nc_terminates s = 0
      | MAwait t \<Rightarrow> nc_present s \<and> cancelled s \<and> in_flight s \<and> nc_closes s = 0 \<and> nc_terminates s = 1
      | MCancelClose t r \<Rightarrow> nc_present s \<and> cancelled s \<and> received r s \<and> nc_closes s = 0 \<and> nc_terminates s = 1
      | MReturn res \<Rightarrow> returned_ok res s)"

lemma call_init_inv: "call_inv (call_init ctx present)"
  by (simp add: call_inv_def call_init_def)

lemma after_close_not_Panic: "ctx \<noteq> NilCtx \<Longrightarrow> after_close ctx r c \<noteq> Panic"
  by (auto simp: after_close_def split: go_ctx.splits option.splits)

lemma after_close_Ok:
  "after_close ctx r c = Ok outs \<Longrightarrow> r = (outs, None) \<and> c = None"
  by (cases r) (auto simp: after_close_def errors_join_None_iff split: go_ctx.splits option.splits)

lemmas call_inv_defs = call_inv_def in_flight_def received_def cancelled_def returned_ok_def do_close_def

lemma call_step_inv:
  assumes "call_step s t" and "call_inv s"
  shows "call_inv t"
  using assms
proof cases
  case (return_done r c)
  then have "after_close (nc_ctx s) r c \<noteq> Panic"
    using assms(2) by (intro after_close_not_Panic) (simp add: call_inv_def)
  with return_done assms(2) show ?thesis
    by (auto simp: call_inv_defs dest: after_close_Ok)
next
  case (context_ends e)
  with assms(2) show ?thesis by (simp add: call_inv_defs split: main_pc.splits)
next
  case (execute_returns r)
  with assms(2) show ?thesis by (simp add: call_inv_defs split: main_pc.splits)
qed (auto simp: call_inv_defs nativeRunCancellationError_def newInferenceStageError_def)

lemma call_reach_inv: "call_step\<^sup>*\<^sup>* (call_init ctx present) s \<Longrightarrow> call_inv s"
  by (induction rule: rtranclp_induct) (auto intro: call_init_inv call_step_inv)

subsection \<open>Progress\<close>

text \<open>
  The steps the caller and the worker still have to take; only the end of the context leaves
  it unchanged.
\<close>

fun main_rank :: "main_pc \<Rightarrow> nat" where
  "main_rank MStart = 6"
| "main_rank MSelect = 4"
| "main_rank (MReceived r) = 2"
| "main_rank (MClosed r c) = 1"
| "main_rank MTerminate = 3"
| "main_rank (MAwait t) = 2"
| "main_rank (MCancelClose t r) = 1"
| "main_rank (MReturn r) = 0"

definition call_rank :: "native_call \<Rightarrow> nat" where
  "call_rank s = main_rank (nc_main s) + (if nc_worker s = WRunning then 1 else 0)"

lemma call_step_rank:
  "call_step s t \<Longrightarrow> call_inv s \<Longrightarrow>
     call_rank t < call_rank s \<or> (nc_ctx s = Ctx None \<and> (\<exists>e. t = s\<lparr>nc_ctx := Ctx (Some e)\<rparr>))"
  by (erule call_stepE) (auto simp: call_rank_def call_inv_defs)

text \<open>The only thing a caller waits for is the reply of \<open>Execute\<close>.\<close>

lemma call_progress:
  assumes "call_inv s" and "\<forall>res. nc_main s \<noteq> MReturn res"
  shows "\<exists>t. call_step s t \<and> call_rank t < call_rank s"
proof -
  have run: "\<exists>t. call_step s t \<and> call_rank t < call_rank s" if "nc_worker s = WRunning"
    using execute_returns [OF that, of undefined] that by (force simp: call_rank_def)
  show ?thesis
  proof (cases "nc_main s")
    case MStart
    show ?thesis
    proof (cases "validateContext (nc_ctx s)")
      case None
      with MStart assms(1) nil_call [of s] spawn [of s] show ?thesis
        by (cases "nc_present s") (force simp: call_rank_def call_inv_def)+
    next
      case (Some e)
      with MStart assms(1) bad_context_no_call [of s e] bad_context [of s e None] show ?thesis
        by (cases "nc_present s") (force simp: call_rank_def call_inv_def do_close_def)+
    qed
  next
    case MSelect
    show ?thesis
    proof (cases "nc_done s")
      case None
      with MSelect assms(1) show ?thesis by (intro run) (simp add: call_inv_defs)
    next
      case (Some r)
      with MSelect select_done [of s r] show ?thesis by (force simp: call_rank_def)
    qed
  next
    case (MReceived r)
    with close_done [of s r None] show ?thesis by (force simp: call_rank_def do_close_def)
  next
    case (MClosed r c)
    show ?thesis by (rule exI, rule conjI, rule return_done, rule MClosed) (simp add: call_rank_def MClosed)
  next
    case MTerminate
    with terminate [of s None] show ?thesis by (force simp: call_rank_def)
  next
    case (MAwait te)
    show ?thesis
    proof (cases "nc_done s")
      case None
      with MAwait assms(1) show ?thesis by (intro run) (simp add: call_inv_defs)
    next
      case (Some r)
      with MAwait await_done [of s te r] show ?thesis by (force simp: call_rank_def)
    qed
  next
    case (MCancelClose te r)
    then obtain e where e: "nc_ctx s = Ctx (Some e)" using assms(1) by (auto simp: call_inv_defs)
    show ?thesis
      by (rule exI, rule conjI, rule close_cancel [where reply = None], rule MCancelClose, rule e)
        (simp add: call_rank_def MCancelClose do_close_def)
  qed (use assms(2) in auto)
qed

subsection \<open>Properties\<close>

text \<open>
  C9: Whenever \<open>executeCancelableNativeCall\<close> has returned, the worker is not inside
  \<open>Execute\<close>, the native call was closed exactly once (and never if there was none) and
  terminated at most once; outputs are returned only when \<open>Execute\<close> produced them without
  error, \<open>Close\<close> succeeded and nothing was terminated; and a terminated call returns the
  cancellation error carrying the context's own error.
\<close>

theorem native_call_returned:
  assumes "call_step\<^sup>*\<^sup>* (call_init ctx present) s" and "nc_main s = MReturn res"
  shows "returned_ok res s"
  using call_reach_inv [OF assms(1)] assms(2) by (simp add: call_inv_def)

theorem native_call_returned_witness:
  "\<exists>s. call_step\<^sup>*\<^sup>* (call_init (Ctx None) True) s \<and> nc_closes s = 1 \<and> returned_ok
     (Ok \<lparr>ro_logits = [], ro_actionLogits = []\<rparr>) s"
proof -
  let ?o = "\<lparr>ro_logits = [], ro_actionLogits = []\<rparr> :: rawModelOutputs"
  let ?s0 = "call_init (Ctx None) True"
  let ?s1 = "?s0\<lparr>nc_main := MSelect, nc_worker := WRunning\<rparr>"
  let ?s2 = "?s1\<lparr>nc_worker := WDone, nc_done := Some (?o, None), nc_result := Some (?o, None)\<rparr>"
  let ?s3 = "?s2\<lparr>nc_main := MReceived (?o, None), nc_done := None\<rparr>"
  let ?s4 = "(do_close None ?s3)\<lparr>nc_main := MClosed (?o, None) None\<rparr>"
  let ?s5 = "?s4\<lparr>nc_main := MReturn (after_close (nc_ctx ?s4) (?o, None) None)\<rparr>"
  have steps: "call_step ?s0 ?s1" "call_step ?s1 ?s2" "call_step ?s2 ?s3" "call_step ?s3 ?s4" "call_step ?s4 ?s5"
    by (rule spawn execute_returns select_done close_done return_done; simp add: call_init_def do_close_def)+
  then have reach: "call_step\<^sup>*\<^sup>* ?s0 ?s5" by (meson converse_rtranclp_into_rtranclp rtranclp.rtrancl_refl)
  have ret: "nc_main ?s5 = MReturn (Ok ?o)"
    by (simp add: after_close_def errors_join_def call_init_def do_close_def)
  have "nc_closes ?s5 = 1" by (simp add: call_init_def do_close_def)
  with native_call_returned [OF reach ret] reach show ?thesis by blast
qed

text \<open>
  A native call is never closed or terminated concurrently with its own release: while
  \<open>Execute\<close> runs, \<open>Close\<close> has not been called, and once it was closed no step
  executes, terminates or closes it again.
\<close>

theorem native_call_close_exclusive:
  assumes "call_step\<^sup>*\<^sup>* (call_init ctx present) s"
  shows "(nc_worker s \<noteq> WRunning \<or> nc_closes s = 0) \<and> nc_closes s \<le> 1 \<and>
    (nc_closes s = 0 \<or> (\<forall>t. \<not> call_step s t \<or>
       nc_closes t = nc_closes s \<and> nc_terminates t = nc_terminates s \<and> nc_worker t = nc_worker s))"
proof -
  note inv = call_reach_inv [OF assms]
  have "nc_closes t = nc_closes s \<and> nc_terminates t = nc_terminates s \<and> nc_worker t = nc_worker s"
    if "call_step s t" "nc_closes s \<noteq> 0" for t
    using that inv by (cases rule: call_step.cases) (auto simp: call_inv_defs split: main_pc.splits)
  moreover have "nc_worker s \<noteq> WRunning \<or> nc_closes s = 0" "nc_closes s \<le> 1"
    using inv by (auto simp: call_inv_defs split: main_pc.splits if_splits)
  ultimately show ?thesis by blast
qed

theorem native_call_close_exclusive_witness:
  "nc_closes (call_init (Ctx None) True) \<le> 1"
  using native_call_close_exclusive [OF rtranclp.rtrancl_refl, of "Ctx None" True] by blast

text \<open>
  C10: The protocol never gets stuck and always ends: in every reachable state whose caller has
  not returned there is a step of the caller or the worker, every such step lowers a rank of
  at most seven, and the end of the context leaves the rank unchanged, so the caller returns
  as soon as \<open>Execute\<close> does, cancelled or not.
\<close>

theorem native_call_returns:
  assumes "call_step\<^sup>*\<^sup>* (call_init ctx present) s"
  shows "((\<exists>res. nc_main s = MReturn res) \<or> (\<exists>t. call_step s t \<and> call_rank t < call_rank s)) \<and>
    (\<forall>t. \<not> call_step s t \<or> call_rank t < call_rank s \<or> (\<exists>e. t = s\<lparr>nc_ctx := Ctx (Some e)\<rparr> \<and> call_rank t = call_rank s)) \<and>
    call_rank s \<le> 7"
proof -
  note inv = call_reach_inv [OF assms]
  have "call_rank s \<le> 7" by (cases "nc_main s") (simp_all add: call_rank_def)
  moreover have "(\<exists>res. nc_main s = MReturn res) \<or> (\<exists>t. call_step s t \<and> call_rank t < call_rank s)"
    using call_progress [OF inv] by blast
  moreover have "call_rank t < call_rank s \<or> (\<exists>e. t = s\<lparr>nc_ctx := Ctx (Some e)\<rparr> \<and> call_rank t = call_rank s)"
    if "call_step s t" for t
    using call_step_rank [OF that inv] by (auto simp: call_rank_def)
  ultimately show ?thesis by blast
qed

theorem native_call_returns_witness:
  "\<exists>t. call_step (call_init NilCtx True) t \<and> call_rank t < call_rank (call_init NilCtx True)"
proof -
  have "\<nexists>res. nc_main (call_init NilCtx True) = MReturn res" by (simp add: call_init_def)
  with native_call_returns [OF rtranclp.rtrancl_refl, of NilCtx True] show ?thesis by blast
qed

end
