(* ===== verification/Laya_OpenDir.thy ===== *)
theory Laya_OpenDir
  imports Laya_Snapshot
begin

text \<open>
  \<open>internal/source/source.go\<close>, \<open>openDirectory\<close>: the directory is inspected before and after the
  verification, and the links of a snapshot are checked again. The root of the directory is
  handle 0, the root of the blobs is handle 1. \<open>verify\<close> is \<open>bundle.Verify\<close> on the file system
  the bundle is read through.
\<close>

record open_dir =
  od_abs :: "go_error + string"
  od_lstat :: "go_error + bool"
  od_open :: "go_error option"
  od_stat :: "go_error + bool"
  od_before :: "walk_call list"
  od_links :: "walk_call list"
  od_snapshot :: snapshot_replies
  od_linkOrder :: "nat list"
  od_stableLinks :: link_replies
  od_fs :: fsys
  od_after :: "walk_call list"
  od_closing :: "nat \<Rightarrow> go_error option"

definition open_fail :: "open_dir \<Rightarrow> nat option list \<Rightarrow> handle_event list \<Rightarrow> go_error \<Rightarrow> source_bundle res \<times> handle_event list" where
  "open_fail r roots events cause =
     (case closeRoots (od_closing r) roots (Some cause) of
        (err, shut) \<Rightarrow> (Err (case err of Some e \<Rightarrow> e | None \<Rightarrow> cause), events @ shut))"

text \<open>The end of \<open>openDirectory\<close>, once the file system of the bundle is chosen.\<close>

definition open_verified ::
  "(nat \<Rightarrow> go_error option) \<Rightarrow> nat \<Rightarrow> (fsys \<Rightarrow> Manifest res) \<Rightarrow> string \<Rightarrow> open_dir \<Rightarrow> (string \<times> file_info) list
   \<Rightarrow> snapshotFS option \<Rightarrow> nat option list \<Rightarrow> handle_event list \<Rightarrow> source_bundle res \<times> handle_event list" where
  "open_verified ctx n verify absPath r before snapshot roots events =
     (case verify (od_fs r) of
        Panic \<Rightarrow> (Panic, events)
      | Err e \<Rightarrow> open_fail r roots events e
      | Ok m \<Rightarrow>
     (case (case snapshot of None \<Rightarrow> None | Some f \<Rightarrow> verifyStable ctx (od_linkOrder r) (od_stableLinks r) f n) of
        Some e \<Rightarrow> open_fail r roots events e
      | None \<Rightarrow>
     (case snapshotEntries ctx (n + (case snapshot of None \<Rightarrow> 0 | Some f \<Rightarrow> length (od_linkOrder r))) (od_after r) [] of
        (Inl e, n') \<Rightarrow> open_fail r roots events e
      | (Inr after, n') \<Rightarrow>
     (case compareEntries before after of
        Some e \<Rightarrow> open_fail r roots events e
      | None \<Rightarrow>
          (Ok \<lparr>sb_roots = roots, sb_sourceFS = Some (od_fs r), sb_rootPath = absPath, sb_manifest = m,
               sb_allowed = ''manifest.json'' # map fl_Path (mf_Files m), sb_closed = False\<rparr>, events)))))"

definition open_rooted ::
  "(nat \<Rightarrow> go_error option) \<Rightarrow> (fsys \<Rightarrow> Manifest res) \<Rightarrow> string \<Rightarrow> open_dir \<Rightarrow> source_bundle res \<times> handle_event list" where
  "open_rooted ctx verify absPath r =
     (let fail = open_fail r [Some 0] [OpenedRoot 0] in
      case ctx 1 of Some e \<Rightarrow> fail (sourceError ''open directory'' '''' e (Some e))
      | None \<Rightarrow>
     (case od_stat r of
        Inl e \<Rightarrow> fail (sourceError ''inspect opened directory'' '''' (Sentinel ErrInvalidBundle) (Some e))
      | Inr same \<Rightarrow>
          if \<not> same then fail (sourceError ''inspect opened directory'' '''' (Sentinel ErrInvalidBundle) None)
          else
     (case snapshotEntries ctx 2 (od_before r) [] of
        (Inl e, n) \<Rightarrow> fail e
      | (Inr before, n) \<Rightarrow>
     (case findLinks ctx n (od_links r) [] of
        (Inl e, n') \<Rightarrow> fail e
      | (Inr links, n') \<Rightarrow>
          if links = [] then open_verified ctx n' verify absPath r before None [Some 0] [OpenedRoot 0]
          else (case openSnapshot ctx n' (od_snapshot r) absPath links of
                  (Inl e, n2, events) \<Rightarrow> open_fail r [Some 0] (OpenedRoot 0 # events) e
                | (Inr f, n2, events) \<Rightarrow>
                    open_verified ctx n2 verify absPath r before (Some f) [Some 0, Some 1] (OpenedRoot 0 # events))))))"

definition openDirectory ::
  "(nat \<Rightarrow> go_error option) option \<Rightarrow> (fsys \<Rightarrow> Manifest res) \<Rightarrow> string \<Rightarrow> open_dir \<Rightarrow> source_bundle res \<times> handle_event list" where
  "openDirectory ctx verify dir r =
     (case ctx of None \<Rightarrow> (Err (sourceError ''validate context'' '''' (Sentinel ErrInvalidBundle) None), [])
      | Some ctx \<Rightarrow>
     (case ctx 0 of Some e \<Rightarrow> (Err (sourceError ''open directory'' '''' e (Some e)), [])
      | None \<Rightarrow>
          if dir = '''' then (Err (sourceError ''validate directory'' '''' (Sentinel ErrInvalidBundle) None), [])
          else
     (case od_abs r of
        Inl e \<Rightarrow> (Err (sourceError ''resolve directory'' '''' (Sentinel ErrInvalidBundle) (Some e)), [])
      | Inr absPath \<Rightarrow>
     (case od_lstat r of
        Inl e \<Rightarrow> (Err (sourceError ''inspect directory'' '''' (Sentinel ErrInvalidBundle) (Some e)), [])
      | Inr isDir \<Rightarrow>
          if \<not> isDir then (Err (sourceError ''inspect directory'' '''' (Sentinel ErrInvalidBundle) None), [])
          else
     (case od_open r of
        Some e \<Rightarrow> (Err (sourceError ''open directory'' '''' (Sentinel ErrInvalidBundle) (Some e)), [])
      | None \<Rightarrow> open_rooted ctx verify (filepath_Clean absPath) r)))))"

subsection \<open>No handle is leaked\<close>

text \<open>Every root that was opened is closed once, afterwards.\<close>

definition balanced :: "handle_event list \<Rightarrow> bool" where
  "balanced events \<longleftrightarrow>
     events \<in> {[], [OpenedRoot 0, ClosedRoot 0], [OpenedRoot 0, OpenedRoot 1, ClosedRoot 1, ClosedRoot 0]}"

lemma closeRoots_events:
  "snd (closeRoots closing [Some a] cause) = [ClosedRoot a]"
  "snd (closeRoots closing [Some a, Some b] cause) = [ClosedRoot b, ClosedRoot a]"
  by (simp_all add: closeRoots_def Let_def)

lemma closeRoots_error:
  assumes "closeRoots closing roots (Some cause) = (err, events)"
  shows "\<exists>e. err = Some e \<and> (\<forall>t. errors_is cause t \<longrightarrow> errors_is e t)"
proof -
  let ?errs = "Some cause # map (\<lambda>h. map_option (\<lambda>e. sourceError ''close directory'' '''' (Sentinel ErrMaterialization) (Some e))
      (closing h)) (rev (somes roots))"
  have err: "err = errors_join ?errs" using assms by (simp add: closeRoots_def Let_def)
  have "errors_join ?errs \<noteq> None" by (subst errors_join_None_iff) simp
  then obtain e where e: "err = Some e" using err by auto
  have "errors_is e t" if "errors_is cause t" for t
  proof -
    have "opt_is (\<lambda>e. errors_is e t) (errors_join ?errs)"
      unfolding errors_join_is using that by (intro exI [of _ cause]) simp
    then show ?thesis by (simp only: err [symmetric] e opt_is_simps)
  qed
  with e show ?thesis by blast
qed

lemma open_fail_events:
  "snd (open_fail r roots events cause) = events @ snd (closeRoots (od_closing r) roots (Some cause))"
  "\<exists>e. fst (open_fail r roots events cause) = Err e \<and> (\<forall>t. errors_is cause t \<longrightarrow> errors_is e t)"
proof -
  obtain err shut where c: "closeRoots (od_closing r) roots (Some cause) = (err, shut)"
    by (cases "closeRoots (od_closing r) roots (Some cause)")
  from closeRoots_error [OF c] c
  show "snd (open_fail r roots events cause) = events @ snd (closeRoots (od_closing r) roots (Some cause))"
    "\<exists>e. fst (open_fail r roots events cause) = Err e \<and> (\<forall>t. errors_is cause t \<longrightarrow> errors_is e t)"
    by (auto simp: open_fail_def)
qed

lemma openDirectoryRoot_events:
  "openDirectoryRoot h r = (None, events) \<Longrightarrow> events = [OpenedRoot h]"
  "openDirectoryRoot h r = (Some e, events) \<Longrightarrow> events = [] \<or> events = [OpenedRoot h, ClosedRoot h]"
  by (auto simp: openDirectoryRoot_def split: sum.splits option.splits if_splits)

definition blobs_events :: "(go_error + 'a) \<times> nat \<times> handle_event list \<Rightarrow> bool" where
  "blobs_events out \<longleftrightarrow>
     (case fst out of
        Inr f \<Rightarrow> snd (snd out) = [OpenedRoot 1]
      | Inl e \<Rightarrow> snd (snd out) \<in> {[], [OpenedRoot 1, ClosedRoot 1]})"

lemma open_blobs_events: "blobs_events (open_blobs ctx n r path links)"
proof -
  let ?f = "\<lparr>sn_snapshotPath = path, sn_blobsPath = filepath_Join (filepath_Dir (filepath_Dir path)) ''blobs'', sn_links = []\<rparr>"
  obtain err ev where d: "openDirectoryRoot 1 (sr_blobs r) = (err, ev)" by (cases "openDirectoryRoot 1 (sr_blobs r)")
  show ?thesis
  proof (cases err)
    case (Some e)
    with openDirectoryRoot_events(2) [of 1 "sr_blobs r" e ev] d show ?thesis
      by (simp add: open_blobs_def blobs_events_def)
  next
    case None
    then have ev: "ev = [OpenedRoot 1]" using openDirectoryRoot_events(1) d by simp
    obtain c k where c: "classify_loop ctx (sr_links r) ?f n links = (c, k)"
      by (cases "classify_loop ctx (sr_links r) ?f n links")
    show ?thesis
    proof (cases c)
      case (Inl cause)
      obtain err shut where s: "closeRoots (sr_closing r) [Some 1] (Some cause) = (err, shut)"
        by (cases "closeRoots (sr_closing r) [Some 1] (Some cause)")
      then have "shut = [ClosedRoot 1]" using closeRoots_events(1) [of "sr_closing r" 1 "Some cause"] by simp
      with None ev d c Inl s show ?thesis by (simp add: open_blobs_def blobs_events_def)
    qed (use None ev d c in \<open>simp add: open_blobs_def blobs_events_def\<close>)
  qed
qed

lemma openSnapshot_events: "blobs_events (openSnapshot ctx n r path links)"
proof -
  have "blobs_events (Inl e, n, [])" for e by (simp add: blobs_events_def)
  then show ?thesis
    unfolding openSnapshot_def Let_def by (auto simp: open_blobs_events split: option.split)
qed

subsection \<open>What an opened directory is\<close>

lemma sameFileIdentity_eq: "sameFileIdentity a b \<longleftrightarrow> a = b"
  by (auto simp: sameFileIdentity_def)

lemma compare_loop_None: "compare_loop before after = None \<longleftrightarrow> (\<forall>(p, i)\<in>set before. map_of after p = Some i)"
  by (induction before after rule: compare_loop.induct) (auto simp: sameFileIdentity_eq split: option.split)

lemma snapshotEntries_distinct:
  "snapshotEntries ctx n calls acc = (Inr es, n') \<Longrightarrow> distinct (map fst acc) \<Longrightarrow> distinct (map fst es)"
  by (induction ctx n calls acc rule: snapshotEntries.induct)
    (auto split: option.splits sum.splits intro: distinct_update)

lemma compareEntries_same:
  assumes "distinct (map fst before)" and "distinct (map fst after)" and "compareEntries before after = None"
  shows "map_of before = map_of after"
proof -
  have len: "length before = length after" and sub: "\<forall>(p, i)\<in>set before. map_of after p = Some i"
    using assms(3) by (auto simp: compareEntries_def compare_loop_None split: if_splits)
  have "set before \<subseteq> set after" using sub map_of_SomeD [of after] by auto
  moreover have "card (set before) = card (set after)"
    using assms(1,2) len by (simp add: distinct_map distinct_card)
  ultimately have "set before = set after" by (simp add: card_subset_eq)
  then show ?thesis using map_of_inject_set [OF assms(1,2)] by simp
qed

definition unchanged :: "open_dir \<Rightarrow> bool" where
  "unchanged r \<longleftrightarrow>
     (\<exists>ctx n n' k k' before after. snapshotEntries ctx n (od_before r) [] = (Inr before, n') \<and>
        snapshotEntries ctx k (od_after r) [] = (Inr after, k') \<and> map_of before = map_of after)"

definition opened_ok ::
  "(fsys \<Rightarrow> Manifest res) \<Rightarrow> open_dir \<Rightarrow> source_bundle res \<times> handle_event list \<Rightarrow> bool" where
  "opened_ok verify r out \<longleftrightarrow>
     (case fst out of
        Ok b \<Rightarrow> verify (od_fs r) = Ok (sb_manifest b) \<and> unchanged r \<and>
          sb_sourceFS b = Some (od_fs r) \<and> \<not> sb_closed b \<and>
          sb_allowed b = ''manifest.json'' # map fl_Path (mf_Files (sb_manifest b)) \<and>
          snd out = map OpenedRoot (somes (sb_roots b)) \<and> (sb_roots b = [Some 0] \<or> sb_roots b = [Some 0, Some 1])
      | Err e \<Rightarrow> balanced (snd out)
      | Panic \<Rightarrow> verify (od_fs r) = Panic)"

lemma open_fail_ok:
  "opened_ok verify r (open_fail r [Some 0] [OpenedRoot 0] e)"
  "opened_ok verify r (open_fail r [Some 0, Some 1] [OpenedRoot 0, OpenedRoot 1] e)"
  "evs \<in> {[], [OpenedRoot 1, ClosedRoot 1]} \<Longrightarrow> opened_ok verify r (open_fail r [Some 0] (OpenedRoot 0 # evs) e)"
proof -
  have f: "\<exists>x. fst (open_fail r roots evs e) = Err x" for roots evs
    using open_fail_events(2) [of r roots evs e] by blast
  show "opened_ok verify r (open_fail r [Some 0] [OpenedRoot 0] e)"
    using f [of "[Some 0]" "[OpenedRoot 0]"]
    by (auto simp: opened_ok_def open_fail_events(1) closeRoots_events balanced_def)
  show "opened_ok verify r (open_fail r [Some 0, Some 1] [OpenedRoot 0, OpenedRoot 1] e)"
    using f [of "[Some 0, Some 1]" "[OpenedRoot 0, OpenedRoot 1]"]
    by (auto simp: opened_ok_def open_fail_events(1) closeRoots_events balanced_def)
  show "opened_ok verify r (open_fail r [Some 0] (OpenedRoot 0 # evs) e)" if "evs \<in> {[], [OpenedRoot 1, ClosedRoot 1]}"
    using f [of "[Some 0]" "OpenedRoot 0 # evs"] that
    by (auto simp: opened_ok_def open_fail_events(1) closeRoots_events balanced_def)
qed

lemma open_verified_ok:
  assumes b: "snapshotEntries ctx k (od_before r) [] = (Inr before, k')"
    and roots: "(roots, events) = ([Some 0], [OpenedRoot 0]) \<or>
      (roots, events) = ([Some 0, Some 1], [OpenedRoot 0, OpenedRoot 1])"
  shows "opened_ok verify r (open_verified ctx n verify absPath r before snapshot roots events)"
proof -
  have f: "opened_ok verify r (open_fail r roots events e)" for e using roots open_fail_ok(1,2) by auto
  let ?stable = "case snapshot of None \<Rightarrow> None | Some f \<Rightarrow> verifyStable ctx (od_linkOrder r) (od_stableLinks r) f n"
  let ?k = "n + (case snapshot of None \<Rightarrow> 0 | Some f \<Rightarrow> length (od_linkOrder r))"
  show ?thesis
  proof (cases "verify (od_fs r)")
    case (Ok m)
    show ?thesis
    proof (cases ?stable)
      case None
      obtain out n' where a: "snapshotEntries ctx ?k (od_after r) [] = (out, n')"
        by (cases "snapshotEntries ctx ?k (od_after r) []")
      show ?thesis
      proof (cases out)
        case (Inr after)
        show ?thesis
        proof (cases "compareEntries before after")
          case same: None
          have "distinct (map fst before)" "distinct (map fst after)"
            using snapshotEntries_distinct [OF b] snapshotEntries_distinct [OF a [unfolded Inr]] by simp_all
          then have "map_of before = map_of after" using same by (rule compareEntries_same)
          then have "unchanged r" using b a Inr unfolding unchanged_def by blast
          with Ok None a Inr same roots show ?thesis by (auto simp: open_verified_def opened_ok_def)
        next
          case (Some e)
          with Ok None a Inr f show ?thesis by (simp add: open_verified_def)
        qed
      next
        case (Inl e)
        with Ok None a f show ?thesis by (simp add: open_verified_def)
      qed
    next
      case (Some e)
      with Ok f show ?thesis by (simp add: open_verified_def)
    qed
  next
    case (Err e)
    with f show ?thesis by (simp add: open_verified_def)
  next
    case Panic
    then show ?thesis by (simp add: open_verified_def opened_ok_def)
  qed
qed

lemma open_rooted_ok: "opened_ok verify r (open_rooted ctx verify absPath r)"
proof -
  obtain b n where b: "snapshotEntries ctx 2 (od_before r) [] = (b, n)" by (cases "snapshotEntries ctx 2 (od_before r) []")
  obtain l n' where l: "findLinks ctx n (od_links r) [] = (l, n')" by (cases "findLinks ctx n (od_links r) []")
  show ?thesis
  proof (cases "\<exists>before links. ctx 1 = None \<and> od_stat r = Inr True \<and> b = Inr before \<and> l = Inr links \<and> links \<noteq> []")
    case False
    then show ?thesis
      using b l open_fail_ok(1) [of verify r] open_verified_ok [of ctx 2 r _ n "[Some 0]" "[OpenedRoot 0]"]
      by (auto simp: open_rooted_def Let_def split: option.split sum.split)
  next
    case True
    then obtain before links where ok: "ctx 1 = None" "od_stat r = Inr True" "b = Inr before" "l = Inr links" "links \<noteq> []"
      by blast
    obtain s n2 events where s: "openSnapshot ctx n' (od_snapshot r) absPath links = (s, n2, events)"
      by (cases "openSnapshot ctx n' (od_snapshot r) absPath links")
    note ev = openSnapshot_events [of ctx n' "od_snapshot r" absPath links, unfolded s blobs_events_def fst_conv snd_conv]
    show ?thesis
    proof (cases s)
      case (Inl e)
      then have "events \<in> {[], [OpenedRoot 1, ClosedRoot 1]}" using ev by simp
      from open_fail_ok(3) [OF this] Inl ok b l s show ?thesis by (simp add: open_rooted_def)
    next
      case (Inr f)
      then have "events = [OpenedRoot 1]" using ev by simp
      then show ?thesis
        using Inr ok b l s open_verified_ok [of ctx 2 r before n "[Some 0, Some 1]" "[OpenedRoot 0, OpenedRoot 1]"]
        by (simp add: open_rooted_def)
    qed
  qed
qed

text \<open>
  C27: Opening a bundle directory never leaks a handle and never returns what was not verified.
  On success the bundle owns exactly the roots that were opened, its manifest is what the
  verification returned for the file system it is read through, nothing it can observe about
  any entry (mode, size, modification time, file identity) changed between the two inspections
  around the verification, and exactly the manifest and its declared files can be read; on
  failure every root that was opened has been closed once, the last first.
\<close>

theorem openDirectory_outcomes: "opened_ok verify r (openDirectory ctx verify dir r)"
proof -
  have early: "opened_ok verify r (Err e, [])" for e by (simp add: opened_ok_def balanced_def)
  then show ?thesis
    unfolding openDirectory_def by (auto simp: open_rooted_ok split: option.split sum.split)
qed

end
