(* ===== verification/Laya_Parity.thy ===== *)
theory Laya_Parity
  imports Laya_Json Laya_Float Laya_Errors "HOL-Library.AList"
begin

text \<open>
  \<open>internal/parity/corpus.go\<close>: the validation of the frozen corpus that the inference code is
  compared with. Decoding the JSON is \<open>encoding/json\<close>'s: the decoded corpus and what follows it
  are arguments. Go maps are association lists, compared as maps. A decoded slice that the code
  reslices (a row of logits) comes with what its backing array holds beyond it.
\<close>

subsection \<open>The corpus\<close>

record Identity =
  id_ID :: string
  id_Revision :: string

record CorpusSDK =
  sdk_Repository :: string
  sdk_Revision :: string
  sdk_Version :: string

record DigestID =
  di_ID :: string
  di_SHA256 :: string

record CorpusExporter =
  ex_Name :: string
  ex_Version :: string
  ex_SourceSHA256 :: string
  ex_GitRevision :: string

record FileDigest =
  fd_Path :: string
  fd_SHA256 :: string

record BundleFile =
  bf_Role :: string
  bf_Path :: string
  bf_Size :: int
  bf_SHA256 :: string

record Tolerance =
  to_Absolute :: f64
  to_Relative :: f64

record Weights =
  we_ParameterCount :: int
  we_TensorCount :: int

record Metadata =
  md_SyntheticOnly :: bool
  md_SourceModel :: Identity
  md_SDK :: CorpusSDK
  md_Profile :: DigestID
  md_Exporter :: CorpusExporter
  md_Lock :: FileDigest
  md_PreprocessingVersion :: int
  md_BundleID :: string
  md_ManifestSHA256 :: string
  md_BundleFiles :: "BundleFile list"
  md_Tolerance :: Tolerance
  md_Weights :: Weights

type_synonym category_map = "(string \<times> string list) list"

record Inventory =
  in_Categories :: category_map
  in_CaseIDs :: "string list"
  in_NegativeCaseIDs :: "string list"
  in_RunIDs :: "string list"

record CaseState =
  cs_Kind :: string
  cs_Value :: string

record CaseQuestion =
  cq_Type :: string
  cq_Instructions :: string
  cq_Criteria :: string

record RunLocation =
  rl_ID :: string
  rl_Row :: int

record Sequence =
  sq_InputIDs :: "int list"
  sq_MarkerPositions :: "int list"
  sq_QType :: int
  sq_OriginalInputTokens :: int
  sq_EffectiveInputTokens :: int
  sq_Truncated :: bool

record OutputsRow =
  ow_Logits :: "f64 list"
  ow_ActLogits :: "f64 list"

record CaseCalibration =
  cc_RawTemperature :: f64
  cc_EffectiveTemperature :: f64

record Derived =
  de_Probabilities :: "f64 list"
  de_ActionProbabilities :: "f64 list"
  de_EntropyConfidence :: f64
  de_SelectedIndex :: int
  de_ExpectedScore :: "f64 option"
  de_TrueProbability :: "f64 option"

record CorpusUsage =
  cu_InputTokens :: int
  cu_OutputTokens :: int

record Case =
  ca_ID :: string
  ca_Categories :: "string list"
  ca_State :: CaseState
  ca_Question :: CaseQuestion
  ca_RenderedOptions :: "string list"
  ca_Run :: RunLocation
  ca_Sequence :: Sequence
  ca_Raw :: OutputsRow
  ca_Calibration :: CaseCalibration
  ca_Derived :: Derived
  ca_TypedResult :: string
  ca_Usage :: CorpusUsage

record NegativeCase =
  nc_ID :: string
  nc_Categories :: "string list"
  nc_SourceCaseID :: string
  nc_QuestionOptionCount :: int
  nc_RetainedMarkerCount :: int
  nc_ExpectedError :: string

text \<open>The elements of a slice, and those its array holds after them.\<close>

record go_floats =
  gf_elems :: "f64 list"
  gf_spare :: "f64 list"

record Tensors =
  tn_InputIDs :: "int list list"
  tn_AttentionMask :: "int list list"
  tn_MarkerPos :: "int list list"
  tn_MarkerMask :: "bool list list"
  tn_QType :: "int list"

record Outputs =
  ou_Logits :: "go_floats list"
  ou_ActLogits :: "go_floats list"

record Run =
  rn_ID :: string
  rn_CaseIDs :: "string list"
  rn_Tensors :: Tensors
  rn_ReferenceOutputs :: Outputs
  rn_ONNXOutputs :: Outputs
  rn_MaximumAbsoluteDifference :: "(string \<times> f64) list"
  rn_Usage :: CorpusUsage

record Corpus =
  co_SchemaVersion :: int
  co_Metadata :: Metadata
  co_Inventory :: Inventory
  co_Cases :: "Case list"
  co_NegativeCases :: "NegativeCase list"
  co_Runs :: "Run list"

subsection \<open>Numbers and digests\<close>

definition f_abs :: "f64 \<Rightarrow> f64" where
  "f_abs x = (case x of Fin r \<Rightarrow> Fin \<bar>r\<bar> | NInf \<Rightarrow> PInf | _ \<Rightarrow> x)"

definition finite_floats :: "f64 list \<Rightarrow> bool" where
  "finite_floats = list_all (\<lambda>v. \<not> (isNaN v \<or> isInf v))"

definition sum_floats :: "f64 list \<Rightarrow> f64" where
  "sum_floats xs = fold (\<lambda>v s. f_add s v) xs (Fin 0)"

definition within_tolerance :: "Tolerance \<Rightarrow> f64 \<Rightarrow> f64 \<Rightarrow> bool" where
  "within_tolerance tol l r \<longleftrightarrow> \<not> f_lt (f_add (to_Absolute tol) (f_mul (to_Relative tol) (f_abs r))) (f_abs (f_sub l r))"

definition allClose :: "f64 list \<Rightarrow> f64 list \<Rightarrow> Tolerance \<Rightarrow> bool" where
  "allClose left right tol \<longleftrightarrow>
     (if length left \<noteq> length right \<or> \<not> finite_floats left \<or> \<not> finite_floats right then False
      else list_all (\<lambda>(l, r). within_tolerance tol l r) (zip left right))"

text \<open>\<open>hex.DecodeString\<close> succeeds on an even number of hexadecimal digits.\<close>

definition hex_decoded_length :: "string \<Rightarrow> nat option" where
  "hex_decoded_length s = (if even (length s) \<and> list_all is_hex s then Some (length s div 2) else None)"

definition validDigest :: "string \<Rightarrow> bool" where
  "validDigest s \<longleftrightarrow> hex_decoded_length s = Some 32"

definition VerifyDigest :: "(string \<Rightarrow> string) \<Rightarrow> string \<Rightarrow> string \<Rightarrow> go_error option" where
  "VerifyDigest sha256 data expected = (if sha256 data \<noteq> expected then Some (Opaque ''parity corpus SHA-256 mismatch'') else None)"

subsection \<open>Metadata\<close>

fun bundle_files_loop :: "BundleFile list \<Rightarrow> string list \<Rightarrow> go_error option" where
  "bundle_files_loop [] seen = None"
| "bundle_files_loop (f # fs) seen =
     (if bf_Path f = '''' \<or> bf_Role f = '''' \<or> bf_Size f \<le> 0 \<or> \<not> validDigest (bf_SHA256 f) \<or> bf_Path f \<in> set seen
      then Some (Opaque ''invalid parity bundle file'')
      else bundle_files_loop fs (bf_Path f # seen))"

definition manifestDigest :: string where
  "manifestDigest = ''963bc035d885e0463ea1d7d54906cadf0e2a3a41073e131921800ea5cc358935''"

definition Metadata_validate :: "Metadata \<Rightarrow> go_error option" where
  "Metadata_validate m =
     (if \<not> md_SyntheticOnly m \<or> md_PreprocessingVersion m \<noteq> 1 then Some (Opaque ''parity metadata is not synthetic preprocessing v1'')
      else if md_SourceModel m \<noteq> \<lparr>id_ID = ''convaiinnovations/laya-multilingual'', id_Revision = ''052592a15d198d9ad47da779604259b10b47b7aa''\<rparr>
      then Some (Opaque ''parity source model identity mismatch'')
      else if md_SDK m \<noteq> \<lparr>sdk_Repository = ''NandhaKishorM/laya'', sdk_Revision = ''573e5b62696ba441230cd6be71d593331b5d23af'', sdk_Version = ''0.3.5''\<rparr>
      then Some (Opaque ''parity SDK identity mismatch'')
      else if md_Profile m \<noteq> \<lparr>di_ID = ''laya-multilingual-v1'', di_SHA256 = ''2dc717bbbf2bacb9c00d57f2ba7279c6a4332900bca84d12c000ebd6401a0235''\<rparr>
      then Some (Opaque ''parity profile identity mismatch'')
      else if ex_Name (md_Exporter m) \<noteq> ''laya-go-export'' \<or> ex_Version (md_Exporter m) \<noteq> ''1.0.0'' \<or>
         ex_SourceSHA256 (md_Exporter m) \<noteq> ''1087a4322ac2279653d5c132f0631246ab8770dd83f5be22ed7b21bd69a215c6'' \<or>
         ex_GitRevision (md_Exporter m) \<noteq> ''b61873c061ae62e52f4e0a6dc6fdafb6ffe88a88''
      then Some (Opaque ''parity exporter identity mismatch'')
      else if md_Lock m \<noteq> \<lparr>fd_Path = ''tools/export/uv.lock'', fd_SHA256 = ''b08b67cdf27c9820ce9a4173a583b6da4706cfa72d9a60a333e58fc8a29b3e12''\<rparr>
      then Some (Opaque ''parity lock identity mismatch'')
      else if md_BundleID m \<noteq> ''sha256:'' @ manifestDigest \<or> md_ManifestSHA256 m \<noteq> manifestDigest
      then Some (Opaque ''parity bundle identity mismatch'')
      else if \<not> (f_eq (to_Absolute (md_Tolerance m)) (round64 (1 / 10000)) \<and> f_eq (to_Relative (md_Tolerance m)) (round64 (1 / 10000)))
      then Some (Opaque ''parity tolerance mismatch'')
      else if md_Weights m \<noteq> \<lparr>we_ParameterCount = 321908995, we_TensorCount = 170\<rparr>
      then Some (Opaque ''parity weight observation mismatch'')
      else if length (md_BundleFiles m) \<noteq> 9 then Some (Opaque ''parity bundle file inventory mismatch'')
      else bundle_files_loop (md_BundleFiles m) [])"

subsection \<open>Cases\<close>

definition qtypes :: "(string \<times> int) list" where
  "qtypes = [(''choice'', 0), (''score'', 1), (''noul'', 2)]"

text \<open>\<open>math.Abs(sum(values)-1) > 1e-12\<close>.\<close>

definition off_one :: "f64 list \<Rightarrow> bool" where
  "off_one xs \<longleftrightarrow> f_lt (round64 (1 / 10 ^ 12)) (f_abs (f_sub (sum_floats xs) (Fin 1)))"

definition Case_validate :: "Case \<Rightarrow> go_error option" where
  "Case_validate item =
     (let state = ca_State item; question = ca_Question item; sequence = ca_Sequence item; raw = ca_Raw item;
          derived = ca_Derived item; options = length (ca_RenderedOptions item)
      in if cs_Kind state \<noteq> ''text'' \<and> cs_Kind state \<noteq> ''json'' then Some (Opaque ''invalid state kind'')
      else if cs_Kind state = ''json'' \<and> \<not> json_valid (cs_Value state) then Some (Opaque ''invalid JSON primitive state'')
      else case map_of qtypes (cq_Type question) of
             None \<Rightarrow> Some (Opaque ''invalid question'')
           | Some qtype \<Rightarrow>
      if cq_Instructions question = '''' \<or> \<not> json_valid (cq_Criteria question) then Some (Opaque ''invalid question'')
      else if sq_QType sequence \<noteq> qtype \<or> sq_EffectiveInputTokens sequence \<noteq> int (length (sq_InputIDs sequence)) \<or>
         sq_EffectiveInputTokens sequence > 1024 \<or> sq_OriginalInputTokens sequence < sq_EffectiveInputTokens sequence
      then Some (Opaque ''invalid sequence observation'')
      else if sq_Truncated sequence \<noteq> (sq_OriginalInputTokens sequence > sq_EffectiveInputTokens sequence)
      then Some (Opaque ''invalid truncation observation'')
      else if options < 2 \<or> options \<noteq> length (sq_MarkerPositions sequence) \<or>
         length (ow_Logits raw) \<noteq> options \<or> length (ow_ActLogits raw) \<noteq> 2
      then Some (Opaque ''invalid option or raw output shape'')
      else if \<not> finite_floats (ow_Logits raw) \<or> \<not> finite_floats (ow_ActLogits raw) \<or>
         \<not> finite_floats (de_Probabilities derived) \<or> \<not> finite_floats (de_ActionProbabilities derived)
      then Some (Opaque ''non-finite parity observation'')
      else if length (de_Probabilities derived) \<noteq> options \<or> length (de_ActionProbabilities derived) \<noteq> 2 \<or>
         off_one (de_Probabilities derived) \<or> off_one (de_ActionProbabilities derived)
      then Some (Opaque ''invalid derived probability distribution'')
      else if de_SelectedIndex derived < 0 \<or> de_SelectedIndex derived \<ge> int options \<or>
         f_lt (cc_EffectiveTemperature (ca_Calibration item)) (Fin (1/2)) \<or>
         f_lt (Fin 5) (cc_EffectiveTemperature (ca_Calibration item)) \<or>
         length (ca_TypedResult item) = 0 \<or> cu_InputTokens (ca_Usage item) \<le> 0 \<or> cu_OutputTokens (ca_Usage item) \<noteq> 0
      then Some (Opaque ''invalid derived or typed observation'')
      else None)"

subsection \<open>Runs\<close>

text \<open>\<open>s[:n]\<close>: up to the capacity, beyond the length; a panic past the capacity.\<close>

definition slice_floats :: "go_floats \<Rightarrow> nat \<Rightarrow> f64 list res" where
  "slice_floats s n =
     (if n \<le> length (gf_elems s) + length (gf_spare s) then Ok (take n (gf_elems s @ gf_spare s)) else Panic)"

text \<open>\<open>reflect.DeepEqual\<close> of slices of floats.\<close>

definition equal_floats :: "f64 list \<Rightarrow> f64 list \<Rightarrow> bool" where
  "equal_floats xs ys \<longleftrightarrow> list_all2 f_eq xs ys"

fun mask_loop :: "int list \<Rightarrow> int \<Rightarrow> go_error + int" where
  "mask_loop [] tokens = Inr tokens"
| "mask_loop (v # vs) tokens =
     (if v \<noteq> 0 \<and> v \<noteq> 1 then Inl (Opaque ''invalid attention mask at row'') else mask_loop vs (tokens + v))"

text \<open>The body of the loop over the rows; it returns the tokens counted so far.\<close>

definition run_row :: "Tolerance \<Rightarrow> (string \<times> Case) list \<Rightarrow> Run \<Rightarrow> nat \<Rightarrow> string \<Rightarrow> int \<Rightarrow> int res" where
  "run_row tol cases run row caseID tokens =
     (let t = rn_Tensors run; reference = rn_ReferenceOutputs run; onnx = rn_ONNXOutputs run
      in case map_of cases caseID of
           None \<Rightarrow> Err (Opaque ''case location mismatch at row'')
         | Some item \<Rightarrow>
      if ca_Run item \<noteq> \<lparr>rl_ID = rn_ID run, rl_Row = int row\<rparr> then Err (Opaque ''case location mismatch at row'')
      else if length (tn_InputIDs t ! row) \<noteq> length (tn_AttentionMask t ! row) \<or>
         length (tn_MarkerPos t ! row) \<noteq> length (tn_MarkerMask t ! row) \<or> tn_QType t ! row \<noteq> sq_QType (ca_Sequence item)
      then Err (Opaque ''tensor shape mismatch at row'')
      else case mask_loop (tn_AttentionMask t ! row) tokens of
             Inl e \<Rightarrow> Err e
           | Inr tokens \<Rightarrow>
      if \<not> allClose (gf_elems (ou_Logits reference ! row)) (gf_elems (ou_Logits onnx ! row)) tol \<or>
         \<not> allClose (gf_elems (ou_ActLogits reference ! row)) (gf_elems (ou_ActLogits onnx ! row)) tol
      then Err (Opaque ''ONNX parity mismatch at row'')
      else res_bind (slice_floats (ou_Logits reference ! row) (length (sq_MarkerPositions (ca_Sequence item)))) (\<lambda>logits.
        if \<not> equal_floats (ow_Logits (ca_Raw item)) logits \<or>
           \<not> equal_floats (ow_ActLogits (ca_Raw item)) (gf_elems (ou_ActLogits reference ! row)) \<or> ca_Usage item \<noteq> rn_Usage run
        then Err (Opaque ''case output mismatch at row'')
        else Ok tokens))"

fun run_rows :: "Tolerance \<Rightarrow> (string \<times> Case) list \<Rightarrow> Run \<Rightarrow> nat \<Rightarrow> string list \<Rightarrow> int \<Rightarrow> int res" where
  "run_rows tol cases run row [] tokens = Ok tokens"
| "run_rows tol cases run row (caseID # ids) tokens =
     res_bind (run_row tol cases run row caseID tokens) (\<lambda>tokens. run_rows tol cases run (Suc row) ids tokens)"

definition rows_match :: "Run \<Rightarrow> bool" where
  "rows_match run \<longleftrightarrow>
     (let rows = length (rn_CaseIDs run); t = rn_Tensors run; reference = rn_ReferenceOutputs run; onnx = rn_ONNXOutputs run
      in \<not> (rows = 0 \<or> length (tn_InputIDs t) \<noteq> rows \<or> length (tn_AttentionMask t) \<noteq> rows \<or>
         length (tn_MarkerPos t) \<noteq> rows \<or> length (tn_MarkerMask t) \<noteq> rows \<or> length (tn_QType t) \<noteq> rows \<or>
         length (ou_Logits reference) \<noteq> rows \<or> length (ou_ActLogits reference) \<noteq> rows \<or>
         length (ou_Logits onnx) \<noteq> rows \<or> length (ou_ActLogits onnx) \<noteq> rows))"

definition Run_validate :: "Tolerance \<Rightarrow> (string \<times> Case) list \<Rightarrow> Run \<Rightarrow> unit res" where
  "Run_validate tol cases run =
     (if \<not> rows_match run then Err (Opaque ''batch row count mismatch'')
      else res_bind (run_rows tol cases run 0 (rn_CaseIDs run) 0) (\<lambda>inputTokens.
        if rn_Usage run \<noteq> \<lparr>cu_InputTokens = inputTokens, cu_OutputTokens = 0\<rparr> then Err (Opaque ''batch usage mismatch'')
        else Ok ()))"

subsection \<open>The whole corpus\<close>

definition expectedCases :: "string list" where
  "expectedCases =
     [''english-choice'', ''russian-score'', ''mixed-mask-noul'', ''unicode-choice'', ''two-options-choice'',
      ''six-options-choice'', ''eleven-options-choice'', ''json-null-noul'', ''json-bool-choice'', ''json-number-score'',
      ''json-string-noul'', ''long-options-choice'', ''exact-fit-choice'', ''right-truncated-choice'']"

definition expectedNegative :: "string list" where
  "expectedNegative = [''overflow-default-error'', ''impossible-marker-layout-error'']"

definition expectedRuns :: "string list" where
  "expectedRuns = [''ordered-mixed-batch'', ''coverage-short-batch'', ''boundary-batch'']"

definition requiredCategories :: "string list" where
  "requiredCategories =
     [''english'', ''russian'', ''mixed-language'', ''unicode'', ''mask-replacement'', ''choice'', ''score'', ''noul'',
      ''option-count-2'', ''option-count-6'', ''option-count-11'', ''json-primitive'', ''batch'', ''boundary'', ''exact-fit'',
      ''overflow'', ''right-truncation'', ''long-options'', ''impossible-markers'']"

text \<open>\<open>categories[category] = append(categories[category], id)\<close> for every category; a missing entry is nil.\<close>

definition category_ids :: "category_map \<Rightarrow> string \<Rightarrow> string list" where
  "category_ids m c = (case map_of m c of None \<Rightarrow> [] | Some ids \<Rightarrow> ids)"

fun add_categories :: "string \<Rightarrow> string list \<Rightarrow> category_map \<Rightarrow> category_map" where
  "add_categories i [] m = m"
| "add_categories i (c # cs) m = add_categories i cs (AList.update c (category_ids m c @ [i]) m)"

text \<open>\<open>reflect.DeepEqual\<close> of two category maps; the slices in them are not nil.\<close>

definition equal_categories :: "category_map \<Rightarrow> category_map \<Rightarrow> bool" where
  "equal_categories m m' \<longleftrightarrow> list_all (\<lambda>c. map_of m c = map_of m' c) (map fst m @ map fst m')"

fun cases_loop :: "nat \<Rightarrow> Case list \<Rightarrow> (string \<times> Case) list \<Rightarrow> category_map
   \<Rightarrow> ((string \<times> Case) list \<times> category_map) res" where
  "cases_loop i [] cases m = Ok (cases, m)"
| "cases_loop i (item # items) cases m =
     (if ca_ID item \<noteq> expectedCases ! i then Err (Opaque ''parity case has unexpected ID'')
      else if map_of cases (ca_ID item) \<noteq> None then Err (Opaque ''duplicate parity case'')
      else case Case_validate item of
             Some e \<Rightarrow> Err (Errorf ''parity case'' [e])
           | None \<Rightarrow> cases_loop (Suc i) items ((ca_ID item, item) # cases) (add_categories (ca_ID item) (ca_Categories item) m))"

fun negative_loop :: "nat \<Rightarrow> NegativeCase list \<Rightarrow> category_map \<Rightarrow> category_map res" where
  "negative_loop i [] m = Ok m"
| "negative_loop i (item # items) m =
     (if nc_ID item \<noteq> expectedNegative ! i \<or> nc_ExpectedError item \<noteq> ''input_too_long''
      then Err (Opaque ''negative parity case does not match'')
      else negative_loop (Suc i) items (add_categories (nc_ID item) (nc_Categories item) m))"

fun required_loop :: "string list \<Rightarrow> category_map \<Rightarrow> go_error option" where
  "required_loop [] m = None"
| "required_loop (c # cs) m =
     (if category_ids m c = [] then Some (Opaque ''required parity category is empty'') else required_loop cs m)"

fun runs_loop :: "Tolerance \<Rightarrow> (string \<times> Case) list \<Rightarrow> nat \<Rightarrow> Run list \<Rightarrow> unit res" where
  "runs_loop tol cases i [] = Ok ()"
| "runs_loop tol cases i (run # runs) =
     (if rn_ID run \<noteq> expectedRuns ! i then Err (Opaque ''parity run has unexpected ID'')
      else res_bind (res_wrap ''parity run'' (Run_validate tol cases run)) (\<lambda>_. runs_loop tol cases (Suc i) runs))"

definition Corpus_validate :: "Corpus \<Rightarrow> unit res" where
  "Corpus_validate corpus =
     (if co_SchemaVersion corpus \<noteq> 1 then Err (Opaque ''unsupported parity corpus schema'')
      else check_then (Metadata_validate (co_Metadata corpus))
     (let inventory = co_Inventory corpus; negative = co_NegativeCases corpus
      in if in_CaseIDs inventory \<noteq> expectedCases \<or> in_NegativeCaseIDs inventory \<noteq> expectedNegative \<or> in_RunIDs inventory \<noteq> expectedRuns
      then Err (Opaque ''parity corpus inventory IDs do not match the reviewed set'')
      else if length (co_Cases corpus) \<noteq> length expectedCases \<or> length negative \<noteq> length expectedNegative \<or>
         length (co_Runs corpus) \<noteq> length expectedRuns
      then Err (Opaque ''parity corpus inventory counts do not match'')
      else res_bind (cases_loop 0 (co_Cases corpus) [] []) (\<lambda>(cases, m).
           res_bind (negative_loop 0 negative m) (\<lambda>m.
        if nc_SourceCaseID (negative ! 0) \<noteq> ''right-truncated-choice'' \<or> nc_QuestionOptionCount (negative ! 1) \<noteq> 300 \<or>
           nc_RetainedMarkerCount (negative ! 1) \<ge> 300
        then Err (Opaque ''negative parity boundary observations do not match'')
        else if \<not> equal_categories (in_Categories inventory) m
        then Err (Opaque ''parity category inventory does not match cases'')
        else check_then (required_loop requiredCategories m)
               (runs_loop (md_Tolerance (co_Metadata corpus)) cases 0 (co_Runs corpus))))))"

text \<open>What the decoder finds after the corpus: the end, another value, or an error.\<close>

datatype trailer = TrailerEOF | TrailerValue | TrailerError go_error

definition requireEOF :: "trailer \<Rightarrow> go_error option" where
  "requireEOF t =
     (case t of
        TrailerEOF \<Rightarrow> None
      | TrailerValue \<Rightarrow> Some (Opaque ''parity corpus contains trailing JSON'')
      | TrailerError e \<Rightarrow> Some (Errorf ''decode parity corpus trailer'' [e]))"

definition maxCorpusBytes :: nat where "maxCorpusBytes = 2097152"

definition Load :: "(string \<Rightarrow> go_error + Corpus) \<Rightarrow> (string \<Rightarrow> trailer) \<Rightarrow> string \<Rightarrow> Corpus res" where
  "Load decode trailing data =
     (if length data = 0 \<or> length data > maxCorpusBytes then Err (Opaque ''parity corpus size is outside bounds'')
      else case decode data of
             Inl e \<Rightarrow> Err (Errorf ''decode parity corpus'' [e])
           | Inr corpus \<Rightarrow>
               check_then (requireEOF (trailing data)) (res_bind (Corpus_validate corpus) (\<lambda>_. Ok corpus)))"

subsection \<open>What an accepted run shows\<close>

text \<open>Everything the row is checked for before its logits are resliced.\<close>

definition row_agrees :: "Tolerance \<Rightarrow> Case \<Rightarrow> Run \<Rightarrow> nat \<Rightarrow> bool" where
  "row_agrees tol item run row \<longleftrightarrow>
     (let t = rn_Tensors run; reference = rn_ReferenceOutputs run; onnx = rn_ONNXOutputs run
      in ca_Run item = \<lparr>rl_ID = rn_ID run, rl_Row = int row\<rparr> \<and>
         length (tn_InputIDs t ! row) = length (tn_AttentionMask t ! row) \<and>
         length (tn_MarkerPos t ! row) = length (tn_MarkerMask t ! row) \<and>
         tn_QType t ! row = sq_QType (ca_Sequence item) \<and>
         set (tn_AttentionMask t ! row) \<subseteq> {0, 1} \<and>
         allClose (gf_elems (ou_Logits reference ! row)) (gf_elems (ou_Logits onnx ! row)) tol \<and>
         allClose (gf_elems (ou_ActLogits reference ! row)) (gf_elems (ou_ActLogits onnx ! row)) tol)"

definition option_count :: "Case \<Rightarrow> nat" where
  "option_count item = length (sq_MarkerPositions (ca_Sequence item))"

definition floats_capacity :: "go_floats \<Rightarrow> nat" where
  "floats_capacity s = length (gf_elems s) + length (gf_spare s)"

definition case_matches :: "Case \<Rightarrow> Run \<Rightarrow> nat \<Rightarrow> bool" where
  "case_matches item run row \<longleftrightarrow>
     (let reference = rn_ReferenceOutputs run; logits = ou_Logits reference ! row
      in option_count item \<le> floats_capacity logits \<and>
         equal_floats (ow_Logits (ca_Raw item)) (take (option_count item) (gf_elems logits @ gf_spare logits)) \<and>
         equal_floats (ow_ActLogits (ca_Raw item)) (gf_elems (ou_ActLogits reference ! row)) \<and>
         ca_Usage item = rn_Usage run)"

lemma mask_loop_iff: "mask_loop vs n = Inr k \<longleftrightarrow> set vs \<subseteq> {0, 1} \<and> k = n + sum_list vs"
  by (induction vs arbitrary: n) auto

lemma run_row_unfold:
  "run_row tol cases run row i tokens =
     (case map_of cases i of None \<Rightarrow> Err (Opaque ''case location mismatch at row'')
      | Some item \<Rightarrow>
          if row_agrees tol item run row
          then if floats_capacity (ou_Logits (rn_ReferenceOutputs run) ! row) < option_count item then Panic
               else if case_matches item run row then Ok (tokens + sum_list (tn_AttentionMask (rn_Tensors run) ! row))
               else Err (Opaque ''case output mismatch at row'')
          else run_row tol cases run row i tokens)"
proof (cases "map_of cases i")
  case (Some item)
  show ?thesis
  proof (cases "row_agrees tol item run row")
    case True
    have "mask_loop (tn_AttentionMask (rn_Tensors run) ! row) tokens =
        Inr (tokens + sum_list (tn_AttentionMask (rn_Tensors run) ! row))"
      using True by (simp add: mask_loop_iff row_agrees_def Let_def)
    with True Some show ?thesis
      by (simp add: run_row_def Let_def row_agrees_def slice_floats_def floats_capacity_def option_count_def case_matches_def)
  qed (simp add: Some)
qed (simp add: run_row_def Let_def)

lemma run_row_fails:
  assumes "map_of cases i = Some item" and "\<not> row_agrees tol item run row"
  shows "\<exists>e. run_row tol cases run row i tokens = Err e"
proof (cases "mask_loop (tn_AttentionMask (rn_Tensors run) ! row) tokens")
  case (Inl e)
  with assms show ?thesis by (simp add: run_row_def Let_def)
next
  case (Inr n)
  then have "set (tn_AttentionMask (rn_Tensors run) ! row) \<subseteq> {0, 1}" by (simp add: mask_loop_iff)
  with assms Inr show ?thesis by (auto simp: run_row_def Let_def row_agrees_def)
qed

lemma run_row_Ok_iff:
  "run_row tol cases run row i tokens = Ok n \<longleftrightarrow>
     (\<exists>item. map_of cases i = Some item \<and> row_agrees tol item run row \<and> case_matches item run row) \<and>
     n = tokens + sum_list (tn_AttentionMask (rn_Tensors run) ! row)"
  using run_row_fails [of cases i _ tol run row tokens] run_row_unfold [of tol cases run row i tokens]
  by (cases "map_of cases i") (auto simp: case_matches_def Let_def split: if_splits)

lemma run_row_Panic_iff:
  "run_row tol cases run row i tokens = Panic \<longleftrightarrow>
     (\<exists>item. map_of cases i = Some item \<and> row_agrees tol item run row \<and>
        floats_capacity (ou_Logits (rn_ReferenceOutputs run) ! row) < option_count item)"
  using run_row_fails [of cases i _ tol run row tokens] run_row_unfold [of tol cases run row i tokens]
  by (cases "map_of cases i") (auto split: if_splits)

definition row_ok :: "Tolerance \<Rightarrow> (string \<times> Case) list \<Rightarrow> Run \<Rightarrow> nat \<Rightarrow> bool" where
  "row_ok tol cases run row \<longleftrightarrow>
     (\<exists>item. map_of cases (rn_CaseIDs run ! row) = Some item \<and> row_agrees tol item run row \<and> case_matches item run row)"

lemma nth_Suc_all: "(\<forall>j<Suc n. P j) \<longleftrightarrow> P 0 \<and> (\<forall>j<n. P (Suc j))"
  by (auto simp: less_Suc_eq_0_disj)

lemma nth_Suc_ex: "(\<exists>j<Suc n. P j) \<longleftrightarrow> P 0 \<or> (\<exists>j<n. P (Suc j))"
  by (auto simp: less_Suc_eq_0_disj)

lemma list_all_upt: "list_all P [0..<n] \<longleftrightarrow> (\<forall>k<n. P k)"
  by (auto simp: list_all_iff)

lemma run_rows_Ok_iff:
  "run_rows tol cases run row ids tokens = Ok n \<longleftrightarrow>
     (\<forall>j<length ids. \<exists>item. map_of cases (ids ! j) = Some item \<and> row_agrees tol item run (row + j) \<and> case_matches item run (row + j)) \<and>
     n = tokens + (\<Sum>j\<leftarrow>[row..<row + length ids]. sum_list (tn_AttentionMask (rn_Tensors run) ! j))"
proof (induction ids arbitrary: row tokens)
  case Nil
  then show ?case by auto
next
  case (Cons i ids)
  have upt: "[row..<row + length (i # ids)] = row # [Suc row..<Suc row + length ids]"
    by (simp add: upt_conv_Cons del: upt_Suc)
  show ?case
    unfolding upt by (auto simp: res_bind_Ok_iff run_row_Ok_iff Cons.IH nth_Suc_all simp del: upt_Suc)
qed

lemma run_rows_Panic_iff:
  "run_rows tol cases run row ids tokens = Panic \<longleftrightarrow>
     (\<exists>j<length ids. (\<forall>k<j. \<exists>item. map_of cases (ids ! k) = Some item \<and> row_agrees tol item run (row + k) \<and> case_matches item run (row + k)) \<and>
        (\<exists>item. map_of cases (ids ! j) = Some item \<and> row_agrees tol item run (row + j) \<and>
           floats_capacity (ou_Logits (rn_ReferenceOutputs run) ! (row + j)) < option_count item))"
proof (induction ids arbitrary: row tokens)
  case (Cons i ids)
  let ?ok = "\<lambda>r i. \<exists>item. map_of cases i = Some item \<and> row_agrees tol item run r \<and> case_matches item run r"
  let ?short = "\<lambda>r i. \<exists>item. map_of cases i = Some item \<and> row_agrees tol item run r \<and>
      floats_capacity (ou_Logits (rn_ReferenceOutputs run) ! r) < option_count item"
  have "run_rows tol cases run row (i # ids) tokens = Panic \<longleftrightarrow>
      ?short row i \<or> ?ok row i \<and> (\<exists>j<length ids. (\<forall>k<j. ?ok (Suc row + k) (ids ! k)) \<and> ?short (Suc row + j) (ids ! j))"
    by (auto simp: res_bind_Panic_iff run_row_Panic_iff run_row_Ok_iff Cons.IH)
  also have "\<dots> \<longleftrightarrow> (\<exists>j<length (i # ids). (\<forall>k<j. ?ok (row + k) ((i # ids) ! k)) \<and> ?short (row + j) ((i # ids) ! j))"
    by (simp add: nth_Suc_ex nth_Suc_all) blast
  finally show ?case .
qed simp

lemma Run_validate_Ok_iff:
  "Run_validate tol cases run = Ok () \<longleftrightarrow>
     rows_match run \<and> list_all (row_ok tol cases run) [0..<length (rn_CaseIDs run)] \<and>
     rn_Usage run = \<lparr>cu_InputTokens = (\<Sum>j\<leftarrow>[0..<length (rn_CaseIDs run)]. sum_list (tn_AttentionMask (rn_Tensors run) ! j)), cu_OutputTokens = 0\<rparr>"
  by (cases "rows_match run") (simp_all add: Run_validate_def res_bind_Ok_iff run_rows_Ok_iff list_all_upt row_ok_def)

lemma Run_validate_Panic_iff:
  "Run_validate tol cases run = Panic \<longleftrightarrow>
     rows_match run \<and>
     (\<exists>row item. row < length (rn_CaseIDs run) \<and> list_all (row_ok tol cases run) [0..<row] \<and>
        map_of cases (rn_CaseIDs run ! row) = Some item \<and> row_agrees tol item run row \<and>
        floats_capacity (ou_Logits (rn_ReferenceOutputs run) ! row) < option_count item)"
  by (cases "rows_match run") (simp_all add: Run_validate_def res_bind_Panic_iff run_rows_Panic_iff list_all_upt row_ok_def)

text \<open>
  C39: What \<open>Run.validate\<close> does. It accepts a run exactly if all its tensors and outputs have one
  row for every case, every row belongs to a known case that names this run and row, matches
  its shapes and its recorded outputs, both backends agree on it within the tolerance, and the usage
  of the run counts the attended tokens. It panics exactly if the row counts match and, after
  rows that all pass, a row of a known case agrees with it so far but its reference logits have
  less capacity than the case has options; every other run is an error.
\<close>

theorem Run_validate_outcomes:
  "(Run_validate tol cases run = Ok () \<longleftrightarrow>
      rows_match run \<and> list_all (row_ok tol cases run) [0..<length (rn_CaseIDs run)] \<and>
      rn_Usage run = \<lparr>cu_InputTokens = (\<Sum>j\<leftarrow>[0..<length (rn_CaseIDs run)]. sum_list (tn_AttentionMask (rn_Tensors run) ! j)), cu_OutputTokens = 0\<rparr>) \<and>
   (Run_validate tol cases run = Panic \<longleftrightarrow>
      rows_match run \<and>
      (\<exists>row item. row < length (rn_CaseIDs run) \<and> list_all (row_ok tol cases run) [0..<row] \<and>
         map_of cases (rn_CaseIDs run ! row) = Some item \<and> row_agrees tol item run row \<and>
         floats_capacity (ou_Logits (rn_ReferenceOutputs run) ! row) < option_count item))"
  by (rule conjI [OF Run_validate_Ok_iff Run_validate_Panic_iff])

subsection \<open>What an accepted corpus shows\<close>

text \<open>The identifiers of those that carry a category, once for every time they list it.\<close>

definition carried :: "(string \<times> string list) list \<Rightarrow> string \<Rightarrow> string list" where
  "carried xs c = concat (map (\<lambda>(i, cs). replicate (count_list cs c) i) xs)"

definition no_empty :: "category_map \<Rightarrow> bool" where
  "no_empty m \<longleftrightarrow> (\<forall>c. map_of m c \<noteq> Some [])"

lemma category_ids_add:
  "category_ids (add_categories i cs m) c = category_ids m c @ replicate (count_list cs c) i"
  by (induction i cs m rule: add_categories.induct)
    (auto simp: category_ids_def update_conv' replicate_append_same split: option.split)

lemma no_empty_add: "no_empty m \<Longrightarrow> no_empty (add_categories i cs m)"
  by (induction i cs m rule: add_categories.induct) (auto simp: no_empty_def update_conv')

lemma no_empty_map_of: "no_empty m \<Longrightarrow> map_of m c = (if category_ids m c = [] then None else Some (category_ids m c))"
  by (auto simp: no_empty_def category_ids_def split: option.split)

definition case_entry :: "Case \<Rightarrow> string \<times> string list" where
  "case_entry c = (ca_ID c, ca_Categories c)"

definition negative_entry :: "NegativeCase \<Rightarrow> string \<times> string list" where
  "negative_entry c = (nc_ID c, nc_Categories c)"

lemma cases_loop_Ok:
  "cases_loop i items cases m = Ok (cases', m') \<Longrightarrow>
     (\<forall>j<length items. ca_ID (items ! j) = expectedCases ! (i + j)) \<and>
     list_all (\<lambda>c. Case_validate c = None) items \<and>
     cases' = rev (map (\<lambda>c. (ca_ID c, c)) items) @ cases \<and>
     (no_empty m \<longrightarrow> no_empty m') \<and>
     (\<forall>c. category_ids m' c = category_ids m c @ carried (map case_entry items) c)"
  by (induction i items cases m rule: cases_loop.induct)
    (auto simp: nth_Suc_all case_entry_def category_ids_add carried_def no_empty_add simp del: all_simps split: if_splits option.splits)

lemma negative_loop_Ok:
  "negative_loop i items m = Ok m' \<Longrightarrow>
     (\<forall>j<length items. nc_ID (items ! j) = expectedNegative ! (i + j)) \<and>
     (no_empty m \<longrightarrow> no_empty m') \<and>
     (\<forall>c. category_ids m' c = category_ids m c @ carried (map negative_entry items) c)"
  by (induction i items m rule: negative_loop.induct)
    (auto simp: nth_Suc_all negative_entry_def category_ids_add carried_def no_empty_add simp del: all_simps split: if_splits)

lemma cases_loop_no_panic [simp]: "cases_loop i items cases m \<noteq> Panic"
  by (induction i items cases m rule: cases_loop.induct) (simp_all split: option.split)

lemma negative_loop_no_panic [simp]: "negative_loop i items m \<noteq> Panic"
  by (induction i items m rule: negative_loop.induct) simp_all

lemma required_loop_iff: "required_loop cs m = None \<longleftrightarrow> list_all (\<lambda>c. category_ids m c \<noteq> []) cs"
  by (induction cs) auto

lemma runs_loop_Ok:
  "runs_loop tol cases i runs = Ok () \<Longrightarrow>
     (\<forall>j<length runs. rn_ID (runs ! j) = expectedRuns ! (i + j)) \<and> list_all (\<lambda>r. Run_validate tol cases r = Ok ()) runs"
  by (induction tol cases i runs rule: runs_loop.induct)
    (auto simp: nth_Suc_all res_bind_Ok_iff res_wrap_Ok_iff simp del: all_simps split: if_splits)

lemma runs_loop_Panic:
  "runs_loop tol cases i runs = Panic \<Longrightarrow> list_ex (\<lambda>r. Run_validate tol cases r = Panic) runs"
  by (induction tol cases i runs rule: runs_loop.induct)
    (auto simp: res_bind_Panic_iff res_wrap_Panic_iff split: if_splits)

lemma equal_categories_iff: "equal_categories m m' \<longleftrightarrow> (\<forall>c. map_of m c = map_of m' c)"
proof
  assume e: "equal_categories m m'"
  show "\<forall>c. map_of m c = map_of m' c"
  proof
    fix c
    show "map_of m c = map_of m' c"
    proof (cases "c \<in> set (map fst m @ map fst m')")
      case True
      with e show ?thesis by (auto simp: equal_categories_def list_all_iff)
    next
      case False
      then have "map_of m c = None" "map_of m' c = None" by (simp_all add: map_of_eq_None_iff)
      then show ?thesis by simp
    qed
  qed
qed (simp add: equal_categories_def list_all_iff)

lemma expected_distinct: "distinct expectedCases" "distinct expectedRuns"
  by (simp_all add: expectedCases_def expectedRuns_def)

definition corpus_carried :: "Corpus \<Rightarrow> string \<Rightarrow> string list" where
  "corpus_carried c k = carried (map case_entry (co_Cases c) @ map negative_entry (co_NegativeCases c)) k"

text \<open>The rows of a run, over the cases of the corpus.\<close>

definition run_ok :: "Corpus \<Rightarrow> Run \<Rightarrow> bool" where
  "run_ok c run \<longleftrightarrow>
     rn_CaseIDs run \<noteq> [] \<and>
     (\<forall>row<length (rn_CaseIDs run). \<exists>item\<in>set (co_Cases c). ca_ID item = rn_CaseIDs run ! row \<and>
        row_agrees (md_Tolerance (co_Metadata c)) item run row \<and> case_matches item run row) \<and>
     rn_Usage run = \<lparr>cu_InputTokens = (\<Sum>j\<leftarrow>[0..<length (rn_CaseIDs run)]. sum_list (tn_AttentionMask (rn_Tensors run) ! j)), cu_OutputTokens = 0\<rparr>"

definition corpus_ok :: "Corpus \<Rightarrow> bool" where
  "corpus_ok c \<longleftrightarrow>
     Metadata_validate (co_Metadata c) = None \<and>
     map ca_ID (co_Cases c) = expectedCases \<and> map nc_ID (co_NegativeCases c) = expectedNegative \<and>
     map rn_ID (co_Runs c) = expectedRuns \<and>
     list_all (\<lambda>i. Case_validate i = None) (co_Cases c) \<and>
     (\<forall>k. map_of (in_Categories (co_Inventory c)) k = (if corpus_carried c k = [] then None else Some (corpus_carried c k))) \<and>
     list_all (\<lambda>k. corpus_carried c k \<noteq> []) requiredCategories \<and>
     list_all (run_ok c) (co_Runs c) \<and>
     distinct (concat (map rn_CaseIDs (co_Runs c)))"

lemma Corpus_validate_cases:
  assumes "Corpus_validate c = r" and "\<forall>e. r \<noteq> Err e"
  obtains cases m where "Metadata_validate (co_Metadata c) = None"
    and "map ca_ID (co_Cases c) = expectedCases" and "map nc_ID (co_NegativeCases c) = expectedNegative"
    and "length (co_Runs c) = length expectedRuns" and "list_all (\<lambda>i. Case_validate i = None) (co_Cases c)"
    and "cases = rev (map (\<lambda>i. (ca_ID i, i)) (co_Cases c))"
    and "\<forall>k. map_of (in_Categories (co_Inventory c)) k = (if corpus_carried c k = [] then None else Some (corpus_carried c k))"
    and "list_all (\<lambda>k. corpus_carried c k \<noteq> []) requiredCategories"
    and "runs_loop (md_Tolerance (co_Metadata c)) cases 0 (co_Runs c) = r"
proof -
  have meta: "Metadata_validate (co_Metadata c) = None"
    using assms by (auto simp: Corpus_validate_def check_then_def split: if_splits option.splits)
  obtain cases m where loop: "cases_loop 0 (co_Cases c) [] [] = Ok (cases, m)"
    using assms meta by (cases "cases_loop 0 (co_Cases c) [] []") (auto simp: Corpus_validate_def Let_def split: if_splits)
  obtain n where negative: "negative_loop 0 (co_NegativeCases c) m = Ok n"
    using assms meta loop
    by (cases "negative_loop 0 (co_NegativeCases c) m") (auto simp: Corpus_validate_def Let_def split: if_splits)
  have lengths: "length (co_Cases c) = length expectedCases" "length (co_NegativeCases c) = length expectedNegative"
    "length (co_Runs c) = length expectedRuns"
    using assms meta by (auto simp: Corpus_validate_def Let_def split: if_splits)
  have rest: "equal_categories (in_Categories (co_Inventory c)) n" "required_loop requiredCategories n = None"
    "runs_loop (md_Tolerance (co_Metadata c)) cases 0 (co_Runs c) = r"
    using assms meta loop negative by (auto simp: Corpus_validate_def Let_def check_then_def split: if_splits option.splits)
  note c1 = cases_loop_Ok [OF loop] and c2 = negative_loop_Ok [OF negative]
  have "no_empty n" using c1 c2 by (simp add: no_empty_def)
  moreover have ids: "category_ids n k = corpus_carried c k" for k
    using c1 c2 by (simp add: corpus_carried_def carried_def category_ids_def)
  ultimately have "map_of (in_Categories (co_Inventory c)) k = (if corpus_carried c k = [] then None else Some (corpus_carried c k))" for k
    using rest(1) by (simp add: equal_categories_iff no_empty_map_of)
  moreover have "map ca_ID (co_Cases c) = expectedCases" "map nc_ID (co_NegativeCases c) = expectedNegative"
    using c1 c2 lengths by (auto intro: nth_equalityI)
  ultimately show thesis
    using that [of cases] meta c1 rest lengths by (simp add: required_loop_iff ids)
qed

lemma distinct_concat_map:
  assumes "distinct (map f xs)" and "\<And>x. x \<in> set xs \<Longrightarrow> distinct (g x)"
    and "\<And>x y. x \<in> set xs \<Longrightarrow> y \<in> set xs \<Longrightarrow> f x \<noteq> f y \<Longrightarrow> set (g x) \<inter> set (g y) = {}"
  shows "distinct (concat (map g xs))"
  using assms
proof (induction xs)
  case (Cons a xs)
  have "distinct (concat (map g xs))" using Cons.prems by (intro Cons.IH) auto
  moreover have "set (g a) \<inter> set (g x) = {}" if "x \<in> set xs" for x
    using Cons.prems(1) that by (intro Cons.prems(3)) auto
  ultimately show ?case using Cons.prems(2) by auto
qed simp

lemma run_ids_distinct:
  assumes "map rn_ID runs = expectedRuns" and "distinct (map ca_ID items)"
    and rows: "\<And>run row. run \<in> set runs \<Longrightarrow> row < length (rn_CaseIDs run) \<Longrightarrow>
      \<exists>item\<in>set items. ca_ID item = rn_CaseIDs run ! row \<and> ca_Run item = \<lparr>rl_ID = rn_ID run, rl_Row = int row\<rparr>"
  shows "distinct (concat (map rn_CaseIDs runs))"
proof -
  have same: "rn_ID run = rn_ID run' \<and> row = row'"
    if "run \<in> set runs" "run' \<in> set runs" "row < length (rn_CaseIDs run)" "row' < length (rn_CaseIDs run')"
      "rn_CaseIDs run ! row = rn_CaseIDs run' ! row'" for run run' row row'
  proof -
    from rows [OF that(1,3)] rows [OF that(2,4)] obtain a b where
      ab: "a \<in> set items" "b \<in> set items" "ca_ID a = rn_CaseIDs run ! row" "ca_ID b = rn_CaseIDs run' ! row'"
      "ca_Run a = \<lparr>rl_ID = rn_ID run, rl_Row = int row\<rparr>" "ca_Run b = \<lparr>rl_ID = rn_ID run', rl_Row = int row'\<rparr>" by blast
    with that(5) assms(2) have "a = b" by (metis distinct_map inj_onD)
    with ab show ?thesis by simp
  qed
  have one: "distinct (rn_CaseIDs run)" if "run \<in> set runs" for run
    unfolding distinct_conv_nth using same [OF that that] by blast
  have apart: "set (rn_CaseIDs run) \<inter> set (rn_CaseIDs run') = {}"
    if "run \<in> set runs" "run' \<in> set runs" "rn_ID run \<noteq> rn_ID run'" for run run'
    using same [OF that(1,2)] that(3) by (force simp: in_set_conv_nth)
  have "distinct (map rn_ID runs)" using assms(1) expected_distinct by simp
  then show ?thesis using one apart by (rule distinct_concat_map)
qed

text \<open>
  C40: A corpus that \<open>Load\<close> accepts is the reviewed one: the decoded document with nothing after
  it; exactly the expected cases, negative cases and runs in order, every case well formed; the
  inventory lists for every category exactly the cases that carry it, in order, and every required
  category is carried; every row of every run reproduces the recorded outputs of a case
  within the tolerance on both backends, and no case is in two rows. \<open>Load\<close> panics only if some
  run has a row whose reference logits have less capacity than its case has options.
\<close>

theorem Load_outcomes:
  "case Load decode trailing data of
     Ok c \<Rightarrow> decode data = Inr c \<and> trailing data = TrailerEOF \<and> length data \<le> maxCorpusBytes \<and> corpus_ok c
   | Err e \<Rightarrow> True
   | Panic \<Rightarrow> (\<exists>c run item row. decode data = Inr c \<and> run \<in> set (co_Runs c) \<and> item \<in> set (co_Cases c) \<and>
        row < length (rn_CaseIDs run) \<and> floats_capacity (ou_Logits (rn_ReferenceOutputs run) ! row) < option_count item)"
proof (cases "Load decode trailing data")
  case (Ok c)
  then have d: "decode data = Inr c" "trailing data = TrailerEOF" "length data \<le> maxCorpusBytes" and v: "Corpus_validate c = Ok ()"
    by (auto simp: Load_def requireEOF_def res_ok_iffs check_then_def split: if_splits sum.splits trailer.splits)
  obtain cases m where c: "Metadata_validate (co_Metadata c) = None"
    "map ca_ID (co_Cases c) = expectedCases" "map nc_ID (co_NegativeCases c) = expectedNegative"
    "length (co_Runs c) = length expectedRuns" "list_all (\<lambda>i. Case_validate i = None) (co_Cases c)"
    "cases = rev (map (\<lambda>i. (ca_ID i, i)) (co_Cases c))"
    "\<forall>k. map_of (in_Categories (co_Inventory c)) k = (if corpus_carried c k = [] then None else Some (corpus_carried c k))"
    "list_all (\<lambda>k. corpus_carried c k \<noteq> []) requiredCategories"
    and runs: "runs_loop (md_Tolerance (co_Metadata c)) cases 0 (co_Runs c) = Ok ()"
    by (rule Corpus_validate_cases [OF v]) simp_all
  from runs_loop_Ok [OF runs] have rids: "map rn_ID (co_Runs c) = expectedRuns"
    and rv: "\<And>run. run \<in> set (co_Runs c) \<Longrightarrow> Run_validate (md_Tolerance (co_Metadata c)) cases run = Ok ()"
    using c(4) by (auto intro: nth_equalityI simp: list_all_iff)
  have member: "i \<in> set (co_Cases c) \<and> ca_ID i = k" if "map_of cases k = Some i" for k i
    using map_of_SomeD [OF that] by (auto simp: c(6))
  have rok: "run_ok c run" if "run \<in> set (co_Runs c)" for run
  proof -
    have ok: "rows_match run" "\<And>row. row < length (rn_CaseIDs run) \<Longrightarrow> row_ok (md_Tolerance (co_Metadata c)) cases run row"
      "rn_Usage run = \<lparr>cu_InputTokens = (\<Sum>j\<leftarrow>[0..<length (rn_CaseIDs run)]. sum_list (tn_AttentionMask (rn_Tensors run) ! j)), cu_OutputTokens = 0\<rparr>"
      using rv [OF that] by (simp_all add: Run_validate_Ok_iff list_all_upt)
    have "\<exists>item\<in>set (co_Cases c). ca_ID item = rn_CaseIDs run ! row \<and>
        row_agrees (md_Tolerance (co_Metadata c)) item run row \<and> case_matches item run row"
      if "row < length (rn_CaseIDs run)" for row
      using ok(2) [OF that] member unfolding row_ok_def by blast
    moreover have "rn_CaseIDs run \<noteq> []" using ok(1) by (auto simp: rows_match_def Let_def)
    ultimately show ?thesis using ok(3) unfolding run_ok_def by blast
  qed
  have "distinct (concat (map rn_CaseIDs (co_Runs c)))"
  proof (rule run_ids_distinct [OF rids])
    show "distinct (map ca_ID (co_Cases c))" using c(2) expected_distinct by simp
    show "\<exists>item\<in>set (co_Cases c). ca_ID item = rn_CaseIDs run ! row \<and> ca_Run item = \<lparr>rl_ID = rn_ID run, rl_Row = int row\<rparr>"
      if r: "run \<in> set (co_Runs c)" "row < length (rn_CaseIDs run)" for run row
    proof -
      obtain item where "item \<in> set (co_Cases c)" "ca_ID item = rn_CaseIDs run ! row"
        "row_agrees (md_Tolerance (co_Metadata c)) item run row"
        using rok [OF r(1)] r(2) unfolding run_ok_def by blast
      then show ?thesis by (auto simp: row_agrees_def Let_def)
    qed
  qed
  with Ok d c rids rok show ?thesis by (simp add: corpus_ok_def list_all_iff)
next
  case Panic
  then obtain c where d: "decode data = Inr c" and v: "Corpus_validate c = Panic"
    by (auto simp: Load_def res_panic_iffs split: if_splits sum.splits)
  obtain cases m where c: "cases = rev (map (\<lambda>i. (ca_ID i, i)) (co_Cases c))"
    and runs: "runs_loop (md_Tolerance (co_Metadata c)) cases 0 (co_Runs c) = Panic"
    by (rule Corpus_validate_cases [OF v]) simp_all
  obtain run where r: "run \<in> set (co_Runs c)" "Run_validate (md_Tolerance (co_Metadata c)) cases run = Panic"
    using runs_loop_Panic [OF runs] by (auto simp: list_ex_iff)
  then obtain row item where "row < length (rn_CaseIDs run)" "map_of cases (rn_CaseIDs run ! row) = Some item"
    "floats_capacity (ou_Logits (rn_ReferenceOutputs run) ! row) < option_count item"
    unfolding Run_validate_Panic_iff by blast
  moreover from this have "item \<in> set (co_Cases c)" by (auto simp: c dest!: map_of_SomeD)
  ultimately show ?thesis using d r(1) unfolding Panic res.case by blast
qed simp

subsection \<open>Examples\<close>

text \<open>A run of one row with two options, and the same run with the row of logits left empty.\<close>

definition sample_case :: Case where
  "sample_case =
     \<lparr>ca_ID = ''a'', ca_Categories = [''english'', ''choice''], ca_State = \<lparr>cs_Kind = ''text'', cs_Value = ''s''\<rparr>,
      ca_Question = \<lparr>cq_Type = ''choice'', cq_Instructions = ''i'', cq_Criteria = ''[]''\<rparr>,
      ca_RenderedOptions = [''x'', ''y''], ca_Run = \<lparr>rl_ID = ''r'', rl_Row = 0\<rparr>,
      ca_Sequence = \<lparr>sq_InputIDs = [1, 2], sq_MarkerPositions = [0, 1], sq_QType = 0, sq_OriginalInputTokens = 2,
        sq_EffectiveInputTokens = 2, sq_Truncated = False\<rparr>,
      ca_Raw = \<lparr>ow_Logits = [Fin 1, Fin 2], ow_ActLogits = [Fin 0, Fin 1]\<rparr>,
      ca_Calibration = \<lparr>cc_RawTemperature = Fin 1, cc_EffectiveTemperature = Fin 1\<rparr>,
      ca_Derived = \<lparr>de_Probabilities = [Fin 0, Fin 1], de_ActionProbabilities = [Fin 1, Fin 0],
        de_EntropyConfidence = Fin 0, de_SelectedIndex = 1, de_ExpectedScore = None, de_TrueProbability = None\<rparr>,
      ca_TypedResult = ''{}'', ca_Usage = \<lparr>cu_InputTokens = 2, cu_OutputTokens = 0\<rparr>\<rparr>"

definition sample_outputs :: "f64 list \<Rightarrow> Outputs" where
  "sample_outputs logits = \<lparr>ou_Logits = [\<lparr>gf_elems = logits, gf_spare = []\<rparr>], ou_ActLogits = [\<lparr>gf_elems = [Fin 0, Fin 1], gf_spare = []\<rparr>]\<rparr>"

definition sample_run :: "f64 list \<Rightarrow> Run" where
  "sample_run logits =
     \<lparr>rn_ID = ''r'', rn_CaseIDs = [''a''],
      rn_Tensors = \<lparr>tn_InputIDs = [[1, 2]], tn_AttentionMask = [[1, 1]], tn_MarkerPos = [[0, 1]], tn_MarkerMask = [[True, True]], tn_QType = [0]\<rparr>,
      rn_ReferenceOutputs = sample_outputs logits, rn_ONNXOutputs = sample_outputs logits, rn_MaximumAbsoluteDifference = [],
      rn_Usage = \<lparr>cu_InputTokens = 2, cu_OutputTokens = 0\<rparr>\<rparr>"

definition sample_tolerance :: Tolerance where
  "sample_tolerance = \<lparr>to_Absolute = Fin 0, to_Relative = Fin 0\<rparr>"

lemma round64_zero: "round64 0 = Fin 0"
  by (simp add: round64_def overflow_limit_def)

lemma round64_one: "round64 1 = Fin 1"
  using f_of_int_exact [of 1] by (simp add: f_of_int_def)

lemma round64_not_negative: "0 \<le> q \<Longrightarrow> \<not> f_lt (round64 q) (Fin 0)"
proof -
  assume "0 \<le> q"
  then have "0 \<le> rnd q" by (rule rnd_nonneg)
  moreover have "0 < overflow_limit" by (simp add: overflow_limit_def)
  ultimately show ?thesis by (simp add: round64_def Let_def not_le)
qed

lemma sample_within: "within_tolerance sample_tolerance (Fin x) (Fin x)"
  by (simp add: within_tolerance_def sample_tolerance_def f_sub_def f_abs_def round64_zero)

lemma off_one_units: "\<not> off_one [Fin 0, Fin 1]" "\<not> off_one [Fin 1, Fin 0]"
  by (simp_all add: off_one_def sum_floats_def f_sub_def f_abs_def round64_zero round64_one round64_not_negative)

lemmas sample_defs = sample_case_def sample_run_def sample_outputs_def

lemma sample_case_valid: "Case_validate sample_case = None"
proof -
  have "json_valid ''[]''" by code_simp
  then show ?thesis
    by (simp add: Case_validate_def sample_case_def qtypes_def off_one_units finite_floats_def isNaN_def isInf_def)
qed

lemma sample_row_agrees: "row_agrees sample_tolerance sample_case (sample_run (map Fin xs)) 0"
  by (simp add: row_agrees_def sample_defs allClose_def finite_floats_def isNaN_def isInf_def list_all_iff sample_within
      zip_same_conv_map)

lemma sample_run_simps:
  "rn_CaseIDs (sample_run xs) = [''a'']" "rows_match (sample_run xs)"
  "rn_Usage (sample_run xs) = \<lparr>cu_InputTokens = 2, cu_OutputTokens = 0\<rparr>"
  "tn_AttentionMask (rn_Tensors (sample_run xs)) = [[1, 1]]"
  by (simp_all add: sample_run_def sample_outputs_def rows_match_def)

lemma sample_run_accepted: "Run_validate sample_tolerance [(''a'', sample_case)] (sample_run [Fin 1, Fin 2]) = Ok ()"
proof -
  have "case_matches sample_case (sample_run [Fin 1, Fin 2]) 0"
    by (simp add: case_matches_def sample_defs option_count_def floats_capacity_def equal_floats_def)
  then show ?thesis
    using sample_row_agrees [of "[1, 2]"] by (simp add: Run_validate_Ok_iff row_ok_def list_all_upt sample_run_simps)
qed

lemma sample_run_panics: "Run_validate sample_tolerance [(''a'', sample_case)] (sample_run []) = Panic"
proof -
  have "floats_capacity (ou_Logits (rn_ReferenceOutputs (sample_run [])) ! 0) < option_count sample_case"
    by (simp add: sample_defs option_count_def floats_capacity_def)
  then show ?thesis
    using sample_row_agrees [of "[]"] by (simp add: Run_validate_Panic_iff list_all_upt sample_run_simps)
qed

end
