(* ===== verification/Laya_Protocol.thy ===== *)
theory Laya_Protocol
  imports Laya_Materialize "HOL-Library.Multiset"
begin

text \<open>
  The discipline of \<open>Materialize\<close>: which handles are open when, what is changed without the lock and
  what only with it, and that nothing is published before it was copied and verified again. The
  events of an operation are run by a monitor that stops at a violation; a triple says from
  which monitor states an operation runs to which, on success and on failure.
\<close>

subsection \<open>The monitor\<close>

text \<open>
  A call is \<open>Idle\<close>, \<open>Making\<close> a namespace (which it does without the lock: the lock's file is in the
  namespace), or \<open>Holding\<close> the lock. \<open>ms_progress\<close> counts what was done in a phase: while a
  namespace is made, 1 the staging directory, 2 that of the bundles, 3 the lock's file, 4 the marker under
  its first name, 5 the marker in place; with the lock held, 1 the stage was copied, 2 verified.
\<close>

datatype mat_phase = Idle | Making | Holding

record mat_state =
  ms_open :: "mat_handle multiset"
  ms_phase :: mat_phase
  ms_progress :: nat

definition below :: "string \<Rightarrow> string \<Rightarrow> bool" where
  "below dir p \<longleftrightarrow> take (Suc (length dir)) p = dir @ [slash]"

definition advance :: "bool \<Rightarrow> nat \<Rightarrow> mat_state \<Rightarrow> mat_state option" where
  "advance allowed n s = (if allowed then Some (s\<lparr>ms_progress := n\<rparr>) else None)"

definition permit :: "bool \<Rightarrow> mat_state \<Rightarrow> mat_state option" where
  "permit allowed s = (if allowed then Some s else None)"

fun mat_step :: "mat_event \<Rightarrow> mat_state \<Rightarrow> mat_state option" where
  "mat_step (HOpen h) s = Some (s\<lparr>ms_open := add_mset h (ms_open s)\<rparr>)"
| "mat_step (HClose h) s = (if h \<in># ms_open s then Some (s\<lparr>ms_open := ms_open s - {#h#}\<rparr>) else None)"
| "mat_step Locked s =
     (if LockFile \<in># ms_open s \<and> ms_phase s = Idle then Some (s\<lparr>ms_phase := Holding, ms_progress := 0\<rparr>) else None)"
| "mat_step Unlocked s = (if LockFile \<in># ms_open s \<and> ms_phase s = Holding then Some (s\<lparr>ms_phase := Idle\<rparr>) else None)"
| "mat_step (MadeDir p) s =
     (case ms_phase s of
        Idle \<Rightarrow> if p = namespaceName then Some (s\<lparr>ms_phase := Making, ms_progress := 0\<rparr>) else None
      | Making \<Rightarrow> if p = stagingDirectory then advance True 1 s else advance (p = bundlesDirectory \<and> 1 \<le> ms_progress s) 2 s
      | Holding \<Rightarrow> permit (below stagingDirectory p) s)"
| "mat_step (MadeFile p) s =
     (case ms_phase s of
        Idle \<Rightarrow> None
      | Making \<Rightarrow> if p = lockFileName then advance (2 \<le> ms_progress s) 3 s
                  else permit (p = initializingMarker \<and> 3 \<le> ms_progress s) s
      | Holding \<Rightarrow> permit (below stagingDirectory p) s)"
| "mat_step (WroteMarker p c) s =
     (case ms_phase s of
        Idle \<Rightarrow> None
      | Making \<Rightarrow> advance (p = initializingMarker \<and> c = namespaceMarker \<and> 3 \<le> ms_progress s) 4 s
      | Holding \<Rightarrow> permit (below stagingDirectory p \<and> c = stageMarker) s)"
| "mat_step (CopiedFile p) s = permit (ms_phase s = Holding \<and> below stagingDirectory p) s"
| "mat_step (RemovedAll p) s =
     (case ms_phase s of
        Idle \<Rightarrow> None
      | Making \<Rightarrow> if p = namespaceName then Some (s\<lparr>ms_phase := Idle\<rparr>) else None
      | Holding \<Rightarrow> permit (below stagingDirectory p) s)"
| "mat_step (RenamedTo p q) s =
     (case ms_phase s of
        Idle \<Rightarrow> None
      | Making \<Rightarrow> advance (p = initializingMarker \<and> q = ownerMarkerName \<and> 4 \<le> ms_progress s) 5 s
      | Holding \<Rightarrow> permit (below stagingDirectory p \<and> below bundlesDirectory q \<and> 2 \<le> ms_progress s) s)"
| "mat_step NamespaceReady s = (if ms_phase s = Making \<and> 5 \<le> ms_progress s then Some (s\<lparr>ms_phase := Idle\<rparr>) else None)"
| "mat_step CopiedBundle s = advance (ms_phase s = Holding) 1 s"
| "mat_step VerifiedStage s = advance (ms_phase s = Holding \<and> 1 \<le> ms_progress s) 2 s"
| "mat_step (SyncedDir p) s = Some s"

fun mat_run :: "mat_event list \<Rightarrow> mat_state \<Rightarrow> mat_state option" where
  "mat_run [] s = Some s"
| "mat_run (e # es) s = Option.bind (mat_step e s) (mat_run es)"

lemma mat_run_append: "mat_run (xs @ ys) s = Option.bind (mat_run xs s) (mat_run ys)"
  by (induction xs arbitrary: s) (simp_all add: Option.bind_assoc cong: Option.bind_cong)

definition mat_start :: mat_state where
  "mat_start = \<lparr>ms_open = {#}, ms_phase = Idle, ms_progress = 0\<rparr>"

lemma below_append [simp]: "below d p \<Longrightarrow> below d (p @ q)"
proof -
  assume p: "below d p"
  then have "length (take (Suc (length d)) p) = Suc (length d)" by (simp add: below_def)
  then have "Suc (length d) \<le> length p" by simp
  with p show "below d (p @ q)" by (simp add: below_def)
qed

lemma below_Cons [simp]: "below d (d @ slash # q)"
  by (simp add: below_def)

subsection \<open>Triples\<close>

definition hold :: "mat_handle multiset \<Rightarrow> mat_phase \<Rightarrow> nat \<Rightarrow> mat_state \<Rightarrow> bool" where
  "hold M l t s \<longleftrightarrow> ms_open s = M \<and> ms_phase s = l \<and> t \<le> ms_progress s"

definition triple ::
  "(mat_state \<Rightarrow> bool) \<Rightarrow> 'a act \<Rightarrow> ('a \<Rightarrow> mat_state \<Rightarrow> bool) \<Rightarrow> (mat_state \<Rightarrow> bool) \<Rightarrow> bool" where
  "triple P a Q B \<longleftrightarrow>
     (\<forall>s. P s \<longrightarrow> (\<exists>s'. mat_run (snd a) s = Some s' \<and> (case fst a of Ok x \<Rightarrow> Q x s' | Err e \<Rightarrow> B s' | Panic \<Rightarrow> B s')))"

definition moves :: "mat_event list \<Rightarrow> mat_handle multiset \<Rightarrow> mat_phase \<Rightarrow> mat_handle multiset \<Rightarrow> mat_phase \<Rightarrow> bool" where
  "moves es M l M' l' \<longleftrightarrow> (\<forall>s. hold M l 0 s \<longrightarrow> (\<exists>s'. mat_run es s = Some s' \<and> hold M' l' 0 s'))"

named_theorems act_rules "how the operations of a materialization run on the monitor"

lemma hold_weaken: "hold M l t s \<Longrightarrow> hold M l 0 s"
  by (simp add: hold_def)

lemma triple_pre: "triple P a Q B \<Longrightarrow> (\<And>s. P' s \<Longrightarrow> P s) \<Longrightarrow> triple P' a Q B"
  by (auto simp: triple_def)

lemma triple_post: "triple P a Q B \<Longrightarrow> (\<And>x s. Q x s \<Longrightarrow> Q' x s) \<Longrightarrow> triple P a Q' B"
  by (fastforce simp: triple_def split: res.splits)

lemma triple_bind [act_rules]:
  assumes "triple P a Q B" and "\<And>x. triple (Q x) (f x) R B"
  shows "triple P (act_bind a f) R B"
  unfolding triple_def
proof (intro allI impI)
  fix s assume P: "P s"
  obtain v es where a: "a = (v, es)" by (cases a)
  obtain s1 where s1: "mat_run es s = Some s1" "case v of Ok x \<Rightarrow> Q x s1 | Err e \<Rightarrow> B s1 | Panic \<Rightarrow> B s1"
    using assms(1) P by (auto simp: triple_def a)
  show "\<exists>s'. mat_run (snd (act_bind a f)) s = Some s' \<and>
      (case fst (act_bind a f) of Ok x \<Rightarrow> R x s' | Err e \<Rightarrow> B s' | Panic \<Rightarrow> B s')"
  proof (cases v)
    case (Ok x)
    obtain w es' where f: "f x = (w, es')" by (cases "f x")
    have "triple (Q x) (w, es') R B" using assms(2) [of x] by (simp add: f)
    then obtain s2 where "mat_run es' s1 = Some s2" "case w of Ok x \<Rightarrow> R x s2 | Err e \<Rightarrow> B s2 | Panic \<Rightarrow> B s2"
      using s1(2) Ok by (auto simp: triple_def)
    with s1(1) show ?thesis by (simp add: act_bind_def a Ok f mat_run_append)
  qed (use s1 in \<open>simp_all add: act_bind_def a\<close>)
qed

lemma triple_then [act_rules]: "triple P a (\<lambda>_. Q) B \<Longrightarrow> triple Q b R B \<Longrightarrow> triple P (act_then a b) R B"
  unfolding act_then_def by (rule triple_bind)

lemma triple_give: "(\<And>s. P s \<Longrightarrow> Q x s) \<Longrightarrow> triple P (give x) Q B"
  by (simp add: triple_def give_def)

lemma triple_refuse [act_rules]: "triple (hold M l t) (refuse e) Q (hold M l 0)"
  by (simp add: triple_def refuse_def hold_def)

lemma triple_check [act_rules]: "triple (hold M l t) (check c) (\<lambda>_. hold M l t) (hold M l 0)"
  by (simp add: triple_def check_def hold_def split: option.split)

lemma triple_call_or [act_rules]: "triple (hold M l t) (call_or op c) (\<lambda>_. hold M l t) (hold M l 0)"
  unfolding call_or_def by (rule act_rules)

lemma triple_hook [act_rules]: "triple (hold M l t) (hook_step h op) (\<lambda>_. hold M l t) (hold M l 0)"
  unfolding hook_step_def by (cases h) (auto intro: act_rules triple_give)

lemma triple_inspect [act_rules]: "triple (hold M l t) (inspect op r) (\<lambda>_. hold M l t) (hold M l 0)"
  unfolding inspect_def by (cases r) (auto intro: act_rules triple_give)

lemma triple_did [act_rules]:
  "triple (hold M l t) (did [HOpen h]) (\<lambda>_. hold (add_mset h M) l t) B"
  "triple (hold (add_mset h M) l t) (did [HClose h]) (\<lambda>_. hold M l t) B"
  "triple (hold M l t) (did [HOpen h, HClose h]) (\<lambda>_. hold M l t) B"
  "triple (hold M l t) (did [SyncedDir p]) (\<lambda>_. hold M l t) B"
  "triple (hold (add_mset LockFile M) Idle t) (did [Locked]) (\<lambda>_. hold (add_mset LockFile M) Holding 0) B"
  by (auto simp: triple_def did_def hold_def)

text \<open>Making a namespace.\<close>

lemma triple_did_making [act_rules]:
  "triple (hold M Idle t) (did [MadeDir namespaceName]) (\<lambda>_. hold M Making 0) B"
  "triple (hold M Making 0) (did [MadeDir stagingDirectory]) (\<lambda>_. hold M Making 1) B"
  "triple (hold M Making 1) (did [MadeDir bundlesDirectory]) (\<lambda>_. hold M Making 2) B"
  "triple (hold M Making 2) (did [MadeFile lockFileName]) (\<lambda>_. hold M Making 3) B"
  "triple (hold M Making 3) (did [MadeFile initializingMarker, HOpen h]) (\<lambda>_. hold (add_mset h M) Making 3) B"
  "triple (hold M Making 3) (did [WroteMarker initializingMarker namespaceMarker]) (\<lambda>_. hold M Making 4) B"
  "triple (hold M Making 4) (did [RenamedTo initializingMarker ownerMarkerName]) (\<lambda>_. hold M Making 5) B"
  "triple (hold M Making 5) (did [NamespaceReady]) (\<lambda>_. hold M Idle 0) B"
  by (auto simp: triple_def did_def hold_def advance_def permit_def stagingDirectory_def bundlesDirectory_def
      lockFileName_def initializingMarker_def)

text \<open>With the lock held.\<close>

lemma triple_did_holding [act_rules]:
  "below stagingDirectory p \<Longrightarrow> triple (hold M Holding t) (did [MadeDir p]) (\<lambda>_. hold M Holding t) B"
  "below stagingDirectory p \<Longrightarrow> triple (hold M Holding t) (did [MadeFile p, HOpen h]) (\<lambda>_. hold (add_mset h M) Holding t) B"
  "below stagingDirectory p \<Longrightarrow> triple (hold M Holding t) (did [WroteMarker p stageMarker]) (\<lambda>_. hold M Holding t) B"
  "below stagingDirectory p \<Longrightarrow> triple (hold M Holding t) (did [RemovedAll p]) (\<lambda>_. hold M Holding t) B"
  "below stagingDirectory p \<Longrightarrow> below bundlesDirectory q \<Longrightarrow>
     triple (hold M Holding 2) (did [RenamedTo p q]) (\<lambda>_. hold M Holding 0) B"
  "triple (hold M Holding t) (did [CopiedBundle]) (\<lambda>_. hold M Holding 1) B"
  "triple (hold M Holding 1) (did [VerifiedStage]) (\<lambda>_. hold M Holding 2) B"
  by (auto simp: triple_def did_def hold_def advance_def permit_def)

lemma triple_closing [act_rules]:
  assumes "triple P a Q (hold (add_mset h M) l 0)" and "fst a \<noteq> Panic"
  shows "triple P (closing_on_failure h a) Q (hold M l 0)"
  using assms
  by (fastforce simp: triple_def closing_on_failure_def hold_def mat_run_append split: prod.splits res.splits)

lemma triple_join_act:
  assumes "triple P a (\<lambda>_. hold M l 0) (hold M l 0)" and "moves es M l M' l'"
  shows "triple P (join_act extra es a) (\<lambda>_. hold M' l' 0) (hold M' l' 0)"
  unfolding triple_def
proof (intro allI impI)
  fix s assume P: "P s"
  obtain v es0 where a: "a = (v, es0)" by (cases a)
  obtain s1 where "mat_run es0 s = Some s1" "hold M l 0 s1"
    using assms(1) P by (cases v) (auto simp: triple_def a)
  moreover from this obtain s2 where "mat_run es s1 = Some s2" "hold M' l' 0 s2"
    using assms(2) by (auto simp: moves_def)
  ultimately show "\<exists>s'. mat_run (snd (join_act extra es a)) s = Some s' \<and>
      (case fst (join_act extra es a) of Ok x \<Rightarrow> hold M' l' 0 s' | Err e \<Rightarrow> hold M' l' 0 s' | Panic \<Rightarrow> hold M' l' 0 s')"
    by (auto simp: join_act_def a mat_run_append split: option.split res.split)
qed

subsection \<open>The operations of the namespace\<close>

lemma not_panic [simp]:
  "fst (check c) \<noteq> Panic" "fst (call_or op c) \<noteq> Panic" "fst (hook_step h op) \<noteq> Panic" "fst (did es) \<noteq> Panic"
  "fst (inspect op i) \<noteq> Panic" "fst (give x) \<noteq> Panic" "fst (refuse e) \<noteq> Panic"
  by (simp_all add: check_def call_or_def hook_step_def did_def inspect_def give_def refuse_def split: option.split sum.split)

lemma then_not_panic [simp]: "fst a \<noteq> Panic \<Longrightarrow> fst b \<noteq> Panic \<Longrightarrow> fst (act_then a b) \<noteq> Panic"
  by (auto simp: act_then_def act_bind_def split: prod.splits res.splits)

lemma closing_not_panic: "fst a \<noteq> Panic \<Longrightarrow> fst (closing_on_failure h a) \<noteq> Panic"
  by (auto simp: closing_on_failure_def split: prod.splits res.splits)

lemma triple_openWorkDirectory [act_rules]:
  "triple (hold M l 0) (openWorkDirectory r) (\<lambda>_. hold (add_mset WorkRoot M) l 0) (hold M l 0)"
  unfolding openWorkDirectory_def
  by (cases "wk_abs r") (simp_all, (rule act_rules triple_give | assumption | simp)+)

lemma triple_writeMarker [act_rules]:
  "triple (hold M Making 3) (writeMarker r initializingMarker namespaceMarker) (\<lambda>_. hold M Making 4) (hold M Making 0)"
  "below stagingDirectory p \<Longrightarrow>
     triple (hold M Holding t) (writeMarker r p stageMarker) (\<lambda>_. hold M Holding t) (hold M Holding 0)"
  unfolding writeMarker_def by (rule act_rules | assumption | simp)+

text \<open>A marker that is verified, and a namespace that is validated, are left as they are.\<close>

lemma marker_run [simp]: "mat_run (verifyMarker_did r c) s = Some s"
  by (simp add: verifyMarker_did_def)

lemma validate_run [simp]: "mat_run (validateNamespace_did r) s = Some s"
  by (simp add: validateNamespace_did_def split: sum.split)

lemma triple_validate [act_rules]:
  "triple (hold M l t) (validateNamespace r, validateNamespace_did r) (\<lambda>_. hold M l t) (hold M l 0)"
  by (simp add: triple_def hold_def split: res.split)

lemma triple_entry [act_rules]:
  "triple (hold M l t) (did (HOpen h # verifyMarker_did r c @ [HClose h])) (\<lambda>_. hold M l t) B"
  by (auto simp: triple_def did_def hold_def mat_run_append)

lemma triple_syncDirectory [act_rules]:
  "triple (hold M l t) (syncDirectory r p) (\<lambda>_. hold M l t) (hold M l 0)"
  unfolding syncDirectory_def by (rule act_rules | simp)+

lemma triple_sync_directories [act_rules]:
  "triple (hold M l t) (sync_directories f p ds) (\<lambda>_. hold M l t) (hold M l 0)"
proof (induction ds)
  case Nil
  show ?case by (simp add: triple_give)
next
  case (Cons d ds)
  show ?case unfolding sync_directories.simps Let_def by (rule act_rules Cons.IH)+
qed

lemma triple_syncTree [act_rules]:
  "triple (hold M l t) (syncTree ctx r p) (\<lambda>_. hold M l t) (hold M l 0)"
  unfolding syncTree_def by (rule act_rules | simp split: sum.split | intro conjI allI impI)+

lemma validateNamespace_no_panic [simp]: "validateNamespace r \<noteq> Panic"
  by (simp add: validateNamespace_def split: option.split sum.split)

lemma triple_pure [act_rules]: "triple (hold M l t) (c, []) (\<lambda>_. hold M l t) (hold M l 0)"
  by (simp add: triple_def hold_def split: res.split)

lemma triple_fill_namespace:
  "triple (hold M Making 0) (fill_namespace h r) (\<lambda>_. hold M Idle 0) (hold M Making 0)"
  unfolding fill_namespace_def writeNamespaceMarker_def by (rule act_rules | simp)+

lemma fill_not_panic: "fst (fill_namespace h r) \<noteq> Panic"
  by (simp add: fill_namespace_def writeNamespaceMarker_def writeMarker_def syncDirectory_def closing_not_panic)

lemma moves_nil [simp]: "moves [] M l M l"
  by (simp add: moves_def)

lemma moves_close [simp]: "moves [HClose h] (add_mset h M) l M l"
  by (simp add: moves_def hold_def)

lemma moves_removed [simp]:
  "moves [RemovedAll namespaceName] M Making M Idle"
  "below stagingDirectory p \<Longrightarrow> moves [RemovedAll p] M Holding M Holding"
  by (simp_all add: moves_def hold_def permit_def)

lemma moves_unlock [simp]: "moves [Unlocked, HClose LockFile] (add_mset LockFile M) Holding M Idle"
  by (simp add: moves_def hold_def)

lemma triple_Ok: "triple P (Ok x, es) Q B \<Longrightarrow> triple P (Ok x, es) Q B'"
  by (simp add: triple_def)

lemma triple_Err: "triple P (Err e, es) Q B \<Longrightarrow> triple P (Err e, es) Q' B"
  by (simp add: triple_def)

text \<open>A namespace that could not be filled is removed again; one that was is left in place.\<close>

lemma triple_initializeNamespace [act_rules]:
  "triple (hold M Idle 0) (initializeNamespace h r) (\<lambda>_. hold M Idle 0) (hold M Idle 0)"
proof -
  let ?N = "add_mset NewNamespace M"
  let ?shut = "\<lambda>a. join_act (map_option (\<lambda>e. mat_error ''close new materialization namespace'' (Some e)) (in_shut r)) [HClose NewNamespace] a"
  let ?remove = "\<lambda>a. join_act (map_option (\<lambda>e. mat_error ''remove incomplete namespace'' (Some e)) (in_removeAll r)) [RemovedAll namespaceName] a"
  obtain v es where f: "fill_namespace h r = (v, es)" by fastforce
  have opened: "act_then (did [HOpen NewNamespace]) (fill_namespace h r) = (v, HOpen NewNamespace # es)"
    by (simp add: f act_then_def act_bind_def did_def)
  have fill: "triple (hold M Making 0) (v, HOpen NewNamespace # es) (\<lambda>_. hold ?N Idle 0) (hold ?N Making 0)"
    unfolding opened [symmetric] by (rule triple_then, rule act_rules, rule triple_fill_namespace)
  have rest: "triple (hold M Making 0)
      (let opened = (case in_open r of
             Some e \<Rightarrow> (refuse (mat_error ''open new materialization namespace'' (Some e)), False)
           | None \<Rightarrow> (fill_namespace h r, True));
           owned = (case fst (fst opened) of Ok _ \<Rightarrow> False | _ \<Rightarrow> True);
           shut = (if snd opened then ?shut (act_then (did [HOpen NewNamespace]) (fst opened)) else fst opened)
       in if owned \<and> fst shut \<noteq> Panic then ?remove shut else shut) (\<lambda>_. hold M Idle 0) (hold M Idle 0)"
  proof (cases "in_open r")
    case (Some e)
    have "triple (hold M Making 0) (?remove (refuse (mat_error ''open new materialization namespace'' (Some e))))
        (\<lambda>_. hold M Idle 0) (hold M Idle 0)"
      by (rule triple_join_act [OF triple_refuse]) simp
    with Some show ?thesis by (simp add: refuse_def)
  next
    case None
    show ?thesis
    proof (cases v)
      case (Ok u)
      have "triple (hold M Making 0) (?shut (v, HOpen NewNamespace # es)) (\<lambda>_. hold M Idle 0) (hold M Idle 0)"
        by (rule triple_join_act [where M = ?N and l = Idle]) (use fill Ok in \<open>auto intro: triple_Ok\<close>)
      with None Ok show ?thesis by (simp add: opened) (simp add: f)
    next
      case (Err e)
      have "triple (hold M Making 0) (?shut (v, HOpen NewNamespace # es)) (\<lambda>_. hold M Making 0) (hold M Making 0)"
        by (rule triple_join_act [where M = ?N and l = Making]) (use fill Err in \<open>auto intro: triple_Err\<close>)
      then have "triple (hold M Making 0) (?remove (?shut (v, HOpen NewNamespace # es))) (\<lambda>_. hold M Idle 0) (hold M Idle 0)"
        by (rule triple_join_act) simp
      moreover have "fst (?shut (v, HOpen NewNamespace # es)) \<noteq> Panic"
        using Err by (simp add: join_act_def split: option.split)
      ultimately show ?thesis using None Err by (simp add: opened) (simp add: f)
    next
      case Panic
      with fill_not_panic [of h r] f show ?thesis by simp
    qed
  qed
  show ?thesis
    unfolding initializeNamespace_def by (rule triple_then, rule act_rules)+ (rule rest)
qed

definition found_namespace :: "mat_handle multiset \<Rightarrow> unit option \<Rightarrow> mat_handle multiset" where
  "found_namespace M found = (case found of None \<Rightarrow> M | Some _ \<Rightarrow> add_mset NamespaceRoot M)"

lemma triple_namespace_attempt:
  "triple (hold M Idle 0) (namespace_attempt h r) (\<lambda>found. hold (found_namespace M found) Idle 0) (hold M Idle 0)"
proof (cases "na_lstat r")
  case (Inl e)
  have init: "triple (hold M Idle 0) (case initializeNamespace h (na_init r) of
        (Err x, es) \<Rightarrow> if errors_is x FsErrExist then (Ok None, es) else (Err x, es)
      | (Ok _, es) \<Rightarrow> (Ok None, es)
      | (Panic, es) \<Rightarrow> (Panic, es)) (\<lambda>found. hold (found_namespace M found) Idle 0) (hold M Idle 0)"
  proof -
    obtain v es where i: "initializeNamespace h (na_init r) = (v, es)" by fastforce
    show ?thesis
      using triple_initializeNamespace [of M h "na_init r"]
      by (cases v) (simp_all add: i triple_def found_namespace_def)
  qed
  show ?thesis by (simp add: namespace_attempt_def Inl init triple_refuse)
next
  case (Inr dir)
  have retry: "triple (hold (add_mset NamespaceRoot M) Idle 0)
      (if valid then give (Some ())
       else act_then (did [HClose NamespaceRoot]) (case na_done r of
              Some e \<Rightarrow> refuse (sourceError ''initialize materialization namespace'' '''' e (Some e)) | None \<Rightarrow> give None))
      (\<lambda>found. hold (found_namespace M found) Idle 0) (hold M Idle 0)" for valid
    by (cases valid; cases "na_done r") (auto simp: found_namespace_def intro!: triple_give act_rules)
  show ?thesis
    unfolding namespace_attempt_def Inr
    by (simp add: triple_refuse) (intro impI, (rule act_rules retry | simp)+)
qed

lemma triple_ensure_loop:
  "triple (hold M Idle 0) (ensure_loop ctx h attempts k n) (\<lambda>_. hold (add_mset NamespaceRoot M) Idle 0) (hold M Idle 0)"
proof (induction k arbitrary: n)
  case 0
  show ?case by (simp add: triple_refuse)
next
  case (Suc k)
  have "triple (hold (found_namespace M found) Idle 0)
      (case found of Some _ \<Rightarrow> give () | None \<Rightarrow> ensure_loop ctx h attempts k (Suc n))
      (\<lambda>_. hold (add_mset NamespaceRoot M) Idle 0) (hold M Idle 0)" for found
    using Suc.IH by (cases found) (simp_all add: found_namespace_def triple_give)
  from triple_bind [OF triple_namespace_attempt this] show ?case
    unfolding ensure_loop.simps by (cases "ctx n") (simp_all only: option.case triple_refuse)
qed

lemma triple_ensureNamespace [act_rules]:
  "triple (hold M Idle 0) (ensureNamespace ctx h attempts) (\<lambda>_. hold (add_mset NamespaceRoot M) Idle 0) (hold M Idle 0)"
  unfolding ensureNamespace_def by (rule triple_ensure_loop)

lemma triple_openLockFile [act_rules]:
  "triple (hold M l 0) (openLockFile r) (\<lambda>_. hold (add_mset LockFile M) l 0) (hold M l 0)"
  unfolding openLockFile_def by (rule act_rules | simp)+

lemma triple_acquireAdvisoryLock:
  "acquireAdvisoryLock rs = Some a \<Longrightarrow>
   triple (hold (add_mset LockFile M) Idle 0) a (\<lambda>_. hold (add_mset LockFile M) Holding 0) (hold (add_mset LockFile M) Idle 0) \<and>
   fst a \<noteq> Panic"
  by (induction rs) (auto split: option.splits flock_reply.splits intro: act_rules)

lemma triple_renameNoReplace [act_rules]:
  assumes "below stagingDirectory p" and "below bundlesDirectory q"
  shows "triple (hold M Holding 2) (renameNoReplace r p q) (\<lambda>_. hold M Holding 0) (hold M Holding 0)"
proof -
  have rename: "triple (hold (add_mset PublicationDir M) Holding 2)
      (case pb_rename r of
         RenameDone \<Rightarrow> act_then (did [RenamedTo p q]) (give True)
       | RenameExists \<Rightarrow> give False
       | RenameFailed e \<Rightarrow> refuse (mat_error ''publish materialized bundle'' (Some e)))
      (\<lambda>_. hold (add_mset PublicationDir M) Holding 0) (hold (add_mset PublicationDir M) Holding 0)"
    using assms by (cases "pb_rename r") (auto intro!: act_rules triple_give simp: hold_def)
  show ?thesis
    unfolding renameNoReplace_def
    by (rule act_rules)+ (rule triple_join_act [OF rename], simp)
qed

lemma stage_path_below [simp]: "below stagingDirectory (stage_path e)"
  by (simp add: stage_path_def)

lemma triple_recover_loop: "triple (hold M Holding 0) (recover_loop h es) (\<lambda>_. hold M Holding 0) (hold M Holding 0)"
proof (induction es)
  case Nil
  show ?case by (simp add: triple_give)
next
  case (Cons e es)
  have remove: "triple (hold M Holding 0)
     (act_then (hook_step h ''recover owned stage'') (act_then (call_or ''remove abandoned stage'' (se_removeAll e))
        (act_then (did [RemovedAll (stage_path e)]) (recover_loop h es)))) (\<lambda>_. hold M Holding 0) (hold M Holding 0)"
    by (rule act_rules Cons.IH stage_path_below)+
  show ?case
    by (cases "se_ctx e") (auto simp: Cons.IH remove triple_refuse intro: triple_then [OF triple_entry])
qed

lemma triple_recoverStages [act_rules]: "triple (hold M Holding 0) (recoverStages h r) (\<lambda>_. hold M Holding 0) (hold M Holding 0)"
  unfolding recoverStages_def by (cases r) (auto intro: triple_recover_loop triple_refuse)

subsection \<open>The publication\<close>

lemma moves_close_below [simp]: "moves [HClose h] (add_mset k (add_mset h M)) l (add_mset k M) l"
  by (simp add: moves_def hold_def)

lemma moves_unlock_below [simp]:
  "moves [Unlocked, HClose LockFile] (add_mset k (add_mset LockFile M)) Holding (add_mset k M) Idle"
  by (simp add: moves_def hold_def)

text \<open>
  What a failure leaves: nothing more than before, or the root of the stage, if \<open>Stage\<close> could not
  inspect what it had opened.
\<close>

abbreviation stage_root :: mat_handle where "stage_root \<equiv> StagePart StageRoot"

definition left_open :: "mat_replies \<Rightarrow> mat_handle multiset \<Rightarrow> mat_phase \<Rightarrow> mat_state \<Rightarrow> bool" where
  "left_open r M l s \<longleftrightarrow> hold M l 0 s \<or> sg_stageStat (ma_stage r) \<noteq> Inr True \<and> hold (add_mset stage_root M) l 0 s"

lemma triple_bad: "triple P a Q B \<Longrightarrow> (\<And>s. B s \<Longrightarrow> B' s) \<Longrightarrow> triple P a Q B'"
  by (fastforce simp: triple_def split: res.splits)

lemma triple_left: "triple P a Q (hold M l 0) \<Longrightarrow> triple P a Q (left_open r M l)"
  by (erule triple_bad) (simp add: left_open_def)

lemma moves_left:
  assumes "moves es M l M' l'" and "moves es (add_mset stage_root M) l (add_mset stage_root M') l'" and "left_open r M l s"
  shows "\<exists>s'. mat_run es s = Some s' \<and> left_open r M' l' s'"
  using assms by (auto simp: left_open_def moves_def)

lemma triple_join:
  assumes a: "triple P a (\<lambda>b s. G b \<and> hold (add_mset ReadyBundle M) l 0 s) (left_open r M l)"
    and m: "moves es M l M' l'" "moves es (add_mset ReadyBundle M) l (add_mset ReadyBundle M') l'"
      "moves es (add_mset stage_root M) l (add_mset stage_root M') l'"
  shows "triple P (joinMaterializeReturn r extra es a) (\<lambda>b s. G b \<and> hold (add_mset ReadyBundle M') l' 0 s) (left_open r M' l')"
  unfolding triple_def
proof (intro allI impI)
  fix s assume P: "P s"
  obtain v es0 where v: "a = (v, es0)" by (cases a)
  let ?J = "joinMaterializeReturn r extra es a"
  show "\<exists>s'. mat_run (snd ?J) s = Some s' \<and> (case fst ?J of
      Ok b \<Rightarrow> G b \<and> hold (add_mset ReadyBundle M') l' 0 s' | Err e \<Rightarrow> left_open r M' l' s' | Panic \<Rightarrow> left_open r M' l' s')"
  proof (cases v)
    case (Ok b)
    then obtain s1 where s1: "mat_run es0 s = Some s1" "G b" "hold (add_mset ReadyBundle M) l 0 s1"
      using a P by (auto simp: triple_def v)
    with m(2) obtain s2 where s2: "mat_run es s1 = Some s2" "hold (add_mset ReadyBundle M') l' 0 s2"
      by (auto simp: moves_def)
    with s1 show ?thesis
      by (auto simp: joinMaterializeReturn_def v Ok mat_run_append hold_def left_open_def split: option.split)
  next
    case (Err e)
    then obtain s1 where "mat_run es0 s = Some s1" "left_open r M l s1"
      using a P by (auto simp: triple_def v)
    moreover from this obtain s2 where "mat_run es s1 = Some s2" "left_open r M' l' s2" using moves_left [OF m(1,3)] by blast
    ultimately show ?thesis by (auto simp: joinMaterializeReturn_def v Err mat_run_append split: option.split)
  next
    case Panic
    then obtain s1 where "mat_run es0 s = Some s1" "left_open r M l s1"
      using a P by (auto simp: triple_def v)
    moreover from this obtain s2 where "mat_run es s1 = Some s2" "left_open r M' l' s2" using moves_left [OF m(1,3)] by blast
    ultimately show ?thesis by (auto simp: joinMaterializeReturn_def v Panic mat_run_append split: option.split)
  qed
qed

text \<open>A bundle that was opened where the publication is, and has the identity asked for.\<close>

definition published :: "mat_replies \<Rightarrow> Manifest \<Rightarrow> string \<Rightarrow> source_bundle \<Rightarrow> bool" where
  "published r m final b \<longleftrightarrow> ma_ready r final = Ok b \<and> mf_id (sb_manifest b) = mf_id m"

abbreviation publishes :: "mat_replies \<Rightarrow> Manifest \<Rightarrow> string \<Rightarrow> mat_handle multiset \<Rightarrow> mat_phase \<Rightarrow> source_bundle \<Rightarrow> mat_state \<Rightarrow> bool" where
  "publishes r m final M l b s \<equiv> published r m final b \<and> hold (add_mset ReadyBundle M) l 0 s"

lemma triple_open_ready [act_rules]:
  "triple (hold M l t) (open_ready r m final op) (publishes r m final M l) (hold M l 0)"
  by (simp add: open_ready_def published_def triple_def refuse_def hold_def split: res.split)

lemma triple_verify_stage [act_rules]:
  "triple (hold M Holding 1) (verify_stage r m path) (\<lambda>_. hold M Holding 2) (hold M Holding 0)"
proof -
  have "triple (hold M Holding 1)
      (act_then (did [HOpen StagedBundle, HClose StagedBundle]) (act_then (check (ma_stagedClose r)) (did [VerifiedStage])))
      (\<lambda>_. hold M Holding 2) (hold M Holding 0)"
    by (rule act_rules)+
  moreover have "triple (hold M Holding 1) (Err e, [HOpen StagedBundle, HClose StagedBundle]) Q (hold M Holding 0)"
    "triple (hold M Holding 1) (Panic, []) Q (hold M Holding 0)" for e and Q :: "unit \<Rightarrow> mat_state \<Rightarrow> bool"
    by (simp_all add: triple_def hold_def)
  ultimately show ?thesis
    unfolding verify_stage_def by (auto split: res.split intro: triple_refuse)
qed

text \<open>The handles of \<open>Stage\<close> on the monitor, by the stack of \<open>Laya_Stage\<close>.\<close>

lemma staged_run:
  assumes "below stagingDirectory path"
  shows "handles st events = Some st' \<Longrightarrow> hold (M + mset (map StagePart st)) Holding t s \<Longrightarrow>
    \<exists>s'. mat_run (map (staged_event path) events) s = Some s' \<and> hold (M + mset (map StagePart st')) Holding t s'"
proof (induction st events arbitrary: s rule: handles.induct)
  case (2 st h es)
  then show ?case by (simp add: hold_def)
next
  case (3 st h es)
  then obtain st1 where "st = h # st1" "handles st1 es = Some st'" by (auto split: list.splits if_splits)
  with 3 show ?case by (simp add: hold_def)
qed (use assms in \<open>simp_all add: hold_def permit_def\<close>)

lemma staged_matched:
  assumes "below stagingDirectory path" and "matched events"
  shows "triple (hold M Holding t) (did (map (staged_event path) events)) (\<lambda>_. hold M Holding t) B"
proof -
  have "handles [] events = Some []" using assms(2) by (simp add: matched_def)
  from staged_run [OF assms(1) this, where M = M and t = t] show ?thesis by (simp add: triple_def did_def)
qed

lemma staged_leak:
  assumes "below stagingDirectory path"
  shows "triple (hold M Holding t) (did (map (staged_event path) stage_leak)) (\<lambda>_. hold (add_mset stage_root M) Holding t) B"
  using assms by (simp add: triple_def did_def stage_leak_def hold_def permit_def)

lemma stage_leak_not_matched [simp]: "\<not> matched stage_leak"
  by (auto simp: matched_def stage_leak_def)

lemma triple_copy_stage:
  assumes below: "below stagingDirectory path"
  shows "triple (hold M Holding 0) (copy_stage r m dir path bundlePath) (\<lambda>_. hold M Holding 1) (left_open r M Holding)"
proof -
  obtain res events where o: "Stage (ma_sha256 r) (Some (ma_stageCtx r)) (Some (ma_stageVerify r)) (ma_verifyStaged r) dir bundlePath
      (ma_stage r) = (res, events)" by fastforce
  let ?rest = "case res of
     Panic \<Rightarrow> (Panic, [])
   | Err e \<Rightarrow> refuse e
   | Ok staged \<Rightarrow>
       act_then (did [CopiedBundle])
         (check (fails_if (mf_id staged \<noteq> mf_id m)
           (sourceError ''verify staged identity'' ''manifest.json'' (Sentinel ErrIntegrity) None)))"
  have eq: "copy_stage r m dir path bundlePath = act_then (did (map (staged_event path) events)) ?rest"
    by (simp add: copy_stage_def o)
  note staged = Stage_result [where ?sha256.0 = "ma_sha256 r" and verifyStaged = "ma_verifyStaged r" and r = "ma_stage r"
      and fileSystem = "Some (ma_stageVerify r)" and ?root0.0 = dir and ctx = "Some (ma_stageCtx r)" and destination = bundlePath, unfolded o]
  have stop: "triple (hold N Holding 0) ?rest (\<lambda>_. hold M Holding 1) (hold N Holding 0)" if "\<And>x. res \<noteq> Ok x" for N
  proof (cases res)
    case Panic
    then show ?thesis by (simp add: triple_def)
  qed (use that in \<open>simp_all add: triple_refuse\<close>)
  show ?thesis
  proof (cases "matched events")
    case True
    have rest: "triple (hold M Holding 0) ?rest (\<lambda>_. hold M Holding 1) (hold M Holding 0)"
    proof (cases res)
      case (Ok x)
      have "triple (hold M Holding 0) (act_then (did [CopiedBundle]) (check c)) (\<lambda>_. hold M Holding 1) (hold M Holding 0)" for c
        by (rule act_rules)+
      with Ok show ?thesis by simp
    qed (use stop in simp_all)
    show ?thesis unfolding eq
      by (rule triple_then [OF staged_matched [OF below True]], rule triple_left, rule rest)
  next
    case False
    then have leak: "events = stage_leak" "sg_stageStat (ma_stage r) \<noteq> Inr True" and res: "\<And>x. res \<noteq> Ok x"
      using staged by (auto simp: stage_result_def handles_ok_def complete_copy_def split: if_splits)
    show ?thesis unfolding eq leak(1)
      by (rule triple_then [OF staged_leak [OF below]], rule triple_bad [OF stop [OF res]]) (use leak(2) in \<open>simp add: left_open_def\<close>)
  qed
qed

lemma triple_publish_stage:
  assumes "below stagingDirectory stagePath" and "below bundlesDirectory finalPath"
  shows "triple (hold M Holding 0) (publish_stage h r m dir stagePath bundlePath finalPath) (\<lambda>_. hold M Holding 0) (left_open r M Holding)"
proof -
  note marker = triple_writeMarker(2) [OF below_append [OF assms(1)]]
  note copy = triple_copy_stage [OF below_append [OF assms(1)]]
  note rename = triple_renameNoReplace [OF below_append [OF assms(1)] assms(2)]
  show ?thesis
    unfolding publish_stage_def by (rule triple_then copy triple_left triple_hook marker rename triple_syncTree triple_verify_stage)+
qed

lemma triple_did_all: "triple P (r, es) Q B \<Longrightarrow> r = Ok x \<Longrightarrow> triple P (did es) (\<lambda>_. Q x) B'"
  by (simp add: triple_def did_def)

lemma triple_finish_publication:
  assumes "below stagingDirectory stagePath"
  shows "triple (hold M Holding 0) (fst (finish_publication h r m stagePath final)) (publishes r m final M Holding) (hold M Holding 0)"
proof -
  let ?before = "act_then (hook_step h ''sync publication'')
       (act_then (syncDirectory (ma_bundlesDir r) bundlesDirectory)
       (act_then (hook_step h ''remove published stage'')
       (act_then (call_or ''remove published stage'' (ma_removeStage r)) (did [RemovedAll stagePath]))))"
  have before: "triple (hold M Holding 0) ?before (\<lambda>_. hold M Holding 0) (hold M Holding 0)"
    by (rule act_rules assms)+
  obtain v es where b: "?before = (v, es)" by fastforce
  show ?thesis
  proof (cases v)
    case (Ok u)
    have "triple (hold M Holding 0) (act_then (did es)
        (act_then (syncDirectory (ma_stagingDir r) stagingDirectory)
        (act_then (hook_step h ''open publication'') (open_ready r m final ''verify publication identity''))))
      (publishes r m final M Holding) (hold M Holding 0)"
      by (rule triple_then, rule triple_did_all [OF before [unfolded b] Ok], (rule act_rules)+)
    then show ?thesis by (simp add: finish_publication_def b Ok Let_def)
  qed (use before b in \<open>simp_all add: finish_publication_def Let_def triple_def\<close>)
qed

lemma triple_stage_owned:
  assumes "below stagingDirectory stagePath" and "below bundlesDirectory finalPath"
  shows "triple (hold M Holding 0) (fst (stage_owned h r m dir stagePath bundlePath finalPath final))
    (publishes r m final M Holding) (left_open r M Holding)"
proof -
  obtain v es where p: "publish_stage h r m dir stagePath bundlePath finalPath = (v, es)" by fastforce
  note published = triple_publish_stage [OF assms, of M h r m dir bundlePath, unfolded p]
  show ?thesis
  proof (cases v)
    case (Ok renamed)
    let ?rest = "if renamed then finish_publication h r m stagePath final else (open_ready r m final ''verify publication winner'', True)"
    have "triple (hold M Holding 0) (fst ?rest) (publishes r m final M Holding) (hold M Holding 0)"
      by (simp add: triple_finish_publication [OF assms(1)] triple_open_ready)
    then have "triple (hold M Holding 0) (act_then (did es) (fst ?rest)) (publishes r m final M Holding) (left_open r M Holding)"
      by (intro triple_then [OF triple_did_all [OF published Ok]] triple_left)
    then show ?thesis
      by (cases renamed) (auto simp: stage_owned_def p Ok act_then_def act_bind_def did_def split: prod.splits)
  qed (use published in \<open>simp_all add: stage_owned_def p triple_def\<close>)
qed

lemma triple_cleanup_stage:
  assumes "triple P (fst a) (publishes r m final M Holding) (left_open r M Holding)" and "below stagingDirectory stagePath"
  shows "triple P (cleanup_stage h r stagePath a) (publishes r m final M Holding) (left_open r M Holding)"
  unfolding cleanup_stage_def
  by (auto simp: assms split: res.split intro: triple_join [OF assms(1)])

lemma triple_newStageName [act_rules]:
  "triple (hold M l t) (newStageName random digest) (\<lambda>_. hold M l t) (hold M l 0)"
  unfolding newStageName_def by (cases random) (auto intro: triple_refuse triple_give)

lemma triple_rootEntryExists [act_rules]:
  "triple (hold M l t) (rootEntryExists c) (\<lambda>_. hold M l t) (hold M l 0)"
  unfolding rootEntryExists_def by (cases c) (auto intro: triple_refuse triple_give)

lemma triple_materialize_locked:
  "triple (hold M Holding 0) (materialize_locked h r m dir workPath digest)
     (publishes r m (native_final workPath digest) M Holding) (left_open r M Holding)"
proof -
  let ?final = "native_final workPath digest"
  have existing: "triple (hold M Holding 0) (act_then (hook_step h ''verify ready'') (open_ready r m ?final ''verify ready identity''))
      (publishes r m ?final M Holding) (left_open r M Holding)"
    by (rule triple_left) (rule act_rules)+
  have fresh: "triple (hold M Holding 0) (act_then (hook_step h ''create stage'')
        (act_then (call_or ''create materialization stage'' (ma_mkdir r))
        (act_then (did [MadeDir (stagingDirectory @ slash # name)]) (cleanup_stage h r (stagingDirectory @ slash # name)
          (stage_owned h r m dir (stagingDirectory @ slash # name) bundlePath (bundlesDirectory @ slash # published) ?final)))))
      (publishes r m ?final M Holding) (left_open r M Holding)" for name bundlePath published
    by (rule triple_then triple_left [OF triple_hook] triple_left [OF triple_call_or] triple_did_holding(1)
        triple_cleanup_stage triple_stage_owned below_Cons)+
  show ?thesis
    unfolding materialize_locked_def Let_def
  proof (rule triple_then, rule triple_left, rule act_rules, rule triple_then, rule triple_left, rule act_rules,
      rule triple_bind, rule triple_left, rule act_rules)
    fix found
    show "triple (hold M Holding 0)
      (if found then act_then (hook_step h ''verify ready'') (open_ready r m ?final ''verify ready identity'')
       else act_bind (newStageName (ma_random r) digest) (\<lambda>stageName.
         act_then (hook_step h ''create stage'')
        (act_then (call_or ''create materialization stage'' (ma_mkdir r))
        (act_then (did [MadeDir (stagingDirectory @ slash # stageName)])
          (cleanup_stage h r (stagingDirectory @ slash # stageName) (stage_owned h r m dir (stagingDirectory @ slash # stageName)
             (native_stage workPath stageName) (bundlesDirectory @ slash # ''sha256-'' @ digest) ?final))))))
      (publishes r m ?final M Holding) (left_open r M Holding)"
      using existing by (cases found) (simp_all add: triple_bind [OF triple_left [OF triple_newStageName] fresh])
  qed
qed

lemma triple_materialize_namespace:
  assumes "materialize_namespace h r m dir workPath digest = Some a"
  shows "triple (hold M Idle 0) a (publishes r m (native_final workPath digest) M Idle) (left_open r M Idle)"
proof -
  let ?open = "act_then (hook_step h ''open lock'')
             (act_then (openLockFile (ma_lockFile r)) (closing_on_failure LockFile (hook_step h ''wait lock'')))"
  let ?M = "add_mset LockFile M"
  have opened: "triple (hold M Idle 0) ?open (\<lambda>_. hold ?M Idle 0) (hold M Idle 0)"
    by (rule act_rules | simp)+
  obtain v es where o: "?open = (v, es)" by fastforce
  show ?thesis
  proof (cases v)
    case (Ok u)
    obtain l where l: "acquireAdvisoryLock (ma_lock r) = Some l"
      using assms by (auto simp: materialize_namespace_def o Ok split: option.splits)
    obtain err where c: "lock_Close (ma_unlock r) (ma_lockShut r) = (err, [Unlocked, HClose LockFile])"
      by (auto simp: lock_Close_def)
    have a: "a = act_then (did es) (act_then (closing_on_failure LockFile l)
        (joinMaterializeReturn r err [Unlocked, HClose LockFile] (materialize_locked h r m dir workPath digest)))"
      using assms by (simp add: materialize_namespace_def o Ok l c)
    have lock: "triple (hold ?M Idle 0) (closing_on_failure LockFile l) (\<lambda>_. hold ?M Holding 0) (left_open r M Idle)"
      using triple_acquireAdvisoryLock [OF l] by (blast intro: triple_left triple_closing)
    have locked: "triple (hold ?M Holding 0)
        (joinMaterializeReturn r err [Unlocked, HClose LockFile] (materialize_locked h r m dir workPath digest))
        (publishes r m (native_final workPath digest) M Idle) (left_open r M Idle)"
      by (rule triple_join [OF triple_materialize_locked]) simp_all
    show ?thesis
      unfolding a by (rule triple_then [OF triple_did_all [OF opened [unfolded o] Ok]]) (rule triple_then [OF lock locked])
  next
    case (Err e)
    with opened o assms show ?thesis
      by (auto simp: materialize_namespace_def intro: triple_left triple_Err)
  next
    case Panic
    with opened o assms show ?thesis by (auto simp: materialize_namespace_def triple_def left_open_def)
  qed
qed

lemma triple_materialize_work:
  assumes "materialize_work ctx h r m dir workPath digest = Some a"
  shows "triple (hold M Idle 0) a (publishes r m (native_final workPath digest) M Idle) (left_open r M Idle)"
proof -
  let ?ensure = "act_then (hook_step h ''ensure namespace'') (ensureNamespace ctx h (ma_attempts r))"
  have ensured: "triple (hold M Idle 0) ?ensure (\<lambda>_. hold (add_mset NamespaceRoot M) Idle 0) (hold M Idle 0)"
    by (rule act_rules)+
  obtain v es where e: "?ensure = (v, es)" by fastforce
  show ?thesis
  proof (cases v)
    case (Ok u)
    obtain b where b: "materialize_namespace h r m dir workPath digest = Some b"
      and a: "\<exists>x. a = act_then (did es) (joinMaterializeReturn r x [HClose NamespaceRoot] b)"
      using assms by (auto simp: materialize_work_def e Ok)
    have "triple (hold (add_mset NamespaceRoot M) Idle 0) (joinMaterializeReturn r x [HClose NamespaceRoot] b)
        (publishes r m (native_final workPath digest) M Idle) (left_open r M Idle)" for x
      by (rule triple_join [OF triple_materialize_namespace [OF b]]) simp_all
    with a show ?thesis
      by (auto intro: triple_then [OF triple_did_all [OF ensured [unfolded e] Ok]])
  next
    case (Err x)
    with ensured e assms show ?thesis by (auto simp: materialize_work_def intro: triple_left triple_Err)
  next
    case Panic
    with ensured e assms show ?thesis by (auto simp: materialize_work_def triple_def left_open_def)
  qed
qed

text \<open>
  What a run of \<open>Materialize\<close> may be, if \<open>verify\<close> is the verification of the source below the
  root: its events follow the discipline and the lock is released at the end. A returned bundle is
  the only handle left open, and was opened at the path that the digest of the source
  determines, below the work directory, with the identity of the source. A failure leaves nothing
  open, or the root of the stage alone, if \<open>Stage\<close> could not inspect what it had opened.
\<close>

definition materialized :: "mat_replies \<Rightarrow> Manifest res \<Rightarrow> source_bundle act \<Rightarrow> bool" where
  "materialized r verified a \<longleftrightarrow>
     (\<exists>s. mat_run (snd a) mat_start = Some s \<and> ms_phase s = Idle \<and>
        (case fst a of
           Ok b \<Rightarrow> ms_open s = {#ReadyBundle#} \<and>
             (\<exists>m digest absPath. verified = Ok m \<and> digest = trim_sha256 (mf_id m) \<and> length digest = 64 \<and> validHexName digest \<and>
                wk_abs (ma_work r) = Inr absPath \<and>
                published r m (native_final (filepath_Clean absPath) digest) b)
         | _ \<Rightarrow> ms_open s = {#} \<or> sg_stageStat (ma_stage r) \<noteq> Inr True \<and> ms_open s = {#stage_root#}))"

lemma act_bind_Ok:
  "act_bind a f = (Ok y, es) \<Longrightarrow> \<exists>x es1 es2. a = (Ok x, es1) \<and> f x = (Ok y, es2) \<and> es = es1 @ es2"
  by (auto simp: act_bind_def split: prod.splits res.splits)

lemma act_then_Ok:
  "act_then a b = (Ok y, es) \<Longrightarrow> \<exists>x es1 es2. a = (Ok x, es1) \<and> b = (Ok y, es2) \<and> es = es1 @ es2"
  unfolding act_then_def by (rule act_bind_Ok)

lemma openWorkDirectory_Ok:
  assumes "openWorkDirectory r = (Ok p, es)"
  shows "\<exists>absPath. wk_abs r = Inr absPath \<and> p = filepath_Clean absPath"
proof (cases "wk_abs r")
  case (Inl e)
  with assms show ?thesis by (simp add: openWorkDirectory_def refuse_def)
next
  case (Inr absPath)
  from assms have "\<exists>es'. act_then (inspect ''inspect opened work directory'' (wk_stat r)) (give (filepath_Clean absPath)) = (Ok p, es')"
    by (auto simp: openWorkDirectory_def Inr closing_on_failure_def dest!: act_then_Ok split: prod.splits res.splits)
  with Inr show ?thesis by (auto simp: give_def dest!: act_then_Ok)
qed

lemma triple_start: "triple (hold {#} Idle 0) a (\<lambda>x. Q x) B \<Longrightarrow>
  \<exists>s. mat_run (snd a) mat_start = Some s \<and> (case fst a of Ok x \<Rightarrow> Q x s | Err e \<Rightarrow> B s | Panic \<Rightarrow> B s)"
  by (simp add: triple_def hold_def mat_start_def)

lemma triple_source_work:
  "triple (hold {#} Idle 0) (source_work h r verified) (\<lambda>_. hold {#WorkRoot#} Idle 0) (hold {#} Idle 0)"
proof -
  have "triple (hold {#} Idle 0) (act_bind (openWorkDirectory (ma_work r)) (\<lambda>workPath. give (m, workPath, d)))
      (\<lambda>_. hold {#WorkRoot#} Idle 0) (hold {#} Idle 0)" for m :: Manifest and d :: string
    by (rule act_rules triple_give | assumption)+
  then show ?thesis
    unfolding source_work_def Let_def
    by (intro triple_bind [where Q = "\<lambda>_. hold {#} Idle 0"] triple_then [OF triple_hook triple_pure]) (simp add: triple_refuse)
qed

lemma source_work_Ok:
  assumes "source_work h r verified = (Ok (m, p, digest), es)"
  shows "verified = Ok m" and "digest = trim_sha256 (mf_id m)" and "length digest = 64" and "validHexName digest"
    and "\<exists>absPath. wk_abs (ma_work r) = Inr absPath \<and> p = filepath_Clean absPath"
  using assms
  by (auto simp: source_work_def Let_def give_def refuse_def dest!: act_bind_Ok act_then_Ok openWorkDirectory_Ok split: if_splits)

lemma materialized_refuse: "materialized r verified (refuse e)"
  by (simp add: materialized_def refuse_def mat_start_def)

lemma materialized_work:
  assumes w: "source_work h r verified = (Ok (m, p, digest), es)" and a: "materialize_work ctx h r m dir p digest = Some a"
  shows "materialized r verified (act_then (did es) (joinMaterializeReturn r x [HClose WorkRoot] a))"
proof -
  have "triple (hold {#WorkRoot#} Idle 0) (joinMaterializeReturn r x [HClose WorkRoot] a)
      (publishes r m (native_final p digest) {#} Idle) (left_open r {#} Idle)"
    by (rule triple_join [OF triple_materialize_work [OF a]]) simp_all
  then have "triple (hold {#} Idle 0) (act_then (did es) (joinMaterializeReturn r x [HClose WorkRoot] a))
      (publishes r m (native_final p digest) {#} Idle) (left_open r {#} Idle)"
    by (rule triple_then [OF triple_did_all [OF triple_source_work [of h r verified, unfolded w] refl]])
  from triple_start [OF this] source_work_Ok [OF w] show ?thesis
    unfolding materialized_def by (fastforce simp: hold_def left_open_def split: res.splits)
qed


subsection \<open>A run\<close>

text \<open>The namespace is made, a stage filled and published: every call answers without an error.\<close>

definition quiet_dir :: dir_replies where "quiet_dir = \<lparr>dr_open = None, dr_sync = None, dr_shut = None\<rparr>"

definition quiet_marker :: marker_replies where
  "quiet_marker = \<lparr>mk_create = None, mk_write = None, mk_sync = None, mk_shut = None\<rparr>"

definition quiet_init :: init_replies where
  "quiet_init =
     \<lparr>in_mkdir = None, in_open = None, in_staging = None, in_bundles = None, in_lock = None, in_lockSync = None,
      in_lockShut = None, in_marker = quiet_marker, in_rename = None, in_dir = quiet_dir, in_shut = None, in_removeAll = None\<rparr>"

definition good_namespace :: validate_replies where
  "good_namespace =
     \<lparr>va_marker = None,
      va_entries = Inr (map (\<lambda>(n, d). \<lparr>ne_name = n, ne_symlink = False, ne_dir = d\<rparr>) namespace_entries),
      va_file = \<lparr>mk_lstat = Inr (True, int (length namespaceMarker)), mk_open = Inr [ReadEOF namespaceMarker]\<rparr>\<rparr>"

definition sample_attempt :: "nat \<Rightarrow> ns_attempt" where
  "sample_attempt n =
     \<lparr>na_lstat = (if n = 0 then Inl (Sentinel FsErrNotExist) else Inr True), na_init = quiet_init, na_open = None,
      na_stat = Inr True, na_validate = good_namespace, na_done = None\<rparr>"

definition sample_source :: Manifest where
  "sample_source = supported_manifest\<lparr>mf_id := ''sha256:'' @ replicate 64 CHR ''a'',
     mf_Files := []\<rparr>"

text \<open>The source has no file beside its manifest, which reads as three bytes.\<close>

definition staged_fs :: fsys where
  "staged_fs = sample_fs\<lparr>fs_open := (\<lambda>p. Inr sample_file)\<rparr>"

definition sample_ready :: source_bundle where
  "sample_ready =
     \<lparr>sb_roots = [Some 0], sb_sourceFS = None, sb_rootPath = ''/w'', sb_manifest = sample_source, sb_allowed = [], sb_closed = False\<rparr>"

definition sample_stage :: stage_replies where
  "sample_stage =
     \<lparr>sg_sub = Inr staged_fs, sg_abs = Inr ''/w/.laya-go/staging/s/bundle'', sg_parentLstat = Inr True, sg_openParent = None,
      sg_parentStat = Inr True, sg_mkdir = None, sg_lstat = Inr True, sg_openStage = None, sg_stageStat = Inr True,
      sg_inClose = (\<lambda>p. None), sg_dest = (\<lambda>p. \<lparr>or_mkdirAll = None, or_create = None, or_write = (\<lambda>w data. (int (length data), None)),
        or_sync = None, or_shut = None\<rparr>), sg_staged = staged_fs, sg_stageClose = None, sg_removeAll = None, sg_parentClose = None\<rparr>"

definition sample_mat :: mat_replies where
  "sample_mat =
     \<lparr>ma_goos = ''linux'', ma_goarch = ''amd64'',
      ma_work = \<lparr>wk_abs = Inr ''/w'', wk_lstat = Inr True, wk_open = None, wk_stat = Inr True\<rparr>,
      ma_attempts = sample_attempt, ma_lockFile = \<lparr>lf_lstat = Inr True, lf_open = None, lf_stat = Inr True\<rparr>,
      ma_lock = [\<lparr>lo_ctx = None, lo_flock = LockBusy, lo_done = None\<rparr>, \<lparr>lo_ctx = None, lo_flock = LockTaken, lo_done = None\<rparr>],
      ma_stages = Inr [], ma_exists = Some (Sentinel FsErrNotExist), ma_random = Inr (replicate 16 CHR ''x''), ma_mkdir = None,
      ma_marker = quiet_marker, ma_sha256 = (\<lambda>d. replicate 64 CHR ''a''), ma_stageCtx = (\<lambda>n. None),
      ma_stageVerify = (\<lambda>d. Ok sample_source), ma_verifyStaged = (\<lambda>fs. Ok sample_source), ma_stage = sample_stage, ma_treeCtx = (\<lambda>n. None),
      ma_tree = \<lparr>tr_sub = None, tr_walk = [\<lparr>sy_name = ''.'', sy_err = None, sy_dir = True\<rparr>], tr_dirs = (\<lambda>p. quiet_dir)\<rparr>,
      ma_staged = (\<lambda>p. Ok sample_ready), ma_stagedClose = None,
      ma_publish = \<lparr>pb_open = None, pb_rename = RenameDone, pb_shut = None\<rparr>, ma_bundlesDir = quiet_dir, ma_removeStage = None,
      ma_stagingDir = quiet_dir, ma_ready = (\<lambda>p. Ok sample_ready), ma_readyClose = None, ma_cleanup = None, ma_unlock = None,
      ma_lockShut = None, ma_namespaceShut = None, ma_workShut = None\<rparr>"

text \<open>The bundle is returned; if only the lock's file cannot be closed, it is closed again.\<close>

lemma sample_materialized:
  "case Materialize (Some (\<lambda>n. None)) (Some (\<lambda>d. Ok sample_source)) ''b'' ''w'' sample_mat of
     Some (Ok b, events) \<Rightarrow> list_ex (\<lambda>e. case e of VerifiedStage \<Rightarrow> True | _ \<Rightarrow> False) events
   | _ \<Rightarrow> False"
  by code_simp

lemma sample_unlocked_badly:
  "case Materialize (Some (\<lambda>n. None)) (Some (\<lambda>d. Ok sample_source)) ''b'' ''w'' (sample_mat\<lparr>ma_lockShut := Some (Opaque ''busy'')\<rparr>) of
     Some (Err e, events) \<Rightarrow> list_ex (\<lambda>e. case e of HClose ReadyBundle \<Rightarrow> True | _ \<Rightarrow> False) events
   | _ \<Rightarrow> False"
  by code_simp

end
