(* ===== verification/Laya_Recovery.thy ===== *)
theory Laya_Recovery
  imports Laya_Namespace "HOL-Library.Sublist"
begin

text \<open>
  What the recovery of abandoned stages removes, and that it recognises the stages that
  materialization names (\<open>recoverStages\<close>, \<open>newStageName\<close> and \<open>validStageName\<close> of
  \<open>internal/source/materialize.go\<close>).
\<close>

subsection \<open>Names of stages\<close>

lemma hex_digits: "list_all (\<lambda>n. is_lower_hex (hex_digit n)) [0..<16]" "distinct (map hex_digit [0..<16])"
  by code_simp+

lemma hex_digit_lower: "n < 16 \<Longrightarrow> is_lower_hex (hex_digit n)"
  using hex_digits(1) by (simp add: list_all_iff)

lemma hex_digit_inject: "m < 16 \<Longrightarrow> n < 16 \<Longrightarrow> hex_digit m = hex_digit n \<longleftrightarrow> m = n"
  using hex_digits(2) by (auto simp: distinct_map inj_on_def)

lemma hex_digits_of_char:
  fixes c d :: char
  shows "of_char c div 16 < (16 :: nat)" "of_char c mod 16 < (16 :: nat)"
    "(of_char c div 16 = (of_char d div 16 :: nat) \<and> of_char c mod 16 = (of_char d mod 16 :: nat)) \<longleftrightarrow> c = d"
proof -
  show "of_char c div 16 < (16 :: nat)" by (rule less_mult_imp_div_less) (use nat_of_char_less_256 [of c] in simp)
  show "of_char c mod 16 < (16 :: nat)" by simp
  show "(of_char c div 16 = (of_char d div 16 :: nat) \<and> of_char c mod 16 = (of_char d mod 16 :: nat)) \<longleftrightarrow> c = d"
    by (metis div_mult_mod_eq of_char_eq_iff)
qed

lemma hex_encode_simps: "hex_encode [] = []"
  "hex_encode (c # cs) = hex_digit (of_char c div 16) # hex_digit (of_char c mod 16) # hex_encode cs"
  by (simp_all add: hex_encode_def)

lemma hex_encode_lower: "length (hex_encode bs) = 2 * length bs" "validLowerHex (hex_encode bs)"
  by (induction bs) (simp_all add: hex_encode_simps validLowerHex_def hex_digit_lower hex_digits_of_char)

lemma hex_encode_inject: "hex_encode bs = hex_encode cs \<longleftrightarrow> bs = cs"
proof (induction bs arbitrary: cs)
  case Nil
  show ?case by (cases cs) (simp_all add: hex_encode_simps)
next
  case (Cons b bs)
  show ?case
    by (cases cs) (use hex_digits_of_char Cons in \<open>auto simp: hex_encode_simps hex_digit_inject\<close>)
qed

text \<open>
  A stage gets a name that recovery recognises as a stage's, whatever sixteen bytes the
  generator answers, and different bytes give different names; the digest and the bytes can be
  read off the name. So a stage whose owner is gone, once its marker is written, is a candidate
  of the next recovery.
\<close>

theorem newStageName_recognised:
  assumes "validHexName digest" and "length digest = 64" and "length bytes = stageRandomBytes"
  shows "\<exists>name. newStageName (Inr bytes) digest = (Ok name, []) \<and> validStageName name \<and>
    take 64 name = digest \<and> drop 65 name = hex_encode bytes \<and>
    (newStageName (Inr bytes') digest = (Ok name, []) \<longleftrightarrow> bytes' = bytes) \<and>
    stage_candidate \<lparr>se_entry = \<lparr>ne_name = name, ne_symlink = False, ne_dir = True\<rparr>, se_ctx = c, se_open = opened,
      se_marker = marker, se_shut = shut, se_removeAll = removal\<rparr>"
proof -
  let ?name = "digest @ CHR ''-'' # hex_encode bytes"
  have name: "validStageName ?name"
    using assms hex_encode_lower [of bytes]
    by (simp add: validStageName_def nth_append validHexName_def stageRandomBytes_def)
  then show ?thesis
    using assms(2) by (auto simp: newStageName_def give_def hex_encode_inject stage_candidate_def)
qed

theorem newStageName_recognised_witness:
  "\<exists>name. newStageName (Inr (replicate 16 CHR ''x'')) (replicate 64 CHR ''a'') = (Ok name, []) \<and> validStageName name"
proof -
  have "validHexName (replicate 64 CHR ''a'')" "length (replicate 64 CHR ''a'') = 64" "length (replicate 16 CHR ''x'') = stageRandomBytes"
    by (simp_all add: validHexName_def validLowerHex_def is_lower_hex_def list_all_iff stageRandomBytes_def)
  from newStageName_recognised [OF this, where bytes' = "[]" and c = None and opened = None and shut = None and removal = None]
  show ?thesis by blast
qed

subsection \<open>What is removed\<close>

text \<open>An entry that is removed: a directory with a stage's name, whose marker is complete.\<close>

definition abandoned :: "stage_entry \<Rightarrow> bool" where
  "abandoned e \<longleftrightarrow> stage_candidate e \<and> se_open e = None \<and> verifyMarker (se_marker e) stageMarker = None \<and> se_shut e = None"

fun removed :: "mat_event list \<Rightarrow> string list" where
  "removed [] = []"
| "removed (RemovedAll p # es) = p # removed es"
| "removed (_ # es) = removed es"

lemma removed_append: "removed (xs @ ys) = removed xs @ removed ys"
  by (induction xs rule: removed.induct) simp_all

definition recovery_ok :: "stage_entry list \<Rightarrow> unit act \<Rightarrow> bool" where
  "recovery_ok es a \<longleftrightarrow>
     (let paths = map stage_path (filter abandoned es)
      in case fst a of
           Ok u \<Rightarrow> removed (snd a) = paths
         | Err e \<Rightarrow> prefix (removed (snd a)) paths
         | Panic \<Rightarrow> False)"

lemma hook_step_removed: "removed (snd (hook_step h op)) = []"
  by (simp add: hook_step_def give_def call_or_def check_def split: option.split)

lemma marker_removes_nothing [simp]:
  "removed (verifyMarker_did r c) = []"
  by (simp add: verifyMarker_did_def)

lemma recovery_skip: "\<not> abandoned e \<Longrightarrow> recovery_ok es a \<Longrightarrow> recovery_ok (e # es) a"
  by (simp add: recovery_ok_def)

lemma recovery_events:
  "recovery_ok es a \<Longrightarrow> removed evs = [] \<Longrightarrow> recovery_ok es (act_then (did evs) a)"
  by (cases a) (auto simp: recovery_ok_def act_then_def act_bind_def did_def removed_append Let_def split: res.splits)

lemma recovery_removes:
  assumes "abandoned e" and "recovery_ok es a"
  shows "recovery_ok (e # es) (act_then (did [RemovedAll (stage_path e)]) a)"
  using assms by (cases a) (auto simp: recovery_ok_def act_then_def act_bind_def did_def Let_def split: res.splits)

lemma recovery_guard:
  assumes "recovery_ok es b" and "removed (snd a) = []" and "fst a \<noteq> Panic"
  shows "recovery_ok es (act_then a b)"
proof (cases a)
  case (Pair v evs)
  with assms show ?thesis
    by (cases v; cases b) (auto simp: recovery_ok_def act_then_def act_bind_def removed_append Let_def split: res.splits)
qed

lemma recovery_refuse: "recovery_ok es (refuse e)"
  by (simp add: recovery_ok_def refuse_def)

lemma recover_loop_ok: "recovery_ok es (recover_loop h es)"
proof (induction es)
  case Nil
  show ?case by (simp add: recovery_ok_def give_def)
next
  case (Cons e es)
  have call: "removed (snd (call_or op c)) = []" "fst (call_or op c) \<noteq> Panic" "fst (hook_step h op) \<noteq> Panic" for op c
    by (auto simp: call_or_def check_def hook_step_def give_def split: option.split)
  have skip: "recovery_ok (e # es) (recover_loop h es)" if "\<not> abandoned e"
    using Cons.IH that by (rule recovery_skip [rotated])
  have remove: "recovery_ok (e # es) (act_then (hook_step h ''recover owned stage'')
      (act_then (call_or ''remove abandoned stage'' (se_removeAll e))
        (act_then (did [RemovedAll (stage_path e)]) (recover_loop h es))))" if "abandoned e"
    by (intro recovery_guard recovery_removes that Cons.IH call hook_step_removed)
  show ?case
  proof (cases "se_ctx e")
    case None
    then show ?thesis
    proof (cases "\<not> stage_candidate e \<or> se_open e \<noteq> None")
      case True
      then have "\<not> abandoned e" by (auto simp: abandoned_def)
      with True None skip show ?thesis by auto
    next
      case False
      have "recovery_ok (e # es) (if verifyMarker (se_marker e) stageMarker \<noteq> None \<or> se_shut e \<noteq> None then recover_loop h es
          else act_then (hook_step h ''recover owned stage'') (act_then (call_or ''remove abandoned stage'' (se_removeAll e))
            (act_then (did [RemovedAll (stage_path e)]) (recover_loop h es))))"
        using skip remove False by (auto simp: abandoned_def)
      then show ?thesis
        using None False by (auto simp: recovery_events removed_append)
    qed
  qed (simp add: recovery_refuse)
qed

text \<open>
  C34: The recovery of stages removes exactly the abandoned ones. If it succeeds, it has removed every
  directory of the staging area that has a stage's name, is not a link, and holds the complete
  ownership marker, in order, and nothing else; if it fails or the context ends, the first so
  many of them. It never panics.
\<close>

theorem recoverStages_removes:
  "case recoverStages h listed of
     (Ok u, events) \<Rightarrow> (case listed of Inr es \<Rightarrow> removed events = map stage_path (filter abandoned es) | Inl e \<Rightarrow> False)
   | (Err e, events) \<Rightarrow> (case listed of Inr es \<Rightarrow> prefix (removed events) (map stage_path (filter abandoned es)) | Inl e \<Rightarrow> events = [])
   | (Panic, events) \<Rightarrow> False"
proof (cases listed)
  case (Inr es)
  then show ?thesis
    using recover_loop_ok [of es h] by (auto simp: recoverStages_def recovery_ok_def Let_def split: prod.split res.split)
qed (simp add: recoverStages_def refuse_def)

end
