(* ===== verification/Laya_Tokenizer.thy ===== *)
theory Laya_Tokenizer
  imports Laya_Errors
begin

text \<open>
  \<open>internal/native/tokenizer/tokenizer.go\<close>: the binding to the tokenizer library. The library is
  third-party code: the handles and buffers it returns are arguments. A text reaches it as a C
  string (\<open>const char *message\<close> in \<open>tokenizers.h\<close>), which ends at the first NUL byte.
\<close>

subsection \<open>The boundary\<close>

definition NUL :: char where "NUL = CHR 0x00"

text \<open>What a C function reads of \<open>C.CString(text)\<close>.\<close>

definition c_string :: "string \<Rightarrow> string" where
  "c_string text = takeWhile (\<lambda>c. c \<noteq> NUL) text"

text \<open>\<open>tokenizers_buffer\<close>: the length, and the identifiers unless the pointer is null.\<close>

record token_buffer =
  tb_len :: nat
  tb_ids :: "32 word list option"

datatype native_event = FreedString | FreedBuffer | FreedTokenizer nat

subsection \<open>Handles\<close>

text \<open>An open tokenizer is its handle; \<open>None\<close> is a nil or closed one.\<close>

definition fromHandle :: "nat option \<Rightarrow> string option \<Rightarrow> nat res \<times> native_event list" where
  "fromHandle handle nativeErr =
     (case nativeErr of
        Some e \<Rightarrow> (Err (Opaque ''parse tokenizer''), [FreedString])
      | None \<Rightarrow> (case handle of
                   None \<Rightarrow> (Err (Opaque ''parse tokenizer: native library returned nil''), [])
                 | Some h \<Rightarrow> (Ok h, [])))"

definition maxUint32 :: nat where "maxUint32 = 4294967295"

definition FromBytes :: "(string \<Rightarrow> nat option \<times> string option) \<Rightarrow> string \<Rightarrow> nat res \<times> native_event list" where
  "FromBytes from_bytes data =
     (if length data = 0 then (Err (Opaque ''tokenizer data is empty''), [])
      else if length data > maxUint32 then (Err (Opaque ''tokenizer data exceeds native size limit''), [])
      else case from_bytes data of (handle, nativeErr) \<Rightarrow> fromHandle handle nativeErr)"

definition FromFile :: "(string \<Rightarrow> nat option \<times> string option) \<Rightarrow> string \<Rightarrow> nat res \<times> native_event list" where
  "FromFile from_file path =
     (if path = '''' then (Err (Opaque ''tokenizer path is empty''), [])
      else case from_file (c_string path) of (handle, nativeErr) \<Rightarrow> fromHandle handle nativeErr)"

definition tokenizer_Close :: "nat option \<Rightarrow> go_error option \<times> nat option \<times> native_event list" where
  "tokenizer_Close t = (case t of None \<Rightarrow> (None, None, []) | Some h \<Rightarrow> (None, None, [FreedTokenizer h]))"

subsection \<open>Encoding\<close>

definition maxInt :: nat where "maxInt = 9223372036854775807"

text \<open>
  \<open>EncodeErr\<close>: \<open>encode\<close> is the library's function of the handle, the C string and the option. The
  identifiers behind the pointer are the first \<open>len\<close>.
\<close>

definition EncodeErr ::
  "(nat \<Rightarrow> string \<Rightarrow> bool \<Rightarrow> token_buffer) \<Rightarrow> nat option \<Rightarrow> string \<Rightarrow> bool \<Rightarrow> 32 word list res \<times> native_event list" where
  "EncodeErr encode t text addSpecialTokens =
     (case t of
        None \<Rightarrow> (Err (Opaque ''tokenizer is closed''), [])
      | Some h \<Rightarrow>
          (let buffer = encode h (c_string text) addSpecialTokens
           in if tb_len buffer = 0
              then (if text \<noteq> '''' \<and> tb_ids buffer = None
                    then (Err (Opaque ''encode tokenizer input: native library returned no IDs''), [])
                    else (Ok [], []))
              else (case tb_ids buffer of
                      None \<Rightarrow> (Err (Opaque ''encode tokenizer input: invalid native buffer''), [FreedBuffer])
                    | Some ids \<Rightarrow>
                        if tb_len buffer > maxInt then (Err (Opaque ''encode tokenizer input: invalid native buffer''), [FreedBuffer])
                        else (Ok (take (tb_len buffer) ids), [FreedBuffer]))))"

text \<open>\<open>localTokenizerResource.Encode\<close>: without special tokens.\<close>

definition tokenizer_Encode ::
  "(nat \<Rightarrow> string \<Rightarrow> bool \<Rightarrow> token_buffer) \<Rightarrow> nat option \<Rightarrow> string \<Rightarrow> 32 word list res" where
  "tokenizer_Encode encode t text = fst (EncodeErr encode t text False)"

subsection \<open>What the tokenizer sees\<close>

lemma c_string_no_NUL: "NUL \<notin> set text \<Longrightarrow> c_string text = text"
  by (auto simp: c_string_def takeWhile_eq_all_conv)

lemma c_string_stops: "c_string (a @ NUL # b) = c_string a"
  by (induction a) (simp_all add: c_string_def)

text \<open>
  The text crosses as a C string without a length: of a text with a NUL byte only what precedes
  it is tokenized.
\<close>

lemma tokenizer_Encode_NUL:
  assumes "text \<noteq> ''''" and "NUL \<notin> set text"
  shows "tokenizer_Encode encode t (text @ NUL # rest) = tokenizer_Encode encode t text"
  using assms(1)
  by (auto simp: tokenizer_Encode_def EncodeErr_def c_string_stops c_string_no_NUL [OF assms(2)] Let_def split: option.split)

end
