(* ===== verification/Spec2Isabelle.thy ===== *)
theory Spec2Isabelle
  imports Laya_AdkData Laya_AdkExample Laya_AdkRouting Laya_Admission Laya_Backend Laya_Bundle
    Laya_Calibration Laya_CalibrationConfig Laya_Compatibility Laya_Context Laya_Coordinator
    Laya_EmbedProbe Laya_ErrorText Laya_Errors Laya_Examples Laya_Float Laya_Json Laya_Lifecycle
    Laya_Manifest Laya_Materialize Laya_Namespace Laya_Native Laya_NativeRun Laya_OpenDir
    Laya_Options Laya_Parity Laya_Parse Laya_Pipeline Laya_Postprocess Laya_Predict Laya_Prelude
    Laya_Preprocess Laya_Protocol Laya_Question Laya_Recovery Laya_Result Laya_Runtime
    Laya_Snapshot Laya_Softmax Laya_Source Laya_Stage Laya_State Laya_Strings Laya_Tensor Laya_Time
    Laya_Tokenizer Laya_Verify
begin

text \<open>
  A verification library for \<open>laya-go\<close>, the Go runtime that asks typed questions (choice, score,
  yes-no) of a multilingual classification model. This theory imports every other one and holds the
  properties that span components.

  \<^bold>\<open>The program.\<close> A \<open>Runtime\<close> (\<open>runtime.go\<close>) owns one native engine and opens \<open>Model\<close>s. Opening
  a model takes a bundle from a directory (\<open>internal/source/source.go\<close>, for a snapshot of the hub
  through \<open>snapshot.go\<close>) or from an \<open>fs.FS\<close>, which is verified, staged (\<open>stage.go\<close>) and published
  below a work directory (\<open>materialize.go\<close>, \<open>lock_linux.go\<close>); the manifest is parsed and every file checked
  (\<open>internal/bundle\<close>); then tokenizer and session are opened (\<open>native_lifecycle.go\<close>,
  \<open>native_backend_enabled.go\<close>). A prediction (\<open>model.go\<close>) waits for the one slot of the model,
  turns state and questions into a padded batch (\<open>preprocess.go\<close>), runs it as a cancelable call
  (\<open>native_run.go\<close>), and turns logits into answers (\<open>calibration.go\<close>, \<open>postprocess.go\<close>,
  \<open>result.go\<close>). \<open>adklaya\<close> wraps this as nodes and edges of a workflow. \<open>internal/parity\<close> checks
  the corpus that the whole is compared with.

  \<^bold>\<open>Theories and sources.\<close>
  \<^item> \<open>Laya_Prelude\<close>, \<open>Laya_Errors\<close> (\<open>errors.go\<close> and the error types of the packages),
    \<open>Laya_Strings\<close>, \<open>Laya_Json\<close> (the scanner of \<open>encoding/json\<close>), \<open>Laya_Float\<close> (binary64 as rationals
    and rounding), \<open>Laya_Context\<close>, \<open>Laya_Time\<close>: what the components share.
  \<^item> \<open>Laya_State\<close>, \<open>Laya_Options\<close>, \<open>Laya_Question\<close>, \<open>Laya_Result\<close>: the public data types with
    their constructors and validation.
  \<^item> \<open>Laya_Manifest\<close>, \<open>Laya_Bundle\<close>, \<open>Laya_Compatibility\<close>, \<open>Laya_Parse\<close>, \<open>Laya_Verify\<close>:
    \<open>internal/bundle\<close>.
  \<^item> \<open>Laya_Source\<close>, \<open>Laya_Snapshot\<close>, \<open>Laya_OpenDir\<close>, \<open>Laya_Stage\<close>, \<open>Laya_Namespace\<close>,
    \<open>Laya_Materialize\<close>, with the proofs in \<open>Laya_Protocol\<close> and \<open>Laya_Recovery\<close>: \<open>internal/source\<close>.
  \<^item> \<open>Laya_Preprocess\<close>, \<open>Laya_Calibration\<close>, \<open>Laya_CalibrationConfig\<close>, \<open>Laya_Softmax\<close>,
    \<open>Laya_Postprocess\<close>, \<open>Laya_Pipeline\<close>: from a state and questions to logits and back.
  \<^item> \<open>Laya_Predict\<close>, \<open>Laya_Admission\<close>: \<open>model.go\<close>, the typed calls and the admission queue.
  \<^item> \<open>Laya_Runtime\<close> (\<open>runtime.go\<close>), \<open>Laya_Coordinator\<close> and \<open>Laya_Native\<close> (\<open>native_lifecycle.go\<close>),
    \<open>Laya_NativeRun\<close> (\<open>native_run.go\<close>), \<open>Laya_Tensor\<close> and \<open>Laya_Backend\<close>
    (\<open>native_backend_enabled.go\<close>), \<open>Laya_Tokenizer\<close> (\<open>internal/native/tokenizer\<close>);
    \<open>Laya_Lifecycle\<close>: the whole exported calls \<open>New\<close>, \<open>OpenModelDir\<close>, \<open>OpenModelFS\<close> and the two
    \<open>Close\<close>, over the runtime, the sources and the native handles at once.
  \<^item> \<open>Laya_AdkData\<close>, \<open>Laya_AdkRouting\<close>: \<open>adklaya/data.go\<close> and \<open>adklaya/routing.go\<close>.
  \<^item> \<open>Laya_Examples\<close> and \<open>Laya_AdkExample\<close> (\<open>examples\<close> and the command \<open>internal/cmd/bundlecheck\<close>):
    clients of the library. \<open>Laya_EmbedProbe\<close>: the command \<open>tools/embedprobe\<close>.
  \<^item> \<open>Laya_ErrorText\<close>: the \<open>Error\<close>, \<open>Is\<close> and \<open>Unwrap\<close> methods of every error type.
  \<^item> \<open>Laya_Parity\<close>: \<open>internal/parity/corpus.go\<close>.

  \<^bold>\<open>How the code is rendered.\<close> A struct is a record whose fields have a short prefix, an
  interface or tagged value a datatype. A function that returns \<open>(T, error)\<close> is a function into
  \<open>'a res\<close>, with panics as a value of their own; one that returns only \<open>error\<close> yields an option.
  A context is what it answers: \<open>ctx n\<close> for the \<open>n\<close>-th time it is asked. Operations that open,
  close, write or rename return, besides their result, what they did in order. Code that
  goroutines interleave (admission, the runtime, the native call, the coordinator) is a step
  relation whose steps are the critical sections. Pointers matter in \<open>Laya_AdkData\<close>, where
  configurations live in a store. Integers have their width where it is observed; elsewhere \<open>int\<close>
  and lengths are unbounded. A \<open>float64\<close> is NaN, an infinity or the rational it denotes, and every
  operation rounds to nearest, ties to even.

  \<^bold>\<open>Parameters.\<close> What the repository does not contain is an argument: \<open>math.Exp\<close> and \<open>math.Log\<close>
  (with their documented ranges as hypotheses where used), SHA-256, Unicode lower case, float
  printing and parsing, JSON decoding (the document tree, the token stream, the decoded
  struct), the tokenizer, ONNX Runtime, the random generator, every answer of the operating
  system, and the order in which Go visits a map. Checkpoints of \<open>materialize\<close>, which only tests
  set, are a function of the operation's name.

  \<^bold>\<open>Bounds.\<close> Recursion over data is structural or has a measure; reads, directory listings,
  waiting rounds of the lock and close attempts are finite lists, after which a read ends, and
  the lock is still awaited (\<open>None\<close>). \<open>ensureNamespace\<close> makes the code's 200 attempts. JSON is
  limited to 64 levels by the program and 10000 by the scanner, as in the source.

  \<^bold>\<open>What the lemmas show.\<close> For each component, its type or state invariant and that every
  operation keeps it; every error's category; freedom from panics; and its contract.
  The bundle theories show that acceptance means exactly the declared content. The source
  theories show that no handle leaks but one, the root of \<open>Stage\<close> when it cannot inspect it; that
  nothing outside a snapshot is opened; that \<open>Stage\<close> removes what it made unless only the close
  of the parent failed, after a complete copy; and that the namespace directory is made and
  filled without the lock, its marker put in place last, and everything after that is changed under
  the lock and inside the staging directory, until the rename that publishes what was copied and
  verified again (\<open>Laya_Protocol\<close> runs the events on a monitor, with one rule per
  operation in \<open>act_rules\<close>; the events of \<open>Stage\<close> are among them). The numeric theories bound
  rounding through the locale \<open>rounding\<close>, interpreted on binary64. The step relations have
  invariants by the locale of \<open>Laya_Prelude\<close>, a refinement to a bounded queue, absence of
  deadlock, and a measure that ends every run. \<open>Laya_Pipeline\<close> and this theory compose
  verification, calibration, preprocessing, the native call and postprocessing. \<open>Laya_Lifecycle\<close>
  composes opening and closing: after any sequence of client calls the live native handles are
  those of the registered models and the engine. \<open>Laya_Examples\<close> shows that the example programs
  account for what they opened on every path, and leave nothing unless a close fails or the engine panics, \<open>Laya_EmbedProbe\<close> that a copied bundle equals its
  source, \<open>Laya_AdkExample\<close> that its graph passes the validation of \<open>adklaya\<close>, and \<open>Laya_ErrorText\<close>
  that \<open>errors_is\<close> is the walk over the methods and that messages hide causes and are bounded.

  \<^bold>\<open>Not modelled.\<close> The text of messages made with \<open>fmt.Errorf\<close> beyond its constant part; build
  stubs for other platforms, diagnostics, the printing of the examples and the test that
  \<open>tools/embedprobe\<close> generates; the adapters that only forward to ONNX Runtime; the Python exporter and the
  shell scripts. Buffers of readers are not shared memory here: a reader that breaks the contract of
  \<open>io.Reader\<close> is refused by the code or left out where a theory says so. The scheduler is only as fair as each theorem says.
\<close>

section \<open>From a bundle to a prediction\<close>

text \<open>
  C1: From a bundle to a prediction. Let \<open>Verify\<close> accept a bundle, let \<open>openVerified\<close> open a model
  from its manifest, with whatever calibration document the bundle holds, and let the session
  return \<open>float32\<close> outputs. Then \<open>Predict\<close> of that engine never panics, and every prediction it
  returns passes the checks of \<open>Model.Predict\<close>, answers the questions in order and names the
  bundle by the digest of its manifest; no assumption on the contents of the bundle is left.
\<close>

theorem verified_bundle_predicts:
  assumes "exp_laws mexp" and "log_laws mlog"
    and "inj (pe_sprint env)" and "traversal (pe_tokenOrder env) 4" and "traversal (pe_temperatureOrder env) 3"
    and "Verify env (Some ctx) (Some sub) dir = Ok m"
    and "openVerified (\<lambda>m b. case document b of (temperature, byOptions) \<Rightarrow>
      calibration_from decode parseFloat m temperature byOptions) True m r opts rid = (Ok e, calls)"
    and "\<And>b. case run b of Ok out \<Rightarrow> f32_outputs out | Err x \<Rightarrow> True | Panic \<Rightarrow> False"
  shows "(case engine_Predict mexp mlog pc run (Some e) state qs of
       Ok p \<Rightarrow> validatePredictionForQuestions p qs = Ok () \<and> list_all2 answers qs (pr_results p) \<and>
         pm_RuntimeID (pr_metadata p) = rid \<and>
         (\<exists>fs data. sub dir = Inr fs \<and> readManifest fs = Ok data \<and> mf_id m = ''sha256:'' @ pe_sha256 env data)
     | Err x \<Rightarrow> True
     | Panic \<Rightarrow> False)"
proof -
  obtain fs data where src: "sub dir = Inr fs" "readManifest fs = Ok data" "Parse env data = Ok m"
    using Verify_Ok [OF assms(3-6)] by blast
  have m: "inference_profile m" "calibration_bounds (1 / 2) 5 (mf_Calibration m)"
    "mf_id m = ''sha256:'' @ pe_sha256 env data"
    using Parse_total [OF assms(3-5), of data] src(3) by simp_all
  note e = openVerified_Ok [OF assms(7)]
  obtain b where b: "(case document b of (temperature, byOptions) \<Rightarrow>
      calibration_from decode parseFloat m temperature byOptions) = Ok (me_calibration e)"
    using e(1) by blast
  obtain temperature byOptions where "document b = (temperature, byOptions)" by (cases "document b")
  with b have "calibration_from decode parseFloat m temperature byOptions = Ok (me_calibration e)" by simp
  then have cal: "calibration_ok (1 / 2) 5 (me_calibration e)" by (rule calibration_from_ok [OF m(2)])
  have "inference_profile (me_manifest e)" using m(1) e(2) by simp
  from engine_Predict_total [where run = run and ctx = pc and state = state and qs = qs,
      OF assms(1,2) cal order_refl this e(3,4,5) assms(8)]
  show ?thesis using src m(3) e(7) by (auto split: res.splits)
qed

definition sample_replies :: open_replies where
  "sample_replies = \<lparr>or_readFile = Inr ''{}'', or_ctx1 = None, or_tokenizerPath = Inr ''t'', or_tokenizer = Inr byte_tokenizer,
     or_ctx2 = None, or_modelPath = Inr ''m'', or_session = None, or_ctx3 = None, or_close = replies None\<rparr>"

theorem verified_bundle_predicts_witness:
  "\<exists>m e calls. Verify sample_env (Some (\<lambda>n. None)) (Some (\<lambda>d. Inr sample_fs)) ''.'' = Ok m \<and>
     openVerified (\<lambda>m b. calibration_from (\<lambda>s. Some (JNumber s)) (\<lambda>s. Some (Fin 1)) m [''1'', ''1'', ''1''] []) True m
       sample_replies (sample_options RejectOverflow) ''r'' = (Ok e, calls) \<and>
     engine_Predict step_exp step_log \<lparr>pc_entry = Ctx None, pc_prepared = None, pc_run = None, pc_done = None\<rparr>
       (\<lambda>b. Err (Opaque ''run'')) (Some e) (TextState ''hello'') [ChoiceQ sample_choice] \<noteq> Panic"
proof -
  let ?m = "supported_manifest\<lparr>mf_id := ''sha256:'' @ some_digest\<rparr>"
  let ?parse = "\<lambda>m b. case (\<lambda>b. ([''1'', ''1'', ''1''], [])) b of (temperature, byOptions) \<Rightarrow>
      calibration_from (\<lambda>s. Some (JNumber s)) (\<lambda>s. Some (Fin 1)) m temperature byOptions"
  let ?opened = "openVerified ?parse True ?m sample_replies (sample_options RejectOverflow) ''r''"
  have "is_Ok (fst ?opened)"
    by (simp add: openVerified_def sample_replies_def calibration_from_def is_Ok_def)
  then obtain e calls where opened: "?opened = (Ok e, calls)" by (metis is_OkE prod.collapse)
  have "engine_Predict step_exp step_log \<lparr>pc_entry = Ctx None, pc_prepared = None, pc_run = None, pc_done = None\<rparr>
       (\<lambda>b. Err (Opaque ''run'')) (Some e) (TextState ''hello'') [ChoiceQ sample_choice] \<noteq> Panic"
    using verified_bundle_predicts [OF step_laws sample_env_ok sample_bundle_verified opened,
      where run = "\<lambda>b. Err (Opaque ''run'')" and state = "TextState ''hello''" and qs = "[ChoiceQ sample_choice]"
        and pc = "\<lparr>pc_entry = Ctx None, pc_prepared = None, pc_run = None, pc_done = None\<rparr>"]
    by (auto split: res.splits)
  with opened sample_bundle_verified show ?thesis by (intro exI conjI) simp_all
qed

end
